(* ===== verification/Prelude.thy ===== *)
theory Prelude
  imports Main "HOL-Library.Word" "HOL-Library.Signed_Division" "HOL-Library.Sublist"
begin

section \<open>Shared types, results and list facts\<close>

text \<open>
  The vocabulary every component uses: machine integers as words, byte strings as lists of
  8-bit words, the error codes of \<open>common.proto\<close>, and the outcome of a Rust call that may
  return \<open>Ok\<close>, return an \<open>Err\<close> code, or panic (an \<open>unwrap\<close> of \<open>None\<close>, an index out of
  range, an arithmetic overflow in a build with overflow checks).

  \<open>and_then\<close> is the \<open>?\<close> operator: it stops at the first error or panic. Handlers with state
  return a result paired with the new state; \<open>on_ok\<close> is the same operator for them, and keeps
  the state changes made before the failure, as the code does.
\<close>

type_synonym u8 = "8 word"
type_synonym u32 = "32 word"
type_synonym u64 = "64 word"
type_synonym i32 = "32 word"
type_synonym bytes = "u8 list"

datatype error_code =
    InvalidVersion | InvalidMissingFields | InvalidAmountType | UnknownTicketPublicKey
  | UnparseableTicketSignature | InvalidTicketSignature | InvalidTicketGroup
  | UnrecoverablePublicKey | FailedToSignTokenTransfer | InvalidTicketCreatedOn
  | TicketExpired | InvalidSigningKey | InvalidSignature | UnknownTokenTransferGroupPublicKey
  | CredentialInvalidForGroup | EpochUpdateRequired | FailedToSignTicket
  | InvalidHwidSignature | InvalidNetworkCredentialRequest | InvalidTokenCredentialRequest
  | RevocationNotFound | InvalidHistorySignature | InvalidBaseSignature
  | UnknownMintPublicKey | UnparseableBaseSignature | InvalidEpochSignature
  | UnparseablePublicKey | TokenIsBad | UnknownTransactionId | UnknownTransactionPeer
  | InvalidServerState | ServerDiskError | DatabaseInteractionError | TicketSignatureMissing
  | TokenMapFailure | ClerkFetchFailure | InvalidSplitExceedsValue
  | InvalidSplitCurrencyMismatch | TokenExpired | CredentialRevoked | CredentialNotInTicket
  | BloomFilterHit | BindingNotFound | BindingExpired | BindingRevoked | RecoveryCooloff
  | RecoveryAlreadyClaimed | InvalidDelegateProof | TokenNotExpired | WalletRevoked

datatype fault = Fail error_code | Panic

type_synonym 'a result = "fault + 'a"

abbreviation Ok :: "'a \<Rightarrow> 'a result" where "Ok x \<equiv> Inr x"
abbreviation Err :: "error_code \<Rightarrow> 'a result" where "Err c \<equiv> Inl (Fail c)"
abbreviation panic :: "'a result" where "panic \<equiv> Inl Panic"

text \<open>The development's collections: facts that decompose results, and unfolding rules of handlers.\<close>

named_theorems result_simps
named_theorems handler_defs

definition and_then :: "'e + 'a \<Rightarrow> ('a \<Rightarrow> 'e + 'b) \<Rightarrow> 'e + 'b" where
  "and_then r f = (case r of Inl e \<Rightarrow> Inl e | Inr x \<Rightarrow> f x)"

definition unwrap :: "'a option \<Rightarrow> 'a result" where
  "unwrap x = (case x of None \<Rightarrow> panic | Some v \<Rightarrow> Ok v)"

definition ok_or :: "'a option \<Rightarrow> error_code \<Rightarrow> 'a result" where
  "ok_or x c = (case x of None \<Rightarrow> Err c | Some v \<Rightarrow> Ok v)"

definition on_ok :: "'a result \<times> 's \<Rightarrow> ('a \<Rightarrow> 's \<Rightarrow> 'b result \<times> 's) \<Rightarrow> 'b result \<times> 's" where
  "on_ok rs f = (case fst rs of Inl e \<Rightarrow> (Inl e, snd rs) | Inr x \<Rightarrow> f x (snd rs))"

definition is_ok :: "'a result \<Rightarrow> bool" where
  "is_ok r = (case r of Inl e \<Rightarrow> False | Inr x \<Rightarrow> True)"

lemma and_then_simps [simp, result_simps]:
  "and_then (Inl e) f = Inl e" "and_then (Inr x) f = f x"
  by (simp_all add: and_then_def)

lemma and_then_Inr_iff [result_simps]:
  "and_then r f = Inr y \<longleftrightarrow> (\<exists>x. r = Inr x \<and> f x = Inr y)"
  by (cases r) auto

lemma and_then_Inl_iff [result_simps]:
  "and_then r f = Inl e \<longleftrightarrow> r = Inl e \<or> (\<exists>x. r = Inr x \<and> f x = Inl e)"
  by (cases r) auto

lemma unwrap_simps [simp, result_simps]:
  "unwrap None = panic" "unwrap (Some x) = Ok x"
  by (simp_all add: unwrap_def)

lemma unwrap_Inr_iff [simp, result_simps]: "unwrap x = Inr y \<longleftrightarrow> x = Some y"
  by (cases x) auto

lemma unwrap_Inl_iff [simp, result_simps]: "unwrap x = Inl e \<longleftrightarrow> x = None \<and> e = Panic"
  by (cases x) auto

lemma ok_or_simps [simp, result_simps]:
  "ok_or None c = Err c" "ok_or (Some x) c = Ok x"
  by (simp_all add: ok_or_def)

lemma ok_or_Inr_iff [simp, result_simps]: "ok_or x c = Inr y \<longleftrightarrow> x = Some y"
  by (cases x) auto

lemma on_ok_simps [simp, result_simps]:
  "on_ok (Inl e, s) f = (Inl e, s)" "on_ok (Inr x, s) f = f x s"
  by (simp_all add: on_ok_def)

lemma on_ok_Inr_iff:
  "on_ok rs f = (Inr y, s') \<longleftrightarrow> (\<exists>x s. rs = (Inr x, s) \<and> f x s = (Inr y, s'))"
  by (cases rs; cases "fst rs") (auto simp: on_ok_def)

lemma is_ok_simps [simp, result_simps]:
  "is_ok (Inl e) = False" "is_ok (Inr x) = True"
  by (simp_all add: is_ok_def)

text \<open>A property of the state that both parts of a sequenced handler keep is kept by the whole.\<close>

lemma on_ok_state:
  assumes "P (snd rs)" and "\<And>x s. P s \<Longrightarrow> P (snd (f x s))"
  shows "P (snd (on_ok rs f))"
  using assms by (cases rs; cases "fst rs") (auto simp: on_ok_def)

subsection \<open>Loops that stop at the first failure\<close>

text \<open>\<open>for x in xs { body(x)?; }\<close>.\<close>

fun each :: "('a \<Rightarrow> unit result) \<Rightarrow> 'a list \<Rightarrow> unit result" where
  "each f [] = Ok ()"
| "each f (x # xs) = and_then (f x) (\<lambda>_. each f xs)"

lemma each_Ok_iff [result_simps]: "each f xs = Ok u \<longleftrightarrow> (\<forall>x \<in> set xs. f x = Ok ())"
  by (induction xs) (auto simp: and_then_Inr_iff)

lemma each_Inl: "each f xs = Inl e \<Longrightarrow> \<exists>x \<in> set xs. f x = Inl e"
  by (induction xs) (auto simp: and_then_Inl_iff)

lemma each_no_panic: "(\<And>x. x \<in> set xs \<Longrightarrow> f x \<noteq> panic) \<Longrightarrow> each f xs \<noteq> panic"
  using each_Inl by metis

subsection \<open>Arithmetic with and without overflow checks\<close>

text \<open>
  A Rust build checks integer overflow in the \<open>dev\<close> profile (and panics) and wraps in the
  \<open>release\<close> profile. \<open>checked\<close> is the flag of the build.
\<close>

definition arith :: "bool \<Rightarrow> bool \<Rightarrow> 'a \<Rightarrow> 'a result" where
  "arith checked overflow v = (if checked \<and> overflow then panic else Ok v)"

definition i32_add :: "bool \<Rightarrow> i32 \<Rightarrow> i32 \<Rightarrow> i32 result" where
  "i32_add checked a b =
     arith checked (sint a + sint b < - (2 ^ 31) \<or> 2 ^ 31 \<le> sint a + sint b) (a + b)"

definition u32_mul :: "bool \<Rightarrow> u32 \<Rightarrow> u32 \<Rightarrow> u32 result" where
  "u32_mul checked a b = arith checked (2 ^ 32 \<le> unat a * unat b) (a * b)"

definition u64_add :: "bool \<Rightarrow> u64 \<Rightarrow> u64 \<Rightarrow> u64 result" where
  "u64_add checked a b = arith checked (2 ^ 64 \<le> unat a + unat b) (a + b)"

lemma arith_no_overflow [simp]: "\<not> overflow \<Longrightarrow> arith checked overflow v = Ok v"
  by (simp add: arith_def)

lemma arith_Inr_iff [result_simps]:
  "arith checked overflow v = Inr y \<longleftrightarrow> \<not> (checked \<and> overflow) \<and> y = v"
  by (auto simp: arith_def)

lemma i32_add_sint:
  assumes "- (2 ^ 31) \<le> sint a + sint b" "sint a + sint b < 2 ^ 31"
  shows "i32_add checked a b = Ok (a + b)" and "sint (a + b) = sint a + sint b"
proof -
  show "i32_add checked a b = Ok (a + b)"
    using assms by (simp add: i32_add_def)
  show "sint (a + b) = sint a + sint b"
    using assms by (simp add: sint_word_ariths signed_take_bit_int_eq_self)
qed

lemma u32_mul_unat:
  assumes "unat a * unat b < 2 ^ 32"
  shows "u32_mul checked a b = Ok (a * b)" and "unat (a * b) = unat a * unat b"
  using assms by (simp_all add: u32_mul_def unat_word_ariths)

lemma u64_add_unat:
  assumes "unat a + unat b < 2 ^ 64"
  shows "u64_add checked a b = Ok (a + b)" and "unat (a + b) = unat a + unat b"
  using assms by (simp_all add: u64_add_def unat_word_ariths)

text \<open>\<open>as u64\<close> of a \<open>u32\<close>.\<close>

lemma unat_ucast_u64 [simp]: "unat (ucast (w :: u32) :: u64) = unat w"
proof -
  have "unat w < 2 ^ 32" using unsigned_less [where 'a = nat and 'b = 32, of w] by simp
  then show ?thesis by (simp add: unsigned_ucast_eq take_bit_nat_eq_self)
qed

subsection \<open>Byte strings\<close>

text \<open>\<open>to_be_bytes\<close> of a \<open>u32\<close>; \<open>to_le_bytes\<close> of a \<open>u64\<close>, and \<open>from_le_bytes\<close>.\<close>

definition u32_to_be_bytes :: "nat \<Rightarrow> bytes" where
  "u32_to_be_bytes n = [of_nat (n div 16777216), of_nat (n div 65536), of_nat (n div 256), of_nat n]"

definition u64_to_le_bytes :: "u64 \<Rightarrow> bytes" where
  "u64_to_le_bytes w = map (\<lambda>i. ucast (drop_bit (8 * i) w)) [0..<8]"

fun le_bytes_to_nat :: "bytes \<Rightarrow> nat" where
  "le_bytes_to_nat [] = 0"
| "le_bytes_to_nat (b # bs) = unat b + 256 * le_bytes_to_nat bs"

lemma length_u64_to_le_bytes [simp]: "length (u64_to_le_bytes w) = 8"
  by (simp add: u64_to_le_bytes_def)

text \<open>\<open>Vec::last\<close>.\<close>

definition last_opt :: "'a list \<Rightarrow> 'a option" where
  "last_opt xs = (if xs = [] then None else Some (last xs))"

lemma last_opt_simps [simp]:
  "last_opt [] = None" "last_opt (xs @ [x]) = Some x" "xs \<noteq> [] \<Longrightarrow> last_opt xs = Some (last xs)"
  by (simp_all add: last_opt_def)

lemma last_opt_None_iff [simp]: "last_opt xs = None \<longleftrightarrow> xs = []"
  by (simp add: last_opt_def)

lemma last_opt_Some_iff: "last_opt xs = Some x \<longleftrightarrow> xs \<noteq> [] \<and> last xs = x"
  by (auto simp: last_opt_def)

text \<open>\<open>Iterator::position\<close> of the first pair of a zip that differs.\<close>

fun first_diff :: "'a list \<Rightarrow> 'a list \<Rightarrow> nat option" where
  "first_diff (x # xs) (y # ys) =
     (if x \<noteq> y then Some 0 else map_option Suc (first_diff xs ys))"
| "first_diff _ _ = None"

lemma first_diff_None_iff: "first_diff xs ys = None \<longleftrightarrow> prefix xs ys \<or> prefix ys xs"
  by (induction xs ys rule: first_diff.induct) auto

lemma first_diff_SomeD:
  assumes "first_diff xs ys = Some n"
  shows "n < length xs" "n < length ys" "take n xs = take n ys" "xs ! n \<noteq> ys ! n"
proof -
  have "n < length xs \<and> n < length ys \<and> take n xs = take n ys \<and> xs ! n \<noteq> ys ! n"
    using assms
    by (induction xs ys arbitrary: n rule: first_diff.induct) (auto split: if_splits)
  then show "n < length xs" "n < length ys" "take n xs = take n ys" "xs ! n \<noteq> ys ! n"
    by blast+
qed

lemma first_diff_Some_iff_parallel: "(\<exists>n. first_diff xs ys = Some n) \<longleftrightarrow> xs \<parallel> ys"
  using first_diff_None_iff [of xs ys] by (auto simp: parallel_def)

lemma first_diff_snoc: "x \<noteq> y \<Longrightarrow> first_diff (xs @ [x]) (xs @ [y]) = Some (length xs)"
  by (induction xs) auto

end
