(* ===== verification/Messages.thy ===== *)
theory Messages
  imports Prelude
begin

section \<open>Protocol messages\<close>

text \<open>
  The protobuf messages the services exchange, as prost generates them: an optional message
  field is an \<open>option\<close>, an enum field is its \<open>i32\<close> number, \<open>bytes\<close> is \<open>Vec<u8>\<close>. Field names
  carry the message's initials, because Isabelle record fields share one name space.
\<close>

subsection \<open>\<open>token.proto\<close>\<close>

record amount =
  am_whole :: i32
  am_fractional :: i32
  am_code :: i32

definition amount_default :: amount where
  "amount_default = \<lparr>am_whole = 0, am_fractional = 0, am_code = 0\<rparr>"

record ticket_data =
  td_group_number :: u32
  td_lifetime :: u32
  td_created_on :: u64

record ticket =
  tk_credential :: bytes
  tk_tags :: "ticket_data option"

record signed_ticket =
  st_ticket :: "ticket option"
  st_signature :: bytes

text \<open>\<open>Tag.value\<close> is a protobuf \<open>oneof\<close>; a tag whose value is unset is \<open>None\<close>.\<close>

datatype tag_value = ValidUntil u64 | TrimmedFrom bytes | SplitValue amount

type_synonym tag = "tag_value option"

record descriptor =
  ds_version :: i32
  ds_value :: "amount option"

record transfer_msg =
  tf_recipient :: "signed_ticket option"
  tf_tags :: "tag list"
  tf_previous_signature :: bytes

record history =
  hi_transfer :: "transfer_msg option"
  hi_signature :: bytes

record token =
  tok_descriptor :: "descriptor option"
  tok_base :: "history option"
  tok_history :: "history list"

subsection \<open>\<open>common.proto\<close>: the service map\<close>

datatype service_name =
    Registrar | Ticket_Service | Epoch_Service | Validate_Service | Swap
  | Tokenmap_Service | Mint_Service | Configuration | Recovery_Service

text \<open>\<open>name as i32\<close>.\<close>

fun service_number :: "service_name \<Rightarrow> i32" where
  "service_number Registrar = 0"
| "service_number Ticket_Service = 1"
| "service_number Epoch_Service = 2"
| "service_number Validate_Service = 3"
| "service_number Swap = 4"
| "service_number Tokenmap_Service = 5"
| "service_number Mint_Service = 6"
| "service_number Configuration = 7"
| "service_number Recovery_Service = 8"

record service_map_entry =
  sme_name :: i32
  sme_uri :: string

type_synonym service_map = "service_map_entry list"

subsection \<open>\<open>clerk.proto\<close>\<close>

record group_policy =
  gp_nac_group_public_key :: bytes
  gp_ticket_lifetime :: u32

record extended_epoch_data =
  ee_ttc_group_public_keys :: "bytes list"
  ee_epoch_signing_keys :: "bytes list"
  ee_ticket_signing_keys :: "bytes list"
  ee_mint_signing_keys :: "bytes list"
  ee_epoch_seconds :: u64
  ee_service_map :: "service_map option"
  ee_group_policies :: "group_policy list"

record epoch_data =
  ed_epoch :: u64
  ed_group_bitfield :: bytes
  ed_extended_epoch_data_hash :: bytes

record epoch_update =
  eu_version :: i32
  eu_data :: "epoch_data option"
  eu_extended_data :: "extended_epoch_data option"
  eu_epoch_signature :: bytes
  eu_signing_key :: bytes

record ticket_request =
  trq_credential :: bytes
  trq_group_number :: u32

subsection \<open>\<open>tokenmap.proto\<close>\<close>

record linkable_signature =
  ls_signature :: bytes
  ls_basename :: bytes
  ls_group_public_key :: bytes

datatype abuse_type =
    DoubleSpend | GenerousSplit | TokenHistoryTooLong | TicketTransferAmountExceeded

record abuse =
  ab_discovery_timestamp :: u64
  ab_token_index :: u32
  ab_history_index :: u32
  ab_abuse_type :: abuse_type

record group =
  gr_number :: u32
  gr_expiration :: u64

record revocation_data =
  rd_timestamp :: u64
  rd_nac :: "linkable_signature option"
  rd_ttc :: "linkable_signature option"
  rd_token_id :: bytes
  rd_token_expiry :: u64
  rd_groups :: "group list"
  rd_abuse :: abuse_type

record revocation_data_entry =
  rde_id :: bytes
  rde_data :: "revocation_data option"
  rde_created_on :: u64

record entry =
  en_id :: bytes
  en_tokens :: "token list"
  en_abuses :: "abuse list"
  en_last_update :: u64

subsection \<open>The service map helpers of \<open>briolette/mod.rs\<close>\<close>

definition service_map_add :: "service_map \<Rightarrow> service_name \<Rightarrow> string \<Rightarrow> service_map" where
  "service_map_add sm n uri = sm @ [\<lparr>sme_name = service_number n, sme_uri = uri\<rparr>]"

definition service_map_get :: "service_map \<Rightarrow> service_name \<Rightarrow> string list" where
  "service_map_get sm n = map sme_uri (filter (\<lambda>e. sme_name e = service_number n) sm)"

definition service_map_remove_all :: "service_map \<Rightarrow> service_name \<Rightarrow> bool \<times> service_map" where
  "service_map_remove_all sm n =
     (let sm' = filter (\<lambda>e. sme_name e \<noteq> service_number n) sm
      in (length sm > length sm', sm'))"

definition opt_service_map_add ::
  "service_map option \<Rightarrow> service_name \<Rightarrow> string \<Rightarrow> service_map option" where
  "opt_service_map_add m n uri =
     (case m of
        None \<Rightarrow> Some (service_map_add [] n uri)
      | Some sm \<Rightarrow> Some (service_map_add sm n uri))"

definition opt_service_map_get :: "service_map option \<Rightarrow> service_name \<Rightarrow> string list" where
  "opt_service_map_get m n = (case m of None \<Rightarrow> [] | Some sm \<Rightarrow> service_map_get sm n)"

definition opt_service_map_remove_all ::
  "service_map option \<Rightarrow> service_name \<Rightarrow> bool \<times> service_map option" where
  "opt_service_map_remove_all m n =
     (case m of
        None \<Rightarrow> (False, None)
      | Some sm \<Rightarrow> map_prod id Some (service_map_remove_all sm n))"

lemma service_number_inj [simp]: "service_number a = service_number b \<longleftrightarrow> a = b"
  by (cases a; cases b) simp_all

lemma service_map_get_Nil: "service_map_get [] n = []"
  by (simp add: service_map_get_def)

lemma service_map_get_add:
  "service_map_get (service_map_add sm n uri) m =
     service_map_get sm m @ (if m = n then [uri] else [])"
  by (auto simp: service_map_get_def service_map_add_def)

lemma service_map_get_remove_all:
  "service_map_get (snd (service_map_remove_all sm n)) m =
     (if m = n then [] else service_map_get sm m)"
  by (auto simp: service_map_get_def service_map_remove_all_def Let_def intro!: arg_cong [where f = "map sme_uri"] filter_cong)

lemma service_map_remove_all_flag:
  "fst (service_map_remove_all sm n) \<longleftrightarrow> service_map_get sm n \<noteq> []"
proof (induction sm)
  case Nil
  then show ?case by (simp add: service_map_remove_all_def service_map_get_def)
next
  case (Cons e sm)
  then show ?case
    using length_filter_le [of "\<lambda>e. sme_name e \<noteq> service_number n" sm]
    by (auto simp: service_map_remove_all_def service_map_get_def Let_def less_Suc_eq_le)
qed

text \<open>
  The two implementations of \<open>ServiceMapInterface\<close> (on \<open>ServiceMap\<close> and on \<open>Option<ServiceMap>\<close>)
  share one contract: what \<open>get\<close> returns after \<open>add\<close> and after \<open>remove_all\<close>, and that the flag
  of \<open>remove_all\<close> says whether \<open>get\<close> was non-empty.
\<close>

locale service_map_interface =
  fixes sm_add :: "'m \<Rightarrow> service_name \<Rightarrow> string \<Rightarrow> 'm"
    and sm_get :: "'m \<Rightarrow> service_name \<Rightarrow> string list"
    and sm_remove_all :: "'m \<Rightarrow> service_name \<Rightarrow> bool \<times> 'm"
  assumes get_add: "sm_get (sm_add m n uri) k = sm_get m k @ (if k = n then [uri] else [])"
    and get_remove_all: "sm_get (snd (sm_remove_all m n)) k = (if k = n then [] else sm_get m k)"
    and remove_all_flag: "fst (sm_remove_all m n) \<longleftrightarrow> sm_get m n \<noteq> []"
begin

lemma remove_all_idem: "\<not> fst (sm_remove_all (snd (sm_remove_all m n)) n)"
  by (simp add: remove_all_flag get_remove_all)

lemma replace_service:
  "sm_get (sm_add (snd (sm_remove_all m n)) n uri) n = [uri]"
  by (simp add: get_add get_remove_all)

lemma replace_service_frame:
  "k \<noteq> n \<Longrightarrow> sm_get (sm_add (snd (sm_remove_all m n)) n uri) k = sm_get m k"
  by (simp add: get_add get_remove_all)

end

interpretation service_list: service_map_interface
  service_map_add service_map_get service_map_remove_all
  by unfold_locales (fact service_map_get_add service_map_get_remove_all service_map_remove_all_flag)+

lemma opt_service_map_get_add:
  "opt_service_map_get (opt_service_map_add m n uri) k =
     opt_service_map_get m k @ (if k = n then [uri] else [])"
  by (cases m) (simp_all add: opt_service_map_get_def opt_service_map_add_def service_map_get_add
      service_map_get_Nil)

lemma opt_service_map_get_remove_all:
  "opt_service_map_get (snd (opt_service_map_remove_all m n)) k =
     (if k = n then [] else opt_service_map_get m k)"
  by (cases m) (auto simp: opt_service_map_get_def opt_service_map_remove_all_def
      service_map_get_remove_all)

lemma opt_service_map_remove_all_flag:
  "fst (opt_service_map_remove_all m n) \<longleftrightarrow> opt_service_map_get m n \<noteq> []"
  by (cases m) (simp_all add: opt_service_map_get_def opt_service_map_remove_all_def
      service_map_remove_all_flag)

interpretation opt_service: service_map_interface
  opt_service_map_add opt_service_map_get opt_service_map_remove_all
  by unfold_locales
    (fact opt_service_map_get_add opt_service_map_get_remove_all opt_service_map_remove_all_flag)+

end
