(* ===== verification/Environment.thy ===== *)
theory Environment
  imports Messages
begin

section \<open>The environment: crates outside the repository and the group signature scheme\<close>

text \<open>
  The services call code that is not in the repository: prost (message encoding), p256/ecdsa
  (clerk, mint and epoch signatures), sha2. They are fields of the record \<open>env\<close>, an argument of
  every definition that calls them. The group signature scheme \<open>briolette_crypto::v1\<close> is the
  repository's own wrapper over a pairing crate; the services use it through the same record, so
  that their proofs rest on its interface only. Its byte-level operations on signatures,
  \<open>inflate_signature\<close> and \<open>deflate_signature\<close>, need no group arithmetic and are modelled here.

  Randomised operations take the number of the draw from the random generator as their first
  argument, so that two calls on the same input may give different results, as they do in the
  code. A function that can panic on a short input returns a \<open>result\<close>. \<open>overflow_checks\<close> is the
  build profile's flag (see \<open>arith\<close> in the prelude).
\<close>

record env =
  overflow_checks :: bool
  sha256 :: "bytes \<Rightarrow> bytes"
  enc_ticket :: "ticket \<Rightarrow> bytes"
  dec_ticket :: "bytes \<Rightarrow> ticket option"
  enc_signed_ticket :: "signed_ticket \<Rightarrow> bytes"
  dec_signed_ticket :: "bytes \<Rightarrow> signed_ticket option"
  enc_transfer :: "transfer_msg \<Rightarrow> bytes"
  enc_descriptor :: "descriptor \<Rightarrow> bytes"
  enc_token :: "token \<Rightarrow> bytes"
  dec_token :: "bytes \<Rightarrow> token option"
  enc_ticket_requests :: "ticket_request list \<Rightarrow> bytes"
  enc_epoch_data :: "epoch_data \<Rightarrow> bytes"
  enc_extended_epoch_data :: "extended_epoch_data \<Rightarrow> bytes"
  enc_epoch_update :: "epoch_update \<Rightarrow> bytes"
  ecdsa_sig_parses :: "bytes \<Rightarrow> bool"
  ecdsa_recover :: "bytes \<Rightarrow> bytes \<Rightarrow> u8 \<Rightarrow> bytes option"
  ecdsa_verify :: "bytes \<Rightarrow> bytes \<Rightarrow> bytes \<Rightarrow> bool"
  ecdsa_sign :: "nat \<Rightarrow> bytes \<Rightarrow> bytes \<Rightarrow> bytes"
  ecdsa_recovery_id :: "bytes \<Rightarrow> bytes \<Rightarrow> bytes \<Rightarrow> u8 option"
  ecdsa_public_key :: "bytes \<Rightarrow> bytes"
  ecdsa_pk_parses :: "bytes \<Rightarrow> bool"
  v1_sign :: "nat \<Rightarrow> bytes \<Rightarrow> bytes \<Rightarrow> bytes \<Rightarrow> bytes option \<Rightarrow> bool \<Rightarrow> bytes option result"
  v1_verify :: "bytes \<Rightarrow> bytes option \<Rightarrow> bytes option \<Rightarrow> bytes \<Rightarrow> bytes \<Rightarrow> bool result"
  v1_credential_in_group :: "bytes \<Rightarrow> bytes \<Rightarrow> bool"
  v1_issue_credential :: "nat \<Rightarrow> bytes \<Rightarrow> bytes \<Rightarrow> bytes \<Rightarrow> (bytes \<times> bytes) option"
  v1_randomize_credential :: "nat \<Rightarrow> bytes \<Rightarrow> bytes option result"
  v1_verify_split_key_proof :: "bytes \<Rightarrow> bytes \<Rightarrow> bool"

text \<open>
  The arguments of the fields, in the order of the Rust calls: \<open>ecdsa_recover message signature
  recovery_id\<close> and \<open>ecdsa_verify public_key message signature\<close>, with keys as their DER bytes;
  \<open>ecdsa_sign draw secret_key message\<close>; \<open>v1_sign draw message credential secret_key basename
  randomize\<close>, \<open>Ok None\<close> for the result \<open>false\<close>; \<open>v1_verify group_public_key basename
  signing_credential signature message\<close>.
\<close>

subsection \<open>Lengths of the group signature scheme (\<open>v1::native\<close>)\<close>

definition SCALAR_LENGTH :: nat where "SCALAR_LENGTH = 32"
definition G1_LENGTH :: nat where "G1_LENGTH = 48"
definition G2_LENGTH :: nat where "G2_LENGTH = 96"
definition CREDENTIAL_LENGTH :: nat where "CREDENTIAL_LENGTH = 4 * G1_LENGTH"
definition SIGNATURE_LENGTH :: nat where "SIGNATURE_LENGTH = 3 * SCALAR_LENGTH + 4 * G1_LENGTH"
definition SIGNATURE_WITH_NYM_LENGTH :: nat where
  "SIGNATURE_WITH_NYM_LENGTH = SIGNATURE_LENGTH + G1_LENGTH"

lemmas length_defs = SCALAR_LENGTH_def G1_LENGTH_def G2_LENGTH_def CREDENTIAL_LENGTH_def
  SIGNATURE_LENGTH_def SIGNATURE_WITH_NYM_LENGTH_def

subsection \<open>Storing a signature without its credential\<close>

definition credential_from_signature :: "bytes \<Rightarrow> bytes option" where
  "credential_from_signature sig =
     (if length sig < SIGNATURE_LENGTH then None
      else Some (take CREDENTIAL_LENGTH (drop (2 * SCALAR_LENGTH) sig)))"

definition deflate_signature :: "bytes \<Rightarrow> bytes" where
  "deflate_signature sig =
     (if length sig < SIGNATURE_LENGTH then sig
      else take (2 * SCALAR_LENGTH) sig @ drop (2 * SCALAR_LENGTH + CREDENTIAL_LENGTH) sig)"

text \<open>\<open>Vec::split_off(at)\<close> panics when \<open>at\<close> exceeds the length.\<close>

definition inflate_signature :: "bytes \<Rightarrow> bytes \<Rightarrow> bytes result" where
  "inflate_signature cred sig =
     (if length sig < 2 * SCALAR_LENGTH then panic
      else Ok (take (2 * SCALAR_LENGTH) sig @ cred @ drop (2 * SCALAR_LENGTH) sig))"

lemma inflate_deflate:
  assumes "credential_from_signature sig = Some cred"
  shows "inflate_signature cred (deflate_signature sig) = Ok sig"
proof -
  from assms have len: "288 \<le> length sig" and cred: "cred = take 192 (drop 64 sig)"
    by (auto simp: credential_from_signature_def length_defs split: if_splits)
  have "take 64 sig @ take 192 (drop 64 sig) @ drop 256 sig = sig"
    using append_take_drop_id [of 192 "drop 64 sig"] by (simp add: append_take_drop_id)
  with len show ?thesis
    by (simp add: cred inflate_signature_def deflate_signature_def length_defs)
qed

lemma deflate_inflate:
  assumes "2 * SCALAR_LENGTH + SCALAR_LENGTH \<le> length sig" and "length cred = CREDENTIAL_LENGTH"
  shows "\<exists>full. inflate_signature cred sig = Ok full \<and> deflate_signature full = sig
    \<and> credential_from_signature full = Some cred"
  using assms
  by (auto simp: inflate_signature_def deflate_signature_def credential_from_signature_def length_defs)

lemma inflate_Inl_iff [simp]: "inflate_signature cred sig = Inl x \<longleftrightarrow> length sig < 64 \<and> x = Panic"
  by (auto simp: inflate_signature_def length_defs)

subsection \<open>Hypotheses on the environment\<close>

text \<open>
  ECDSA verifies and recovers the key of what it signed, the
  encoded ECDSA signature is 64 bytes and its recovery id is below 4: the documented behaviour of
  those crates. Each predicate is a named hypothesis of the properties that need it.
\<close>

definition ecdsa_correct :: "env \<Rightarrow> bytes \<Rightarrow> bool" where
  "ecdsa_correct e sk \<longleftrightarrow>
     (\<forall>draw msg. length (ecdsa_sign e draw sk msg) = 64
        \<and> ecdsa_sig_parses e (ecdsa_sign e draw sk msg)
        \<and> ecdsa_verify e (ecdsa_public_key e sk) msg (ecdsa_sign e draw sk msg)
        \<and> (\<forall>r. ecdsa_recovery_id e (ecdsa_public_key e sk) msg (ecdsa_sign e draw sk msg) = Some r \<longrightarrow>
              r \<le> 3 \<and> ecdsa_recover e msg (ecdsa_sign e draw sk msg) r = Some (ecdsa_public_key e sk)))"

text \<open>
  The completeness of the group signature scheme for one wallet: a signature made with the secret
  key of a credential of the group, without randomising the credential, embeds that credential and
  verifies under it.
\<close>

definition v1_signs_for :: "env \<Rightarrow> bytes \<Rightarrow> bytes \<Rightarrow> bytes \<Rightarrow> bool" where
  "v1_signs_for e gpk cred sk \<longleftrightarrow>
     (\<forall>draw msg bsn sig.
        v1_sign e draw msg cred sk (Some bsn) False = Ok (Some sig) \<longrightarrow>
        credential_from_signature sig = Some cred
        \<and> v1_verify e gpk (Some bsn) (Some cred) sig msg = Ok True)"

lemma v1_signs_forD:
  assumes "v1_signs_for e gpk cred sk"
    and "v1_sign e draw msg cred sk (Some bsn) False = Ok (Some sig)"
  shows "inflate_signature cred (deflate_signature sig) = Ok sig"
    and "v1_verify e gpk (Some bsn) (Some cred) sig msg = Ok True"
  using assms inflate_deflate by (auto simp: v1_signs_for_def)

end
