(* ===== verification/Samples.thy ===== *)
theory Samples
  imports Environment
begin

section \<open>A concrete environment and concrete messages\<close>

text \<open>
  The inputs at which the properties of the other theories are exercised. \<open>sample_env\<close> gives
  every field of the environment a small executable function that satisfies the hypotheses of
  \<open>Environment\<close>: a key is its first byte, a signature starts with it, a group signature embeds
  the credential at the place \<open>v1::sign\<close> puts it. It makes no claim about security; it shows that
  the hypotheses can hold together.
\<close>

definition sample_env :: env where
  "sample_env = \<lparr>
     overflow_checks = True,
     sha256 = (\<lambda>m. replicate 32 0),
     enc_ticket = (\<lambda>t. tk_credential t),
     dec_ticket = (\<lambda>b. None),
     enc_signed_ticket = (\<lambda>t. st_signature t),
     dec_signed_ticket = (\<lambda>b. None),
     enc_transfer = (\<lambda>t. tf_previous_signature t),
     enc_descriptor = (\<lambda>d. []),
     enc_token = (\<lambda>t. []),
     dec_token = (\<lambda>b. None),
     enc_ticket_requests = (\<lambda>rs. concat (map trq_credential rs)),
     enc_epoch_data = (\<lambda>d. ed_group_bitfield d),
     enc_extended_epoch_data = (\<lambda>d. concat (ee_ttc_group_public_keys d)),
     enc_epoch_update = (\<lambda>u. eu_epoch_signature u),
     ecdsa_sig_parses = (\<lambda>s. length s = 64),
     ecdsa_recover = (\<lambda>m s r. Some (take 1 s)),
     ecdsa_verify = (\<lambda>pk m s. pk = take 1 s),
     ecdsa_sign = (\<lambda>draw sk m. take 1 (sk @ [0]) @ replicate 63 0),
     ecdsa_recovery_id = (\<lambda>pk m s. Some 0),
     ecdsa_public_key = (\<lambda>sk. take 1 (sk @ [0])),
     ecdsa_pk_parses = (\<lambda>pk. length pk = 1),
     v1_sign = (\<lambda>draw m cred sk bsn randomize.
        Ok (if length cred = 192 then Some (replicate 64 0 @ cred @ replicate 80 0) else None)),
     v1_verify = (\<lambda>gpk bsn cred sig m.
        Ok (case cred of None \<Rightarrow> 288 \<le> length sig | Some c \<Rightarrow> credential_from_signature sig = Some c)),
     v1_credential_in_group = (\<lambda>cred gpk. length cred = 192),
     v1_issue_credential = (\<lambda>draw pk isk nonce. Some (replicate 192 1, replicate 64 0)),
     v1_randomize_credential = (\<lambda>draw cred. Ok (Some cred)),
     v1_verify_split_key_proof = (\<lambda>pk proof. True)\<rparr>"

text \<open>A ticket of the clerk with key \<open>[7]\<close>, made out to the credential of 192 bytes \<open>n\<close>.\<close>

definition sample_ticket :: "u8 \<Rightarrow> u64 \<Rightarrow> signed_ticket" where
  "sample_ticket n created =
     \<lparr>st_ticket = Some \<lparr>tk_credential = replicate 192 n,
        tk_tags = Some \<lparr>td_group_number = 1, td_lifetime = 7, td_created_on = created\<rparr>\<rparr>,
      st_signature = 7 # replicate 64 0\<rparr>"

definition sample_amount :: "i32 \<Rightarrow> amount" where
  "sample_amount n = \<lparr>am_whole = n, am_fractional = 0, am_code = 2\<rparr>"

definition sample_transfer :: "u8 \<Rightarrow> tag list \<Rightarrow> transfer_msg" where
  "sample_transfer n tags =
     \<lparr>tf_recipient = Some (sample_ticket n 1000), tf_tags = tags, tf_previous_signature = []\<rparr>"

text \<open>A mint base for holder \<open>n\<close>, signed by the mint with key \<open>[9]\<close>.\<close>

definition sample_base :: "u8 \<Rightarrow> history" where
  "sample_base n = \<lparr>hi_transfer = Some (sample_transfer n [Some (ValidUntil 1000000)]),
     hi_signature = 9 # replicate 64 0\<rparr>"

definition sample_hop :: "u8 \<Rightarrow> tag list \<Rightarrow> history" where
  "sample_hop n tags = \<lparr>hi_transfer = Some (sample_transfer n tags), hi_signature = replicate 144 0\<rparr>"

definition sample_token :: "i32 \<Rightarrow> u8 \<Rightarrow> history list \<Rightarrow> token" where
  "sample_token v n hs = \<lparr>tok_descriptor = Some \<lparr>ds_version = 0, ds_value = Some (sample_amount v)\<rparr>,
     tok_base = Some (sample_base n), tok_history = hs\<rparr>"

lemma sample_env_simps [simp]:
  "overflow_checks sample_env = True"
  "sha256 sample_env m = replicate 32 0"
  "enc_ticket sample_env t = tk_credential t"
  "dec_ticket sample_env b = None"
  "enc_signed_ticket sample_env st = st_signature st"
  "dec_signed_ticket sample_env b = None"
  "enc_transfer sample_env tf = tf_previous_signature tf"
  "enc_descriptor sample_env d = []"
  "enc_token sample_env tok = []"
  "dec_token sample_env b = None"
  "enc_ticket_requests sample_env rs = concat (map trq_credential rs)"
  "enc_epoch_data sample_env ed = ed_group_bitfield ed"
  "enc_extended_epoch_data sample_env ee = concat (ee_ttc_group_public_keys ee)"
  "enc_epoch_update sample_env eu = eu_epoch_signature eu"
  by (simp_all add: sample_env_def)

lemma sample_env_crypto_simps [simp]:
  "ecdsa_sig_parses sample_env s \<longleftrightarrow> length s = 64"
  "ecdsa_recover sample_env m s r = Some (take 1 s)"
  "ecdsa_verify sample_env pk m s \<longleftrightarrow> pk = take 1 s"
  "ecdsa_sign sample_env draw sk m = take 1 (sk @ [0]) @ replicate 63 0"
  "ecdsa_recovery_id sample_env pk m s = Some 0"
  "ecdsa_public_key sample_env sk = take 1 (sk @ [0])"
  "ecdsa_pk_parses sample_env pk \<longleftrightarrow> length pk = 1"
  "v1_sign sample_env draw m cred sk bsn randomize =
     Ok (if length cred = 192 then Some (replicate 64 0 @ cred @ replicate 80 0) else None)"
  "v1_verify sample_env gpk bsn c sig m =
     Ok (case c of None \<Rightarrow> 288 \<le> length sig | Some c' \<Rightarrow> credential_from_signature sig = Some c')"
  "v1_credential_in_group sample_env cred gpk \<longleftrightarrow> length cred = 192"
  "v1_issue_credential sample_env draw pk isk nonce = Some (replicate 192 1, replicate 64 0)"
  "v1_randomize_credential sample_env draw cred = Ok (Some cred)"
  "v1_verify_split_key_proof sample_env pk proof"
  by (simp_all add: sample_env_def split: option.split)

lemma sample_selectors [simp]:
  "st_ticket (sample_ticket n c) = Some \<lparr>tk_credential = replicate 192 n,
     tk_tags = Some \<lparr>td_group_number = 1, td_lifetime = 7, td_created_on = c\<rparr>\<rparr>"
  "st_signature (sample_ticket n c) = 7 # replicate 64 0"
  "am_whole (sample_amount i) = i" "am_fractional (sample_amount i) = 0" "am_code (sample_amount i) = 2"
  "tf_recipient (sample_transfer n tags) = Some (sample_ticket n 1000)"
  "tf_tags (sample_transfer n tags) = tags"
  "tf_previous_signature (sample_transfer n tags) = []"
  "hi_transfer (sample_base n) = Some (sample_transfer n [Some (ValidUntil 1000000)])"
  "hi_signature (sample_base n) = 9 # replicate 64 0"
  "hi_transfer (sample_hop n tags) = Some (sample_transfer n tags)"
  "hi_signature (sample_hop n tags) = replicate 144 0"
  "tok_descriptor (sample_token v n hs) = Some \<lparr>ds_version = 0, ds_value = Some (sample_amount v)\<rparr>"
  "tok_base (sample_token v n hs) = Some (sample_base n)"
  "tok_history (sample_token v n hs) = hs"
  by (simp_all add: sample_ticket_def sample_amount_def sample_transfer_def
      sample_base_def sample_hop_def sample_token_def)

lemmas sample_defs = sample_ticket_def sample_amount_def sample_transfer_def
  sample_base_def sample_hop_def sample_token_def

text \<open>The hypotheses of \<open>Environment\<close> hold in the sample environment.\<close>

lemma sample_ecdsa_correct: "ecdsa_correct sample_env sk"
  by (cases sk) (auto simp: ecdsa_correct_def)

lemma sample_v1_signs_for: "v1_signs_for sample_env gpk cred sk"
  by (auto simp: v1_signs_for_def credential_from_signature_def length_defs
      split: if_splits)

end
