(* ===== verification/Token.thy ===== *)
theory Token
  imports Samples
begin

section \<open>Tokens: tickets, provenance and transfer (\<open>proto/src/briolette/token.rs\<close>)\<close>

text \<open>
  A token is a mint-signed base transfer followed by a history of transfers, each signed with the
  group signature of the previous holder's credential over the previous signature. This theory
  models the verification of tickets and tokens, the two transfer operations, ticket expiry and
  the addition of amounts, and relates the verification loop to a pointwise specification of a
  valid provenance chain (\<open>valid_chain\<close>).
\<close>

definition DEFAULT_EPOCH_SECONDS :: u32 where "DEFAULT_EPOCH_SECONDS = 86400"
definition RECOVERABLE_SIG_BYTES :: nat where "RECOVERABLE_SIG_BYTES = 65"

subsection \<open>Recoverable ECDSA signatures\<close>

text \<open>
  The check shared by ticket signatures and base signatures: 64 bytes and a recovery id, the key
  recovered from the message must be one of the allowed keys and must verify the signature. The
  four codes are the ones the caller returns for a wrong length, an unknown key, a signature that
  does not verify and 64 bytes that are no signature.
\<close>

definition check_recoverable ::
  "env \<Rightarrow> bytes \<Rightarrow> bytes \<Rightarrow> bytes list \<Rightarrow> error_code \<Rightarrow> error_code \<Rightarrow> error_code \<Rightarrow> error_code
    \<Rightarrow> bool result" where
  "check_recoverable e serialized sig keys c_length c_unknown c_invalid c_unparseable =
     (if length sig \<noteq> RECOVERABLE_SIG_BYTES then Err c_length
      else let rec_id = last sig; sig64 = butlast sig in
        if 3 < rec_id then Err UnrecoverablePublicKey
        else if ecdsa_sig_parses e sig64 then
          (case ecdsa_recover e serialized sig64 rec_id of
             None \<Rightarrow> Err UnrecoverablePublicKey
           | Some found_vk \<Rightarrow>
               if found_vk \<in> set keys then
                 (if ecdsa_verify e found_vk serialized sig64 then Ok True else Err c_invalid)
               else Err c_unknown)
        else Err c_unparseable)"

lemma check_recoverable_Ok_iff:
  "check_recoverable e serialized sig keys c1 c2 c3 c4 = Ok b \<longleftrightarrow>
     b \<and> length sig = 65 \<and> last sig \<le> 3 \<and> ecdsa_sig_parses e (butlast sig) \<and>
     (\<exists>vk. ecdsa_recover e serialized (butlast sig) (last sig) = Some vk \<and> vk \<in> set keys
        \<and> ecdsa_verify e vk serialized (butlast sig))"
  by (auto simp: check_recoverable_def RECOVERABLE_SIG_BYTES_def Let_def not_less split: option.splits if_splits)

lemma check_recoverable_no_panic [simp]:
  "check_recoverable e serialized sig keys c1 c2 c3 c4 \<noteq> panic"
  by (auto simp: check_recoverable_def Let_def split: option.splits)

text \<open>What the clerk, the mint and the epoch signer append to their 64-byte signatures.\<close>

definition sign_recoverable :: "env \<Rightarrow> nat \<Rightarrow> bytes \<Rightarrow> bytes \<Rightarrow> bytes option" where
  "sign_recoverable e draw sk msg =
     (let sig = ecdsa_sign e draw sk msg in
      case ecdsa_recovery_id e (ecdsa_public_key e sk) msg sig of
        None \<Rightarrow> None
      | Some rec_id \<Rightarrow> Some (sig @ [rec_id]))"

lemma check_recoverable_sign:
  assumes "ecdsa_correct e sk" "sign_recoverable e draw sk msg = Some sig"
    and "ecdsa_public_key e sk \<in> set keys"
  shows "check_recoverable e msg sig keys c1 c2 c3 c4 = Ok True"
  using assms
  by (auto simp: ecdsa_correct_def sign_recoverable_def Let_def check_recoverable_Ok_iff
      split: option.splits)

subsection \<open>Tickets\<close>

definition verify_signature_and_key ::
  "env \<Rightarrow> signed_ticket \<Rightarrow> bytes list \<Rightarrow> bytes option \<Rightarrow> bool result" where
  "verify_signature_and_key e st keys credential =
     (case st_ticket st of
        None \<Rightarrow> Err InvalidMissingFields
      | Some tk \<Rightarrow>
          let tk' = (case credential of
                       Some c \<Rightarrow> if length (tk_credential tk) = 0 then tk\<lparr>tk_credential := c\<rparr> else tk
                     | None \<Rightarrow> tk)
          in check_recoverable e (enc_ticket e tk') (st_signature st) keys
               UnparseableTicketSignature UnknownTicketPublicKey InvalidTicketSignature
               UnparseableTicketSignature)"

definition verify_historical ::
  "env \<Rightarrow> signed_ticket \<Rightarrow> bytes list \<Rightarrow> bytes option \<Rightarrow> bool result" where
  "verify_historical e st keys credential = verify_signature_and_key e st keys credential"

definition ticket_tags :: "signed_ticket \<Rightarrow> ticket_data result" where
  "ticket_tags st = and_then (unwrap (st_ticket st)) (\<lambda>tk. unwrap (tk_tags tk))"

definition expires_on_with_epoch :: "env \<Rightarrow> signed_ticket \<Rightarrow> u32 \<Rightarrow> u64 result" where
  "expires_on_with_epoch e st epoch_seconds =
     and_then (ticket_tags st) (\<lambda>td.
     and_then (u32_mul (overflow_checks e) (td_lifetime td) epoch_seconds) (\<lambda>span.
     u64_add (overflow_checks e) (td_created_on td) (ucast span)))"

definition expires_on :: "env \<Rightarrow> signed_ticket \<Rightarrow> u64 result" where
  "expires_on e st = expires_on_with_epoch e st DEFAULT_EPOCH_SECONDS"

definition ticket_verify ::
  "env \<Rightarrow> u64 \<Rightarrow> signed_ticket \<Rightarrow> bytes list \<Rightarrow> bytes option \<Rightarrow> bool result" where
  "ticket_verify e now st keys credential =
     and_then (verify_signature_and_key e st keys credential) (\<lambda>_.
     and_then (ticket_tags st) (\<lambda>td.
     if now \<le> td_created_on td then Err InvalidTicketCreatedOn
     else and_then (expires_on e st) (\<lambda>expiry.
       if expiry < now then Err TicketExpired else Ok True)))"

subsection \<open>The base and the history entries\<close>

definition recipient_of :: "history \<Rightarrow> signed_ticket option" where
  "recipient_of h = (case hi_transfer h of None \<Rightarrow> None | Some t \<Rightarrow> tf_recipient t)"

definition verify_base ::
  "env \<Rightarrow> history \<Rightarrow> descriptor \<Rightarrow> bytes list \<Rightarrow> bytes list \<Rightarrow> bool result" where
  "verify_base e h d mint_keys ticket_keys =
     (case hi_transfer h of
        None \<Rightarrow> Err InvalidMissingFields
      | Some t \<Rightarrow>
          (case tf_recipient t of
             None \<Rightarrow> Err InvalidMissingFields
           | Some r \<Rightarrow>
               and_then (verify_historical e r ticket_keys None) (\<lambda>_.
                 check_recoverable e
                   (enc_transfer e (t\<lparr>tf_previous_signature := sha256 e (enc_descriptor e d)\<rparr>))
                   (hi_signature h) mint_keys
                   InvalidBaseSignature UnknownMintPublicKey InvalidBaseSignature
                   UnparseableBaseSignature)))"

definition verify_history ::
  "env \<Rightarrow> history \<Rightarrow> bytes \<Rightarrow> bytes \<Rightarrow> bytes \<Rightarrow> bytes list \<Rightarrow> bool result" where
  "verify_history e h bound_credential previous_signature gpk ticket_keys =
     (case hi_transfer h of
        None \<Rightarrow> Err InvalidMissingFields
      | Some t \<Rightarrow>
          (case tf_recipient t of
             None \<Rightarrow> Err InvalidMissingFields
           | Some r \<Rightarrow>
               and_then (verify_historical e r ticket_keys None) (\<lambda>_.
               and_then (inflate_signature bound_credential (hi_signature h)) (\<lambda>sig.
               and_then (v1_verify e gpk (Some previous_signature) (Some bound_credential) sig
                           (enc_transfer e (t\<lparr>tf_previous_signature := previous_signature\<rparr>)))
                 (\<lambda>verified. if verified then Ok True else Err InvalidHistorySignature)))))"

text \<open>The chain of \<open>unwrap\<close>s to the ticket, and to the credential, of an entry's recipient.\<close>

definition recipient_ticket :: "history \<Rightarrow> signed_ticket result" where
  "recipient_ticket h = and_then (unwrap (hi_transfer h)) (\<lambda>t. unwrap (tf_recipient t))"

definition recipient_credential :: "history \<Rightarrow> bytes result" where
  "recipient_credential h =
     and_then (recipient_ticket h) (\<lambda>r. and_then (unwrap (st_ticket r)) (\<lambda>tk. Ok (tk_credential tk)))"

text \<open>The loop over the history, with \<open>bound_credential\<close> and \<open>last_signature\<close> as its state.\<close>

fun verify_entries ::
  "env \<Rightarrow> bytes \<Rightarrow> bytes list \<Rightarrow> bytes \<Rightarrow> bytes \<Rightarrow> history list \<Rightarrow> unit result" where
  "verify_entries e gpk ticket_keys bound_credential last_signature [] = Ok ()"
| "verify_entries e gpk ticket_keys bound_credential last_signature (h # hs) =
     and_then (verify_history e h bound_credential last_signature gpk ticket_keys) (\<lambda>_.
     and_then (recipient_credential h) (\<lambda>c.
     verify_entries e gpk ticket_keys c (hi_signature h) hs))"

text \<open>The \<open>ValidUntil\<close> tags of the base transfer.\<close>

definition tag_not_expired :: "u64 \<Rightarrow> tag \<Rightarrow> unit result" where
  "tag_not_expired now tg =
     (case tg of
        Some (ValidUntil valid_until) \<Rightarrow> if valid_until < now then Err TokenExpired else Ok ()
      | _ \<Rightarrow> Ok ())"

text \<open>Amounts are compared field by field, as signed numbers.\<close>

definition amount_exceeds :: "amount \<Rightarrow> amount \<Rightarrow> bool" where
  "amount_exceeds a b \<longleftrightarrow>
     sint (am_whole a) > sint (am_whole b)
     \<or> (am_whole a = am_whole b \<and> sint (am_fractional a) > sint (am_fractional b))"

definition split_within :: "amount \<Rightarrow> tag \<Rightarrow> unit result" where
  "split_within original tg =
     (case tg of
        Some (SplitValue split_amount) \<Rightarrow>
          if am_code split_amount \<noteq> am_code original then Err InvalidSplitCurrencyMismatch
          else if amount_exceeds split_amount original then Err InvalidSplitExceedsValue
          else Ok ()
      | _ \<Rightarrow> Ok ())"

definition transfer_tags :: "history \<Rightarrow> tag list" where
  "transfer_tags h = (case hi_transfer h of None \<Rightarrow> [] | Some t \<Rightarrow> tf_tags t)"

definition token_verify ::
  "env \<Rightarrow> u64 \<Rightarrow> token \<Rightarrow> bytes \<Rightarrow> bytes list \<Rightarrow> bytes list \<Rightarrow> bool result" where
  "token_verify e now tok gpk trusted_mints trusted_clerks =
     (case (tok_base tok, tok_descriptor tok) of
        (Some base, Some d) \<Rightarrow>
          and_then (verify_base e base d trusted_mints trusted_clerks) (\<lambda>_.
          and_then (recipient_credential base) (\<lambda>c0.
          and_then (verify_entries e gpk trusted_clerks c0 (hi_signature base) (tok_history tok)) (\<lambda>_.
          and_then (if trusted_clerks \<noteq> [] then
                      and_then (recipient_ticket
                                  (case last_opt (tok_history tok) of Some l \<Rightarrow> l | None \<Rightarrow> base))
                        (\<lambda>current_ticket. ticket_verify e now current_ticket trusted_clerks None)
                    else Ok True) (\<lambda>_.
          and_then (each (tag_not_expired now) (transfer_tags base)) (\<lambda>_.
          and_then (case ds_value d of
                      None \<Rightarrow> Ok ()
                    | Some original \<Rightarrow>
                        each (\<lambda>h. each (split_within original) (transfer_tags h)) (tok_history tok))
            (\<lambda>_. Ok True))))))
      | _ \<Rightarrow> Err InvalidMissingFields)"

subsection \<open>Transfer\<close>

text \<open>
  The errors of a smart card and the interface of \<open>split::sign_split_ext\<close> as \<open>transfer_split\<close>
  calls it: draw, host key share, message, credential, basename, whether to randomise, swap
  authorisation.
\<close>

datatype smart_card_error = Card_BloomFilterHit | SwapAuthFailed | NoSwapKey | Card_Other nat

record swap_authorization =
  sa_c :: bytes
  sa_s :: bytes

type_synonym card_signer =
  "nat \<Rightarrow> bytes \<Rightarrow> bytes \<Rightarrow> bytes \<Rightarrow> bytes option \<Rightarrow> bool \<Rightarrow> swap_authorization option
    \<Rightarrow> (smart_card_error + bytes) result"

text \<open>The last signature and the credential it commits the token to: the first part of both transfers.\<close>

definition transfer_basis :: "token \<Rightarrow> (bytes \<times> bytes) result" where
  "transfer_basis tok =
     (case last_opt (tok_history tok) of
        Some last_tx \<Rightarrow>
          and_then (recipient_credential last_tx) (\<lambda>c. Ok (hi_signature last_tx, c))
      | None \<Rightarrow>
          and_then (unwrap (tok_base tok)) (\<lambda>b.
          and_then (recipient_credential b) (\<lambda>c. Ok (hi_signature b, c))))"

definition new_transfer :: "signed_ticket \<Rightarrow> bytes \<Rightarrow> transfer_msg" where
  "new_transfer destination last_sig =
     \<lparr>tf_recipient = Some destination, tf_tags = [], tf_previous_signature = last_sig\<rparr>"

text \<open>The entry stored: no previous signature, and the credential removed from the signature.\<close>

definition push_history :: "token \<Rightarrow> transfer_msg \<Rightarrow> bytes \<Rightarrow> token" where
  "push_history tok t sig =
     tok\<lparr>tok_history := tok_history tok @
       [\<lparr>hi_transfer = Some (t\<lparr>tf_previous_signature := []\<rparr>), hi_signature = deflate_signature sig\<rparr>]\<rparr>"

text \<open>A failed transfer leaves the token as it was, so the result carries the new token only.\<close>

definition token_transfer ::
  "env \<Rightarrow> nat \<Rightarrow> token \<Rightarrow> signed_ticket \<Rightarrow> bytes \<Rightarrow> token result" where
  "token_transfer e draw tok destination credential_secret =
     and_then (transfer_basis tok) (\<lambda>(last_sig, committed_credential).
     let t = new_transfer destination last_sig in
     and_then (v1_sign e draw (enc_transfer e t) committed_credential credential_secret
                 (Some last_sig) False) (\<lambda>signed.
     case signed of
       None \<Rightarrow> Err FailedToSignTokenTransfer
     | Some sig \<Rightarrow> Ok (push_history tok t sig)))"

definition token_transfer_split ::
  "env \<Rightarrow> nat \<Rightarrow> token \<Rightarrow> signed_ticket \<Rightarrow> card_signer \<Rightarrow> bytes \<Rightarrow> swap_authorization option
    \<Rightarrow> token result" where
  "token_transfer_split e draw tok destination signer host_secret_key swap_auth =
     and_then (transfer_basis tok) (\<lambda>(last_sig, committed_credential).
     let t = new_transfer destination last_sig in
     and_then (signer draw host_secret_key (enc_transfer e t) committed_credential
                 (Some last_sig) False swap_auth) (\<lambda>signed.
     case signed of
       Inl Card_BloomFilterHit \<Rightarrow> Err BloomFilterHit
     | Inl _ \<Rightarrow> Err FailedToSignTokenTransfer
     | Inr sig \<Rightarrow> Ok (push_history tok t sig)))"

subsection \<open>Adding amounts\<close>

text \<open>Rust's \<open>/\<close> and \<open>%\<close> truncate towards zero.\<close>

definition amount_add :: "env \<Rightarrow> amount \<Rightarrow> amount \<Rightarrow> amount result" where
  "amount_add e a b =
     (if am_code a \<noteq> am_code b then Err InvalidSplitCurrencyMismatch
      else and_then (i32_add (overflow_checks e) (am_fractional a) (am_fractional b)) (\<lambda>total_frac.
        and_then (i32_add (overflow_checks e) (am_whole a) (am_whole b)) (\<lambda>wholes.
        and_then (i32_add (overflow_checks e) wholes
                    (word_of_int (sint total_frac sdiv 1000000))) (\<lambda>w.
        Ok \<lparr>am_whole = w, am_fractional = word_of_int (sint total_frac smod 1000000),
             am_code = am_code a\<rparr>))))"

text \<open>The value of an amount in millionths, and the range the message's comment asks for.\<close>

definition micros :: "amount \<Rightarrow> int" where
  "micros a = sint (am_whole a) * 1000000 + sint (am_fractional a)"

definition amount_ok :: "amount \<Rightarrow> bool" where
  "amount_ok a \<longleftrightarrow> 0 \<le> sint (am_whole a) \<and> 0 \<le> sint (am_fractional a) \<and> sint (am_fractional a) < 1000000"

subsection \<open>Lemmas on amounts\<close>

lemma sdiv_smod_micros:
  fixes f :: int
  assumes "0 \<le> f" "f < 2000000"
  shows "f sdiv 1000000 = f div 1000000" "f smod 1000000 = f mod 1000000"
    "0 \<le> f div 1000000" "f div 1000000 \<le> 1"
  using assms by (auto simp: signed_divide_int_def signed_modulo_int_def sgn_if)

lemma sint_word_of_int_i32:
  assumes "- (2 ^ 31) \<le> n" "n < 2 ^ 31"
  shows "sint (word_of_int n :: i32) = n"
  using assms by (simp add: sint_sbintrunc' signed_take_bit_int_eq_self)

lemma amount_add_exact:
  assumes a: "amount_ok a" and b: "amount_ok b" and code: "am_code a = am_code b"
    and fits: "sint (am_whole a) + sint (am_whole b) + 1 < 2 ^ 31"
  shows "\<exists>c. amount_add e a b = Ok c \<and> amount_ok c \<and> am_code c = am_code a
    \<and> micros c = micros a + micros b"
proof -
  let ?f = "sint (am_fractional a) + sint (am_fractional b)"
  let ?w = "sint (am_whole a) + sint (am_whole b)"
  have f: "0 \<le> ?f" "?f < 2000000" and w: "0 \<le> ?w"
    using a b by (auto simp: amount_ok_def)
  have fr1: "i32_add (overflow_checks e) (am_fractional a) (am_fractional b) = Ok (am_fractional a + am_fractional b)"
    and fr2: "sint (am_fractional a + am_fractional b) = ?f"
    using f by (simp_all add: i32_add_sint)
  have wh1: "i32_add (overflow_checks e) (am_whole a) (am_whole b) = Ok (am_whole a + am_whole b)"
    and wh2: "sint (am_whole a + am_whole b) = ?w"
    using w fits by (simp_all add: i32_add_sint)
  let ?c = "word_of_int (?f sdiv 1000000) :: i32"
  have c: "sint ?c = ?f div 1000000"
    using sdiv_smod_micros [OF f] by (subst sint_word_of_int_i32) auto
  have m: "sint (word_of_int (?f smod 1000000) :: i32) = ?f mod 1000000"
    using sdiv_smod_micros [OF f] by (subst sint_word_of_int_i32) auto
  have ca1: "i32_add (overflow_checks e) (am_whole a + am_whole b) ?c = Ok (am_whole a + am_whole b + ?c)"
    and ca2: "sint (am_whole a + am_whole b + ?c) = ?w + ?f div 1000000"
    using c wh2 w fits sdiv_smod_micros [OF f] by (simp_all add: i32_add_sint)
  let ?r = "\<lparr>am_whole = am_whole a + am_whole b + ?c,
      am_fractional = word_of_int (?f smod 1000000), am_code = am_code a\<rparr>"
  have "amount_add e a b = Ok ?r"
    using code by (simp add: amount_add_def fr1 fr2 wh1 ca1)
  moreover have "amount_ok ?r"
    using w sdiv_smod_micros(3) [OF f] by (simp add: amount_ok_def ca2 m)
  moreover have "micros ?r = micros a + micros b"
    using div_mult_mod_eq [of ?f 1000000] by (simp only: micros_def amount.simps ca2 m distrib_right)
  ultimately show ?thesis by (intro exI [of _ ?r]) simp
qed

lemma amount_add_mismatch [simp]:
  "am_code a \<noteq> am_code b \<Longrightarrow> amount_add e a b = Err InvalidSplitCurrencyMismatch"
  by (simp add: amount_add_def)

text \<open>On amounts in range the field-by-field comparison is the comparison of values.\<close>

lemma amount_exceeds_micros:
  assumes "amount_ok a" "amount_ok b"
  shows "amount_exceeds a b \<longleftrightarrow> micros a > micros b"
proof -
  have eq: "am_whole a = am_whole b \<longleftrightarrow> sint (am_whole a) = sint (am_whole b)"
    by (rule word_eq_iff_signed)
  show ?thesis
    using assms unfolding amount_exceeds_def amount_ok_def micros_def eq by arith
qed

subsection \<open>The valid provenance chain\<close>

text \<open>
  The specification of the verification loop: entry \<open>i\<close> of the history is signed over the signature
  of entry \<open>i - 1\<close> (the base for the first one) by the credential entry \<open>i - 1\<close> was sent to.
\<close>

definition entry_before :: "token \<Rightarrow> nat \<Rightarrow> history" where
  "entry_before tok i = (if i = 0 then the (tok_base tok) else tok_history tok ! (i - 1))"

definition credential_of :: "history \<Rightarrow> bytes option" where
  "credential_of h = map_option tk_credential (Option.bind (recipient_of h) st_ticket)"

definition entry_ok :: "env \<Rightarrow> bytes \<Rightarrow> bytes list \<Rightarrow> bytes \<Rightarrow> bytes \<Rightarrow> history \<Rightarrow> bool" where
  "entry_ok e gpk ticket_keys bound prev h \<longleftrightarrow>
     (\<exists>t r full. hi_transfer h = Some t \<and> tf_recipient t = Some r
        \<and> verify_historical e r ticket_keys None = Ok True
        \<and> inflate_signature bound (hi_signature h) = Ok full
        \<and> v1_verify e gpk (Some prev) (Some bound) full
             (enc_transfer e (t\<lparr>tf_previous_signature := prev\<rparr>)) = Ok True)"

definition link_ok :: "env \<Rightarrow> bytes \<Rightarrow> bytes list \<Rightarrow> history \<Rightarrow> history \<Rightarrow> bool" where
  "link_ok e gpk ticket_keys prev h \<longleftrightarrow>
     (\<exists>bound. credential_of prev = Some bound
        \<and> entry_ok e gpk ticket_keys bound (hi_signature prev) h)"

definition valid_chain :: "env \<Rightarrow> bytes \<Rightarrow> bytes list \<Rightarrow> token \<Rightarrow> bool" where
  "valid_chain e gpk ticket_keys tok \<longleftrightarrow>
     (\<forall>i < length (tok_history tok).
        link_ok e gpk ticket_keys (entry_before tok i) (tok_history tok ! i))"

definition current_entry :: "token \<Rightarrow> history" where
  "current_entry tok = (case last_opt (tok_history tok) of Some l \<Rightarrow> l | None \<Rightarrow> the (tok_base tok))"

lemma verify_signature_and_key_True:
  "verify_signature_and_key e st keys c = Ok b \<Longrightarrow> b"
  by (auto simp: verify_signature_and_key_def Let_def check_recoverable_Ok_iff split: option.splits)

lemma verify_signature_and_key_no_panic [simp]: "verify_signature_and_key e st keys c \<noteq> panic"
  by (auto simp: verify_signature_and_key_def Let_def split: option.splits)

lemma verify_signature_and_key_ticket:
  "verify_signature_and_key e st keys c = Ok b \<Longrightarrow> \<exists>tk. st_ticket st = Some tk"
  by (auto simp: verify_signature_and_key_def split: option.splits)

lemma verify_historical_cong [simp]:
  "verify_historical e st keys c = verify_signature_and_key e st keys c"
  by (simp add: verify_historical_def)

lemma ticket_verify_True: "ticket_verify e now st keys c = Ok b \<Longrightarrow> b"
  by (auto simp: ticket_verify_def and_then_Inr_iff split: if_splits)

lemma recipient_credential_Ok_iff: "recipient_credential h = Ok c \<longleftrightarrow> credential_of h = Some c"
  by (auto simp: recipient_credential_def recipient_ticket_def credential_of_def recipient_of_def
      and_then_Inr_iff bind_eq_Some_conv split: option.splits)

lemma recipient_ticket_Ok_iff: "recipient_ticket h = Ok r \<longleftrightarrow> recipient_of h = Some r"
  by (auto simp: recipient_ticket_def recipient_of_def and_then_Inr_iff split: option.splits)

lemma verify_history_Ok_iff:
  "verify_history e h bound prev gpk keys = Ok b \<longleftrightarrow> b \<and> entry_ok e gpk keys bound prev h"
  by (auto simp: verify_history_def entry_ok_def and_then_Inr_iff
      dest: verify_signature_and_key_True split: option.splits if_splits)

lemma entry_ok_credential: "entry_ok e gpk keys bound prev h \<Longrightarrow> \<exists>c. credential_of h = Some c"
  by (auto simp: entry_ok_def credential_of_def recipient_of_def dest: verify_signature_and_key_ticket)

text \<open>The loop accepts exactly the chains in which every entry is right for the one before it.\<close>

fun chain_ok :: "env \<Rightarrow> bytes \<Rightarrow> bytes list \<Rightarrow> history \<Rightarrow> history list \<Rightarrow> bool" where
  "chain_ok e gpk keys prev [] \<longleftrightarrow> True"
| "chain_ok e gpk keys prev (h # hs) \<longleftrightarrow>
     link_ok e gpk keys prev h \<and> chain_ok e gpk keys h hs"

lemma verify_entries_chain_ok:
  assumes "credential_of prev = Some c"
  shows "verify_entries e gpk keys c (hi_signature prev) hs = Ok () \<longleftrightarrow> chain_ok e gpk keys prev hs"
  using assms
proof (induction hs arbitrary: prev c)
  case (Cons h hs)
  show ?case
  proof (cases "entry_ok e gpk keys c (hi_signature prev) h")
    case True
    then obtain d where d: "credential_of h = Some d" using entry_ok_credential by blast
    then have rd: "recipient_credential h = Ok d" by (simp add: recipient_credential_Ok_iff)
    have vh: "verify_history e h c (hi_signature prev) gpk keys = Ok True"
      using True by (simp add: verify_history_Ok_iff)
    have lk: "link_ok e gpk keys prev h" using True Cons.prems by (simp add: link_ok_def)
    show ?thesis by (simp add: vh rd lk Cons.IH [OF d])
  next
    case False
    then have "\<not> link_ok e gpk keys prev h" using Cons.prems by (simp add: link_ok_def)
    then show ?thesis using False by (auto simp: and_then_Inr_iff verify_history_Ok_iff)
  qed
qed simp

lemma chain_ok_iff_nth:
  "chain_ok e gpk keys prev hs \<longleftrightarrow>
     (\<forall>i < length hs. link_ok e gpk keys ((prev # hs) ! i) (hs ! i))"
proof (induction hs arbitrary: prev)
  case (Cons h hs)
  show ?case unfolding length_Cons All_less_Suc2 chain_ok.simps Cons.IH by simp
qed simp

lemma chain_ok_append:
  "chain_ok e gpk keys prev (xs @ ys) \<longleftrightarrow>
     chain_ok e gpk keys prev xs \<and> chain_ok e gpk keys (last (prev # xs)) ys"
  by (induction xs arbitrary: prev) auto


subsection \<open>What a verified token is\<close>

text \<open>The conditions on the holder's ticket and on the tags, stated over sets.\<close>

definition holder_ticket_ok :: "env \<Rightarrow> u64 \<Rightarrow> bytes list \<Rightarrow> token \<Rightarrow> bool" where
  "holder_ticket_ok e now clerks tok \<longleftrightarrow>
     clerks = [] \<or>
     (\<exists>r. recipient_of (current_entry tok) = Some r \<and> ticket_verify e now r clerks None = Ok True)"

definition unexpired :: "u64 \<Rightarrow> history \<Rightarrow> bool" where
  "unexpired now base \<longleftrightarrow> (\<forall>v. Some (ValidUntil v) \<in> set (transfer_tags base) \<longrightarrow> now \<le> v)"

definition splits_fit :: "amount option \<Rightarrow> history list \<Rightarrow> bool" where
  "splits_fit value hs \<longleftrightarrow>
     (\<forall>original h a. value = Some original \<longrightarrow> h \<in> set hs \<longrightarrow> Some (SplitValue a) \<in> set (transfer_tags h) \<longrightarrow>
        am_code a = am_code original \<and> \<not> amount_exceeds a original)"

lemma tags_unexpired: "each (tag_not_expired now) (transfer_tags base) = Ok u \<longleftrightarrow> unexpired now base"
proof -
  have "tag_not_expired now tg = Ok () \<longleftrightarrow> (\<forall>v. tg = Some (ValidUntil v) \<longrightarrow> now \<le> v)" for tg
    by (auto simp: tag_not_expired_def not_less split: option.splits tag_value.splits)
  then show ?thesis by (auto simp: each_Ok_iff unexpired_def)
qed

lemma tags_split_fit:
  "(case value of None \<Rightarrow> Ok ()
     | Some original \<Rightarrow> each (\<lambda>h. each (split_within original) (transfer_tags h)) hs) = Ok u \<longleftrightarrow>
   splits_fit value hs"
proof -
  have "split_within original tg = Ok () \<longleftrightarrow>
      (\<forall>a. tg = Some (SplitValue a) \<longrightarrow> am_code a = am_code original \<and> \<not> amount_exceeds a original)"
    for original tg
    by (auto simp: split_within_def split: option.splits tag_value.splits)
  then show ?thesis by (cases "value") (auto simp: each_Ok_iff splits_fit_def)
qed

lemma verify_base_credential:
  "verify_base e b d mints clerks = Ok x \<Longrightarrow> \<exists>c. credential_of b = Some c \<and> x"
  by (auto simp: verify_base_def and_then_Inr_iff credential_of_def recipient_of_def
      check_recoverable_Ok_iff dest: verify_signature_and_key_ticket split: option.splits)

lemma verify_base_credential_True:
  "verify_base e b d mints clerks = Ok x \<Longrightarrow>
     verify_base e b d mints clerks = Ok True \<and> (\<exists>c. credential_of b = Some c)"
  using verify_base_credential [of e b d mints clerks x] by auto

lemma valid_chain_chain_ok:
  "tok_base tok = Some b \<Longrightarrow> valid_chain e gpk keys tok \<longleftrightarrow> chain_ok e gpk keys b (tok_history tok)"
  by (simp add: valid_chain_def chain_ok_iff_nth entry_before_def nth_Cons')

lemma holder_ticket_step:
  assumes "tok_base tok = Some base"
  shows "(if clerks \<noteq> [] then
            and_then (recipient_ticket (case last_opt (tok_history tok) of Some l \<Rightarrow> l | None \<Rightarrow> base))
              (\<lambda>r. ticket_verify e now r clerks None)
          else Ok True) = Ok x \<longleftrightarrow> x \<and> holder_ticket_ok e now clerks tok"
proof -
  have cur: "(case last_opt (tok_history tok) of Some l \<Rightarrow> l | None \<Rightarrow> base) = current_entry tok"
    using assms by (simp add: current_entry_def split: option.split)
  show ?thesis
    unfolding cur
    by (auto simp: holder_ticket_ok_def and_then_Inr_iff recipient_ticket_Ok_iff dest: ticket_verify_True)
qed

lemma token_verify_Ok_iff:
  "token_verify e now tok gpk mints clerks = Ok b \<longleftrightarrow>
     b \<and> (\<exists>base d. tok_base tok = Some base \<and> tok_descriptor tok = Some d
        \<and> verify_base e base d mints clerks = Ok True
        \<and> valid_chain e gpk clerks tok
        \<and> holder_ticket_ok e now clerks tok
        \<and> unexpired now base
        \<and> splits_fit (ds_value d) (tok_history tok))"
proof (cases "\<exists>base d c. tok_base tok = Some base \<and> tok_descriptor tok = Some d
    \<and> verify_base e base d mints clerks = Ok True \<and> credential_of base = Some c")
  case True
  then obtain base d c where t: "tok_base tok = Some base" "tok_descriptor tok = Some d"
    "verify_base e base d mints clerks = Ok True" "credential_of base = Some c" by blast
  have "recipient_credential base = Ok c" using t by (simp add: recipient_credential_Ok_iff)
  then show ?thesis
    by (simp add: token_verify_def t and_then_Inr_iff verify_entries_chain_ok [OF t(4)]
        valid_chain_chain_ok [OF t(1)] holder_ticket_step [OF t(1)]
        tags_unexpired tags_split_fit ex_bool_eq)
      blast
next
  case False
  have "\<exists>base d x. tok_base tok = Some base \<and> tok_descriptor tok = Some d
      \<and> verify_base e base d mints clerks = Ok x"
    if "token_verify e now tok gpk mints clerks = Ok b"
  proof (cases "tok_base tok")
    case (Some base)
    show ?thesis
    proof (cases "tok_descriptor tok")
      case d: (Some d)
      show ?thesis
        using that by (cases "verify_base e base d mints clerks") (simp_all add: token_verify_def Some d)
    qed (use that in \<open>simp add: token_verify_def Some\<close>)
  qed (use that in \<open>simp add: token_verify_def\<close>)
  with False show ?thesis using verify_base_credential_True by blast
qed


text \<open>The sample tickets and transfers verify.\<close>

lemma sample_ticket_verifies [simp]:
  "[7] \<in> set keys \<Longrightarrow> verify_signature_and_key sample_env (sample_ticket n created) keys c = Ok True"
  by (simp add: verify_signature_and_key_def check_recoverable_def
      RECOVERABLE_SIG_BYTES_def split: option.split)

lemma sample_base_verifies [simp]:
  "[7] \<in> set clerks \<Longrightarrow> [9] \<in> set mints \<Longrightarrow> verify_base sample_env (sample_base n) d mints clerks = Ok True"
  by (simp add: verify_base_def check_recoverable_def
      RECOVERABLE_SIG_BYTES_def split: option.split)

lemma sample_ticket_expires [simp]: "expires_on sample_env (sample_ticket n 1000) = Ok 605800"
  by (simp add: expires_on_def expires_on_with_epoch_def ticket_tags_def
   DEFAULT_EPOCH_SECONDS_def u32_mul_def u64_add_def arith_def)

lemma sample_ticket_verify [simp]:
  "[7] \<in> set clerks \<Longrightarrow> 1000 < now \<Longrightarrow> now \<le> 605800 \<Longrightarrow>
     ticket_verify sample_env now (sample_ticket n 1000) clerks None = Ok True"
  by (simp add: ticket_verify_def ticket_tags_def not_le not_less)

lemma sample_recipient [simp]:
  "recipient_of (sample_base n) = Some (sample_ticket n 1000)"
  "recipient_of (sample_hop n tags) = Some (sample_ticket n 1000)"
  "credential_of (sample_base n) = Some (replicate 192 n)"
  "credential_of (sample_hop n tags) = Some (replicate 192 n)"
  "transfer_tags (sample_hop n tags) = tags"
  "transfer_tags (sample_base n) = [Some (ValidUntil 1000000)]"
  by (simp_all add: recipient_of_def credential_of_def transfer_tags_def)

lemma sample_entry_ok [simp]:
  "[7] \<in> set keys \<Longrightarrow> entry_ok sample_env gpk keys (replicate 192 m) prev (sample_hop n tags)"
  by (simp add: entry_ok_def inflate_signature_def length_defs credential_from_signature_def)

lemma sample_link_ok [simp]:
  "[7] \<in> set keys \<Longrightarrow> link_ok sample_env gpk keys (sample_hop m t) (sample_hop n tags)"
  "[7] \<in> set keys \<Longrightarrow> link_ok sample_env gpk keys (sample_base m) (sample_hop n tags)"
  by (simp_all add: link_ok_def)

text \<open>C1: \<open>Token::verify\<close> accepts a token exactly when it has a base and a descriptor, the base is
  signed by a trusted mint, every history entry is signed over the signature before it by the
  credential the entry before it was made out to (to a recipient with a trusted clerk's ticket),
  the last recipient's ticket verifies and is in date unless no clerk is given, no \<open>ValidUntil\<close> of
  the base has passed, and no split tag exceeds the face value or changes its currency.\<close>

theorem token_verify_accepts_iff:
  "token_verify e now tok gpk mints clerks = Ok b \<longleftrightarrow>
     b \<and> (\<exists>base d. tok_base tok = Some base \<and> tok_descriptor tok = Some d
        \<and> verify_base e base d mints clerks = Ok True
        \<and> valid_chain e gpk clerks tok
        \<and> holder_ticket_ok e now clerks tok
        \<and> unexpired now base
        \<and> splits_fit (ds_value d) (tok_history tok))"
  by (rule token_verify_Ok_iff)

lemma token_verify_accepts_iff_witness:
  "token_verify sample_env 2000 (sample_token 10 1 [sample_hop 2 []]) [] [[9]] [[7]] = Ok True"
  using token_verify_accepts_iff [of sample_env 2000 "sample_token 10 1 [sample_hop 2 []]" "[]" "[[9]]" "[[7]]" True]
  by (simp add: valid_chain_def holder_ticket_ok_def current_entry_def unexpired_def splits_fit_def
      entry_before_def)

subsection \<open>Panics\<close>

lemma credential_of_recipient: "credential_of h = Some c \<Longrightarrow> \<exists>r. recipient_of h = Some r"
  by (cases "recipient_of h") (auto simp: credential_of_def)

lemma verify_entries_chain_prefix:
  assumes "credential_of prev = Some c" "chain_ok e gpk keys prev xs"
  shows "\<exists>c'. credential_of (last (prev # xs)) = Some c' \<and>
    verify_entries e gpk keys c (hi_signature prev) (xs @ ys) =
      verify_entries e gpk keys c' (hi_signature (last (prev # xs))) ys"
  using assms
proof (induction xs arbitrary: prev c)
  case (Cons h xs)
  then have ok: "entry_ok e gpk keys c (hi_signature prev) h"
    by (auto simp: link_ok_def)
  then obtain d where d: "credential_of h = Some d" using entry_ok_credential by blast
  have step: "verify_entries e gpk keys c (hi_signature prev) ((h # xs) @ ys) =
      verify_entries e gpk keys d (hi_signature h) (xs @ ys)"
    using ok d verify_history_Ok_iff [of e h c "hi_signature prev" gpk keys True]
    by (simp add: recipient_credential_Ok_iff [THEN iffD2])
  show ?case
    using Cons.IH [OF d] Cons.prems(2) unfolding step by simp
qed simp

text \<open>verification panics, instead of rejecting, on a token whose history holds a signature of
  fewer than 64 bytes after entries that verify: \<open>inflate_signature\<close> splits the signature at byte
  64 without checking its length.\<close>

theorem token_verify_short_signature_panics:
  assumes "tok_base tok = Some base" "tok_descriptor tok = Some d"
    and "verify_base e base d mints clerks = Ok True"
    and "tok_history tok = xs @ h # ys" "chain_ok e gpk clerks base xs"
    and "recipient_of h = Some r" "verify_historical e r clerks None = Ok True"
    and "length (hi_signature h) < 64"
  shows "token_verify e now tok gpk mints clerks = panic"
proof -
  obtain c where c: "credential_of base = Some c" using assms(3) verify_base_credential by blast
  obtain c' where "verify_entries e gpk clerks c (hi_signature base) (tok_history tok) =
      verify_entries e gpk clerks c' (hi_signature (last (base # xs))) (h # ys)"
    using verify_entries_chain_prefix [OF c assms(5), of "h # ys"] assms(4) by auto
  also have "\<dots> = panic"
    using assms(6-8) by (auto simp: verify_history_def recipient_of_def inflate_signature_def length_defs
        split: option.splits)
  finally show ?thesis
    using assms c by (simp add: token_verify_def recipient_credential_Ok_iff [THEN iffD2])
qed

lemma token_verify_short_signature_panics_witness:
  "token_verify sample_env 2000
     (sample_token 10 1 [sample_hop 2 [], (sample_hop 3 [])\<lparr>hi_signature := [0]\<rparr>]) [] [[9]] [[7]] = panic"
  by (rule token_verify_short_signature_panics
      [where base = "sample_base 1" and xs = "[sample_hop 2 []]" and ys = "[]"
        and d = "\<lparr>ds_version = 0, ds_value = Some (sample_amount 10)\<rparr>"
        and h = "(sample_hop 3 [])\<lparr>hi_signature := [0]\<rparr>" and r = "sample_ticket 3 1000"])
    (simp_all add: recipient_of_def)


lemma each_tags_no_panic [simp]:
  "each (tag_not_expired now) tags \<noteq> panic" "each (split_within original) tags \<noteq> panic"
  by (auto intro!: each_no_panic simp: tag_not_expired_def split_within_def
      split: option.splits tag_value.splits if_splits)

lemma each_splits_no_panic [simp]:
  "each (\<lambda>h. each (split_within original) (transfer_tags h)) hs \<noteq> panic"
  by (rule each_no_panic) simp

lemma verify_base_no_panic: "verify_base e b d mints clerks \<noteq> panic"
  by (auto simp: verify_base_def and_then_Inl_iff split: option.splits)

lemma verify_history_no_panic:
  assumes "\<And>bsn c s m. v1_verify e gpk bsn c s m \<noteq> panic" "64 \<le> length (hi_signature h)"
  shows "verify_history e h c prev gpk keys \<noteq> panic"
  using assms
  by (auto simp: verify_history_def and_then_Inl_iff split: option.splits if_splits)

lemma verify_entries_no_panic:
  assumes v1: "\<And>bsn c s m. v1_verify e gpk bsn c s m \<noteq> panic"
    and "\<And>h. h \<in> set hs \<Longrightarrow> 64 \<le> length (hi_signature h)"
  shows "verify_entries e gpk keys c prev hs \<noteq> panic"
  using assms(2)
proof (induction hs arbitrary: c prev)
  case (Cons h hs)
  have "verify_history e h c prev gpk keys \<noteq> panic"
    using Cons.prems by (intro verify_history_no_panic v1) simp
  moreover have "recipient_credential h \<noteq> panic" if "verify_history e h c prev gpk keys = Ok b" for b
  proof -
    from that have "\<exists>c. credential_of h = Some c" using verify_history_Ok_iff entry_ok_credential by blast
    then show ?thesis by (auto simp: recipient_credential_Ok_iff [THEN iffD2])
  qed
  moreover have "verify_entries e gpk keys c' prev' hs \<noteq> panic" for c' prev'
    using Cons by simp
  ultimately show ?case by (auto simp: and_then_Inl_iff)
qed simp

definition ticket_span_fits :: "env \<Rightarrow> signed_ticket \<Rightarrow> bool" where
  "ticket_span_fits e st \<longleftrightarrow>
     (\<exists>td. ticket_tags st = Ok td \<and> unat (td_lifetime td) \<le> 49710
        \<and> unat (td_created_on td) + unat (td_lifetime td) * 86400 < 2 ^ 64)"

lemma expires_on_fits:
  assumes "ticket_tags st = Ok td" "unat (td_lifetime td) \<le> 49710"
    and "unat (td_created_on td) + unat (td_lifetime td) * 86400 < 2 ^ 64"
  shows "\<exists>t. expires_on e st = Ok t \<and> unat t = unat (td_created_on td) + unat (td_lifetime td) * 86400"
proof -
  have span: "u32_mul (overflow_checks e) (td_lifetime td) 86400 = Ok (td_lifetime td * 86400)"
    "unat (td_lifetime td * 86400) = unat (td_lifetime td) * 86400"
    using assms(2) by (simp_all add: u32_mul_unat)
  have "unat (ucast (td_lifetime td * 86400) :: u64) = unat (td_lifetime td) * 86400"
    using span(2) by simp
  then show ?thesis
    using assms
    by (simp add: expires_on_def expires_on_with_epoch_def DEFAULT_EPOCH_SECONDS_def span u64_add_unat)
qed

lemma ticket_verify_no_panic: "ticket_span_fits e st \<Longrightarrow> ticket_verify e now st keys c \<noteq> panic"
  using expires_on_fits [of st _ e]
  by (fastforce simp: ticket_verify_def ticket_span_fits_def and_then_Inl_iff split: if_splits)


text \<open>C11: verification never panics when the group key is one \<open>v1::verify\<close> can read, every history
  signature has its 64 bytes of scalars and the holder's ticket has tags whose lifetime does not
  overflow: these are the only inputs on which it can.\<close>

theorem token_verify_no_panic:
  assumes v1: "\<And>bsn c s m. v1_verify e gpk bsn c s m \<noteq> panic"
    and sigs: "\<And>h. h \<in> set (tok_history tok) \<Longrightarrow> 64 \<le> length (hi_signature h)"
    and span: "\<And>r. recipient_of (current_entry tok) = Some r \<Longrightarrow> ticket_span_fits e r"
  shows "token_verify e now tok gpk mints clerks \<noteq> panic"
proof (cases "\<exists>base d. tok_base tok = Some base \<and> tok_descriptor tok = Some d")
  case True
  then obtain base d where t: "tok_base tok = Some base" "tok_descriptor tok = Some d" by blast
  let ?cur = "case last_opt (tok_history tok) of Some l \<Rightarrow> l | None \<Rightarrow> base"
  have cur: "?cur = current_entry tok" using t by (simp add: current_entry_def split: option.split)
  have base: "recipient_credential base \<noteq> panic" if "verify_base e base d mints clerks = Ok x" for x
    using verify_base_credential [OF that] by (auto simp: recipient_credential_Ok_iff [THEN iffD2])
  have ticket: "ticket_verify e now r clerks None \<noteq> panic" if "recipient_ticket (current_entry tok) = Ok r" for r
    using that span ticket_verify_no_panic by (simp add: recipient_ticket_Ok_iff)
  have rest: "recipient_ticket (current_entry tok) \<noteq> panic"
    if "verify_base e base d mints clerks = Ok x" "recipient_credential base = Ok c"
      "verify_entries e gpk clerks c (hi_signature base) (tok_history tok) = Ok ()" for x c
  proof -
    have b: "credential_of base = Some c" using that by (simp add: recipient_credential_Ok_iff)
    have "chain_ok e gpk clerks base (tok_history tok)" using that verify_entries_chain_ok [OF b] by simp
    then have "\<exists>c'. credential_of (last (base # tok_history tok)) = Some c'"
      using verify_entries_chain_prefix [OF b] by blast
    then have "\<exists>c'. credential_of (current_entry tok) = Some c'"
      using t by (simp add: current_entry_def split: if_splits)
    then show ?thesis
      using credential_of_recipient recipient_ticket_Ok_iff by (metis sum.distinct(1))
  qed
  show ?thesis
    using base ticket rest verify_base_no_panic [of e base d mints clerks]
      verify_entries_no_panic [OF v1 sigs]
    unfolding token_verify_def t option.case prod.case cur
    by (auto simp: and_then_Inl_iff split: option.splits)
next
  case False
  then show ?thesis by (auto simp: token_verify_def split: option.splits)
qed

lemma token_verify_no_panic_witness:
  "token_verify sample_env 900 (sample_token 10 1 [sample_hop 2 []]) [] [[9]] [[7]] \<noteq> panic"
  by (rule token_verify_no_panic)
    (auto simp: current_entry_def ticket_span_fits_def ticket_tags_def)

subsection \<open>Ticket expiry and amounts\<close>

text \<open>a ticket's expiry is its creation time plus its lifetime in days as long as the lifetime is
  at most 49710 days and the sum fits 64 bits. Above that the \<open>u32\<close> product overflows: a build with
  overflow checks panics, one without dates the ticket earlier than its lifetime says.\<close>

theorem expires_on_bounds:
  assumes "ticket_tags st = Ok td"
    and "unat (td_created_on td) + unat (td_lifetime td) * 86400 < 2 ^ 64"
  shows "(unat (td_lifetime td) \<le> 49710 \<longrightarrow>
      (\<exists>t. expires_on e st = Ok t \<and> unat t = unat (td_created_on td) + unat (td_lifetime td) * 86400))
    \<and> (49710 < unat (td_lifetime td) \<longrightarrow>
      (if overflow_checks e then expires_on e st = panic
       else \<exists>t. expires_on e st = Ok t
          \<and> unat t < unat (td_created_on td) + unat (td_lifetime td) * 86400))"
proof (intro conjI impI)
  show "\<exists>t. expires_on e st = Ok t \<and> unat t = unat (td_created_on td) + unat (td_lifetime td) * 86400"
    if "unat (td_lifetime td) \<le> 49710"
    using expires_on_fits assms that by blast
  assume big: "49710 < unat (td_lifetime td)"
  let ?span = "ucast (td_lifetime td * 86400) :: u64"
  have less: "unat ?span < unat (td_lifetime td) * 86400"
  proof -
    have "unat (td_lifetime td * 86400) = unat (td_lifetime td) * 86400 mod 2 ^ 32"
      by (simp add: unat_word_ariths)
    also have "\<dots> < 2 ^ 32" by simp
    also have "\<dots> < unat (td_lifetime td) * 86400" using big by simp
    finally show ?thesis by simp
  qed
  then have sum: "unat (td_created_on td) + unat ?span < 2 ^ 64" using assms(2) by simp
  show "if overflow_checks e then expires_on e st = panic
       else \<exists>t. expires_on e st = Ok t
          \<and> unat t < unat (td_created_on td) + unat (td_lifetime td) * 86400"
    using assms(1) big less u64_add_unat [OF sum]
    by (auto simp: expires_on_def expires_on_with_epoch_def DEFAULT_EPOCH_SECONDS_def u32_mul_def arith_def)
qed


lemma expires_on_bounds_witness:
  "expires_on sample_env ((sample_ticket 1 1000)\<lparr>st_ticket := Some \<lparr>tk_credential = [],
     tk_tags = Some \<lparr>td_group_number = 1, td_lifetime = 49711, td_created_on = 1000\<rparr>\<rparr>\<rparr>) = panic"
  using expires_on_bounds [of "(sample_ticket 1 1000)\<lparr>st_ticket := Some \<lparr>tk_credential = [],
     tk_tags = Some \<lparr>td_group_number = 1, td_lifetime = 49711, td_created_on = 1000\<rparr>\<rparr>\<rparr>" _ sample_env]
  by (simp add: ticket_tags_def)

text \<open>the sum of two amounts of one currency, both non-negative with a fractional part below a
  million, is again such an amount with exactly the summed value, as long as the whole parts do not
  reach the \<open>i32\<close> limit; amounts of two currencies are refused.\<close>

theorem amount_add_value:
  assumes "amount_ok a" "amount_ok b" "sint (am_whole a) + sint (am_whole b) + 1 < 2 ^ 31"
  shows "if am_code a \<noteq> am_code b then amount_add e a b = Err InvalidSplitCurrencyMismatch
    else \<exists>c. amount_add e a b = Ok c \<and> amount_ok c \<and> am_code c = am_code a
      \<and> micros c = micros a + micros b"
  using amount_add_exact [of a b e] assms by simp

lemma amount_add_value_witness:
  "\<exists>c. amount_add sample_env (sample_amount 3) ((sample_amount 4)\<lparr>am_fractional := 999999\<rparr>) = Ok c
     \<and> micros c = 7999999"
  using amount_add_value [of "sample_amount 3" "(sample_amount 4)\<lparr>am_fractional := 999999\<rparr>" sample_env]
  by (auto simp: amount_ok_def micros_def)

subsection \<open>Transfer and verification\<close>

text \<open>What both transfers append: an entry that links to the last one.\<close>

lemma transfer_basis_current:
  assumes "tok_base tok = Some base"
  shows "transfer_basis tok = Ok (s, c) \<longleftrightarrow>
     s = hi_signature (current_entry tok) \<and> credential_of (current_entry tok) = Some c"
proof -
  have "transfer_basis tok = and_then (recipient_credential (current_entry tok))
      (\<lambda>c. Ok (hi_signature (current_entry tok), c))"
    using assms by (simp add: transfer_basis_def current_entry_def split: option.split)
  then show ?thesis by (auto simp: and_then_Inr_iff recipient_credential_Ok_iff)
qed

lemma push_history_simps [simp]:
  "tok_base (push_history tok t sig) = tok_base tok"
  "tok_descriptor (push_history tok t sig) = tok_descriptor tok"
  "tok_history (push_history tok t sig) = tok_history tok @
     [\<lparr>hi_transfer = Some (t\<lparr>tf_previous_signature := []\<rparr>), hi_signature = deflate_signature sig\<rparr>]"
  "current_entry (push_history tok t sig) =
     \<lparr>hi_transfer = Some (t\<lparr>tf_previous_signature := []\<rparr>), hi_signature = deflate_signature sig\<rparr>"
  by (simp_all add: push_history_def current_entry_def)

lemma current_entry_last: "tok_base tok = Some base \<Longrightarrow> current_entry tok = last (base # tok_history tok)"
  by (simp add: current_entry_def split: option.split)

lemma splits_fit_append: "splits_fit v (xs @ ys) \<longleftrightarrow> splits_fit v xs \<and> splits_fit v ys"
  by (simp only: splits_fit_def set_append Un_iff) blast

lemma splits_fit_no_tags: "transfer_tags h = [] \<Longrightarrow> splits_fit v [h]"
  by (simp add: splits_fit_def)

lemma push_history_verifies:
  assumes ok: "token_verify e now tok gpk mints clerks = Ok True" and clerks: "clerks \<noteq> []"
    and basis: "transfer_basis tok = Ok (prev, c)"
    and sig: "inflate_signature c (deflate_signature sig) = Ok sig"
      "v1_verify e gpk (Some prev) (Some c) sig (enc_transfer e (new_transfer dest prev)) = Ok True"
    and dest: "ticket_verify e now dest clerks None = Ok True"
  shows "token_verify e now (push_history tok (new_transfer dest prev) sig) gpk mints clerks = Ok True"
proof -
  obtain base d where t: "tok_base tok = Some base" "tok_descriptor tok = Some d"
      "verify_base e base d mints clerks = Ok True" "valid_chain e gpk clerks tok"
      "unexpired now base" "splits_fit (ds_value d) (tok_history tok)"
    using ok by (simp only: token_verify_Ok_iff) blast
  let ?t = "new_transfer dest prev"
  let ?h = "\<lparr>hi_transfer = Some (?t\<lparr>tf_previous_signature := []\<rparr>), hi_signature = deflate_signature sig\<rparr>"
  have hist: "verify_signature_and_key e dest clerks None = Ok True"
    using dest verify_signature_and_key_True by (auto simp: ticket_verify_def and_then_Inr_iff)
  have same: "?t\<lparr>tf_previous_signature := prev\<rparr> = ?t" by (simp add: new_transfer_def)
  have c: "credential_of (current_entry tok) = Some c" "prev = hi_signature (current_entry tok)"
    using basis transfer_basis_current [OF t(1)] by auto
  have "entry_ok e gpk clerks c prev ?h"
    using sig hist same by (simp add: entry_ok_def) (simp add: new_transfer_def)
  then have "link_ok e gpk clerks (last (base # tok_history tok)) ?h"
    using c current_entry_last [OF t(1)] by (simp add: link_ok_def)
  then have "chain_ok e gpk clerks base (tok_history tok @ [?h])"
    using t(1,4) valid_chain_chain_ok by (simp add: chain_ok_append)
  then have chain: "valid_chain e gpk clerks (push_history tok ?t sig)"
    using t(1) valid_chain_chain_ok [of "push_history tok ?t sig" base] by simp
  have holder: "holder_ticket_ok e now clerks (push_history tok ?t sig)"
    using dest by (simp add: holder_ticket_ok_def recipient_of_def) (simp add: new_transfer_def)
  have "splits_fit (ds_value d) (tok_history (push_history tok ?t sig))"
    using t(6) by (simp add: splits_fit_append splits_fit_no_tags new_transfer_def transfer_tags_def)
  then show ?thesis
    using t chain holder by (simp only: token_verify_Ok_iff push_history_simps) simp
qed


lemma token_transfer_verifies:
  assumes "token_verify e now tok gpk mints clerks = Ok True" "clerks \<noteq> []"
    and "ticket_verify e now dest clerks None = Ok True"
    and "credential_of (current_entry tok) = Some cred" "v1_signs_for e gpk cred sk"
    and "token_transfer e draw tok dest sk = Ok tok'"
  shows "token_verify e now tok' gpk mints clerks = Ok True"
proof -
  obtain base where base: "tok_base tok = Some base"
    using assms(1) by (simp only: token_verify_Ok_iff) blast
  let ?prev = "hi_signature (current_entry tok)"
  have basis: "transfer_basis tok = Ok (?prev, cred)"
    using transfer_basis_current [OF base] assms(4) by simp
  obtain sig where sig: "v1_sign e draw (enc_transfer e (new_transfer dest ?prev)) cred sk (Some ?prev) False = Ok (Some sig)"
    and tok': "tok' = push_history tok (new_transfer dest ?prev) sig"
    using assms(6) basis by (auto simp: token_transfer_def and_then_Inr_iff Let_def split: option.splits)
  show ?thesis
    unfolding tok' using assms(1-3) basis v1_signs_forD [OF assms(5) sig] by (metis push_history_verifies)
qed

text \<open>C4: a token that verifies still verifies after its holder transfers it to a ticket that
  verifies, when the group signature made for the transfer is one \<open>v1::verify\<close> accepts (completeness
  of the scheme for the holder's credential): the stored entry, with the previous signature cleared
  and the credential cut out of the signature, is enough to rebuild what was signed.\<close>

theorem transfer_then_verify:
  assumes "token_verify e now tok gpk mints clerks = Ok True" "clerks \<noteq> []"
    and "ticket_verify e now dest clerks None = Ok True"
    and "credential_of (current_entry tok) = Some cred" "v1_signs_for e gpk cred sk"
    and "token_transfer e draw tok dest sk = Ok tok'"
  shows "token_verify e now tok' gpk mints clerks = Ok True"
  using assms by (rule token_transfer_verifies)

lemma transfer_then_verify_witness:
  "\<exists>tok'. token_transfer sample_env 0 (sample_token 10 1 []) (sample_ticket 2 1000) [] = Ok tok'
     \<and> token_verify sample_env 2000 tok' [] [[9]] [[7]] = Ok True"
proof -
  have "\<exists>tok'. token_transfer sample_env 0 (sample_token 10 1 []) (sample_ticket 2 1000) [] = Ok tok'"
    by (simp add: token_transfer_def transfer_basis_def recipient_credential_def recipient_ticket_def)
  then obtain tok' where t: "token_transfer sample_env 0 (sample_token 10 1 []) (sample_ticket 2 1000) [] = Ok tok'" ..
  have v: "token_verify sample_env 2000 (sample_token 10 1 []) [] [[9]] [[7]] = Ok True"
    by (simp add: token_verify_def recipient_credential_def recipient_ticket_def tag_not_expired_def)
  show ?thesis
    using transfer_then_verify [OF v _ _ _ sample_v1_signs_for t] t by (auto simp: current_entry_def)
qed

text \<open>a transfer, with the wallet's key or with the smart card, only appends: the descriptor, the
  base and the entries of the history stay, and the new entry names the destination and has no tags.\<close>

theorem transfers_append:
  assumes "token_transfer e draw tok dest sk = Ok tok'
    \<or> token_transfer_split e draw tok dest signer sk auth = Ok tok'"
  shows "tok_descriptor tok' = tok_descriptor tok \<and> tok_base tok' = tok_base tok
    \<and> (\<exists>sig. tok_history tok' = tok_history tok @
          [\<lparr>hi_transfer = Some (new_transfer dest []), hi_signature = sig\<rparr>])"
  using assms
  by (auto simp: token_transfer_def token_transfer_split_def and_then_Inr_iff Let_def new_transfer_def
      split: option.splits sum.splits smart_card_error.splits)

lemma transfers_append_witness:
  "\<exists>tok' sig. token_transfer sample_env 0 (sample_token 10 1 []) (sample_ticket 2 1000) [] = Ok tok'
     \<and> tok_history tok' = [\<lparr>hi_transfer = Some (new_transfer (sample_ticket 2 1000) []), hi_signature = sig\<rparr>]"
proof -
  have "\<exists>tok'. token_transfer sample_env 0 (sample_token 10 1 []) (sample_ticket 2 1000) [] = Ok tok'"
    by (simp add: token_transfer_def transfer_basis_def recipient_credential_def recipient_ticket_def)
  then show ?thesis using transfers_append [OF disjI1] by fastforce
qed

end
