(* ===== verification/Table.thy ===== *)
theory Table
  imports Prelude
begin

section \<open>SQLite tables with a primary key\<close>

text \<open>
  The services keep their state in SQLite tables through rusqlite. A table with a primary key is an
  association list in the order of insertion: \<open>SELECT\<close> by key, \<open>INSERT\<close> (which fails when the key is
  present), \<open>UPDATE .. WHERE key\<close> (which changes nothing when it is absent), \<open>INSERT OR REPLACE\<close> and
  \<open>DELETE .. WHERE key\<close>. rusqlite refuses to store a \<open>u64\<close> above \<open>i64::MAX\<close>. Every database error
  reaches the caller as the code \<open>DatabaseInteractionError\<close>.
\<close>

type_synonym ('k, 'r) table = "('k \<times> 'r) list"

definition tbl_get :: "('k, 'r) table \<Rightarrow> 'k \<Rightarrow> 'r option" where
  "tbl_get t k = map_of t k"

definition tbl_insert :: "('k, 'r) table \<Rightarrow> 'k \<Rightarrow> 'r \<Rightarrow> ('k, 'r) table option" where
  "tbl_insert t k r = (if tbl_get t k = None then Some (t @ [(k, r)]) else None)"

definition tbl_update :: "('k, 'r) table \<Rightarrow> 'k \<Rightarrow> 'r \<Rightarrow> ('k, 'r) table" where
  "tbl_update t k r = map (\<lambda>(k', r'). (k', if k' = k then r else r')) t"

definition tbl_delete :: "('k, 'r) table \<Rightarrow> 'k \<Rightarrow> ('k, 'r) table" where
  "tbl_delete t k = filter (\<lambda>(k', r). k' \<noteq> k) t"

definition tbl_replace :: "('k, 'r) table \<Rightarrow> 'k \<Rightarrow> 'r \<Rightarrow> ('k, 'r) table" where
  "tbl_replace t k r = tbl_delete t k @ [(k, r)]"

definition sql_u64 :: "u64 \<Rightarrow> bool" where
  "sql_u64 w \<longleftrightarrow> unat w < 2 ^ 63"

text \<open>The invariant SQLite keeps: no key twice.\<close>

definition tbl_wf :: "('k, 'r) table \<Rightarrow> bool" where
  "tbl_wf t \<longleftrightarrow> distinct (map fst t)"

lemma tbl_wf_Nil [simp]: "tbl_wf []"
  by (simp add: tbl_wf_def)

lemma tbl_get_Nil [simp]: "tbl_get [] k = None"
  by (simp add: tbl_get_def)

lemma tbl_get_None_iff: "tbl_get t k = None \<longleftrightarrow> k \<notin> fst ` set t"
  by (simp add: tbl_get_def map_of_eq_None_iff)

lemma tbl_get_mem: "tbl_get t k = Some r \<Longrightarrow> (k, r) \<in> set t"
  by (simp add: tbl_get_def map_of_SomeD)

lemma tbl_mem_get: "tbl_wf t \<Longrightarrow> (k, r) \<in> set t \<Longrightarrow> tbl_get t k = Some r"
  by (simp add: tbl_get_def tbl_wf_def map_of_is_SomeI)

lemma tbl_wf_insert: "tbl_wf t \<Longrightarrow> tbl_insert t k r = Some t' \<Longrightarrow> tbl_wf t'"
  by (auto simp: tbl_wf_def tbl_insert_def tbl_get_None_iff split: if_splits)

lemma tbl_get_insert:
  "tbl_insert t k r = Some t' \<Longrightarrow> tbl_get t' k' = (if k' = k then Some r else tbl_get t k')"
  by (auto simp: tbl_insert_def tbl_get_def map_add_def split: if_splits option.splits)

lemma tbl_insert_None_iff: "tbl_insert t k r = None \<longleftrightarrow> tbl_get t k \<noteq> None"
  by (simp add: tbl_insert_def)

lemma map_fst_update [simp]: "map fst (tbl_update t k r) = map fst t"
  by (induction t) (auto simp: tbl_update_def)

lemma tbl_wf_update: "tbl_wf t \<Longrightarrow> tbl_wf (tbl_update t k r)"
  by (simp add: tbl_wf_def)

lemma tbl_get_update:
  "tbl_get (tbl_update t k r) k' =
     (if k' = k \<and> tbl_get t k \<noteq> None then Some r else tbl_get t k')"
  by (induction t) (auto simp: tbl_update_def tbl_get_def)

lemma tbl_wf_delete: "tbl_wf t \<Longrightarrow> tbl_wf (tbl_delete t k)"
  by (induction t) (auto simp: tbl_wf_def tbl_delete_def)

lemma tbl_get_delete: "tbl_get (tbl_delete t k) k' = (if k' = k then None else tbl_get t k')"
  by (induction t) (auto simp: tbl_delete_def tbl_get_def)

lemma tbl_wf_replace: "tbl_wf t \<Longrightarrow> tbl_wf (tbl_replace t k r)"
  using tbl_wf_delete [of t k]
  by (auto simp: tbl_replace_def tbl_wf_def) (auto simp: tbl_delete_def)

lemma tbl_get_replace: "tbl_get (tbl_replace t k r) k' = (if k' = k then Some r else tbl_get t k')"
  using tbl_get_delete [of t k k']
  by (auto simp: tbl_replace_def tbl_get_def map_add_def split: option.splits)

subsection \<open>The interface of a keyed table\<close>

text \<open>
  What a service relies on: a row is found under its key after an insert, other keys are untouched,
  an insert under a present key is refused. The extension adds the operations that overwrite.
\<close>

locale keyed_table =
  fixes get :: "'t \<Rightarrow> 'k \<Rightarrow> 'r option"
    and ins :: "'t \<Rightarrow> 'k \<Rightarrow> 'r \<Rightarrow> 't option"
    and wf :: "'t \<Rightarrow> bool"
  assumes ins_wf: "wf t \<Longrightarrow> ins t k r = Some t' \<Longrightarrow> wf t'"
    and ins_get: "ins t k r = Some t' \<Longrightarrow> get t' k' = (if k' = k then Some r else get t k')"
    and ins_refused: "ins t k r = None \<longleftrightarrow> get t k \<noteq> None"
begin

lemma ins_Some_iff: "(\<exists>t'. ins t k r = Some t') \<longleftrightarrow> get t k = None"
  using ins_refused by (metis not_None_eq)

lemma ins_twice: "ins t k r = Some t' \<Longrightarrow> ins t' k r' = None"
  by (simp add: ins_refused ins_get)

lemma ins_keeps: "ins t k r = Some t' \<Longrightarrow> get t k' = Some r' \<Longrightarrow> get t' k' = Some r'"
  using ins_refused [of t k r] by (auto simp: ins_get)

lemma ins_dom: "ins t k r = Some t' \<Longrightarrow> dom (get t') = insert k (dom (get t))"
  by (auto simp: ins_get split: if_splits)

end

locale overwritable_table = keyed_table +
  fixes upd rep :: "'a \<Rightarrow> 'b \<Rightarrow> 'c \<Rightarrow> 'a" and del :: "'a \<Rightarrow> 'b \<Rightarrow> 'a"
  assumes upd_wf: "wf t \<Longrightarrow> wf (upd t k r)"
    and upd_get: "get (upd t k r) k' = (if k' = k \<and> get t k \<noteq> None then Some r else get t k')"
    and rep_wf: "wf t \<Longrightarrow> wf (rep t k r)"
    and rep_get: "get (rep t k r) k' = (if k' = k then Some r else get t k')"
    and del_wf: "wf t \<Longrightarrow> wf (del t k)"
    and del_get: "get (del t k) k' = (if k' = k then None else get t k')"
begin

lemma upd_dom: "dom (get (upd t k r)) = dom (get t)"
  by (auto simp: upd_get split: if_splits)

lemma upd_present: "get t k = Some r0 \<Longrightarrow> get (upd t k r) k = Some r"
  by (simp add: upd_get)

lemma rep_dom: "dom (get (rep t k r)) = insert k (dom (get t))"
  by (auto simp: rep_get split: if_splits)

lemma ins_after_del: "\<exists>t'. ins (del t k) k r = Some t'"
  by (simp add: ins_Some_iff del_get)

end

interpretation tbl: overwritable_table tbl_get tbl_insert tbl_wf tbl_update tbl_replace tbl_delete
  by unfold_locales
    (fact tbl_wf_insert tbl_get_insert tbl_insert_None_iff tbl_wf_update tbl_get_update
      tbl_wf_replace tbl_get_replace tbl_wf_delete tbl_get_delete)+

text \<open>Presence of a key.\<close>

definition tbl_has :: "('k, 'r) table \<Rightarrow> 'k \<Rightarrow> bool" where
  "tbl_has t k \<longleftrightarrow> tbl_get t k \<noteq> None"

lemma tbl_has_Nil [simp]: "\<not> tbl_has [] k"
  by (simp add: tbl_has_def)

lemma tbl_hasI: "tbl_get t k = Some r \<Longrightarrow> tbl_has t k"
  by (simp add: tbl_has_def)

lemma tbl_has_update [simp]: "tbl_has (tbl_update t k r) k' = tbl_has t k'"
  by (simp add: tbl_has_def tbl.upd_get)

lemma tbl_has_insert: "tbl_insert t k r = Some t' \<Longrightarrow> tbl_has t' k' \<longleftrightarrow> k' = k \<or> tbl_has t k'"
  by (simp add: tbl_has_def tbl.ins_get)

lemma tbl_has_replace [simp]: "tbl_has (tbl_replace t k r) k' \<longleftrightarrow> k' = k \<or> tbl_has t k'"
  by (simp add: tbl_has_def tbl.rep_get)

lemma tbl_insert_new: "\<not> tbl_has t k \<Longrightarrow> \<exists>t'. tbl_insert t k r = Some t'"
  by (simp add: tbl_has_def tbl.ins_Some_iff)

lemma tbl_insert_refused_iff: "tbl_insert t k r = None \<longleftrightarrow> tbl_has t k"
  by (simp add: tbl_has_def tbl.ins_refused)

lemma tbl_insert_SomeD: "tbl_insert t k r = Some t' \<Longrightarrow> \<not> tbl_has t k"
  by (metis option.distinct(1) tbl_insert_refused_iff)

end
