(* ===== verification/TokenMap.thy ===== *)
theory TokenMap
  imports Token Table
begin

section \<open>The token map (\<open>tokenmap/src/server.rs\<close>)\<close>

text \<open>
  The service that sees every token the mints and the validators report. For each token id (the
  base signature) it keeps the histories seen so far, files a revocation when two of them fork
  without a matching split, keeps the tickets the clerk issued, and indexes token ids by the hash
  of the last holder's credential. The state is the five SQLite tables. Blobs are stored as the
  messages they encode, because every row is written by \<open>encode_to_vec\<close> of the same service.
  \<open>now\<close> is the clock during the request.
\<close>

record stored_ticket =
  stk_ticket :: signed_ticket
  stk_nac :: linkable_signature
  stk_expires_on :: u64

record tokenmap =
  tm_tokens :: "(bytes, entry) table"
  tm_tickets :: "(bytes, stored_ticket) table"
  tm_revocation :: "(bytes, revocation_data \<times> u64) table"
  tm_archive :: "(bytes, revocation_data \<times> u64) table"
  tm_holders :: "(bytes \<times> bytes, u64) table"

definition tokenmap_new :: tokenmap where
  "tokenmap_new = \<lparr>tm_tokens = [], tm_tickets = [], tm_revocation = [], tm_archive = [], tm_holders = []\<rparr>"

record update_reply =
  ur_created :: bool
  ur_abuse_detected :: bool

subsection \<open>Comparing histories\<close>

definition get_split_amount :: "transfer_msg option \<Rightarrow> amount option" where
  "get_split_amount maybe_transfer =
     (case maybe_transfer of
        None \<Rightarrow> None
      | Some t \<Rightarrow>
          (case find (\<lambda>tg. \<exists>a. tg = Some (SplitValue a)) (tf_tags t) of
             Some (Some (SplitValue a)) \<Rightarrow> Some a
           | _ \<Rightarrow> None))"

definition sigs :: "token \<Rightarrow> bytes list" where
  "sigs tok = map hi_signature (tok_history tok)"

fun token_is_known :: "token \<Rightarrow> token list \<Rightarrow> bool" where
  "token_is_known candidate [] = False"
| "token_is_known candidate (tok # toks) =
     (if length (tok_history candidate) > length (tok_history tok) then token_is_known candidate toks
      else if first_diff (sigs tok) (sigs candidate) \<noteq> None then token_is_known candidate toks
      else True)"

text \<open>The check of the entries an extension adds; \<open>False\<close> is the \<open>return None\<close> of the loop.\<close>

fun extension_splits_ok :: "amount option \<Rightarrow> history list \<Rightarrow> bool" where
  "extension_splits_ok original [] = True"
| "extension_splits_ok original (h # hs) =
     (case get_split_amount (hi_transfer h) of
        None \<Rightarrow> extension_splits_ok original hs
      | Some split_amount \<Rightarrow>
          (case original of
             None \<Rightarrow> False
           | Some orig \<Rightarrow>
               if am_code split_amount \<noteq> am_code orig then False
               else if amount_exceeds split_amount orig then False
               else extension_splits_ok original hs))"

definition descriptor_value :: "token \<Rightarrow> amount option" where
  "descriptor_value tok = (case tok_descriptor tok of None \<Rightarrow> None | Some d \<Rightarrow> ds_value d)"

text \<open>\<open>index\<close> counts the tokens already passed.\<close>

fun token_is_extension :: "nat \<Rightarrow> token \<Rightarrow> token list \<Rightarrow> nat option" where
  "token_is_extension index candidate [] = None"
| "token_is_extension index candidate (tok # toks) =
     (if length (tok_history candidate) \<le> length (tok_history tok)
      then token_is_extension (Suc index) candidate toks
      else if first_diff (sigs tok) (sigs candidate) \<noteq> None
      then token_is_extension (Suc index) candidate toks
      else if extension_splits_ok (descriptor_value candidate)
                (drop (length (tok_history tok)) (tok_history candidate))
      then Some index
      else None)"

fun token_get_fork :: "nat \<Rightarrow> token \<Rightarrow> token list \<Rightarrow> (nat \<times> nat) option" where
  "token_get_fork index candidate [] = None"
| "token_get_fork index candidate (tok # toks) =
     (case first_diff (sigs tok) (sigs candidate) of
        Some pos \<Rightarrow> Some (index, pos)
      | None \<Rightarrow> token_get_fork (Suc index) candidate toks)"

text \<open>The two amounts at the fork with the first stored history that differs.\<close>

definition splits_add_up :: "env \<Rightarrow> token \<Rightarrow> history \<Rightarrow> history \<Rightarrow> bool result" where
  "splits_add_up e tok known unknown =
     (case (get_split_amount (hi_transfer known), get_split_amount (hi_transfer unknown)) of
        (Some known_amount, Some unknown_amount) \<Rightarrow>
          if am_code known_amount \<noteq> am_code unknown_amount then Ok False
          else and_then (unwrap (tok_descriptor tok)) (\<lambda>d.
            and_then (unwrap (ds_value d)) (\<lambda>original_total.
            case amount_add e known_amount unknown_amount of
              Inr summed \<Rightarrow> Ok (summed = original_total)
            | Inl Panic \<Rightarrow> panic
            | Inl (Fail c) \<Rightarrow> Ok False))
      | _ \<Rightarrow> Ok False)"

fun token_is_second_split :: "env \<Rightarrow> token \<Rightarrow> token list \<Rightarrow> bool result" where
  "token_is_second_split e candidate [] = Ok False"
| "token_is_second_split e candidate (tok # toks) =
     (case first_diff (sigs tok) (sigs candidate) of
        Some pos \<Rightarrow> splits_add_up e tok (tok_history tok ! pos) (tok_history candidate ! pos)
      | None \<Rightarrow> token_is_second_split e candidate toks)"

subsection \<open>The database operations\<close>

definition get_tokenmap_entry :: "bytes \<Rightarrow> tokenmap \<Rightarrow> entry option" where
  "get_tokenmap_entry i tm = tbl_get (tm_tokens tm) i"

definition create_tokenmap_entry :: "u64 \<Rightarrow> bytes \<Rightarrow> token \<Rightarrow> tokenmap \<Rightarrow> unit result \<times> tokenmap" where
  "create_tokenmap_entry now i tok tm =
     (let en = \<lparr>en_id = i, en_tokens = [tok], en_abuses = [], en_last_update = now\<rparr> in
      if \<not> sql_u64 now then (Err DatabaseInteractionError, tm)
      else case tbl_insert (tm_tokens tm) i en of
        None \<Rightarrow> (Err DatabaseInteractionError, tm)
      | Some t \<Rightarrow> (Ok (), tm\<lparr>tm_tokens := t\<rparr>))"

definition update_tokenmap_entry :: "bytes \<Rightarrow> entry \<Rightarrow> tokenmap \<Rightarrow> unit result \<times> tokenmap" where
  "update_tokenmap_entry i en tm =
     (if \<not> sql_u64 (en_last_update en) then (Err DatabaseInteractionError, tm)
      else (Ok (), tm\<lparr>tm_tokens := tbl_update (tm_tokens tm) i en\<rparr>))"

definition get_ticket_signature :: "bytes \<Rightarrow> tokenmap \<Rightarrow> linkable_signature option" where
  "get_ticket_signature credential tm = map_option stk_nac (tbl_get (tm_tickets tm) credential)"

definition insert_signed_ticket ::
  "bytes \<Rightarrow> signed_ticket \<Rightarrow> linkable_signature \<Rightarrow> u64 \<Rightarrow> tokenmap \<Rightarrow> unit result \<times> tokenmap" where
  "insert_signed_ticket credential st nac expiration tm =
     (if \<not> sql_u64 expiration then (Err DatabaseInteractionError, tm)
      else case tbl_insert (tm_tickets tm) credential
                  \<lparr>stk_ticket = st, stk_nac = nac, stk_expires_on = expiration\<rparr> of
        None \<Rightarrow> (Err DatabaseInteractionError, tm)
      | Some t \<Rightarrow> (Ok (), tm\<lparr>tm_tickets := t\<rparr>))"

definition insert_revocation_data ::
  "bytes \<Rightarrow> revocation_data \<Rightarrow> tokenmap \<Rightarrow> unit result \<times> tokenmap" where
  "insert_revocation_data i rd tm =
     (if \<not> sql_u64 (rd_timestamp rd) then (Err DatabaseInteractionError, tm)
      else case tbl_insert (tm_revocation tm) i (rd, rd_timestamp rd) of
        None \<Rightarrow> (Err DatabaseInteractionError, tm)
      | Some t \<Rightarrow> (Ok (), tm\<lparr>tm_revocation := t\<rparr>))"

definition insert_archive_data ::
  "bytes \<Rightarrow> revocation_data \<Rightarrow> u64 \<Rightarrow> tokenmap \<Rightarrow> unit result \<times> tokenmap" where
  "insert_archive_data i rd created_on tm =
     (if \<not> sql_u64 created_on then (Err DatabaseInteractionError, tm)
      else case tbl_insert (tm_archive tm) i (rd, created_on) of
        None \<Rightarrow> (Err DatabaseInteractionError, tm)
      | Some t \<Rightarrow> (Ok (), tm\<lparr>tm_archive := t\<rparr>))"

definition get_revocation_data :: "bytes \<Rightarrow> tokenmap \<Rightarrow> revocation_data_entry list" where
  "get_revocation_data i tm =
     (case tbl_get (tm_revocation tm) i of
        None \<Rightarrow> []
      | Some (rd, created_on) \<Rightarrow> [\<lparr>rde_id = i, rde_data = Some rd, rde_created_on = created_on\<rparr>])"

definition get_all_revocation_data :: "tokenmap \<Rightarrow> revocation_data_entry list" where
  "get_all_revocation_data tm =
     map (\<lambda>(i, rd, created_on). \<lparr>rde_id = i, rde_data = Some rd, rde_created_on = created_on\<rparr>)
       (tm_revocation tm)"

text \<open>The last recipient's credential, when every field on the way is there.\<close>

definition holder_credential :: "token \<Rightarrow> bytes option" where
  "holder_credential tok =
     (let credential = (\<lambda>h. Option.bind (hi_transfer h) (\<lambda>t. Option.bind (tf_recipient t)
            (\<lambda>r. map_option tk_credential (st_ticket r)))) in
      case last_opt (tok_history tok) of
        Some last_history \<Rightarrow> credential last_history
      | None \<Rightarrow> Option.bind (tok_base tok) credential)"

text \<open>Its result is discarded by every caller; the row holds the clock's value.\<close>

definition update_holder_index :: "env \<Rightarrow> u64 \<Rightarrow> bytes \<Rightarrow> token \<Rightarrow> tokenmap \<Rightarrow> tokenmap" where
  "update_holder_index e now token_id tok tm =
     (case holder_credential tok of
        None \<Rightarrow> tm
      | Some cred \<Rightarrow>
          if cred = [] then tm
          else tm\<lparr>tm_holders := tbl_replace (tm_holders tm) (sha256 e cred, token_id) now\<rparr>)"

subsection \<open>\<open>update_impl\<close>\<close>

text \<open>The revocation record of a double spend found at \<open>tokens[token_index].history[history_index]\<close>.\<close>

definition token_expiry_of :: "token \<Rightarrow> u64 option result" where
  "token_expiry_of tok =
     and_then (unwrap (tok_base tok)) (\<lambda>b.
     and_then (unwrap (hi_transfer b)) (\<lambda>t.
     Ok (find (\<lambda>ts. ts \<noteq> 0)
           (map (\<lambda>tg. case tg of Some (ValidUntil ts) \<Rightarrow> ts | _ \<Rightarrow> 0) (tf_tags t)))))"

definition double_spend_revocation ::
  "env \<Rightarrow> u64 \<Rightarrow> bytes \<Rightarrow> entry \<Rightarrow> nat \<Rightarrow> nat \<Rightarrow> tokenmap \<Rightarrow> revocation_data result" where
  "double_spend_revocation e now i en token_index history_index tm =
     and_then (unwrap (if en_tokens en = [] then None else Some (hd (en_tokens en)))) (\<lambda>first_token.
     and_then (token_expiry_of first_token) (\<lambda>token_expiry.
     let tok = en_tokens en ! token_index; ds_history = tok_history tok ! history_index in
     and_then (if history_index = 0 then unwrap (tok_base tok)
               else Ok (tok_history tok ! (history_index - 1))) (\<lambda>prev_history.
     and_then (recipient_ticket ds_history) (\<lambda>signed.
     and_then (unwrap (st_ticket signed)) (\<lambda>tk.
     case get_ticket_signature (tk_credential tk) tm of
       None \<Rightarrow> Err TicketSignatureMissing
     | Some nac_sig \<Rightarrow>
         and_then (unwrap (tk_tags tk)) (\<lambda>ticket_tags.
         and_then (expires_on e signed) (\<lambda>ticket_expiration.
         and_then (unwrap token_expiry) (\<lambda>expiry.
         Ok \<lparr>rd_timestamp = now, rd_nac = Some nac_sig,
             rd_ttc = Some \<lparr>ls_signature = hi_signature ds_history,
               ls_basename = hi_signature prev_history, ls_group_public_key = []\<rparr>,
             rd_token_id = i, rd_token_expiry = expiry,
             rd_groups = [\<lparr>gr_number = td_group_number ticket_tags, gr_expiration = ticket_expiration\<rparr>],
             rd_abuse = DoubleSpend\<rparr>))))))))"

definition update_reply_for :: "entry \<Rightarrow> update_reply" where
  "update_reply_for en = \<lparr>ur_created = False, ur_abuse_detected = (en_abuses en \<noteq> [])\<rparr>"

definition update_impl ::
  "env \<Rightarrow> u64 \<Rightarrow> bytes \<Rightarrow> token option \<Rightarrow> tokenmap \<Rightarrow> update_reply result \<times> tokenmap" where
  "update_impl e now i request_token tm =
     (case request_token of
        None \<Rightarrow> (Err InvalidMissingFields, tm)
      | Some candidate \<Rightarrow>
     if i = [] then (Err InvalidMissingFields, tm)
     else case get_tokenmap_entry i tm of
       None \<Rightarrow>
         on_ok (create_tokenmap_entry now i candidate tm) (\<lambda>_ tm'.
           (Ok \<lparr>ur_created = True, ur_abuse_detected = False\<rparr>,
            update_holder_index e now i candidate tm'))
     | Some en \<Rightarrow>
         if token_is_known candidate (en_tokens en) then (Ok (update_reply_for en), tm)
         else case token_is_extension 0 candidate (en_tokens en) of
           Some idx \<Rightarrow>
             let en' = en\<lparr>en_tokens := (en_tokens en)[idx := candidate], en_last_update := now\<rparr> in
             on_ok (update_tokenmap_entry i en' tm) (\<lambda>_ tm'.
               (Ok (update_reply_for en'), update_holder_index e now i candidate tm'))
         | None \<Rightarrow>
             case token_is_second_split e candidate (en_tokens en) of
               Inl f \<Rightarrow> (Inl f, tm)
             | Inr True \<Rightarrow>
                 let en' = en\<lparr>en_tokens := en_tokens en @ [candidate], en_last_update := now\<rparr> in
                 on_ok (update_tokenmap_entry i en' tm) (\<lambda>_ tm'.
                   (Ok (update_reply_for en'), update_holder_index e now i candidate tm'))
             | Inr False \<Rightarrow>
                 case token_get_fork 0 candidate (en_tokens en) of
                   None \<Rightarrow> (panic, tm)
                 | Some (token_index, history_index) \<Rightarrow>
                     case double_spend_revocation e now i en token_index history_index tm of
                       Inl f \<Rightarrow> (Inl f, tm)
                     | Inr revocation_data \<Rightarrow>
                         let ab = \<lparr>ab_discovery_timestamp = now, ab_token_index = of_nat token_index,
                                   ab_history_index = of_nat history_index, ab_abuse_type = DoubleSpend\<rparr>;
                             en' = en\<lparr>en_abuses := en_abuses en @ [ab],
                                      en_tokens := en_tokens en @ [candidate], en_last_update := now\<rparr> in
                         on_ok (update_tokenmap_entry i en' tm) (\<lambda>_ tm'.
                         on_ok (insert_revocation_data i revocation_data tm') (\<lambda>_ tm''.
                           (Ok (update_reply_for en'), tm''))))"

subsection \<open>The other handlers\<close>

fun store_each ::
  "env \<Rightarrow> linkable_signature \<Rightarrow> signed_ticket list \<Rightarrow> tokenmap \<Rightarrow> unit result \<times> tokenmap" where
  "store_each e nac [] tm = (Ok (), tm)"
| "store_each e nac (st # sts) tm =
     (case st_ticket st of
        None \<Rightarrow> (panic, tm)
      | Some tk \<Rightarrow>
          (case expires_on e st of
             Inl f \<Rightarrow> (Inl f, tm)
           | Inr expiration \<Rightarrow>
               on_ok (insert_signed_ticket (tk_credential tk) st nac expiration tm) (\<lambda>_ tm'.
                 store_each e nac sts tm')))"

definition store_tickets_impl ::
  "env \<Rightarrow> signed_ticket list \<Rightarrow> linkable_signature option \<Rightarrow> tokenmap \<Rightarrow> unit result \<times> tokenmap" where
  "store_tickets_impl e tickets request_nac tm =
     (case request_nac of
        None \<Rightarrow> (Err InvalidMissingFields, tm)
      | Some nac \<Rightarrow>
          if tickets = [] then (Err InvalidMissingFields, tm)
          else if ls_signature nac = [] then (Err InvalidMissingFields, tm)
          else store_each e nac tickets tm)"

datatype revocation_select = Select_Id bytes | Select_Group i32

definition SELECT_GROUP_ALL :: i32 where "SELECT_GROUP_ALL = 0"

definition revocation_data_impl ::
  "revocation_select option \<Rightarrow> tokenmap \<Rightarrow> revocation_data_entry list result" where
  "revocation_data_impl select tm =
     (case select of
        None \<Rightarrow> Err InvalidMissingFields
      | Some (Select_Id i) \<Rightarrow>
          if i = [] then Err InvalidMissingFields else Ok (get_revocation_data i tm)
      | Some (Select_Group sg) \<Rightarrow>
          if sg \<noteq> SELECT_GROUP_ALL then Err InvalidMissingFields
          else Ok (get_all_revocation_data tm))"

definition archive_impl :: "bytes \<Rightarrow> tokenmap \<Rightarrow> unit result \<times> tokenmap" where
  "archive_impl i tm =
     (if i = [] then (Err InvalidMissingFields, tm)
      else case get_revocation_data i tm of
        [] \<Rightarrow> (Err RevocationNotFound, tm)
      | rde # _ \<Rightarrow>
          (case rde_data rde of
             None \<Rightarrow> (panic, tm)
           | Some rd \<Rightarrow> insert_archive_data i rd (rde_created_on rde) tm))"

definition entry_expired :: "u64 \<Rightarrow> entry \<Rightarrow> bool" where
  "entry_expired now en =
     list_all (\<lambda>tok. case Option.bind (tok_base tok) hi_transfer of
         None \<Rightarrow> False
       | Some t \<Rightarrow> list_ex (\<lambda>tg. case tg of Some (ValidUntil vu) \<Rightarrow> vu < now | _ \<Rightarrow> False) (tf_tags t))
       (en_tokens en)"

definition find_by_holder_impl ::
  "env \<Rightarrow> u64 \<Rightarrow> bytes \<Rightarrow> bool \<Rightarrow> tokenmap \<Rightarrow> entry list result" where
  "find_by_holder_impl e now ttc_public_key expired_only tm =
     (if ttc_public_key = [] then Err InvalidMissingFields
      else Ok (filter (\<lambda>en. expired_only \<longrightarrow> entry_expired now en)
        (List.map_filter (\<lambda>((h, token_id), _). tbl_get (tm_tokens tm) token_id)
          (filter (\<lambda>((h, token_id), _). h = sha256 e ttc_public_key) (tm_holders tm)))))"

subsection \<open>Histories as a tree of signatures\<close>

text \<open>
  The comparison loops decide the prefix order on signature lists: a candidate is known when a
  stored history extends it, an extension extends a stored one, a fork is incomparable with it.
\<close>

lemma sigs_length [simp]: "length (sigs tok) = length (tok_history tok)"
  by (simp add: sigs_def)

lemma sigs_eq_length: "sigs a = sigs b \<Longrightarrow> length (tok_history a) = length (tok_history b)"
  by (metis sigs_length)

lemma prefix_longer_eq: "prefix xs ys \<Longrightarrow> length ys \<le> length xs \<Longrightarrow> xs = ys"
  by (auto simp: prefix_def)

lemma token_is_known_iff:
  "token_is_known candidate toks \<longleftrightarrow> (\<exists>tok \<in> set toks. prefix (sigs candidate) (sigs tok))"
proof (induction toks)
  case (Cons tok toks)
  have "length (tok_history candidate) \<le> length (tok_history tok) \<and> first_diff (sigs tok) (sigs candidate) = None
      \<longleftrightarrow> prefix (sigs candidate) (sigs tok)"
    using prefix_longer_eq [of "sigs tok" "sigs candidate"]
    by (auto simp: first_diff_None_iff dest: prefix_length_le)
  with Cons show ?case by (auto simp: not_less)
qed simp

lemma token_get_fork_None_iff:
  "token_get_fork n candidate toks = None \<longleftrightarrow> (\<forall>tok \<in> set toks. \<not> sigs tok \<parallel> sigs candidate)"
proof (induction toks arbitrary: n)
  case (Cons tok toks)
  then show ?case
    using first_diff_Some_iff_parallel [of "sigs tok" "sigs candidate"]
    by (auto split: option.splits)
qed simp

lemma token_get_fork_SomeD:
  assumes "token_get_fork n candidate toks = Some (i, pos)"
  shows "n \<le> i" "i - n < length toks" "first_diff (sigs (toks ! (i - n))) (sigs candidate) = Some pos"
  using assms
proof (induction toks arbitrary: n)
  case (Cons tok toks)
  {
    case 1 then show ?case using Cons(1) [of "Suc n"] by (auto split: option.splits)
  next
    case 2 then show ?case using Cons(1,2) [of "Suc n"] by (auto split: option.splits)
  next
    case 3 then show ?case using Cons(1,3) [of "Suc n"] by (auto split: option.splits simp: nth_Cons')
  }
qed simp_all

lemma token_is_extension_SomeD:
  assumes "token_is_extension n candidate toks = Some i"
  shows "n \<le> i" "i - n < length toks" "strict_prefix (sigs (toks ! (i - n))) (sigs candidate)"
    "extension_splits_ok (descriptor_value candidate)
       (drop (length (tok_history (toks ! (i - n)))) (tok_history candidate))"
  using assms
proof (induction toks arbitrary: n)
  case (Cons tok toks)
  {
    case 1 then show ?case using Cons(1) [of "Suc n"] by (auto split: if_splits)
  next
    case 2 then show ?case using Cons(1,2) [of "Suc n"] by (auto split: if_splits)
  next
    case 3 then show ?case using Cons(1,3) [of "Suc n"]
      by (auto split: if_splits simp: nth_Cons' first_diff_None_iff strict_prefix_def not_le
          dest: prefix_length_le sigs_eq_length)
  next
    case 4 then show ?case using Cons(1,4) [of "Suc n"] by (auto split: if_splits simp: nth_Cons')
  }
qed simp_all

text \<open>Without a known history and without an extension, a candidate that no check of the splits
  stopped forks from every stored history.\<close>

lemma extension_None_parallel:
  assumes "\<not> token_is_known candidate toks" "tok \<in> set toks"
    and "\<not> strict_prefix (sigs tok) (sigs candidate)"
  shows "sigs tok \<parallel> sigs candidate"
  using assms by (auto simp: token_is_known_iff parallel_def strict_prefix_def)

subsection \<open>The invariant of the tables\<close>

definition tables_wf :: "tokenmap \<Rightarrow> bool" where
  "tables_wf tm \<longleftrightarrow> tbl_wf (tm_tokens tm) \<and> tbl_wf (tm_tickets tm) \<and> tbl_wf (tm_revocation tm)
     \<and> tbl_wf (tm_archive tm) \<and> tbl_wf (tm_holders tm)"

definition entry_inv :: "tokenmap \<Rightarrow> bytes \<Rightarrow> entry \<Rightarrow> bool" where
  "entry_inv tm i en \<longleftrightarrow> en_id en = i \<and> i \<noteq> [] \<and> en_tokens en \<noteq> []
     \<and> (en_abuses en \<noteq> [] \<longleftrightarrow> tbl_has (tm_revocation tm) i)"

definition tokenmap_inv :: "tokenmap \<Rightarrow> bool" where
  "tokenmap_inv tm \<longleftrightarrow>
     tables_wf tm
     \<and> (\<forall>i en. tbl_get (tm_tokens tm) i = Some en \<longrightarrow> entry_inv tm i en)
     \<and> (\<forall>i rd c. tbl_get (tm_revocation tm) i = Some (rd, c) \<longrightarrow>
          rd_token_id rd = i \<and> rd_timestamp rd = c \<and> tbl_has (tm_tokens tm) i)
     \<and> (\<forall>i row. tbl_get (tm_archive tm) i = Some row \<longrightarrow> tbl_get (tm_revocation tm) i = Some row)
     \<and> (\<forall>h i. tbl_has (tm_holders tm) (h, i) \<longrightarrow> tbl_has (tm_tokens tm) i)"

lemma tokenmap_invI:
  assumes "tables_wf tm"
    and "\<And>i en. tbl_get (tm_tokens tm) i = Some en \<Longrightarrow> entry_inv tm i en"
    and "\<And>i rd c. tbl_get (tm_revocation tm) i = Some (rd, c) \<Longrightarrow>
          rd_token_id rd = i \<and> rd_timestamp rd = c \<and> tbl_has (tm_tokens tm) i"
    and "\<And>i row. tbl_get (tm_archive tm) i = Some row \<Longrightarrow> tbl_get (tm_revocation tm) i = Some row"
    and "\<And>h i. tbl_has (tm_holders tm) (h, i) \<Longrightarrow> tbl_has (tm_tokens tm) i"
  shows "tokenmap_inv tm"
  using assms unfolding tokenmap_inv_def by blast

lemma tokenmap_invD:
  assumes "tokenmap_inv tm"
  shows "tables_wf tm" and "tbl_get (tm_tokens tm) i = Some en \<Longrightarrow> entry_inv tm i en"
    and "tbl_get (tm_revocation tm) i = Some (rd, c) \<Longrightarrow>
      rd_token_id rd = i \<and> rd_timestamp rd = c \<and> tbl_has (tm_tokens tm) i"
    and "tbl_get (tm_archive tm) i = Some row \<Longrightarrow> tbl_get (tm_revocation tm) i = Some row"
    and "tbl_has (tm_holders tm) (h, i) \<Longrightarrow> tbl_has (tm_tokens tm) i"
  using assms unfolding tokenmap_inv_def by blast+

lemma tokenmap_inv_new [simp]: "tokenmap_inv tokenmap_new"
  by (rule tokenmap_invI) (simp_all add: tokenmap_new_def tables_wf_def)

lemma inv_holder_index:
  assumes inv: "tokenmap_inv tm" and i: "tbl_has (tm_tokens tm) i"
  shows "tokenmap_inv (update_holder_index e now i tok tm)"
proof -
  have "tokenmap_inv (tm\<lparr>tm_holders := tbl_replace (tm_holders tm) (h, i) now\<rparr>)" for h
    using tokenmap_invD [OF inv] i
    by (intro tokenmap_invI) (auto simp: tables_wf_def entry_inv_def tbl.rep_wf)
  then show ?thesis using inv by (simp add: update_holder_index_def split: option.split)
qed

lemma inv_create:
  assumes inv: "tokenmap_inv tm" and new: "\<not> tbl_has (tm_tokens tm) i" and "i \<noteq> []"
    and ins: "tbl_insert (tm_tokens tm) i en = Some t"
    and en: "en_id en = i" "en_tokens en \<noteq> []" "en_abuses en = []"
  shows "tokenmap_inv (tm\<lparr>tm_tokens := t\<rparr>)"
proof (rule tokenmap_invI)
  show "tables_wf (tm\<lparr>tm_tokens := t\<rparr>)"
    using tokenmap_invD(1) [OF inv] tbl.ins_wf [OF _ ins] by (simp add: tables_wf_def)
  have norev: "\<not> tbl_has (tm_revocation tm) i"
    using new tokenmap_invD(3) [OF inv, of i] by (cases "tbl_get (tm_revocation tm) i") (auto simp: tbl_has_def)
  show "entry_inv (tm\<lparr>tm_tokens := t\<rparr>) k x" if "tbl_get (tm_tokens (tm\<lparr>tm_tokens := t\<rparr>)) k = Some x" for k x
    using that norev assms(3) en tokenmap_invD(2) [OF inv, of k x]
    by (auto simp: entry_inv_def tbl.ins_get [OF ins] split: if_splits)
qed (use tokenmap_invD [OF inv] tbl_has_insert [OF ins] in auto)

lemma inv_modify:
  assumes inv: "tokenmap_inv tm" and old: "tbl_get (tm_tokens tm) i = Some en"
    and en': "en_id en' = en_id en" "en_tokens en' \<noteq> []"
    and ab: "en_abuses en' \<noteq> [] \<longleftrightarrow> tbl_has (tm_revocation tm) i"
  shows "tokenmap_inv (tm\<lparr>tm_tokens := tbl_update (tm_tokens tm) i en'\<rparr>)" (is "tokenmap_inv ?tm'")
proof (rule tokenmap_invI)
  show "tables_wf ?tm'" using tokenmap_invD(1) [OF inv] by (simp add: tables_wf_def tbl.upd_wf)
  show "entry_inv ?tm' k x" if "tbl_get (tm_tokens ?tm') k = Some x" for k x
    using that en' ab tokenmap_invD(2) [OF inv, of k x] tokenmap_invD(2) [OF inv old]
    by (auto simp: entry_inv_def tbl.upd_get split: if_splits)
qed (use tokenmap_invD [OF inv] in auto)

lemma inv_revoke:
  assumes inv: "tokenmap_inv tm" and old: "tbl_get (tm_tokens tm) i = Some en"
    and en': "en_id en' = en_id en" "en_tokens en' \<noteq> []" "en_abuses en' \<noteq> []"
    and ins: "tbl_insert (tm_revocation tm) i (rd, rd_timestamp rd) = Some t" and rd: "rd_token_id rd = i"
  shows "tokenmap_inv (tm\<lparr>tm_tokens := tbl_update (tm_tokens tm) i en', tm_revocation := t\<rparr>)"
    (is "tokenmap_inv ?tm'")
proof (rule tokenmap_invI)
  show "tables_wf ?tm'"
    using tokenmap_invD(1) [OF inv] tbl.ins_wf [OF _ ins] by (simp add: tables_wf_def tbl.upd_wf)
  show "entry_inv ?tm' k x" if "tbl_get (tm_tokens ?tm') k = Some x" for k x
    using that en' tokenmap_invD(2) [OF inv, of k x] tokenmap_invD(2) [OF inv old]
    by (auto simp: entry_inv_def tbl.upd_get tbl_has_insert [OF ins] split: if_splits)
  show "rd_token_id r = k \<and> rd_timestamp r = c \<and> tbl_has (tm_tokens ?tm') k"
    if "tbl_get (tm_revocation ?tm') k = Some (r, c)" for k r c
    using that rd tbl_hasI [OF old] tokenmap_invD(3) [OF inv, of k r c]
    by (auto simp: tbl.ins_get [OF ins] split: if_splits)
  show "tbl_get (tm_revocation ?tm') k = Some row" if "tbl_get (tm_archive ?tm') k = Some row" for k row
    using that tokenmap_invD(4) [OF inv] tbl.ins_keeps [OF ins] by simp
qed (use tokenmap_invD [OF inv] in auto)


subsection \<open>The outcomes of an update\<close>

text \<open>What \<open>update_impl\<close> does, one fact per branch of the code.\<close>

lemma update_impl_missing [simp]:
  "update_impl e now i None tm = (Err InvalidMissingFields, tm)"
  "update_impl e now [] rt tm = (Err InvalidMissingFields, tm)"
  by (simp_all add: update_impl_def split: option.split)

lemma update_impl_new:
  assumes "i \<noteq> []" "tbl_get (tm_tokens tm) i = None"
  shows "update_impl e now i (Some c) tm =
    (if sql_u64 now
     then (Ok \<lparr>ur_created = True, ur_abuse_detected = False\<rparr>,
           update_holder_index e now i c (tm\<lparr>tm_tokens := tm_tokens tm @
             [(i, \<lparr>en_id = i, en_tokens = [c], en_abuses = [], en_last_update = now\<rparr>)]\<rparr>))
     else (Err DatabaseInteractionError, tm))"
  using assms
  by (simp add: update_impl_def get_tokenmap_entry_def create_tokenmap_entry_def tbl_insert_def Let_def)

lemma update_impl_known:
  assumes "i \<noteq> []" "tbl_get (tm_tokens tm) i = Some en" "token_is_known c (en_tokens en)"
  shows "update_impl e now i (Some c) tm = (Ok (update_reply_for en), tm)"
  using assms by (simp add: update_impl_def get_tokenmap_entry_def)

lemma update_impl_extension:
  assumes "i \<noteq> []" "tbl_get (tm_tokens tm) i = Some en" "\<not> token_is_known c (en_tokens en)"
    and "token_is_extension 0 c (en_tokens en) = Some idx"
  shows "update_impl e now i (Some c) tm =
    (if sql_u64 now
     then (Ok (update_reply_for en),
           update_holder_index e now i c (tm\<lparr>tm_tokens := tbl_update (tm_tokens tm) i
             (en\<lparr>en_tokens := (en_tokens en)[idx := c], en_last_update := now\<rparr>)\<rparr>))
     else (Err DatabaseInteractionError, tm))"
  using assms
  by (simp add: update_impl_def get_tokenmap_entry_def update_tokenmap_entry_def Let_def update_reply_for_def)

lemma update_impl_second_split:
  assumes "i \<noteq> []" "tbl_get (tm_tokens tm) i = Some en" "\<not> token_is_known c (en_tokens en)"
    and "token_is_extension 0 c (en_tokens en) = None" "token_is_second_split e c (en_tokens en) = Ok True"
  shows "update_impl e now i (Some c) tm =
    (if sql_u64 now
     then (Ok (update_reply_for en),
           update_holder_index e now i c (tm\<lparr>tm_tokens := tbl_update (tm_tokens tm) i
             (en\<lparr>en_tokens := en_tokens en @ [c], en_last_update := now\<rparr>)\<rparr>))
     else (Err DatabaseInteractionError, tm))"
  using assms
  by (simp add: update_impl_def get_tokenmap_entry_def update_tokenmap_entry_def Let_def update_reply_for_def)

definition abuse_entry :: "u64 \<Rightarrow> nat \<Rightarrow> nat \<Rightarrow> token \<Rightarrow> entry \<Rightarrow> entry" where
  "abuse_entry now ti hi c en =
     en\<lparr>en_abuses := en_abuses en @ [\<lparr>ab_discovery_timestamp = now, ab_token_index = of_nat ti,
          ab_history_index = of_nat hi, ab_abuse_type = DoubleSpend\<rparr>],
        en_tokens := en_tokens en @ [c], en_last_update := now\<rparr>"

lemma abuse_entry_simps [simp]:
  "en_id (abuse_entry now ti hi c en) = en_id en"
  "en_tokens (abuse_entry now ti hi c en) = en_tokens en @ [c]"
  "en_abuses (abuse_entry now ti hi c en) \<noteq> []"
  "en_last_update (abuse_entry now ti hi c en) = now"
  by (simp_all add: abuse_entry_def)

lemma double_spend_revocation_fields:
  assumes "double_spend_revocation e now i en ti hi tm = Ok rd"
  shows "rd_timestamp rd = now" "rd_token_id rd = i"
  using assms
  by (auto simp: double_spend_revocation_def Let_def and_then_Inr_iff split: option.splits if_splits)

lemma update_impl_double_spend:
  assumes "i \<noteq> []" "tbl_get (tm_tokens tm) i = Some en" "\<not> token_is_known c (en_tokens en)"
    and "token_is_extension 0 c (en_tokens en) = None" "token_is_second_split e c (en_tokens en) = Ok False"
    and "token_get_fork 0 c (en_tokens en) = Some (ti, hi)"
  shows "update_impl e now i (Some c) tm =
    (case double_spend_revocation e now i en ti hi tm of
       Inl f \<Rightarrow> (Inl f, tm)
     | Inr rd \<Rightarrow>
         if \<not> sql_u64 now then (Err DatabaseInteractionError, tm)
         else let tm' = tm\<lparr>tm_tokens := tbl_update (tm_tokens tm) i (abuse_entry now ti hi c en)\<rparr> in
           case tbl_insert (tm_revocation tm) i (rd, now) of
             None \<Rightarrow> (Err DatabaseInteractionError, tm')
           | Some t \<Rightarrow> (Ok \<lparr>ur_created = False, ur_abuse_detected = True\<rparr>, tm'\<lparr>tm_revocation := t\<rparr>))"
  using assms
  by (auto simp: update_impl_def get_tokenmap_entry_def update_tokenmap_entry_def insert_revocation_data_def
      Let_def update_reply_for_def abuse_entry_def double_spend_revocation_fields
      split: sum.split option.split)


lemma update_impl_stuck:
  assumes "i \<noteq> []" "tbl_get (tm_tokens tm) i = Some en" "\<not> token_is_known c (en_tokens en)"
    and "token_is_extension 0 c (en_tokens en) = None"
  shows "token_is_second_split e c (en_tokens en) = Inl f \<Longrightarrow> update_impl e now i (Some c) tm = (Inl f, tm)"
    and "token_is_second_split e c (en_tokens en) = Ok False \<Longrightarrow> token_get_fork 0 c (en_tokens en) = None \<Longrightarrow>
      update_impl e now i (Some c) tm = (panic, tm)"
  using assms by (simp_all add: update_impl_def get_tokenmap_entry_def)

text \<open>The branches cover every call.\<close>

lemma update_impl_cases [case_names Missing New Known Extension Split Stuck Double]:
  obtains "i = [] \<or> rt = None"
  | c where "rt = Some c" "i \<noteq> []" "tbl_get (tm_tokens tm) i = None"
  | c en where "rt = Some c" "i \<noteq> []" "tbl_get (tm_tokens tm) i = Some en" "token_is_known c (en_tokens en)"
  | c en idx where "rt = Some c" "i \<noteq> []" "tbl_get (tm_tokens tm) i = Some en"
      "\<not> token_is_known c (en_tokens en)" "token_is_extension 0 c (en_tokens en) = Some idx"
  | c en where "rt = Some c" "i \<noteq> []" "tbl_get (tm_tokens tm) i = Some en"
      "\<not> token_is_known c (en_tokens en)" "token_is_extension 0 c (en_tokens en) = None"
      "token_is_second_split e c (en_tokens en) = Ok True"
  | c en where "rt = Some c" "i \<noteq> []" "tbl_get (tm_tokens tm) i = Some en"
      "\<not> token_is_known c (en_tokens en)" "token_is_extension 0 c (en_tokens en) = None"
      "(\<exists>f. token_is_second_split e c (en_tokens en) = Inl f)
        \<or> token_is_second_split e c (en_tokens en) = Ok False \<and> token_get_fork 0 c (en_tokens en) = None"
  | c en ti hi where "rt = Some c" "i \<noteq> []" "tbl_get (tm_tokens tm) i = Some en"
      "\<not> token_is_known c (en_tokens en)" "token_is_extension 0 c (en_tokens en) = None"
      "token_is_second_split e c (en_tokens en) = Ok False"
      "token_get_fork 0 c (en_tokens en) = Some (ti, hi)"
proof (cases "i = [] \<or> rt = None")
  case False
  then obtain c where c: "rt = Some c" "i \<noteq> []" by auto
  show thesis
  proof (cases "tbl_get (tm_tokens tm) i")
    case (Some en)
    show thesis
    proof (cases "token_is_known c (en_tokens en)")
      case nk: False
      show thesis
      proof (cases "token_is_extension 0 c (en_tokens en)")
        case ext: None
        show thesis
        proof (cases "token_is_second_split e c (en_tokens en)")
          case (Inr b)
          show thesis
            using c Some nk ext Inr that(5-7) by (cases b; cases "token_get_fork 0 c (en_tokens en)") auto
        qed (use c Some nk ext that(6) in auto)
      qed (use c Some nk that(4) in auto)
    qed (use c Some that(3) in auto)
  qed (use c that(2) in auto)
qed (use that(1) in auto)

lemma tbl_insert_append: "tbl_get t k = None \<Longrightarrow> tbl_insert t k r = Some (t @ [(k, r)])"
  by (simp add: tbl_insert_def)

lemma update_impl_inv:
  assumes inv: "tokenmap_inv tm"
  shows "tokenmap_inv (snd (update_impl e now i rt tm))"
proof (cases rule: update_impl_cases [where e = e and rt = rt and i = i and tm = tm])
  case (New c)
  have "tokenmap_inv (tm\<lparr>tm_tokens := tm_tokens tm @
      [(i, \<lparr>en_id = i, en_tokens = [c], en_abuses = [], en_last_update = now\<rparr>)]\<rparr>)"
    by (rule inv_create [OF inv _ New(2) tbl_insert_append [OF New(3)]]) (simp_all add: New(3) tbl_has_def)
  then show ?thesis
    using inv New by (simp add: update_impl_new inv_holder_index tbl_has_def tbl_get_def)
next
  case (Extension c en idx)
  have ei: "entry_inv tm i en" using inv Extension by (simp add: tokenmap_invD)
  have "tokenmap_inv (tm\<lparr>tm_tokens := tbl_update (tm_tokens tm) i
      (en\<lparr>en_tokens := (en_tokens en)[idx := c], en_last_update := now\<rparr>)\<rparr>)"
    by (rule inv_modify [OF inv Extension(3)]) (use ei in \<open>auto simp: entry_inv_def\<close>)
  then show ?thesis
    using inv Extension by (simp add: update_impl_extension inv_holder_index tbl_hasI)
next
  case (Split c en)
  have ei: "entry_inv tm i en" using inv Split by (simp add: tokenmap_invD)
  have "tokenmap_inv (tm\<lparr>tm_tokens := tbl_update (tm_tokens tm) i
      (en\<lparr>en_tokens := en_tokens en @ [c], en_last_update := now\<rparr>)\<rparr>)"
    by (rule inv_modify [OF inv Split(3)]) (use ei in \<open>auto simp: entry_inv_def\<close>)
  then show ?thesis
    using inv Split by (simp add: update_impl_second_split inv_holder_index tbl_hasI)
next
  case (Double c en ti hi)
  let ?en' = "abuse_entry now ti hi c en"
  show ?thesis
  proof (cases "double_spend_revocation e now i en ti hi tm")
    case (Inr rd)
    have rd: "rd_token_id rd = i" "rd_timestamp rd = now"
      using double_spend_revocation_fields [OF Inr] by auto
    show ?thesis
    proof (cases "tbl_insert (tm_revocation tm) i (rd, now)")
      case None
      have "tokenmap_inv (tm\<lparr>tm_tokens := tbl_update (tm_tokens tm) i ?en'\<rparr>)"
        by (rule inv_modify [OF inv Double(3)]) (use None in \<open>auto simp: tbl_insert_refused_iff\<close>)
      then show ?thesis using inv Double None Inr by (simp add: update_impl_double_spend Let_def)
    next
      case (Some t)
      have "tokenmap_inv (tm\<lparr>tm_tokens := tbl_update (tm_tokens tm) i ?en', tm_revocation := t\<rparr>)"
        by (rule inv_revoke [OF inv Double(3) _ _ _ _ rd(1)]) (use Some rd in simp_all)
      then show ?thesis using inv Double Some Inr by (simp add: update_impl_double_spend Let_def)
    qed
  qed (use inv Double in \<open>simp add: update_impl_double_spend\<close>)
qed (use inv in \<open>auto simp: update_impl_known update_impl_stuck\<close>)


subsection \<open>Reachable states\<close>

lemma insert_signed_ticket_frame:
  assumes "insert_signed_ticket cred st nac x tm = (r, tm')"
  shows "tm_tokens tm' = tm_tokens tm" "tm_revocation tm' = tm_revocation tm"
    "tm_archive tm' = tm_archive tm" "tm_holders tm' = tm_holders tm"
    "tbl_wf (tm_tickets tm) \<Longrightarrow> tbl_wf (tm_tickets tm')"
  using assms by (auto simp: insert_signed_ticket_def tbl.ins_wf split: if_splits option.splits)

lemma insert_signed_ticket_inv:
  assumes inv: "tokenmap_inv tm"
  shows "tokenmap_inv (snd (insert_signed_ticket cred st nac x tm))"
proof -
  obtain r tm' where eq: "insert_signed_ticket cred st nac x tm = (r, tm')" by force
  note frame = insert_signed_ticket_frame [OF eq]
  have "tokenmap_inv tm'"
    by (rule tokenmap_invI) (use tokenmap_invD [OF inv] frame in \<open>auto simp: tables_wf_def entry_inv_def\<close>)
  then show ?thesis by (simp add: eq)
qed

lemma store_each_inv: "tokenmap_inv tm \<Longrightarrow> tokenmap_inv (snd (store_each e nac sts tm))"
proof (induction e nac sts tm rule: store_each.induct)
  case (2 e nac st sts tm)
  show ?case
  proof (cases "st_ticket st")
    case (Some tk)
    show ?thesis
    proof (cases "expires_on e st")
      case (Inr x)
      show ?thesis
        using 2 Some Inr insert_signed_ticket_inv [OF 2(2), of "tk_credential tk" st nac x]
        by (simp add: on_ok_def split: sum.split)
    qed (use 2 Some in simp)
  qed (use 2 in simp)
qed simp

lemma store_tickets_inv: "tokenmap_inv tm \<Longrightarrow> tokenmap_inv (snd (store_tickets_impl e sts nac tm))"
  by (simp add: store_tickets_impl_def store_each_inv split: option.split)

lemma archive_inv:
  assumes inv: "tokenmap_inv tm"
  shows "tokenmap_inv (snd (archive_impl i tm))"
proof (cases "tbl_get (tm_revocation tm) i")
  case (Some row)
  obtain rd c where row: "row = (rd, c)" by force
  have "tokenmap_inv (tm\<lparr>tm_archive := t\<rparr>)" if ins: "tbl_insert (tm_archive tm) i (rd, c) = Some t" for t
  proof (rule tokenmap_invI)
    show "tables_wf (tm\<lparr>tm_archive := t\<rparr>)"
      using tokenmap_invD(1) [OF inv] tbl.ins_wf [OF _ ins] by (simp add: tables_wf_def)
    show "tbl_get (tm_revocation (tm\<lparr>tm_archive := t\<rparr>)) k = Some x"
      if "tbl_get (tm_archive (tm\<lparr>tm_archive := t\<rparr>)) k = Some x" for k x
      using that Some row tokenmap_invD(4) [OF inv, of k x] by (auto simp: tbl.ins_get [OF ins] split: if_splits)
  qed (use tokenmap_invD [OF inv] in \<open>auto simp: entry_inv_def\<close>)
  then show ?thesis
    using inv Some row
    by (simp add: archive_impl_def get_revocation_data_def insert_archive_data_def split: option.split)
qed (use inv in \<open>simp add: archive_impl_def get_revocation_data_def\<close>)

inductive tm_reachable :: "env \<Rightarrow> tokenmap \<Rightarrow> bool" for e where
  reach_new: "tm_reachable e tokenmap_new"
| reach_update: "tm_reachable e tm \<Longrightarrow> tm_reachable e (snd (update_impl e now i rt tm))"
| reach_store: "tm_reachable e tm \<Longrightarrow> tm_reachable e (snd (store_tickets_impl e sts nac tm))"
| reach_archive: "tm_reachable e tm \<Longrightarrow> tm_reachable e (snd (archive_impl i tm))"

lemma tm_reachable_inv: "tm_reachable e tm \<Longrightarrow> tokenmap_inv tm"
  by (induction rule: tm_reachable.induct) (simp_all add: update_impl_inv store_tickets_inv archive_inv)

text \<open>C2: in every state the token map reaches by its operations no table holds a key twice, every
  entry is filed under its own id with at least one history, an entry lists abuses exactly when the
  token has a revocation record, revocations are about tokens the map has, the archive holds only
  copies of revocations, and the holder index points to tokens the map has.\<close>

theorem tokenmap_reachable_inv: "tm_reachable e tm \<Longrightarrow> tokenmap_inv tm"
  by (rule tm_reachable_inv)

lemma tokenmap_reachable_inv_witness:
  "tokenmap_inv (snd (update_impl sample_env 5 [1] (Some (sample_token 10 1 [])) tokenmap_new))"
  by (rule tokenmap_reachable_inv [of sample_env]) (intro reach_update reach_new)

end
