(* ===== verification/TokenMapReports.thy ===== *)
theory TokenMapReports
  imports TokenMap
begin

section \<open>What the token map reports\<close>

text \<open>
  The contract of the token map's operations: what a report of a new, a known, an extended and a
  forked history does to the tables and to the reply, what a revocation names, what the clerk's
  tickets and the holder index keep; and the cases in which the operations do not keep it.
\<close>

subsection \<open>What the reports of the token map mean\<close>

text \<open>the first report of a token id creates an entry with that one history and no abuse, and the
  entries of other ids stay.\<close>

theorem update_first_seen:
  assumes "i \<noteq> []" "tbl_get (tm_tokens tm) i = None" "sql_u64 now"
  shows "\<exists>tm'. update_impl e now i (Some c) tm = (Ok \<lparr>ur_created = True, ur_abuse_detected = False\<rparr>, tm')
    \<and> tbl_get (tm_tokens tm') i = Some \<lparr>en_id = i, en_tokens = [c], en_abuses = [], en_last_update = now\<rparr>
    \<and> (\<forall>k. k \<noteq> i \<longrightarrow> tbl_get (tm_tokens tm') k = tbl_get (tm_tokens tm) k)
    \<and> tm_revocation tm' = tm_revocation tm"
proof -
  have "tm_tokens (update_holder_index e now i c tm0) = tm_tokens tm0"
    "tm_revocation (update_holder_index e now i c tm0) = tm_revocation tm0" for tm0
    by (simp_all add: update_holder_index_def split: option.split)
  then show ?thesis
    using assms by (auto simp: update_impl_new tbl.ins_get [OF tbl_insert_append])
qed

lemma update_first_seen_witness:
  "\<exists>tm'. update_impl sample_env 5 [1] (Some (sample_token 10 1 [])) tokenmap_new
     = (Ok \<lparr>ur_created = True, ur_abuse_detected = False\<rparr>, tm')"
  using update_first_seen [of "[1]" tokenmap_new 5 sample_env "sample_token 10 1 []"]
  by (auto simp: tokenmap_new_def sql_u64_def)

lemma update_holder_index_frame [simp]:
  "tm_tokens (update_holder_index e now i c tm) = tm_tokens tm"
  "tm_revocation (update_holder_index e now i c tm) = tm_revocation tm"
  "tm_tickets (update_holder_index e now i c tm) = tm_tickets tm"
  "tm_archive (update_holder_index e now i c tm) = tm_archive tm"
  by (simp_all add: update_holder_index_def split: option.split)

text \<open>Every report that is answered \<open>Ok\<close> leaves an entry in which the reported history is known.\<close>

lemma update_impl_Ok_stored:
  assumes "update_impl e now i (Some c) tm = (Ok r, tm')"
  shows "i \<noteq> [] \<and> (\<exists>en. tbl_get (tm_tokens tm') i = Some en \<and> token_is_known c (en_tokens en)
    \<and> (ur_abuse_detected r \<longleftrightarrow> en_abuses en \<noteq> []))"
proof (cases rule: update_impl_cases [where e = e and rt = "Some c" and i = i and tm = tm])
  case (New c')
  then show ?thesis
    using assms by (auto simp: update_impl_new tbl.ins_get [OF tbl_insert_append] token_is_known_iff split: if_splits)
next
  case (Known c' en)
  then show ?thesis using assms by (auto simp: update_impl_known update_reply_for_def)
next
  case (Extension c' en idx)
  have "idx < length (en_tokens en)" using token_is_extension_SomeD(2) [OF Extension(5)] by simp
  then have "c' \<in> set ((en_tokens en)[idx := c'])" by (rule set_update_memI)
  then show ?thesis
    using assms Extension
    by (auto simp: update_impl_extension tbl.upd_get token_is_known_iff update_reply_for_def split: if_splits)
next
  case (Split c' en)
  then show ?thesis
    using assms by (auto simp: update_impl_second_split tbl.upd_get token_is_known_iff update_reply_for_def split: if_splits)
next
  case (Double c' en ti hi)
  then show ?thesis
    using assms by (auto simp: update_impl_double_spend tbl.upd_get token_is_known_iff Let_def
        split: if_splits sum.splits option.splits)
qed (use assms in \<open>auto simp: update_impl_stuck\<close>)

text \<open>reporting is idempotent: after a report that was answered, the same report again changes
  nothing and is answered with the same abuse flag, so a lost reply can be retried.\<close>

theorem update_idempotent:
  assumes "update_impl e now i (Some c) tm = (Ok r, tm')"
  shows "update_impl e now' i (Some c) tm'
    = (Ok \<lparr>ur_created = False, ur_abuse_detected = ur_abuse_detected r\<rparr>, tm')"
  using update_impl_Ok_stored [OF assms] by (auto simp: update_impl_known update_reply_for_def)

lemma update_idempotent_witness:
  "\<exists>tm'. update_impl sample_env 5 [1] (Some (sample_token 10 1 [])) tokenmap_new
       = (Ok \<lparr>ur_created = True, ur_abuse_detected = False\<rparr>, tm')
     \<and> update_impl sample_env 6 [1] (Some (sample_token 10 1 [])) tm'
       = (Ok \<lparr>ur_created = False, ur_abuse_detected = False\<rparr>, tm')"
proof -
  have "\<exists>tm'. update_impl sample_env 5 [1] (Some (sample_token 10 1 [])) tokenmap_new
       = (Ok \<lparr>ur_created = True, ur_abuse_detected = False\<rparr>, tm')"
    by (simp add: update_impl_new tokenmap_new_def sql_u64_def)
  then show ?thesis using update_idempotent [of sample_env 5 "[1]"] by fastforce
qed

subsection \<open>Double spends\<close>

text \<open>A fork at which one of the two entries carries no split tag.\<close>

definition unsplit_fork :: "token \<Rightarrow> token \<Rightarrow> bool" where
  "unsplit_fork c tok \<longleftrightarrow>
     (case first_diff (sigs tok) (sigs c) of
        None \<Rightarrow> False
      | Some pos \<Rightarrow> get_split_amount (hi_transfer (tok_history tok ! pos)) = None
          \<or> get_split_amount (hi_transfer (tok_history c ! pos)) = None)"

lemma unsplit_fork_parallel: "unsplit_fork c tok \<Longrightarrow> sigs tok \<parallel> sigs c"
  using first_diff_Some_iff_parallel [of "sigs tok" "sigs c"]
  by (auto simp: unsplit_fork_def split: option.splits)

lemma unsplit_forks_branches:
  assumes "toks \<noteq> []" and forks: "\<And>tok. tok \<in> set toks \<Longrightarrow> unsplit_fork c tok"
  shows "\<not> token_is_known c toks" "token_is_extension n c toks = None"
    "token_is_second_split e c toks = Ok False" "\<exists>ti hi. token_get_fork m c toks = Some (ti, hi)"
proof -
  show "\<not> token_is_known c toks"
    using unsplit_fork_parallel [OF forks] by (auto simp: token_is_known_iff parallel_def)
  show "token_is_extension n c toks = None"
  proof (cases "token_is_extension n c toks")
    case (Some i)
    then show ?thesis
      using token_is_extension_SomeD(2,3) [OF Some] unsplit_fork_parallel [OF forks, of "toks ! (i - n)"]
      by (auto simp: parallel_def strict_prefix_def)
  qed
  show "\<exists>ti hi. token_get_fork m c toks = Some (ti, hi)"
    using token_get_fork_None_iff [of m c toks] unsplit_fork_parallel [OF forks] assms(1)
    by (cases "token_get_fork m c toks") (auto simp: neq_Nil_conv)
  show "token_is_second_split e c toks = Ok False"
  proof (cases toks)
    case (Cons tok ts)
    then have "unsplit_fork c tok" using forks by simp
    then show ?thesis by (auto simp: Cons unsplit_fork_def splits_add_up_def split: option.splits)
  qed (use assms(1) in simp)
qed

text \<open>C3: a history that forks from every stored one at an entry where it is no split is a double
  spend, and the token map never answers it as clean: the reply, if there is one, has the abuse flag
  set, and the token then has an abuse entry and a revocation record.\<close>

theorem double_spend_detected:
  assumes "tokenmap_inv tm" "tbl_get (tm_tokens tm) i = Some en"
    and "\<And>tok. tok \<in> set (en_tokens en) \<Longrightarrow> unsplit_fork c tok"
    and "update_impl e now i (Some c) tm = (Ok r, tm')"
  shows "ur_abuse_detected r
    \<and> (\<exists>en'. tbl_get (tm_tokens tm') i = Some en' \<and> en_abuses en' \<noteq> [] \<and> c \<in> set (en_tokens en'))
    \<and> tbl_has (tm_revocation tm') i"
proof -
  have ei: "i \<noteq> []" "en_tokens en \<noteq> []"
    using tokenmap_invD(2) [OF assms(1,2)] by (auto simp: entry_inv_def)
  note br = unsplit_forks_branches [OF ei(2) assms(3)]
  obtain ti hi where fork: "token_get_fork 0 c (en_tokens en) = Some (ti, hi)" using br(4) by blast
  show ?thesis
    using assms(4) update_impl_double_spend [OF ei(1) assms(2) br(1-3) fork]
    by (auto simp: Let_def tbl.upd_get assms(2) tbl_has_insert split: sum.splits if_splits option.splits)
qed

text \<open>a token caught once cannot be reported again for another double spend: its revocation record
  has the primary key already, so the second report is answered with a database error, while the
  entry has already been rewritten with the new abuse.\<close>

theorem second_double_spend_errors:
  assumes "tokenmap_inv tm" "tbl_get (tm_tokens tm) i = Some en" "en_abuses en \<noteq> []"
    and "\<And>tok. tok \<in> set (en_tokens en) \<Longrightarrow> unsplit_fork c tok"
    and "token_get_fork 0 c (en_tokens en) = Some (ti, hi)"
    and "double_spend_revocation e now i en ti hi tm = Ok rd" "sql_u64 now"
  shows "update_impl e now i (Some c) tm = (Err DatabaseInteractionError,
    tm\<lparr>tm_tokens := tbl_update (tm_tokens tm) i (abuse_entry now ti hi c en)\<rparr>)"
proof -
  have ei: "i \<noteq> []" "en_tokens en \<noteq> []" "tbl_has (tm_revocation tm) i"
    using tokenmap_invD(2) [OF assms(1,2)] assms(3) by (auto simp: entry_inv_def)
  note br = unsplit_forks_branches [OF ei(2) assms(4)]
  have "tbl_insert (tm_revocation tm) i (rd, now) = None" using ei(3) by (simp add: tbl_insert_refused_iff)
  then show ?thesis
    using update_impl_double_spend [OF ei(1) assms(2) br(1-3) assms(5)] assms(6,7) by (simp add: Let_def)
qed

text \<open>A map with a double-spent token: the payee's ticket is known, the histories \<open>[2]\<close> and \<open>[3]\<close> fork.\<close>

definition sample_fork :: "u8 \<Rightarrow> token" where
  "sample_fork n = sample_token 10 1 [(sample_hop n [])\<lparr>hi_signature := [n]\<rparr>]"

definition sample_nac :: linkable_signature where
  "sample_nac = \<lparr>ls_signature = [1], ls_basename = [2], ls_group_public_key = [3]\<rparr>"

definition sample_ticketed :: tokenmap where
  "sample_ticketed = tokenmap_new\<lparr>
     tm_tokens := [([1], \<lparr>en_id = [1], en_tokens = [sample_fork 2], en_abuses = [], en_last_update = 4\<rparr>)],
     tm_tickets := [(replicate 192 2, \<lparr>stk_ticket = sample_ticket 2 1000, stk_nac = sample_nac,
       stk_expires_on = 605800\<rparr>)]\<rparr>"

lemma sample_fork_simps [simp]:
  "tok_base (sample_fork n) = Some (sample_base 1)"
  "tok_history (sample_fork n) = [(sample_hop n [])\<lparr>hi_signature := [n]\<rparr>]"
  "sigs (sample_fork n) = [[n]]" "unsplit_fork (sample_fork m) (sample_fork n) \<longleftrightarrow> m \<noteq> n"
  by (auto simp: sample_fork_def sigs_def unsplit_fork_def get_split_amount_def)

lemma sample_ticketed_inv: "tokenmap_inv sample_ticketed"
  by (rule tokenmap_invI)
    (auto simp: sample_ticketed_def tokenmap_new_def tables_wf_def tbl_wf_def entry_inv_def tbl_get_def
      split: if_splits)

lemma sample_double_spend_revocation:
  "en_tokens en = sample_fork 2 # ts \<Longrightarrow>
   tm_tickets tm = tm_tickets sample_ticketed \<Longrightarrow>
   double_spend_revocation sample_env 5 [1] en 0 0 tm = Ok
     \<lparr>rd_timestamp = 5, rd_nac = Some sample_nac,
      rd_ttc = Some \<lparr>ls_signature = [2], ls_basename = 9 # replicate 64 0, ls_group_public_key = []\<rparr>,
      rd_token_id = [1], rd_token_expiry = 1000000,
      rd_groups = [\<lparr>gr_number = 1, gr_expiration = 605800\<rparr>], rd_abuse = DoubleSpend\<rparr>"
  by (simp add: double_spend_revocation_def Let_def token_expiry_of_def recipient_ticket_def
      get_ticket_signature_def sample_ticketed_def tokenmap_new_def tbl_get_def)

lemma double_spend_detected_witness:
  "\<exists>r tm'. update_impl sample_env 5 [1] (Some (sample_fork 3)) sample_ticketed = (Ok r, tm')
     \<and> ur_abuse_detected r"
proof -
  let ?en = "\<lparr>en_id = [1], en_tokens = [sample_fork 2], en_abuses = [], en_last_update = 4\<rparr>"
  have get: "tbl_get (tm_tokens sample_ticketed) [1] = Some ?en"
    by (simp add: sample_ticketed_def tbl_get_def)
  have forks: "unsplit_fork (sample_fork 3) tok" if "tok \<in> set (en_tokens ?en)" for tok
    using that by simp
  have norev: "tbl_insert (tm_revocation sample_ticketed) [1] x = Some [([1], x)]" for x
    by (simp add: sample_ticketed_def tokenmap_new_def tbl_insert_def)
  have "\<exists>r tm'. update_impl sample_env 5 [1] (Some (sample_fork 3)) sample_ticketed = (Ok r, tm')"
    using get sample_double_spend_revocation [of ?en "[]" sample_ticketed]
      unsplit_forks_branches [OF _ forks]
    by (subst update_impl_double_spend) (auto simp: norev sql_u64_def Let_def splits_add_up_def get_split_amount_def)
  then show ?thesis
    using double_spend_detected [OF sample_ticketed_inv get forks] by blast
qed

text \<open>The map after one more double spend, in which token \<open>[1]\<close> has its abuse and its revocation.\<close>

definition sample_revoked :: tokenmap where
  "sample_revoked = sample_ticketed\<lparr>
     tm_tokens := [([1], \<lparr>en_id = [1], en_tokens = [sample_fork 2, sample_fork 3],
       en_abuses = [\<lparr>ab_discovery_timestamp = 4, ab_token_index = 0, ab_history_index = 0,
         ab_abuse_type = DoubleSpend\<rparr>], en_last_update = 4\<rparr>)],
     tm_revocation := [([1], \<lparr>rd_timestamp = 4, rd_nac = None, rd_ttc = None, rd_token_id = [1],
       rd_token_expiry = 1000000, rd_groups = [], rd_abuse = DoubleSpend\<rparr>, 4)]\<rparr>"

lemma sample_revoked_inv: "tokenmap_inv sample_revoked"
  by (rule tokenmap_invI)
    (auto simp: sample_revoked_def sample_ticketed_def tokenmap_new_def tables_wf_def tbl_wf_def
      entry_inv_def tbl_get_def tbl_has_def split: if_splits)

lemma second_double_spend_errors_witness:
  "fst (update_impl sample_env 5 [1] (Some (sample_fork 4)) sample_revoked) = Err DatabaseInteractionError"
proof -
  let ?en = "\<lparr>en_id = [1], en_tokens = [sample_fork 2, sample_fork 3],
       en_abuses = [\<lparr>ab_discovery_timestamp = 4, ab_token_index = 0, ab_history_index = 0,
         ab_abuse_type = DoubleSpend\<rparr>], en_last_update = 4\<rparr>"
  have get: "tbl_get (tm_tokens sample_revoked) [1] = Some ?en"
    by (simp add: sample_revoked_def tbl_get_def)
  show ?thesis
    by (subst second_double_spend_errors [OF sample_revoked_inv get, of _ 0 0])
      (use sample_double_spend_revocation [of ?en "[sample_fork 3]" sample_revoked] in
        \<open>auto simp: sample_revoked_def sql_u64_def\<close>)
qed

text \<open>the revocation record names the group of the ticket that the stored fork entry pays to. The
  holder who signed both entries, the recipient of the entry before the fork, is named by the
  pseudonym of the token signature only: their ticket's group is not the one revoked.\<close>

theorem revoked_group_is_payee:
  assumes "double_spend_revocation e now i en ti hi tm = Ok rd"
  shows "\<exists>payee tk tags nac. recipient_of (tok_history (en_tokens en ! ti) ! hi) = Some payee
    \<and> st_ticket payee = Some tk \<and> tk_tags tk = Some tags
    \<and> map gr_number (rd_groups rd) = [td_group_number tags]
    \<and> get_ticket_signature (tk_credential tk) tm = Some nac \<and> rd_nac rd = Some nac
    \<and> (\<exists>prev. (hi = 0 \<longrightarrow> tok_base (en_tokens en ! ti) = Some prev)
        \<and> (0 < hi \<longrightarrow> prev = tok_history (en_tokens en ! ti) ! (hi - 1))
        \<and> rd_ttc rd = Some \<lparr>ls_signature = hi_signature (tok_history (en_tokens en ! ti) ! hi),
            ls_basename = hi_signature prev, ls_group_public_key = []\<rparr>)"
  using assms
  by (auto simp: double_spend_revocation_def Let_def and_then_Inr_iff recipient_ticket_Ok_iff
      split: option.splits if_splits)

lemma revoked_group_is_payee_witness:
  "\<exists>rd payee. double_spend_revocation sample_env 5 [1]
      \<lparr>en_id = [1], en_tokens = [sample_fork 2], en_abuses = [], en_last_update = 4\<rparr> 0 0 sample_ticketed = Ok rd
    \<and> recipient_of (tok_history (sample_fork 2) ! 0) = Some payee \<and> rd_groups rd \<noteq> []"
  using sample_double_spend_revocation
      [of "\<lparr>en_id = [1], en_tokens = [sample_fork 2], en_abuses = [], en_last_update = 4\<rparr>" "[]" sample_ticketed]
    revoked_group_is_payee [of sample_env 5 "[1]"
      "\<lparr>en_id = [1], en_tokens = [sample_fork 2], en_abuses = [], en_last_update = 4\<rparr>" 0 0 sample_ticketed]
  by auto

subsection \<open>Splits\<close>

text \<open>Tokens of value 10 that fork at their first entry, which carries a split tag.\<close>

definition sample_split :: "u8 \<Rightarrow> i32 \<Rightarrow> token" where
  "sample_split n v = sample_token 10 1
     [(sample_hop n [Some (SplitValue (sample_amount v))])\<lparr>hi_signature := [n]\<rparr>]"

lemma sample_split_simps [simp]:
  "tok_history (sample_split n v) = [(sample_hop n [Some (SplitValue (sample_amount v))])\<lparr>hi_signature := [n]\<rparr>]"
  "tok_descriptor (sample_split n v) = Some \<lparr>ds_version = 0, ds_value = Some (sample_amount 10)\<rparr>"
  "sigs (sample_split n v) = [[n]]"
  "get_split_amount (hi_transfer ((sample_hop n [Some (SplitValue (sample_amount v))])\<lparr>hi_signature := [n]\<rparr>))
     = Some (sample_amount v)"
  by (auto simp: sample_split_def sigs_def get_split_amount_def)

lemma sample_splits_add_up:
  "amount_add sample_env (sample_amount 4) (sample_amount 6) = Ok (sample_amount 10)"
  by (simp add: amount_add_def i32_add_def arith_def sample_amount_def)

text \<open>The split check of \<open>update_impl\<close> compares with the first stored history that differs only.\<close>

lemma second_split_first_only:
  assumes "first_diff (sigs tok) (sigs c) = Some pos"
    and "get_split_amount (hi_transfer (tok_history tok ! pos)) = Some a"
    and "get_split_amount (hi_transfer (tok_history c ! pos)) = Some b"
    and "am_code a = am_code b" "amount_add e a b = Ok v"
    and "tok_descriptor tok = Some d" "ds_value d = Some v"
  shows "token_is_second_split e c (tok # toks) = Ok True"
  using assms by (simp add: splits_add_up_def)

text \<open>a token of value 10 split as 4 and 6 accepts a third piece of 6: the three reports are all
  answered without abuse, and the map then holds three disjoint histories of a total value of 16.
  \<open>token_is_second_split\<close> adds the new piece to the first stored piece and never to the others.\<close>

theorem third_split_accepted:
  "\<exists>tm1 tm2 tm3.
     update_impl sample_env 5 [1] (Some (sample_split 2 4)) tokenmap_new
       = (Ok \<lparr>ur_created = True, ur_abuse_detected = False\<rparr>, tm1)
     \<and> update_impl sample_env 6 [1] (Some (sample_split 3 6)) tm1
       = (Ok \<lparr>ur_created = False, ur_abuse_detected = False\<rparr>, tm2)
     \<and> update_impl sample_env 7 [1] (Some (sample_split 4 6)) tm2
       = (Ok \<lparr>ur_created = False, ur_abuse_detected = False\<rparr>, tm3)
     \<and> map_option en_tokens (tbl_get (tm_tokens tm3) [1])
       = Some [sample_split 2 4, sample_split 3 6, sample_split 4 6]
     \<and> sint (am_whole (sample_amount 4)) + sint (am_whole (sample_amount 6))
       + sint (am_whole (sample_amount 6)) > sint (am_whole (sample_amount 10))"
proof -
  have split: "token_is_second_split sample_env (sample_split n 6) (sample_split 2 4 # ts) = Ok True"
    if "n \<noteq> 2" for n ts
    using that sample_splits_add_up by (intro second_split_first_only [where pos = 0]) (auto simp: get_split_amount_def)
  have step: "\<exists>tm' en'. update_impl sample_env now [1] (Some (sample_split m 6)) tm
        = (Ok \<lparr>ur_created = False, ur_abuse_detected = False\<rparr>, tm')
      \<and> tbl_get (tm_tokens tm') [1] = Some en' \<and> en_tokens en' = en_tokens en @ [sample_split m 6]
      \<and> en_abuses en' = []"
    if get: "tbl_get (tm_tokens tm) [1] = Some en" and toks: "en_tokens en = sample_split 2 4 # ts"
      and ts: "set ts \<subseteq> (\<lambda>n. sample_split n 6) ` (- {m})" and m: "m \<noteq> 2"
      and en: "en_abuses en = []" "sql_u64 now" for tm en ts m now
  proof -
    have par: "sigs tok \<parallel> sigs (sample_split m 6)" if "tok \<in> set (en_tokens en)" for tok
      using that toks ts m by (auto simp: parallel_def)
    have nk: "\<not> token_is_known (sample_split m 6) (en_tokens en)"
      using par by (auto simp: token_is_known_iff parallel_def)
    have ne: "token_is_extension 0 (sample_split m 6) (en_tokens en) = None"
    proof (cases "token_is_extension 0 (sample_split m 6) (en_tokens en)")
      case (Some k)
      then show ?thesis
        using token_is_extension_SomeD(2,3) [OF Some] par [of "en_tokens en ! k"]
        by (auto simp: parallel_def strict_prefix_def)
    qed
    show ?thesis
      using update_impl_second_split [OF _ get nk ne] split [OF m, of ts] toks en get
      by (simp add: tbl.upd_get update_reply_for_def)
  qed
  obtain tm1 where u1: "update_impl sample_env 5 [1] (Some (sample_split 2 4)) tokenmap_new
      = (Ok \<lparr>ur_created = True, ur_abuse_detected = False\<rparr>, tm1)"
    and g1: "tbl_get (tm_tokens tm1) [1] = Some \<lparr>en_id = [1], en_tokens = [sample_split 2 4],
      en_abuses = [], en_last_update = 5\<rparr>"
    by (simp add: update_impl_new tokenmap_new_def sql_u64_def tbl_get_def)
  obtain tm2 en2 where u2: "update_impl sample_env 6 [1] (Some (sample_split 3 6)) tm1
      = (Ok \<lparr>ur_created = False, ur_abuse_detected = False\<rparr>, tm2)"
    and g2: "tbl_get (tm_tokens tm2) [1] = Some en2" "en_tokens en2 = [sample_split 2 4, sample_split 3 6]"
      "en_abuses en2 = []"
    using step [OF g1, of "[]" 3 6] by (auto simp: sql_u64_def)
  obtain tm3 en3 where "update_impl sample_env 7 [1] (Some (sample_split 4 6)) tm2
      = (Ok \<lparr>ur_created = False, ur_abuse_detected = False\<rparr>, tm3)"
    "tbl_get (tm_tokens tm3) [1] = Some en3"
    "en_tokens en3 = [sample_split 2 4, sample_split 3 6, sample_split 4 6]"
    using step [OF g2(1), of "[sample_split 3 6]" 4 7] g2 by (auto simp: sql_u64_def)
  with u1 u2 show ?thesis by auto
qed

text \<open>an honest pair of splits is accepted: when a history forks from a stored one at an entry
  where both carry split tags of one currency that add up to the face value, the report is answered
  with the flag the entry had, and the history is stored beside the other.\<close>

theorem matching_splits_accepted:
  assumes "i \<noteq> []" "tbl_get (tm_tokens tm) i = Some en" "en_tokens en = [tok]" "sql_u64 now"
    and "first_diff (sigs tok) (sigs c) = Some pos"
    and "get_split_amount (hi_transfer (tok_history tok ! pos)) = Some a"
    and "get_split_amount (hi_transfer (tok_history c ! pos)) = Some b"
    and "am_code a = am_code b" "amount_add e a b = Ok v" "descriptor_value tok = Some v"
  shows "\<exists>tm' en'. update_impl e now i (Some c) tm = (Ok (update_reply_for en), tm')
    \<and> tbl_get (tm_tokens tm') i = Some en' \<and> en_tokens en' = [tok, c] \<and> en_abuses en' = en_abuses en"
proof -
  have split: "token_is_second_split e c (en_tokens en) = Ok True"
    using assms(3,5-10) by (auto simp: splits_add_up_def descriptor_value_def split: option.splits)
  have par: "sigs tok \<parallel> sigs c" using assms(5) first_diff_Some_iff_parallel by blast
  have nk: "\<not> token_is_known c (en_tokens en)" using par assms(3) by (auto simp: token_is_known_iff parallel_def)
  have ne: "token_is_extension 0 c (en_tokens en) = None" using assms(3,5) by simp
  show ?thesis
    using update_impl_second_split [OF assms(1,2) nk ne split] assms(2,3,4) by (simp add: tbl.upd_get)
qed

lemma matching_splits_accepted_witness:
  "\<exists>tm'. update_impl sample_env 5 [1] (Some (sample_split 3 6))
     (tokenmap_new\<lparr>tm_tokens := [([1], \<lparr>en_id = [1], en_tokens = [sample_split 2 4], en_abuses = [],
        en_last_update = 4\<rparr>)]\<rparr>) = (Ok \<lparr>ur_created = False, ur_abuse_detected = False\<rparr>, tm')"
  using matching_splits_accepted [where e = sample_env and now = 5 and i = "[1]" and c = "sample_split 3 6"
      and tok = "sample_split 2 4" and pos = 0 and a = "sample_amount 4" and b = "sample_amount 6"
      and v = "sample_amount 10" and en = "\<lparr>en_id = [1], en_tokens = [sample_split 2 4], en_abuses = [],
        en_last_update = 4\<rparr>" and tm = "tokenmap_new\<lparr>tm_tokens := [([1], \<lparr>en_id = [1],
        en_tokens = [sample_split 2 4], en_abuses = [], en_last_update = 4\<rparr>)]\<rparr>"]
    sample_splits_add_up
  by (auto simp: tbl_get_def sql_u64_def descriptor_value_def get_split_amount_def update_reply_for_def)

text \<open>a single stored history extended by a split tag above the face value (or of another
  currency) is no error reply: \<open>token_is_extension\<close> gives up, no history forks, and the handler panics
  on \<open>expect("a fork must exist")\<close>.\<close>

theorem overvalued_split_panics:
  assumes "i \<noteq> []" "tbl_get (tm_tokens tm) i = Some en" "en_tokens en = [tok]"
    and "strict_prefix (sigs tok) (sigs c)"
    and "\<not> extension_splits_ok (descriptor_value c) (drop (length (tok_history tok)) (tok_history c))"
  shows "update_impl e now i (Some c) tm = (panic, tm)"
proof -
  have same: "first_diff (sigs tok) (sigs c) = None"
    using assms(4) by (simp add: first_diff_None_iff strict_prefix_def)
  have len: "length (tok_history tok) < length (tok_history c)"
    using assms(4) prefix_length_less by fastforce
  show ?thesis
    by (rule update_impl_stuck(2) [OF assms(1,2)]) (use same len assms(3,5) in simp_all)
qed

lemma overvalued_split_panics_witness:
  "update_impl sample_env 5 [1] (Some (sample_split 2 11))
     (tokenmap_new\<lparr>tm_tokens := [([1], \<lparr>en_id = [1], en_tokens = [sample_token 10 1 []], en_abuses = [],
        en_last_update = 4\<rparr>)]\<rparr>) = (panic, tokenmap_new\<lparr>tm_tokens := [([1], \<lparr>en_id = [1],
        en_tokens = [sample_token 10 1 []], en_abuses = [], en_last_update = 4\<rparr>)]\<rparr>)"
  by (rule overvalued_split_panics [where tok = "sample_token 10 1 []"])
    (auto simp: tbl_get_def descriptor_value_def get_split_amount_def amount_exceeds_def sigs_def
      sample_split_def)

subsection \<open>Tickets, the archive and the holder index\<close>

lemma insert_signed_ticket_Ok:
  assumes "insert_signed_ticket cred st nac x tm = (Ok u, tm')"
  shows "get_ticket_signature k tm' = (if k = cred then Some nac else get_ticket_signature k tm)"
    and "tbl_has (tm_tickets tm') k \<longleftrightarrow> k = cred \<or> tbl_has (tm_tickets tm) k"
    and "\<not> tbl_has (tm_tickets tm) cred"
  using assms
  by (auto simp: insert_signed_ticket_def get_ticket_signature_def tbl.ins_get tbl_has_insert
      dest: tbl_insert_SomeD split: if_splits option.splits)

definition ticket_credential :: "signed_ticket \<Rightarrow> bytes option" where
  "ticket_credential st = map_option tk_credential (st_ticket st)"

text \<open>The loop stores the tickets of a request in order and stops at the first failure; on success every
  credential was new and is now filed under the request's signature.\<close>

lemma store_each_Ok:
  assumes "store_each e nac sts tm = (Ok u, tm')"
  shows "(\<forall>st \<in> set sts. \<exists>c. ticket_credential st = Some c \<and> \<not> tbl_has (tm_tickets tm) c
      \<and> get_ticket_signature c tm' = Some nac)
    \<and> distinct (map ticket_credential sts)
    \<and> (\<forall>k. Some k \<notin> ticket_credential ` set sts \<longrightarrow> get_ticket_signature k tm' = get_ticket_signature k tm)
    \<and> (\<forall>k. tbl_has (tm_tickets tm') k \<longleftrightarrow> Some k \<in> ticket_credential ` set sts \<or> tbl_has (tm_tickets tm) k)"
  using assms
proof (induction sts arbitrary: tm)
  case (Cons st sts)
  obtain tk x tm1 where tk: "st_ticket st = Some tk" and x: "expires_on e st = Ok x"
    and one: "insert_signed_ticket (tk_credential tk) st nac x tm = (Ok (), tm1)"
    and rest: "store_each e nac sts tm1 = (Ok u, tm')"
    using Cons.prems by (auto simp: on_ok_Inr_iff split: option.splits sum.splits)
  have c: "ticket_credential st = Some (tk_credential tk)" by (simp add: ticket_credential_def tk)
  note ins = insert_signed_ticket_Ok [OF one]
  have all: "\<exists>c. ticket_credential s = Some c \<and> \<not> tbl_has (tm_tickets tm1) c \<and> get_ticket_signature c tm' = Some nac"
    if "s \<in> set sts" for s
    using Cons.IH [OF rest] that by blast
  have notin: "Some (tk_credential tk) \<notin> ticket_credential ` set sts"
    using all ins(2) by fastforce
  then show ?case
    using Cons.IH [OF rest] all c ins by auto
qed simp

text \<open>when a ticket request is stored, every credential in it was new to the table, no credential
  occurs twice in the request, and the signature filed for each is the request's; the signatures of
  all other credentials stay.\<close>

theorem store_tickets_files_signature:
  assumes "store_tickets_impl e tickets rnac tm = (Ok u, tm')"
  shows "\<exists>nac. rnac = Some nac \<and> distinct (map ticket_credential tickets)
    \<and> (\<forall>st \<in> set tickets. \<exists>c. ticket_credential st = Some c \<and> get_ticket_signature c tm = None
        \<and> get_ticket_signature c tm' = Some nac)
    \<and> (\<forall>k. Some k \<notin> ticket_credential ` set tickets \<longrightarrow> get_ticket_signature k tm' = get_ticket_signature k tm)"
proof -
  obtain nac where nac: "rnac = Some nac" "store_each e nac tickets tm = (Ok u, tm')"
    using assms by (auto simp: store_tickets_impl_def split: option.splits if_splits)
  show ?thesis
    using nac(1) store_each_Ok [OF nac(2)] by (auto simp: get_ticket_signature_def tbl_has_def)
qed

lemma store_tickets_files_signature_witness:
  "\<exists>tm'. store_tickets_impl sample_env [sample_ticket 2 1000] (Some sample_nac) tokenmap_new = (Ok (), tm')
     \<and> get_ticket_signature (replicate 192 2) tm' = Some sample_nac"
proof -
  have "\<exists>tm'. store_tickets_impl sample_env [sample_ticket 2 1000] (Some sample_nac) tokenmap_new = (Ok (), tm')"
    by (simp add: store_tickets_impl_def sample_nac_def insert_signed_ticket_def sql_u64_def
        tokenmap_new_def tbl_insert_def)
  then show ?thesis
    using store_tickets_files_signature [of sample_env "[sample_ticket 2 1000]" "Some sample_nac" tokenmap_new]
    by (fastforce simp: ticket_credential_def)
qed

text \<open>A request that holds a stored credential is refused.\<close>

lemma store_tickets_twice:
  assumes "st \<in> set tickets" "ticket_credential st = Some c" "tbl_has (tm_tickets tm) c"
  shows "\<not> is_ok (fst (store_tickets_impl e tickets rnac tm))"
proof
  assume "is_ok (fst (store_tickets_impl e tickets rnac tm))"
  then obtain u tm' nac where "store_each e nac tickets tm = (Ok u, tm')"
    by (cases "store_tickets_impl e tickets rnac tm")
      (auto simp: store_tickets_impl_def is_ok_def split: option.splits if_splits sum.splits)
  then show False using store_each_Ok [of e nac tickets tm u tm'] assms by fastforce
qed

text \<open>archiving copies a revocation and removes nothing: the token's revocation is still returned
  by id and with all revocations afterwards, and archiving it again is a database error.\<close>

theorem archive_keeps_revocation:
  assumes "archive_impl i tm = (Ok u, tm')"
  shows "get_revocation_data i tm' = get_revocation_data i tm \<and> get_revocation_data i tm' \<noteq> []
    \<and> get_all_revocation_data tm' = get_all_revocation_data tm
    \<and> archive_impl i tm' = (Err DatabaseInteractionError, tm')"
proof -
  obtain rd c t where i: "i \<noteq> []" "tbl_get (tm_revocation tm) i = Some (rd, c)" "sql_u64 c"
    and t: "tbl_insert (tm_archive tm) i (rd, c) = Some t" "tm' = tm\<lparr>tm_archive := t\<rparr>"
    using assms
    by (auto simp: archive_impl_def get_revocation_data_def insert_archive_data_def
        split: if_splits option.splits)
  have "tbl_insert t i (rd, c) = None" using tbl.ins_twice [OF t(1)] .
  then show ?thesis
    using i t(2) by (simp add: archive_impl_def get_revocation_data_def get_all_revocation_data_def
        insert_archive_data_def)
qed

lemma archive_keeps_revocation_witness:
  "\<exists>tm'. archive_impl [1] sample_revoked = (Ok (), tm') \<and> get_revocation_data [1] tm' \<noteq> []"
proof -
  have "\<exists>tm'. archive_impl [1] sample_revoked = (Ok (), tm')"
    by (simp add: archive_impl_def get_revocation_data_def insert_archive_data_def sample_revoked_def
        sample_ticketed_def tokenmap_new_def tbl_get_def tbl_insert_def sql_u64_def)
  then show ?thesis using archive_keeps_revocation by blast
qed

text \<open>The rows of the holder index are only ever added or refreshed.\<close>

lemma update_impl_holders:
  assumes "tbl_has (tm_holders tm) (h, k)"
  shows "tbl_has (tm_holders (snd (update_impl e now i rt tm))) (h, k)"
proof -
  have idx: "tbl_has (tm_holders (update_holder_index e now i c tm0)) (h, k)" if "tm_holders tm0 = tm_holders tm" for c tm0
    using that assms by (simp add: update_holder_index_def split: option.split)
  show ?thesis
  proof (cases rule: update_impl_cases [where e = e and rt = rt and i = i and tm = tm])
    case (Double c en ti hi)
    then show ?thesis
      using assms by (simp add: update_impl_double_spend Let_def split: sum.split option.split)
  qed (use assms idx in \<open>auto simp: update_impl_new update_impl_known update_impl_extension
      update_impl_second_split update_impl_stuck\<close>)
qed

lemma find_by_holder_mem:
  assumes "key \<noteq> []" "tbl_has (tm_holders tm) (sha256 e key, i)" "tbl_get (tm_tokens tm) i = Some en"
  shows "\<exists>ens. find_by_holder_impl e now key False tm = Ok ens \<and> en \<in> set ens"
proof -
  obtain n where "((sha256 e key, i), n) \<in> set (tm_holders tm)"
    using assms(2) tbl_get_mem by (fastforce simp: tbl_has_def)
  then show ?thesis
    using assms(1,3) by (force simp: find_by_holder_impl_def List.map_filter_def)
qed

text \<open>after a new history is reported and answered without abuse, the recovery query finds the
  token under the credential of its last recipient. It keeps finding it there after every later
  report, whoever the token is passed on to: rows of the holder index are never removed.\<close>

theorem find_by_holder_after_update:
  assumes "update_impl e now i (Some c) tm = (Ok r, tm')" "\<not> ur_abuse_detected r"
    and "\<And>en. tbl_get (tm_tokens tm) i = Some en \<Longrightarrow> \<not> token_is_known c (en_tokens en)"
    and "holder_credential c = Some key" "key \<noteq> []"
  shows "(\<exists>ens en. find_by_holder_impl e now' key False tm' = Ok ens \<and> en \<in> set ens
      \<and> tbl_get (tm_tokens tm') i = Some en)
    \<and> (\<forall>now2 rt. \<exists>ens en. let tm2 = snd (update_impl e now2 i rt tm') in
      find_by_holder_impl e now' key False tm2 = Ok ens \<and> tbl_get (tm_tokens tm2) i = Some en \<and> en \<in> set ens)"
proof -
  have idx: "tbl_has (tm_holders (update_holder_index e now i c tm0)) (sha256 e key, i)" for tm0
    using assms(4,5) by (simp add: update_holder_index_def)
  have holder: "tbl_has (tm_holders tm') (sha256 e key, i)"
  proof (cases rule: update_impl_cases [where e = e and rt = "Some c" and i = i and tm = tm])
    case (Double c' en ti hi)
    then show ?thesis
      using assms(1,2) by (auto simp: update_impl_double_spend Let_def split: sum.splits option.splits if_splits)
  qed (use assms(1,3) idx in \<open>auto simp: update_impl_new update_impl_extension
      update_impl_second_split update_impl_stuck split: if_splits\<close>)
  obtain en where en: "tbl_get (tm_tokens tm') i = Some en"
    using update_impl_Ok_stored [OF assms(1)] by blast
  have keep: "\<exists>en2. tbl_get (tm_tokens (snd (update_impl e now2 i rt tm'))) i = Some en2" for now2 rt
    by (cases rule: update_impl_cases [where e = e and rt = rt and i = i and tm = tm'])
      (use en in \<open>auto simp: update_impl_known update_impl_extension update_impl_second_split update_impl_stuck
        update_impl_double_spend tbl.upd_get Let_def split: sum.split option.split\<close>)
  show ?thesis
    using find_by_holder_mem [OF assms(5) holder en] en keep
      find_by_holder_mem [OF assms(5) update_impl_holders [OF holder]]
    unfolding Let_def by blast
qed

lemma find_by_holder_after_update_witness:
  "\<exists>r tm' ens en. update_impl sample_env 5 [1] (Some (sample_token 10 1 [sample_hop 2 []])) tokenmap_new = (Ok r, tm')
     \<and> find_by_holder_impl sample_env 9 (replicate 192 2) False tm' = Ok ens \<and> en \<in> set ens"
proof -
  let ?c = "sample_token 10 1 [sample_hop 2 []]"
  have run: "\<exists>r tm'. update_impl sample_env 5 [1] (Some ?c) tokenmap_new = (Ok r, tm') \<and> \<not> ur_abuse_detected r"
    by (simp add: update_impl_new tokenmap_new_def sql_u64_def)
  then obtain r tm' where run: "update_impl sample_env 5 [1] (Some ?c) tokenmap_new = (Ok r, tm')" "\<not> ur_abuse_detected r"
    by blast
  have new: "\<And>en. tbl_get (tm_tokens tokenmap_new) [1] = Some en \<Longrightarrow> \<not> token_is_known ?c (en_tokens en)"
    by (simp add: tokenmap_new_def)
  have holder: "holder_credential ?c = Some (replicate 192 2)" "replicate 192 (2 :: u8) \<noteq> []"
    by (simp_all add: holder_credential_def recipient_of_def)
  from find_by_holder_after_update [OF run new holder, of 9] run show ?thesis by blast
qed

end
