(* ===== verification/Registry.thy ===== *)
theory Registry
  imports TokenMapReports
begin

section \<open>The token map as other services see it\<close>

text \<open>
  The mint and the validation service call the token map over the network. A call is numbered; the
  connection of a call may fail before the request arrives or after the map has processed it, and
  an error status looks the same to the caller. \<open>token_registry\<close> is what the callers rely on;
  the interpretation discharges it for the modelled handler behind an arbitrary network.
\<close>

datatype delivery = Unreachable | Reply_Lost | Delivered

type_synonym 's registry_call = "nat \<Rightarrow> bytes \<Rightarrow> token \<Rightarrow> 's \<Rightarrow> update_reply option \<times> 's"

definition tokenmap_call ::
  "env \<Rightarrow> (nat \<Rightarrow> delivery) \<Rightarrow> (nat \<Rightarrow> u64) \<Rightarrow> tokenmap registry_call" where
  "tokenmap_call e net clock n i c tm =
     (case net n of
        Unreachable \<Rightarrow> (None, tm)
      | Reply_Lost \<Rightarrow> (None, snd (update_impl e (clock n) i (Some c) tm))
      | Delivered \<Rightarrow>
          (case update_impl e (clock n) i (Some c) tm of
             (Inr r, tm') \<Rightarrow> (Some r, tm')
           | (Inl f, tm') \<Rightarrow> (None, tm')))"

definition tracked :: "tokenmap \<Rightarrow> bytes \<Rightarrow> token \<Rightarrow> bool" where
  "tracked tm i c \<longleftrightarrow> (\<exists>en. tbl_get (tm_tokens tm) i = Some en \<and> token_is_known c (en_tokens en))"

definition flagged :: "tokenmap \<Rightarrow> bytes \<Rightarrow> bool" where
  "flagged tm i \<longleftrightarrow> (\<exists>en. tbl_get (tm_tokens tm) i = Some en \<and> en_abuses en \<noteq> [])"

text \<open>The histories of an entry only grow: an extension replaces a history by one it is a prefix of.\<close>

lemma token_is_known_append: "token_is_known c ts \<Longrightarrow> token_is_known c (ts @ us)"
  by (auto simp: token_is_known_iff)

lemma token_is_known_extended:
  assumes "token_is_known c toks" "token_is_extension 0 d toks = Some idx"
  shows "token_is_known c (toks[idx := d])"
proof -
  obtain tok where tok: "tok \<in> set toks" "prefix (sigs c) (sigs tok)"
    using assms(1) by (auto simp: token_is_known_iff)
  then obtain k where k: "k < length toks" "tok = toks ! k" by (auto simp: in_set_conv_nth)
  have idx: "idx < length toks" "strict_prefix (sigs (toks ! idx)) (sigs d)"
    using token_is_extension_SomeD(2,3) [OF assms(2)] by simp_all
  show ?thesis
  proof (cases "k = idx")
    case True
    then have "prefix (sigs c) (sigs d)"
      using tok(2) k idx(2) by (auto simp: strict_prefix_def intro: prefix_order.trans)
    then show ?thesis using idx(1) by (auto simp: token_is_known_iff intro: set_update_memI)
  next
    case False
    then have "tok = toks[idx := d] ! k" "k < length (toks[idx := d])" using k by simp_all
    then show ?thesis using tok(2) by (auto simp: token_is_known_iff)
  qed
qed

lemma update_keeps_entries:
  assumes "tbl_get (tm_tokens tm) k = Some en0"
  shows "\<exists>en. tbl_get (tm_tokens (snd (update_impl e now i rt tm))) k = Some en
    \<and> (\<forall>c. token_is_known c (en_tokens en0) \<longrightarrow> token_is_known c (en_tokens en))
    \<and> (en_abuses en0 \<noteq> [] \<longrightarrow> en_abuses en \<noteq> [])"
proof (cases rule: update_impl_cases [where e = e and rt = rt and i = i and tm = tm])
  case (New c)
  then show ?thesis
    using assms by (cases "k = i") (auto simp: update_impl_new tbl.ins_get [OF tbl_insert_append])
next
  case (Extension c en idx)
  then show ?thesis
    using assms token_is_known_extended [OF _ Extension(5)]
    by (cases "k = i") (auto simp: update_impl_extension tbl.upd_get)
next
  case (Split c en)
  then show ?thesis
    using assms token_is_known_append
    by (cases "k = i") (auto simp: update_impl_second_split tbl.upd_get)
next
  case (Double c en ti hi)
  then show ?thesis
    using assms token_is_known_append
    by (cases "k = i") (auto simp: update_impl_double_spend tbl.upd_get Let_def split: sum.split option.split)
qed (use assms in \<open>auto simp: update_impl_known update_impl_stuck\<close>)

subsection \<open>The interface\<close>

locale token_registry =
  fixes call :: "'s registry_call"
    and inv :: "'s \<Rightarrow> bool"
    and holds :: "'s \<Rightarrow> bytes \<Rightarrow> token \<Rightarrow> bool"
    and bad :: "'s \<Rightarrow> bytes \<Rightarrow> bool"
  assumes call_inv: "inv s \<Longrightarrow> inv (snd (call n i c s))"
    and call_holds: "call n i c s = (Some r, s') \<Longrightarrow> holds s' i c"
    and call_bad: "call n i c s = (Some r, s') \<Longrightarrow> ur_abuse_detected r \<longleftrightarrow> bad s' i"
    and holds_mono: "holds s i c \<Longrightarrow> holds (snd (call n j d s)) i c"
    and bad_mono: "bad s i \<Longrightarrow> bad (snd (call n j d s)) i"
begin

text \<open>A sequence of calls.\<close>

primrec calls :: "(nat \<times> bytes \<times> token) list \<Rightarrow> 's \<Rightarrow> 's" where
  "calls [] s = s"
| "calls (q # qs) s = calls qs (snd (call (fst q) (fst (snd q)) (snd (snd q)) s))"

lemma calls_inv: "inv s \<Longrightarrow> inv (calls qs s)"
  by (induction qs arbitrary: s) (simp_all add: call_inv)

lemma calls_holds: "holds s i c \<Longrightarrow> holds (calls qs s) i c"
  by (induction qs arbitrary: s) (simp_all add: holds_mono)

lemma calls_bad: "bad s i \<Longrightarrow> bad (calls qs s) i"
  by (induction qs arbitrary: s) (simp_all add: bad_mono)

lemma answered_stays: "call n i c s = (Some r, s') \<Longrightarrow> holds (calls qs s') i c"
  using call_holds calls_holds by blast

end

lemma tokenmap_call_snd:
  "snd (tokenmap_call e net clock n i c tm) =
     (if net n = Unreachable then tm else snd (update_impl e (clock n) i (Some c) tm))"
  by (auto simp: tokenmap_call_def split: delivery.split sum.split prod.split)

lemma tokenmap_call_Some:
  "tokenmap_call e net clock n i c tm = (Some r, tm') \<longleftrightarrow>
     net n = Delivered \<and> update_impl e (clock n) i (Some c) tm = (Ok r, tm')"
  by (auto simp: tokenmap_call_def split: delivery.split sum.splits prod.split)

interpretation registry: token_registry "tokenmap_call e net clock" tokenmap_inv tracked flagged
  for e net clock
proof unfold_locales
  show "tokenmap_inv (snd (tokenmap_call e net clock n i c s))" if "tokenmap_inv s" for s n i c
    using that by (simp add: tokenmap_call_snd update_impl_inv)
  show "tracked s' i c" if "tokenmap_call e net clock n i c s = (Some r, s')" for n i c s r s'
    using that update_impl_Ok_stored by (fastforce simp: tokenmap_call_Some tracked_def)
  show "ur_abuse_detected r \<longleftrightarrow> flagged s' i" if "tokenmap_call e net clock n i c s = (Some r, s')" for n i c s r s'
    using that update_impl_Ok_stored by (fastforce simp: tokenmap_call_Some flagged_def)
  show "tracked (snd (tokenmap_call e net clock n j d s)) i c" if "tracked s i c" for s i c n j d
    using that update_keeps_entries [of s i] by (fastforce simp: tokenmap_call_snd tracked_def)
  show "flagged (snd (tokenmap_call e net clock n j d s)) i" if "flagged s i" for s i n j d
    using that update_keeps_entries [of s i] by (fastforce simp: tokenmap_call_snd flagged_def)
qed

end
