(* ===== verification/Epoch.thy ===== *)
theory Epoch
  imports Token
begin

section \<open>Epoch updates (\<open>proto/src/briolette/clerk.rs\<close>)\<close>

text \<open>
  An epoch update is verified under the epoch key: the ECDSA signature covers the encoded
  \<open>EpochData\<close>, which carries the hash of the extended data (the keys, group policies and service
  map every service and wallet works from).
\<close>

definition epoch_verify :: "env \<Rightarrow> epoch_update \<Rightarrow> bytes \<Rightarrow> bool result" where
  "epoch_verify e u public_key_der =
     (if \<not> ecdsa_pk_parses e public_key_der then Err UnparseablePublicKey
      else if ecdsa_sig_parses e (eu_epoch_signature u) then
        and_then (unwrap (eu_data u)) (\<lambda>d.
        if ecdsa_verify e public_key_der (enc_epoch_data e d) (eu_epoch_signature u) then
          and_then (unwrap (eu_extended_data u)) (\<lambda>x.
          if sha256 e (enc_extended_epoch_data e x) = ed_extended_epoch_data_hash d then Ok True
          else Err InvalidEpochSignature)
        else Err InvalidEpochSignature)
      else Err InvalidEpochSignature)"

definition epoch_authentic :: "env \<Rightarrow> epoch_update \<Rightarrow> bytes \<Rightarrow> bool" where
  "epoch_authentic e u pk \<longleftrightarrow>
     ecdsa_pk_parses e pk \<and> ecdsa_sig_parses e (eu_epoch_signature u) \<and>
     (\<exists>d x. eu_data u = Some d \<and> eu_extended_data u = Some x
        \<and> ecdsa_verify e pk (enc_epoch_data e d) (eu_epoch_signature u)
        \<and> sha256 e (enc_extended_epoch_data e x) = ed_extended_epoch_data_hash d)"

lemma epoch_verify_Ok_iff: "epoch_verify e u pk = Ok b \<longleftrightarrow> b \<and> epoch_authentic e u pk"
  by (auto simp: epoch_verify_def epoch_authentic_def and_then_Inr_iff)

lemma epoch_verify_panic_iff:
  "epoch_verify e u pk = panic \<longleftrightarrow>
     ecdsa_pk_parses e pk \<and> ecdsa_sig_parses e (eu_epoch_signature u) \<and>
     (eu_data u = None \<or>
      (\<exists>d. eu_data u = Some d \<and> ecdsa_verify e pk (enc_epoch_data e d) (eu_epoch_signature u)
         \<and> eu_extended_data u = None))"
  by (auto simp: epoch_verify_def and_then_Inl_iff split: if_splits)

text \<open>an epoch update is accepted exactly when the key parses, the signature over its data verifies
  and the data carries the hash of the extended data; it panics, instead of rejecting, exactly when
  the data is missing next to a well-formed signature, or the extended data next to a valid one.\<close>

theorem epoch_verify_outcomes:
  "(epoch_verify e u pk = Ok b \<longleftrightarrow> b \<and> epoch_authentic e u pk)
   \<and> (epoch_verify e u pk = panic \<longleftrightarrow>
       ecdsa_pk_parses e pk \<and> ecdsa_sig_parses e (eu_epoch_signature u) \<and>
       (eu_data u = None \<or>
        (\<exists>d. eu_data u = Some d \<and> ecdsa_verify e pk (enc_epoch_data e d) (eu_epoch_signature u)
           \<and> eu_extended_data u = None)))"
  using epoch_verify_Ok_iff epoch_verify_panic_iff by blast

text \<open>Two updates that verify under one key and carry the same data have extended data of one hash.\<close>

lemma epoch_verify_binds_extended:
  assumes "epoch_verify e u pk = Ok b" "epoch_verify e u' pk = Ok b'" "eu_data u = eu_data u'"
    and "eu_extended_data u = Some x" "eu_extended_data u' = Some x'"
  shows "sha256 e (enc_extended_epoch_data e x) = sha256 e (enc_extended_epoch_data e x')"
  using assms by (auto simp: epoch_verify_Ok_iff epoch_authentic_def)

end
