(* ===== verification/Validate.thy ===== *)
theory Validate
  imports Registry Epoch
begin

section \<open>The validation service (\<open>validate/src/server.rs\<close>)\<close>

text \<open>
  \<open>BrioletteValidate\<close> verifies the tokens of a request under the keys of its epoch update, then
  reports each to the token map and answers one flag per token. Calls to the token map are
  numbered by the position of the token in the request.
\<close>

record validate =
  va_tokenmap_uri :: string
  va_epoch_update :: epoch_update

definition validate_new :: "epoch_update \<Rightarrow> validate result" where
  "validate_new u =
     (case eu_extended_data u of
        None \<Rightarrow> Err InvalidMissingFields
      | Some x \<Rightarrow>
          (case opt_service_map_get (ee_service_map x) Tokenmap_Service of
             [] \<Rightarrow> Err InvalidMissingFields
           | uri # _ \<Rightarrow> Ok \<lparr>va_tokenmap_uri = uri, va_epoch_update = u\<rparr>))"

text \<open>\<open>check_tokenmap\<close>: \<open>Ok\<close> when the map answered without abuse.\<close>

definition check_tokenmap ::
  "(string \<Rightarrow> bool) \<Rightarrow> 's registry_call \<Rightarrow> nat \<Rightarrow> token \<Rightarrow> string \<Rightarrow> 's \<Rightarrow> bool result \<times> 's" where
  "check_tokenmap uri_ok call n tok uri s =
     (if \<not> uri_ok uri then (Ok False, s)
      else case tok_base tok of
        None \<Rightarrow> (panic, s)
      | Some b \<Rightarrow>
          (case call n (hi_signature b) tok s of
             (None, s') \<Rightarrow> (Ok False, s')
           | (Some r, s') \<Rightarrow> (Ok (\<not> ur_abuse_detected r), s')))"

fun check_each ::
  "(string \<Rightarrow> bool) \<Rightarrow> 's registry_call \<Rightarrow> string \<Rightarrow> nat \<Rightarrow> token list \<Rightarrow> bool list \<Rightarrow> 's
    \<Rightarrow> bool list result \<times> 's" where
  "check_each uri_ok call uri n [] flags s = (Ok flags, s)"
| "check_each uri_ok call uri n (tok # toks) flags s =
     on_ok (check_tokenmap uri_ok call n tok uri s) (\<lambda>good s'.
       check_each uri_ok call uri (Suc n) toks (flags @ [good]) s')"

definition validate_tokens_impl ::
  "env \<Rightarrow> u64 \<Rightarrow> (string \<Rightarrow> bool) \<Rightarrow> 's registry_call \<Rightarrow> validate \<Rightarrow> i32 \<Rightarrow> token list \<Rightarrow> 's
    \<Rightarrow> bool list result \<times> 's" where
  "validate_tokens_impl e now uri_ok call v version tokens s =
     (if version \<noteq> 0 then (Err InvalidVersion, s)
      else if tokens = [] then (Err InvalidMissingFields, s)
      else case eu_extended_data (va_epoch_update v) of
        None \<Rightarrow> (panic, s)
      | Some x \<Rightarrow>
          (case ee_ttc_group_public_keys x of
             [] \<Rightarrow> (panic, s)
           | gpk # _ \<Rightarrow>
               (case each (\<lambda>tok. and_then (token_verify e now tok gpk (ee_mint_signing_keys x)
                                             (ee_ticket_signing_keys x)) (\<lambda>_. Ok ())) tokens of
                  Inl f \<Rightarrow> (Inl f, s)
                | Inr _ \<Rightarrow> check_each uri_ok call (va_tokenmap_uri v) 0 tokens [] s)))"

text \<open>\<open>fetch_epoch_update\<close>; \<open>reply\<close> is what the clerk answered, \<open>None\<close> when it could not be reached.\<close>

definition fetch_epoch_update ::
  "env \<Rightarrow> bool \<Rightarrow> epoch_update option option \<Rightarrow> bytes \<Rightarrow> epoch_update result" where
  "fetch_epoch_update e uri_parses reply epoch_pk =
     (if \<not> uri_parses then Err ClerkFetchFailure
      else case reply of
        Some (Some u) \<Rightarrow>
          (case epoch_verify e u epoch_pk of
             Inr True \<Rightarrow> Ok u
           | Inl Panic \<Rightarrow> panic
           | _ \<Rightarrow> Err ClerkFetchFailure)
      | _ \<Rightarrow> Err ClerkFetchFailure)"

lemma fetch_epoch_update_Ok:
  "fetch_epoch_update e p reply pk = Ok u \<Longrightarrow> epoch_authentic e u pk \<and> reply = Some (Some u)"
  using epoch_verify_Ok_iff [of e u pk True]
  by (auto simp: fetch_epoch_update_def split: if_splits option.splits sum.splits bool.splits fault.splits)

subsection \<open>What a reply means\<close>

context token_registry
begin

lemma check_tokenmap_cases:
  assumes "check_tokenmap uri_ok call n tok uri s = (Ok good, s')"
  shows "s' = s \<and> \<not> good \<or> (\<exists>b r. tok_base tok = Some b \<and> call n (hi_signature b) tok s = (r, s')
    \<and> (good \<longrightarrow> r \<noteq> None \<and> holds s' (hi_signature b) tok \<and> \<not> bad s' (hi_signature b)))"
  using assms call_holds call_bad
  by (auto simp: check_tokenmap_def split: if_splits option.splits prod.splits)

lemma check_each_reply:
  assumes "check_each uri_ok call uri n toks flags s = (Ok reply, s')"
  shows "\<exists>rest. reply = flags @ rest \<and> length rest = length toks
    \<and> (\<forall>i < length toks. rest ! i \<longrightarrow> (\<exists>b. tok_base (toks ! i) = Some b \<and> holds s' (hi_signature b) (toks ! i)))
    \<and> (\<forall>i c. holds s i c \<longrightarrow> holds s' i c)"
  using assms
proof (induction toks arbitrary: n flags s)
  case (Cons tok toks)
  obtain good s1 where one: "check_tokenmap uri_ok call n tok uri s = (Ok good, s1)"
    and rest: "check_each uri_ok call uri (Suc n) toks (flags @ [good]) s1 = (Ok reply, s')"
    using Cons.prems by (auto simp: on_ok_Inr_iff)
  have first: "good \<longrightarrow> (\<exists>b. tok_base tok = Some b \<and> holds s1 (hi_signature b) tok)"
    and mono: "\<forall>i c. holds s i c \<longrightarrow> holds s1 i c"
    using check_tokenmap_cases [OF one] holds_mono by (metis snd_conv)+
  obtain r where r: "reply = (flags @ [good]) @ r" "length r = length toks"
      "\<forall>i < length toks. r ! i \<longrightarrow> (\<exists>b. tok_base (toks ! i) = Some b \<and> holds s' (hi_signature b) (toks ! i))"
      "\<forall>i c. holds s1 i c \<longrightarrow> holds s' i c"
    using Cons.IH [OF rest] by blast
  have "(good # r) ! i \<longrightarrow> (\<exists>b. tok_base ((tok # toks) ! i) = Some b \<and> holds s' (hi_signature b) ((tok # toks) ! i))"
    if "i < length (tok # toks)" for i
    using that first r(3,4) by (cases i) auto
  then show ?case using r mono by (intro exI [of _ "good # r"]) auto
qed simp

end

text \<open>the validation service answers one flag per token in the order of the request, and only when
  every token of the request verifies under the epoch's keys; a token flagged good is held by the
  token map afterwards. When one token does not verify the request fails with its error and nothing
  is reported to the map.\<close>

theorem validate_tokens_reply:
  assumes "validate_tokens_impl e now uri_ok (tokenmap_call e net clock) v version tokens tm = (res, tm')"
    and "eu_extended_data (va_epoch_update v) = Some x" "ee_ttc_group_public_keys x = gpk # gpks"
  shows "case res of
      Inl f \<Rightarrow> tm' = tm
    | Inr flags \<Rightarrow> length flags = length tokens
        \<and> (\<forall>tok \<in> set tokens. token_verify e now tok gpk (ee_mint_signing_keys x) (ee_ticket_signing_keys x) = Ok True)
        \<and> (\<forall>i < length tokens. flags ! i \<longrightarrow>
            (\<exists>b. tok_base (tokens ! i) = Some b \<and> tracked tm' (hi_signature b) (tokens ! i)))"
proof (cases res)
  case (Inl f)
  have loop: "\<exists>r. fst (check_each uri_ok (tokenmap_call e net clock) u n toks flags s) = Ok r"
    if "\<forall>tok \<in> set toks. tok_base tok \<noteq> None" for u n toks flags s
    using that
  proof (induction toks arbitrary: n flags s)
    case (Cons tok toks)
    then show ?case
      by (cases "check_tokenmap uri_ok (tokenmap_call e net clock) n tok u s")
        (auto simp: on_ok_def check_tokenmap_def split: option.splits prod.splits if_splits)
  qed simp
  have bases: "\<forall>tok \<in> set tokens. tok_base tok \<noteq> None"
    if "each (\<lambda>tok. and_then (token_verify e now tok gpk (ee_mint_signing_keys x)
      (ee_ticket_signing_keys x)) (\<lambda>_. Ok ())) tokens = Ok ()"
    using that token_verify_Ok_iff by (fastforce simp: each_Ok_iff and_then_Inr_iff)
  show ?thesis
    using Inl assms loop [OF bases, of "va_tokenmap_uri v" 0 "[]" tm]
    by (auto simp: validate_tokens_impl_def split: if_splits sum.splits)
next
  case (Inr flags)
  then have each: "each (\<lambda>tok. and_then (token_verify e now tok gpk (ee_mint_signing_keys x)
      (ee_ticket_signing_keys x)) (\<lambda>_. Ok ())) tokens = Ok ()"
    and loop: "check_each uri_ok (tokenmap_call e net clock) (va_tokenmap_uri v) 0 tokens [] tm = (Ok flags, tm')"
    using assms by (auto simp: validate_tokens_impl_def split: if_splits sum.splits)
  have "token_verify e now tok gpk (ee_mint_signing_keys x) (ee_ticket_signing_keys x) = Ok True"
    if "tok \<in> set tokens" for tok
    using each that token_verify_Ok_iff by (fastforce simp: each_Ok_iff and_then_Inr_iff)
  then show ?thesis
    using Inr registry.check_each_reply [OF loop] by auto
qed


definition sample_epoch :: epoch_update where
  "sample_epoch = \<lparr>eu_version = 0, eu_data = Some \<lparr>ed_epoch = 1, ed_group_bitfield = [],
       ed_extended_epoch_data_hash = replicate 32 0\<rparr>,
     eu_extended_data = Some \<lparr>ee_ttc_group_public_keys = [[3]], ee_epoch_signing_keys = [[5]],
       ee_ticket_signing_keys = [[7]], ee_mint_signing_keys = [[9]], ee_epoch_seconds = 86400,
       ee_service_map = Some [\<lparr>sme_name = 5, sme_uri = ''tokenmap''\<rparr>], ee_group_policies = []\<rparr>,
     eu_epoch_signature = 5 # replicate 63 0, eu_signing_key = [5]\<rparr>"

lemma validate_tokens_reply_witness:
  "\<exists>tm'. validate_tokens_impl sample_env 2000 (\<lambda>u. True) (tokenmap_call sample_env (\<lambda>n. Delivered) (\<lambda>n. 5))
      \<lparr>va_tokenmap_uri = ''tokenmap'', va_epoch_update = sample_epoch\<rparr> 0 [sample_token 10 1 []] tokenmap_new = (Ok [True], tm')
    \<and> tracked tm' (9 # replicate 64 0) (sample_token 10 1 [])"
proof -
  have verified: "token_verify sample_env 2000 (sample_token 10 1 []) [3] [[9]] [[7]] = Ok True"
    by (simp add: token_verify_def recipient_credential_def recipient_ticket_def tag_not_expired_def)
  have run: "\<exists>tm'. validate_tokens_impl sample_env 2000 (\<lambda>u. True) (tokenmap_call sample_env (\<lambda>n. Delivered) (\<lambda>n. 5))
      \<lparr>va_tokenmap_uri = ''tokenmap'', va_epoch_update = sample_epoch\<rparr> 0 [sample_token 10 1 []] tokenmap_new = (Ok [True], tm')"
    using verified by (simp add: validate_tokens_impl_def sample_epoch_def check_tokenmap_def tokenmap_call_def
        update_impl_new tokenmap_new_def sql_u64_def)
  then obtain tm' where "validate_tokens_impl sample_env 2000 (\<lambda>u. True) (tokenmap_call sample_env (\<lambda>n. Delivered) (\<lambda>n. 5))
      \<lparr>va_tokenmap_uri = ''tokenmap'', va_epoch_update = sample_epoch\<rparr> 0 [sample_token 10 1 []] tokenmap_new = (Ok [True], tm')"
    by blast
  note this and validate_tokens_reply [OF this, of "the (eu_extended_data sample_epoch)" "[3]" "[]"]
  then show ?thesis by (auto simp: sample_epoch_def)
qed

end
