(* ===== verification/Mint.thy ===== *)
theory Mint
  imports Registry
begin

section \<open>The mint (\<open>mint/src/server.rs\<close>)\<close>

text \<open>
  \<open>BrioletteMint\<close> signs a base transfer for each token of a request and releases the token when the
  token map has recorded it as new. The token map is reached through a registry call, numbered from
  the request's first; random draws are numbered from the same counter.
\<close>

definition VERSION_CURRENT :: i32 where "VERSION_CURRENT = 0"
definition TEST_TOKEN :: i32 where "TEST_TOKEN = 0"
definition TOKEN_VERSION_V1 :: i32 where "TOKEN_VERSION_V1 = 1"

record mint =
  mi_signing_key :: bytes
  mi_ttc_group_public_key :: bytes
  mi_ticket_signing_keys :: "bytes list"
  mi_tokenmap_uri :: string

text \<open>\<open>new\<close>; \<open>key_ok\<close> is \<open>SigningKey::from_bytes\<close> accepting the key.\<close>

definition mint_new ::
  "(bytes \<Rightarrow> bool) \<Rightarrow> bytes \<Rightarrow> bytes \<Rightarrow> bytes list \<Rightarrow> string \<Rightarrow> mint option" where
  "mint_new key_ok mint_secret_key gpk ticket_keys tokenmap_uri =
     (if mint_secret_key = [] \<or> gpk = [] \<or> ticket_keys = [] then None
      else if key_ok mint_secret_key then
        Some \<lparr>mi_signing_key = mint_secret_key, mi_ttc_group_public_key = gpk,
              mi_ticket_signing_keys = ticket_keys, mi_tokenmap_uri = tokenmap_uri\<rparr>
      else None)"

record get_tokens_request =
  gtr_version :: i32
  gtr_amount :: "amount option"
  gtr_tags :: "tag list"
  gtr_count :: u32
  gtr_ticket :: "signed_ticket option"

text \<open>The token signed in one round of the loop.\<close>

definition mint_descriptor :: "amount \<Rightarrow> descriptor" where
  "mint_descriptor a = \<lparr>ds_version = TOKEN_VERSION_V1, ds_value = Some a\<rparr>"

definition mint_base :: "env \<Rightarrow> amount \<Rightarrow> tag list \<Rightarrow> signed_ticket \<Rightarrow> transfer_msg" where
  "mint_base e a tags st = \<lparr>tf_recipient = Some st, tf_tags = tags,
     tf_previous_signature = sha256 e (enc_descriptor e (mint_descriptor a))\<rparr>"

definition mint_token :: "env \<Rightarrow> nat \<Rightarrow> mint \<Rightarrow> amount \<Rightarrow> tag list \<Rightarrow> signed_ticket \<Rightarrow> token result" where
  "mint_token e draw m a tags st =
     (let base = mint_base e a tags st in
      case sign_recoverable e draw (mi_signing_key m) (enc_transfer e base) of
        None \<Rightarrow> Err FailedToSignTokenTransfer
      | Some signature \<Rightarrow>
          Ok \<lparr>tok_descriptor = Some (mint_descriptor a),
              tok_base = Some \<lparr>hi_transfer = Some base, hi_signature = signature\<rparr>,
              tok_history = []\<rparr>)"

text \<open>\<open>update_tokenmap\<close>; \<open>uri_ok\<close> is \<open>Uri::parse\<close>, whose result is unwrapped.\<close>

definition mint_update_tokenmap ::
  "(string \<Rightarrow> bool) \<Rightarrow> 's registry_call \<Rightarrow> nat \<Rightarrow> token \<Rightarrow> string \<Rightarrow> 's \<Rightarrow> bool result \<times> 's" where
  "mint_update_tokenmap uri_ok call n tok uri s =
     (if \<not> uri_ok uri then (panic, s)
      else case tok_base tok of
        None \<Rightarrow> (panic, s)
      | Some b \<Rightarrow>
          (case call n (hi_signature b) tok s of
             (None, s') \<Rightarrow> (Ok False, s')
           | (Some r, s') \<Rightarrow> (Ok (ur_created r), s')))"

text \<open>The loop of \<open>get_tokens_impl\<close>: \<open>k\<close> rounds to go, \<open>n\<close> the number of the next one.\<close>

primrec mint_loop ::
  "env \<Rightarrow> (string \<Rightarrow> bool) \<Rightarrow> 's registry_call \<Rightarrow> mint \<Rightarrow> amount \<Rightarrow> tag list \<Rightarrow> signed_ticket
    \<Rightarrow> nat \<Rightarrow> nat \<Rightarrow> token list \<Rightarrow> 's \<Rightarrow> token list result \<times> 's" where
  "mint_loop e uri_ok call m a tags st 0 n reply s = (Ok reply, s)"
| "mint_loop e uri_ok call m a tags st (Suc k) n reply s =
     (case mint_token e n m a tags st of
        Inl f \<Rightarrow> (Inl f, s)
      | Inr tok \<Rightarrow>
          if mi_tokenmap_uri m = [] then mint_loop e uri_ok call m a tags st k (Suc n) reply s
          else on_ok (mint_update_tokenmap uri_ok call n tok (mi_tokenmap_uri m) s) (\<lambda>stored s'.
            mint_loop e uri_ok call m a tags st k (Suc n) (if stored then reply @ [tok] else reply) s'))"

definition get_tokens_impl ::
  "env \<Rightarrow> u64 \<Rightarrow> (string \<Rightarrow> bool) \<Rightarrow> 's registry_call \<Rightarrow> mint \<Rightarrow> get_tokens_request \<Rightarrow> 's
    \<Rightarrow> token list result \<times> 's" where
  "get_tokens_impl e now uri_ok call m rq s =
     (if gtr_version rq \<noteq> VERSION_CURRENT then (Err InvalidVersion, s)
      else if gtr_count rq = 0 then (Err InvalidMissingFields, s)
      else case (gtr_ticket rq, gtr_amount rq) of
        (Some st, Some a) \<Rightarrow>
          if am_code a \<noteq> TEST_TOKEN then (Err InvalidAmountType, s)
          else (case ticket_verify e now st (mi_ticket_signing_keys m) None of
            Inl f \<Rightarrow> (Inl f, s)
          | Inr _ \<Rightarrow>
              (case st_ticket st of
                 None \<Rightarrow> (panic, s)
               | Some tk \<Rightarrow>
                   if \<not> v1_credential_in_group e (tk_credential tk) (mi_ttc_group_public_key m)
                   then (Err InvalidTicketGroup, s)
                   else mint_loop e uri_ok call m a (gtr_tags rq) st (unat (gtr_count rq)) 0 [] s))
      | _ \<Rightarrow> (Err InvalidMissingFields, s))"

subsection \<open>Minted tokens verify and are tracked\<close>

lemma mint_token_verifies:
  assumes tok: "mint_token e draw m a tags st = Ok tok"
    and ecdsa: "ecdsa_correct e (mi_signing_key m)"
    and ticket: "ticket_verify e now st (mi_ticket_signing_keys m) None = Ok True"
    and mints: "ecdsa_public_key e (mi_signing_key m) \<in> set mints"
    and keys: "mi_ticket_signing_keys m \<noteq> []"
    and tags: "\<And>v. Some (ValidUntil v) \<in> set tags \<Longrightarrow> now \<le> v"
  shows "token_verify e now tok gpk mints (mi_ticket_signing_keys m) = Ok True"
proof -
  obtain sig where sig: "sign_recoverable e draw (mi_signing_key m) (enc_transfer e (mint_base e a tags st)) = Some sig"
    and t: "tok = \<lparr>tok_descriptor = Some (mint_descriptor a),
        tok_base = Some \<lparr>hi_transfer = Some (mint_base e a tags st), hi_signature = sig\<rparr>, tok_history = []\<rparr>"
    using tok by (auto simp: mint_token_def Let_def split: option.splits)
  have hist: "verify_signature_and_key e st (mi_ticket_signing_keys m) None = Ok True"
    using ticket verify_signature_and_key_True by (auto simp: ticket_verify_def and_then_Inr_iff)
  have rebuilt: "(mint_base e a tags st)\<lparr>tf_previous_signature :=
      sha256 e (enc_descriptor e (mint_descriptor a))\<rparr> = mint_base e a tags st"
    by (simp add: mint_base_def)
  have base: "verify_base e \<lparr>hi_transfer = Some (mint_base e a tags st), hi_signature = sig\<rparr>
      (mint_descriptor a) mints (mi_ticket_signing_keys m) = Ok True"
    using check_recoverable_sign [OF ecdsa sig mints] hist
    by (simp add: verify_base_def rebuilt) (simp add: mint_base_def)
  have holder: "holder_ticket_ok e now (mi_ticket_signing_keys m) tok"
    using ticket by (simp add: holder_ticket_ok_def current_entry_def t recipient_of_def) (simp add: mint_base_def)
  have "unexpired now \<lparr>hi_transfer = Some (mint_base e a tags st), hi_signature = sig\<rparr>"
    using tags by (simp add: unexpired_def transfer_tags_def) (simp add: mint_base_def)
  then show ?thesis
    using base holder by (simp add: token_verify_Ok_iff) (simp add: t valid_chain_def splits_fit_def)
qed

text \<open>The loop over any registry that keeps the contract: every token released was signed by the mint
  for the request, and the registry holds it in the end.\<close>

context token_registry
begin

lemma mint_update_tokenmap_Ok:
  assumes "mint_update_tokenmap uri_ok call n tok uri s = (Ok True, s')"
  shows "\<exists>b. tok_base tok = Some b \<and> holds s' (hi_signature b) tok"
  using assms call_holds
  by (fastforce simp: mint_update_tokenmap_def split: if_splits option.splits prod.splits)

lemma mint_update_tokenmap_mono:
  "holds s i c \<Longrightarrow> holds (snd (mint_update_tokenmap uri_ok call n tok uri s)) i c"
  "inv s \<Longrightarrow> inv (snd (mint_update_tokenmap uri_ok call n tok uri s))"
  using holds_mono call_inv
  by (auto simp: mint_update_tokenmap_def split: option.split prod.split) (metis snd_conv)+

definition released :: "env \<Rightarrow> mint \<Rightarrow> amount \<Rightarrow> tag list \<Rightarrow> signed_ticket \<Rightarrow> 's \<Rightarrow> token \<Rightarrow> bool" where
  "released e m a tags st s tok \<longleftrightarrow>
     (\<exists>draw b. mint_token e draw m a tags st = Ok tok \<and> tok_base tok = Some b \<and> holds s (hi_signature b) tok)"

lemma mint_loop_released:
  assumes "mint_loop e uri_ok call m a tags st k n reply s = (Ok toks, s')"
    and "\<And>tok. tok \<in> set reply \<Longrightarrow> released e m a tags st s tok"
  shows "(\<forall>tok \<in> set toks. released e m a tags st s' tok) \<and> length toks \<le> length reply + k"
  using assms
proof (induction k arbitrary: n reply s)
  case (Suc k)
  obtain tok where tok: "mint_token e n m a tags st = Ok tok"
    using Suc.prems(1) by (auto split: sum.splits)
  show ?case
  proof (cases "mi_tokenmap_uri m = []")
    case True
    then show ?thesis
      using Suc.IH [of "Suc n" reply s] Suc.prems tok by simp
  next
    case False
    then obtain stored s1 where one: "mint_update_tokenmap uri_ok call n tok (mi_tokenmap_uri m) s = (Ok stored, s1)"
      and rest: "mint_loop e uri_ok call m a tags st k (Suc n) (if stored then reply @ [tok] else reply) s1 = (Ok toks, s')"
      using Suc.prems(1) tok by (auto simp: on_ok_Inr_iff)
    have mono: "holds s1 i c" if "holds s i c" for i c
      using mint_update_tokenmap_mono(1) [OF that, of uri_ok n tok "mi_tokenmap_uri m"] one by simp
    have keep: "released e m a tags st s1 t" if "released e m a tags st s t" for t
      using that mono unfolding released_def by blast
    have new: "released e m a tags st s1 tok" if stored
      using that one mint_update_tokenmap_Ok [of uri_ok n tok _ s s1] tok unfolding released_def by auto
    have "released e m a tags st s1 t" if "t \<in> set (if stored then reply @ [tok] else reply)" for t
      using that keep new Suc.prems(2) by (auto split: if_splits)
    then show ?thesis
      using Suc.IH [OF rest] by (cases stored) auto
  qed
qed simp

lemma mint_loop_inv: "inv s \<Longrightarrow> inv (snd (mint_loop e uri_ok call m a tags st k n reply s))"
proof (induction k arbitrary: n reply s)
  case (Suc k)
  show ?case
  proof (cases "mint_token e n m a tags st")
    case (Inr tok)
    have "inv (snd (mint_update_tokenmap uri_ok call n tok (mi_tokenmap_uri m) s))"
      using Suc.prems by (rule mint_update_tokenmap_mono(2))
    then show ?thesis
      using Suc Inr by (simp add: on_ok_state [where P = inv])
  qed (use Suc in simp)
qed simp

end

subsection \<open>The mint with the modelled token map\<close>

lemma get_tokens_impl_Ok:
  assumes "get_tokens_impl e now uri_ok call m rq s = (Ok toks, s')"
  obtains st a where "gtr_ticket rq = Some st" "gtr_amount rq = Some a" "gtr_count rq \<noteq> 0"
    "am_code a = TEST_TOKEN"
    "ticket_verify e now st (mi_ticket_signing_keys m) None = Ok True"
    "mint_loop e uri_ok call m a (gtr_tags rq) st (unat (gtr_count rq)) 0 [] s = (Ok toks, s')"
  using assms ticket_verify_True
  by (fastforce simp: get_tokens_impl_def split: if_splits option.splits sum.splits)


definition sample_mint :: mint where
  "sample_mint = \<lparr>mi_signing_key = [9], mi_ttc_group_public_key = [], mi_ticket_signing_keys = [[7]],
     mi_tokenmap_uri = ''tokenmap''\<rparr>"

definition sample_mint_request :: get_tokens_request where
  "sample_mint_request = \<lparr>gtr_version = 0, gtr_amount = Some \<lparr>am_whole = 5, am_fractional = 0, am_code = 0\<rparr>,
     gtr_tags = [], gtr_count = 1, gtr_ticket = Some (sample_ticket 2 1000)\<rparr>"


end
