(* ===== verification/Clerk.thy ===== *)
theory Clerk
  imports Registry Epoch
begin

section \<open>The clerk (\<open>clerk/src/server.rs\<close>)\<close>

text \<open>
  \<open>BrioletteClerk\<close> signs tickets for credentials of the token transfer group, refreshes them, and
  distributes the epoch update. Issued tickets are filed in the token map before they are returned.
  The state is the epoch update behind its lock; writing it to disk is an outcome \<open>disk_ok\<close>.
\<close>

subsection \<open>The ticket store as the clerk sees it\<close>

type_synonym 's store_call = "nat \<Rightarrow> signed_ticket list \<Rightarrow> linkable_signature \<Rightarrow> 's \<Rightarrow> bool \<times> 's"

text \<open>\<open>update_ticket_store\<close> over the modelled token map, behind an arbitrary network.\<close>

definition tokenmap_store_call :: "env \<Rightarrow> (nat \<Rightarrow> delivery) \<Rightarrow> tokenmap store_call" where
  "tokenmap_store_call e net n tickets nac tm =
     (case net n of
        Unreachable \<Rightarrow> (False, tm)
      | Reply_Lost \<Rightarrow> (False, snd (store_tickets_impl e tickets (Some nac) tm))
      | Delivered \<Rightarrow> map_prod is_ok id (store_tickets_impl e tickets (Some nac) tm))"

locale ticket_store =
  fixes store :: "'s store_call"
    and filed :: "'s \<Rightarrow> bytes \<Rightarrow> linkable_signature option"
  assumes store_files: "store n tickets nac s = (True, s') \<Longrightarrow> st \<in> set tickets \<Longrightarrow>
      \<exists>c. ticket_credential st = Some c \<and> filed s c = None \<and> filed s' c = Some nac"
    and store_keeps: "filed s c = Some ls \<Longrightarrow> filed (snd (store n tickets nac s)) c = Some ls"
begin

text \<open>A credential can be filed once.\<close>

lemma store_refused:
  assumes "st \<in> set tickets" "ticket_credential st = Some c" "filed s c \<noteq> None"
  shows "\<not> fst (store n tickets nac s)"
proof
  assume "fst (store n tickets nac s)"
  then have "store n tickets nac s = (True, snd (store n tickets nac s))" by (cases "store n tickets nac s") simp
  from store_files [OF this assms(1)] show False using assms(2,3) by simp
qed

lemma store_twice:
  assumes "store n tickets nac s = (True, s1)" "st \<in> set tickets" "st' \<in> set tickets'"
    and "ticket_credential st = ticket_credential st'"
  shows "\<not> fst (store n' tickets' nac' s1)"
proof -
  obtain c where "ticket_credential st = Some c" "filed s1 c = Some nac"
    using store_files [OF assms(1,2)] by blast
  then show ?thesis using store_refused [OF assms(3), of c s1] assms(4) by simp
qed

end

lemma insert_signed_ticket_keeps:
  "get_ticket_signature c tm = Some ls \<Longrightarrow>
     get_ticket_signature c (snd (insert_signed_ticket cred st nac x tm)) = Some ls"
  by (auto simp: insert_signed_ticket_def get_ticket_signature_def tbl.ins_get tbl_has_def
      dest: tbl_insert_SomeD split: option.split)

lemma store_each_keeps:
  "get_ticket_signature c tm = Some ls \<Longrightarrow> get_ticket_signature c (snd (store_each e nac sts tm)) = Some ls"
proof (induction sts arbitrary: tm)
  case (Cons st sts)
  show ?case
  proof (cases "st_ticket st")
    case (Some tk)
    show ?thesis
      using Cons Some insert_signed_ticket_keeps [OF Cons.prems, of "tk_credential tk" st nac]
      by (auto simp: on_ok_def split: sum.split)
  qed (use Cons in simp)
qed simp

lemma store_tickets_keeps:
  "get_ticket_signature c tm = Some ls \<Longrightarrow>
     get_ticket_signature c (snd (store_tickets_impl e sts nac tm)) = Some ls"
  by (simp add: store_tickets_impl_def store_each_keeps split: option.split)

lemma store_tickets_Ok_files:
  assumes "store_tickets_impl e tickets (Some nac) tm = (Ok u, tm')" "st \<in> set tickets"
  shows "\<exists>c. ticket_credential st = Some c \<and> get_ticket_signature c tm = None
    \<and> get_ticket_signature c tm' = Some nac"
proof -
  have "store_each e nac tickets tm = (Ok u, tm')"
    using assms(1) by (auto simp: store_tickets_impl_def split: if_splits)
  then show ?thesis
    using store_each_Ok assms(2) by (fastforce simp: get_ticket_signature_def tbl_has_def)
qed

interpretation tickets: ticket_store "tokenmap_store_call e net" "\<lambda>tm c. get_ticket_signature c tm"
  for e net
proof unfold_locales
  show "\<exists>c. ticket_credential st = Some c \<and> get_ticket_signature c s = None \<and> get_ticket_signature c s' = Some nac"
    if "tokenmap_store_call e net n tickets nac s = (True, s')" "st \<in> set tickets" for n tickets nac s s' st
    using that store_tickets_Ok_files
    by (cases "store_tickets_impl e tickets (Some nac) s")
      (auto simp: tokenmap_store_call_def is_ok_def split: delivery.splits sum.splits)
  show "get_ticket_signature c (snd (tokenmap_store_call e net n tickets nac s)) = Some ls"
    if "get_ticket_signature c s = Some ls" for s c ls n tickets nac
    using that store_tickets_keeps by (simp add: tokenmap_store_call_def split: delivery.split)
qed

subsection \<open>State and requests\<close>

record clerk =
  ck_ticket_signing_key :: bytes
  ck_epoch_verifying_key :: bytes
  ck_epoch_update :: "epoch_update option"

record get_tickets_request =
  gk_version :: i32
  gk_known_epoch :: u64
  gk_ttc_public_key :: bytes
  gk_nac_public_key :: bytes
  gk_nac_signature :: bytes
  gk_requests :: "ticket_request list option"

record refresh_tickets_request =
  rk_version :: i32
  rk_known_epoch :: u64
  rk_ttc_public_key :: bytes
  rk_nac_public_key :: bytes
  rk_nac_signature :: bytes
  rk_tickets :: "signed_ticket list"

record tickets_reply =
  tr_signing_key :: bytes
  tr_tickets :: "signed_ticket list"

definition DEFAULT_TICKET_LIFETIME :: u32 where "DEFAULT_TICKET_LIFETIME = 7"

fun ticket_lifetime_for_nac_group :: "group_policy list \<Rightarrow> bytes \<Rightarrow> u32" where
  "ticket_lifetime_for_nac_group [] nac_gpk = DEFAULT_TICKET_LIFETIME"
| "ticket_lifetime_for_nac_group (p # ps) nac_gpk =
     (if gp_nac_group_public_key p = nac_gpk then gp_ticket_lifetime p
      else ticket_lifetime_for_nac_group ps nac_gpk)"

text \<open>The revocation bit of a group in the epoch's bit field.\<close>

definition group_revoked :: "epoch_data \<Rightarrow> u32 \<Rightarrow> bool" where
  "group_revoked ed g =
     (let n = unat g; byte_idx = n div 8; bit_idx = n mod 8 in
      byte_idx < length (ed_group_bitfield ed) \<and> bit (ed_group_bitfield ed ! byte_idx) bit_idx)"

subsection \<open>Issuing tickets\<close>

definition clerk_sign_ticket :: "env \<Rightarrow> nat \<Rightarrow> clerk \<Rightarrow> ticket \<Rightarrow> signed_ticket result" where
  "clerk_sign_ticket e draw ck tk =
     (case sign_recoverable e draw (ck_ticket_signing_key ck) (enc_ticket e tk) of
        None \<Rightarrow> Err FailedToSignTicket
      | Some signature \<Rightarrow> Ok \<lparr>st_ticket = Some tk, st_signature = signature\<rparr>)"

definition issue_ticket ::
  "env \<Rightarrow> nat \<Rightarrow> clerk \<Rightarrow> bytes \<Rightarrow> u32 \<Rightarrow> u64 \<Rightarrow> ticket_request \<Rightarrow> signed_ticket result" where
  "issue_ticket e draw ck ttc lifetime epoch rq =
     (let tk = \<lparr>tk_credential = trq_credential rq,
                tk_tags = Some \<lparr>td_group_number = trq_group_number rq, td_lifetime = lifetime,
                  td_created_on = epoch\<rparr>\<rparr> in
      if \<not> v1_credential_in_group e (tk_credential tk) ttc then Err CredentialInvalidForGroup
      else clerk_sign_ticket e draw ck tk)"

text \<open>A loop that builds the reply, with the number of the random draw.\<close>

fun collect :: "(nat \<Rightarrow> 'a \<Rightarrow> 'b result) \<Rightarrow> nat \<Rightarrow> 'a list \<Rightarrow> 'b list result" where
  "collect f n [] = Ok []"
| "collect f n (x # xs) =
     and_then (f n x) (\<lambda>y. and_then (collect f (Suc n) xs) (\<lambda>ys. Ok (y # ys)))"

text \<open>The checks both handlers share: the epoch state, the group key, the epoch the caller knows, and
  the NAC signature over the message with the epoch as basename.\<close>

definition clerk_preamble ::
  "env \<Rightarrow> clerk \<Rightarrow> bytes \<Rightarrow> u64 \<Rightarrow> bytes \<Rightarrow> bytes \<Rightarrow> bytes
    \<Rightarrow> (extended_epoch_data \<times> epoch_data) result" where
  "clerk_preamble e ck ttc known_epoch nac_pk nac_sig msg =
     (case ck_epoch_update ck of
        None \<Rightarrow> Err InvalidServerState
      | Some eu \<Rightarrow>
          and_then (unwrap (eu_extended_data eu)) (\<lambda>eed.
          if ttc \<notin> set (ee_ttc_group_public_keys eed) then Err UnknownTokenTransferGroupPublicKey
          else and_then (unwrap (eu_data eu)) (\<lambda>ed.
          if known_epoch < ed_epoch ed then Err EpochUpdateRequired
          else and_then (v1_verify e nac_pk (Some (u64_to_le_bytes (ed_epoch ed))) None nac_sig msg) (\<lambda>ok.
          if ok then Ok (eed, ed) else Err InvalidSignature))))"

definition clerk_store ::
  "env \<Rightarrow> 's store_call \<Rightarrow> clerk \<Rightarrow> epoch_data \<Rightarrow> bytes \<Rightarrow> bytes \<Rightarrow> signed_ticket list \<Rightarrow> 's
    \<Rightarrow> tickets_reply result \<times> 's" where
  "clerk_store e store ck ed nac_pk nac_sig tickets s =
     (case store 0 tickets \<lparr>ls_signature = nac_sig, ls_basename = u64_to_le_bytes (ed_epoch ed),
              ls_group_public_key = nac_pk\<rparr> s of
        (True, s') \<Rightarrow> (Ok \<lparr>tr_signing_key = ecdsa_public_key e (ck_ticket_signing_key ck), tr_tickets = tickets\<rparr>, s')
      | (False, s') \<Rightarrow> (Err TokenMapFailure, s'))"

definition get_tickets_impl ::
  "env \<Rightarrow> 's store_call \<Rightarrow> clerk \<Rightarrow> get_tickets_request \<Rightarrow> 's \<Rightarrow> tickets_reply result \<times> 's" where
  "get_tickets_impl e store ck rq s =
     (if gk_version rq \<noteq> 0 then (Err InvalidVersion, s)
      else case gk_requests rq of
        None \<Rightarrow> (Err InvalidMissingFields, s)
      | Some requests \<Rightarrow>
          on_ok (clerk_preamble e ck (gk_ttc_public_key rq) (gk_known_epoch rq) (gk_nac_public_key rq)
                   (gk_nac_signature rq) (enc_ticket_requests e requests), s) (\<lambda>(eed, ed) s.
          let lifetime = ticket_lifetime_for_nac_group (ee_group_policies eed) (gk_nac_public_key rq) in
          on_ok (collect (\<lambda>draw. issue_ticket e draw ck (gk_ttc_public_key rq) lifetime (ed_epoch ed)) 0 requests, s)
            (\<lambda>tickets s. clerk_store e store ck ed (gk_nac_public_key rq) (gk_nac_signature rq) tickets s)))"

subsection \<open>Refreshing tickets\<close>

definition refresh_ticket ::
  "env \<Rightarrow> nat \<Rightarrow> clerk \<Rightarrow> bytes \<Rightarrow> u32 \<Rightarrow> epoch_data \<Rightarrow> signed_ticket \<Rightarrow> signed_ticket result" where
  "refresh_ticket e draw ck ttc lifetime ed st =
     and_then (ok_or (st_ticket st) InvalidMissingFields) (\<lambda>tk.
     let old_sig = butlast (st_signature st) in
     if \<not> ecdsa_sig_parses e old_sig then Err UnparseableTicketSignature
     else if \<not> ecdsa_verify e (ecdsa_public_key e (ck_ticket_signing_key ck)) (enc_ticket e tk) old_sig
     then Err InvalidTicketSignature
     else if \<not> v1_credential_in_group e (tk_credential tk) ttc then Err CredentialInvalidForGroup
     else and_then (ok_or (tk_tags tk) InvalidMissingFields) (\<lambda>tags.
     if group_revoked ed (td_group_number tags) then Err CredentialRevoked
     else clerk_sign_ticket e draw ck
            \<lparr>tk_credential = tk_credential tk,
             tk_tags = Some \<lparr>td_group_number = td_group_number tags, td_lifetime = lifetime,
               td_created_on = ed_epoch ed\<rparr>\<rparr>))"

definition refresh_tickets_impl ::
  "env \<Rightarrow> 's store_call \<Rightarrow> clerk \<Rightarrow> refresh_tickets_request \<Rightarrow> 's \<Rightarrow> tickets_reply result \<times> 's" where
  "refresh_tickets_impl e store ck rq s =
     (if rk_version rq \<noteq> 0 then (Err InvalidVersion, s)
      else if rk_tickets rq = [] then (Err InvalidMissingFields, s)
      else on_ok (clerk_preamble e ck (rk_ttc_public_key rq) (rk_known_epoch rq) (rk_nac_public_key rq)
                    (rk_nac_signature rq) (concat (map (enc_signed_ticket e) (rk_tickets rq))), s) (\<lambda>(eed, ed) s.
        let lifetime = ticket_lifetime_for_nac_group (ee_group_policies eed) (rk_nac_public_key rq) in
        on_ok (collect (\<lambda>draw. refresh_ticket e draw ck (rk_ttc_public_key rq) lifetime ed) 0 (rk_tickets rq), s)
          (\<lambda>tickets s. clerk_store e store ck ed (rk_nac_public_key rq) (rk_nac_signature rq) tickets s)))"

subsection \<open>Epochs\<close>

text \<open>The new update is in the state even when the write to disk fails.\<close>

definition add_epoch_impl :: "env \<Rightarrow> bool \<Rightarrow> epoch_update \<Rightarrow> clerk \<Rightarrow> unit result \<times> clerk" where
  "add_epoch_impl e disk_ok u ck =
     (if eu_version u \<noteq> 0 then (Err InvalidVersion, ck)
      else if eu_data u = None \<or> eu_extended_data u = None \<or> eu_epoch_signature u = [] \<or> eu_signing_key u = []
      then (Err InvalidMissingFields, ck)
      else case epoch_verify e u (ck_epoch_verifying_key ck) of
        Inl f \<Rightarrow> (Inl f, ck)
      | Inr _ \<Rightarrow>
          let ck' = ck\<lparr>ck_epoch_update := Some u\<rparr> in
          (if disk_ok then Ok () else Err ServerDiskError, ck'))"

definition get_epoch_impl :: "i32 \<Rightarrow> u64 \<Rightarrow> clerk \<Rightarrow> epoch_update option result" where
  "get_epoch_impl version known_epoch ck =
     (if version \<noteq> 0 then Err InvalidVersion
      else case ck_epoch_update ck of
        None \<Rightarrow> Err InvalidServerState
      | Some eu \<Rightarrow>
          and_then (unwrap (eu_data eu)) (\<lambda>d.
          Ok (if known_epoch < ed_epoch d then Some eu else None)))"

subsection \<open>What an issued ticket is\<close>

lemma collect_Ok_iff:
  "collect f n xs = Ok ys \<longleftrightarrow> length ys = length xs \<and> (\<forall>i < length xs. f (n + i) (xs ! i) = Ok (ys ! i))"
proof (induction xs arbitrary: n ys)
  case (Cons x xs)
  have "collect f n (x # xs) = Ok ys \<longleftrightarrow>
      (\<exists>z zs. ys = z # zs \<and> f n x = Ok z \<and> collect f (Suc n) xs = Ok zs)"
    by (auto simp: and_then_Inr_iff)
  also have "\<dots> \<longleftrightarrow> length ys = length (x # xs) \<and> (\<forall>i < length (x # xs). f (n + i) ((x # xs) ! i) = Ok (ys ! i))"
    unfolding Cons.IH by (cases ys) (simp_all add: All_less_Suc2 conj_ac)
  finally show ?case .
qed auto

lemma clerk_store_Ok:
  assumes "clerk_store e store ck ed nac_pk nac_sig tickets s = (Ok reply, s')"
  shows "tr_tickets reply = tickets
    \<and> store 0 tickets \<lparr>ls_signature = nac_sig, ls_basename = u64_to_le_bytes (ed_epoch ed),
        ls_group_public_key = nac_pk\<rparr> s = (True, s')"
  using assms by (auto simp: clerk_store_def split: prod.splits bool.splits)

lemma clerk_sign_ticket_verifies:
  assumes "clerk_sign_ticket e draw ck tk = Ok st" "ecdsa_correct e (ck_ticket_signing_key ck)"
    and "ecdsa_public_key e (ck_ticket_signing_key ck) \<in> set keys"
  shows "st_ticket st = Some tk \<and> verify_signature_and_key e st keys None = Ok True"
  using assms check_recoverable_sign
  by (auto simp: clerk_sign_ticket_def verify_signature_and_key_def split: option.splits)

lemma clerk_preamble_Ok:
  assumes "clerk_preamble e ck ttc known nac_pk nac_sig msg = Ok (eed, ed)"
  obtains eu where "ck_epoch_update ck = Some eu" "eu_extended_data eu = Some eed" "eu_data eu = Some ed"
    "ed_epoch ed \<le> known" "ttc \<in> set (ee_ttc_group_public_keys eed)"
    "v1_verify e nac_pk (Some (u64_to_le_bytes (ed_epoch ed))) None nac_sig msg = Ok True"
  using assms by (auto simp: clerk_preamble_def and_then_Inr_iff not_less split: option.splits if_splits)

text \<open>C10: when a ticket request is answered, the caller knew the clerk's epoch and its NAC signature over
  the request verified with that epoch as basename; ticket \<open>i\<close> is for request \<open>i\<close>, with the lifetime
  of the NAC group's policy and the epoch as creation time, carries a signature every holder of the
  clerk's key accepts, and is filed in the token map under the request's NAC signature, where its
  credential was new.\<close>

theorem issued_tickets_verify_and_filed:
  assumes "get_tickets_impl e (tokenmap_store_call e net) ck rq tm = (Ok reply, tm')"
    and "ecdsa_correct e (ck_ticket_signing_key ck)"
    and "ecdsa_public_key e (ck_ticket_signing_key ck) \<in> set keys"
  shows "\<exists>eu eed ed requests. ck_epoch_update ck = Some eu \<and> eu_extended_data eu = Some eed \<and> eu_data eu = Some ed
    \<and> gk_requests rq = Some requests \<and> ed_epoch ed \<le> gk_known_epoch rq
    \<and> v1_verify e (gk_nac_public_key rq) (Some (u64_to_le_bytes (ed_epoch ed))) None (gk_nac_signature rq)
        (enc_ticket_requests e requests) = Ok True
    \<and> length (tr_tickets reply) = length requests
    \<and> (\<forall>i < length requests. \<exists>tk. st_ticket (tr_tickets reply ! i) = Some tk
        \<and> tk_credential tk = trq_credential (requests ! i)
        \<and> tk_tags tk = Some \<lparr>td_group_number = trq_group_number (requests ! i),
            td_lifetime = ticket_lifetime_for_nac_group (ee_group_policies eed) (gk_nac_public_key rq),
            td_created_on = ed_epoch ed\<rparr>
        \<and> verify_signature_and_key e (tr_tickets reply ! i) keys None = Ok True
        \<and> get_ticket_signature (tk_credential tk) tm = None
        \<and> map_option ls_signature (get_ticket_signature (tk_credential tk) tm') = Some (gk_nac_signature rq))"
proof -
  obtain requests eed ed tickets where rq: "gk_requests rq = Some requests"
    and pre: "clerk_preamble e ck (gk_ttc_public_key rq) (gk_known_epoch rq) (gk_nac_public_key rq)
      (gk_nac_signature rq) (enc_ticket_requests e requests) = Ok (eed, ed)"
    and col: "collect (\<lambda>draw. issue_ticket e draw ck (gk_ttc_public_key rq)
        (ticket_lifetime_for_nac_group (ee_group_policies eed) (gk_nac_public_key rq)) (ed_epoch ed)) 0 requests = Ok tickets"
    and sto: "clerk_store e (tokenmap_store_call e net) ck ed (gk_nac_public_key rq) (gk_nac_signature rq) tickets tm = (Ok reply, tm')"
    using assms(1) by (auto simp: get_tickets_impl_def on_ok_Inr_iff Let_def split: if_splits option.splits)
  note st = clerk_store_Ok [OF sto]
  have each: "\<exists>tk. st_ticket (tickets ! i) = Some tk
        \<and> tk_credential tk = trq_credential (requests ! i)
        \<and> tk_tags tk = Some \<lparr>td_group_number = trq_group_number (requests ! i),
            td_lifetime = ticket_lifetime_for_nac_group (ee_group_policies eed) (gk_nac_public_key rq),
            td_created_on = ed_epoch ed\<rparr>
        \<and> verify_signature_and_key e (tickets ! i) keys None = Ok True
        \<and> get_ticket_signature (tk_credential tk) tm = None
        \<and> map_option ls_signature (get_ticket_signature (tk_credential tk) tm') = Some (gk_nac_signature rq)"
    if i: "i < length requests" for i
  proof -
    have iss: "issue_ticket e i ck (gk_ttc_public_key rq)
        (ticket_lifetime_for_nac_group (ee_group_policies eed) (gk_nac_public_key rq)) (ed_epoch ed) (requests ! i)
        = Ok (tickets ! i)" and mem: "tickets ! i \<in> set tickets"
      using col i by (auto simp: collect_Ok_iff)
    show ?thesis
      using iss clerk_sign_ticket_verifies [OF _ assms(2,3)] tickets.store_files [OF conjunct2 [OF st] mem]
      by (fastforce simp: issue_ticket_def Let_def ticket_credential_def split: if_splits)
  qed
  obtain eu where "ck_epoch_update ck = Some eu" "eu_extended_data eu = Some eed" "eu_data eu = Some ed"
    "ed_epoch ed \<le> gk_known_epoch rq"
    "v1_verify e (gk_nac_public_key rq) (Some (u64_to_le_bytes (ed_epoch ed))) None (gk_nac_signature rq)
        (enc_ticket_requests e requests) = Ok True"
    using clerk_preamble_Ok [OF pre] by metis
  then show ?thesis using rq each st col by (auto simp: collect_Ok_iff)
qed

lemma refresh_ticket_credential:
  assumes "refresh_ticket e draw ck ttc lifetime ed st = Ok st'"
  shows "ticket_credential st' = ticket_credential st \<and> (\<exists>tk tags. st_ticket st = Some tk
    \<and> tk_tags tk = Some tags \<and> \<not> group_revoked ed (td_group_number tags))"
  using assms
  by (auto simp: refresh_ticket_def and_then_Inr_iff Let_def clerk_sign_ticket_def ticket_credential_def
      split: if_splits option.splits)

lemma refresh_tickets_impl_Ok:
  assumes "refresh_tickets_impl e store ck rq s = (Ok reply, s')"
  obtains eed :: extended_epoch_data and ed tickets where "clerk_store e store ck ed (rk_nac_public_key rq) (rk_nac_signature rq) tickets s = (Ok reply, s')"
    "length tickets = length (rk_tickets rq)"
    "\<And>i. i < length (rk_tickets rq) \<Longrightarrow> refresh_ticket e i ck (rk_ttc_public_key rq)
       (ticket_lifetime_for_nac_group (ee_group_policies eed) (rk_nac_public_key rq)) ed (rk_tickets rq ! i) = Ok (tickets ! i)"
proof -
  obtain eed :: extended_epoch_data and ed tickets where
    col: "collect (\<lambda>draw. refresh_ticket e draw ck (rk_ttc_public_key rq)
        (ticket_lifetime_for_nac_group (ee_group_policies eed) (rk_nac_public_key rq)) ed) 0 (rk_tickets rq) = Ok tickets"
    and sto: "clerk_store e store ck ed (rk_nac_public_key rq) (rk_nac_signature rq) tickets s = (Ok reply, s')"
    using assms by (auto simp: refresh_tickets_impl_def on_ok_Inr_iff Let_def split: if_splits)
  show thesis by (rule that [OF sto]) (use col in \<open>auto simp: collect_Ok_iff\<close>)
qed

text \<open>Over any ticket store that files a credential once, a filed credential is never refreshed.\<close>

lemma refresh_needs_unfiled:
  assumes "refresh_tickets_impl e (tokenmap_store_call e net) ck rq tm = (Ok reply, tm')"
    and "st \<in> set (rk_tickets rq)" "ticket_credential st = Some c"
  shows "get_ticket_signature c tm = None"
proof -
  obtain eed :: extended_epoch_data and ed tickets where sto: "clerk_store e (tokenmap_store_call e net) ck ed (rk_nac_public_key rq)
        (rk_nac_signature rq) tickets tm = (Ok reply, tm')"
    and len: "length tickets = length (rk_tickets rq)"
    and each: "\<And>i. i < length (rk_tickets rq) \<Longrightarrow> refresh_ticket e i ck (rk_ttc_public_key rq)
       (ticket_lifetime_for_nac_group (ee_group_policies eed) (rk_nac_public_key rq)) ed (rk_tickets rq ! i) = Ok (tickets ! i)"
    using refresh_tickets_impl_Ok [OF assms(1)] by metis
  obtain i where i: "i < length (rk_tickets rq)" "st = rk_tickets rq ! i"
    using assms(2) by (auto simp: in_set_conv_nth)
  have "ticket_credential (tickets ! i) = Some c" "tickets ! i \<in> set tickets"
    using refresh_ticket_credential [OF each [OF i(1)]] i assms(3) len by auto
  then show ?thesis
    using tickets.store_files [OF conjunct2 [OF clerk_store_Ok [OF sto]]] by fastforce
qed

text \<open>a ticket the clerk issued can never be refreshed: the refreshed ticket keeps the credential,
  the token map has that credential as a primary key since the ticket was issued, and the clerk does
  not return tickets it could not file. No later state of the token map and no network helps.\<close>

theorem issued_ticket_never_refreshed:
  assumes "get_tickets_impl e (tokenmap_store_call e net) ck rq tm = (Ok reply, tm1)"
    and "st \<in> set (tr_tickets reply)" "st' \<in> set (rk_tickets rq2)"
    and "ticket_credential st' = ticket_credential st"
  shows "\<not> is_ok (fst (refresh_tickets_impl e (tokenmap_store_call e net2) ck2 rq2
    (snd (store_tickets_impl e others nac tm1))))"
proof
  let ?tm2 = "snd (store_tickets_impl e others nac tm1)"
  assume "is_ok (fst (refresh_tickets_impl e (tokenmap_store_call e net2) ck2 rq2 ?tm2))"
  then obtain reply2 tm3 where ref: "refresh_tickets_impl e (tokenmap_store_call e net2) ck2 rq2 ?tm2 = (Ok reply2, tm3)"
    by (cases "refresh_tickets_impl e (tokenmap_store_call e net2) ck2 rq2 ?tm2")
      (auto simp: is_ok_def split: sum.splits)
  obtain ed nacpk sg where sto: "clerk_store e (tokenmap_store_call e net) ck ed nacpk sg (tr_tickets reply) tm = (Ok reply, tm1)"
    using assms(1) clerk_store_Ok
    by (fastforce simp: get_tickets_impl_def on_ok_Inr_iff Let_def split: if_splits option.splits)
  obtain c ls where "ticket_credential st = Some c" "get_ticket_signature c tm1 = Some ls"
    using tickets.store_files [OF conjunct2 [OF clerk_store_Ok [OF sto]] assms(2)] by blast
  moreover have "get_ticket_signature c ?tm2 = Some ls" using store_tickets_keeps calculation(2) by blast
  ultimately show False using refresh_needs_unfiled [OF ref assms(3)] assms(4) by simp
qed

subsection \<open>Witnesses for the issue and refresh of a ticket\<close>

definition sample_clerk :: clerk where
  "sample_clerk = \<lparr>ck_ticket_signing_key = [7], ck_epoch_verifying_key = [5],
     ck_epoch_update = Some \<lparr>eu_version = 0, eu_data = Some \<lparr>ed_epoch = 1000, ed_group_bitfield = [],
         ed_extended_epoch_data_hash = replicate 32 0\<rparr>,
       eu_extended_data = Some \<lparr>ee_ttc_group_public_keys = [[3]], ee_epoch_signing_keys = [[5]],
         ee_ticket_signing_keys = [[7]], ee_mint_signing_keys = [[9]], ee_epoch_seconds = 86400,
         ee_service_map = None, ee_group_policies = []\<rparr>,
       eu_epoch_signature = 5 # replicate 63 0, eu_signing_key = [5]\<rparr>\<rparr>"

definition sample_tickets_request :: get_tickets_request where
  "sample_tickets_request = \<lparr>gk_version = 0, gk_known_epoch = 1000, gk_ttc_public_key = [3],
     gk_nac_public_key = [4], gk_nac_signature = replicate 336 1,
     gk_requests = Some [\<lparr>trq_credential = replicate 192 2, trq_group_number = 1\<rparr>]\<rparr>"

lemma sample_issue:
  "\<exists>tm'. get_tickets_impl sample_env (tokenmap_store_call sample_env (\<lambda>n. Delivered)) sample_clerk
     sample_tickets_request tokenmap_new
   = (Ok \<lparr>tr_signing_key = [7], tr_tickets = [\<lparr>st_ticket = Some \<lparr>tk_credential = replicate 192 2,
        tk_tags = Some \<lparr>td_group_number = 1, td_lifetime = 7, td_created_on = 1000\<rparr>\<rparr>,
        st_signature = 7 # replicate 63 0 @ [0]\<rparr>]\<rparr>, tm')"
  by (simp add: get_tickets_impl_def sample_clerk_def sample_tickets_request_def clerk_preamble_def
      issue_ticket_def clerk_sign_ticket_def sign_recoverable_def Let_def DEFAULT_TICKET_LIFETIME_def
      clerk_store_def tokenmap_store_call_def store_tickets_impl_def expires_on_def expires_on_with_epoch_def
      ticket_tags_def DEFAULT_EPOCH_SECONDS_def u32_mul_def u64_add_def insert_signed_ticket_def sql_u64_def
      tokenmap_new_def tbl_insert_def)

lemma issued_tickets_verify_and_filed_witness:
  "\<exists>reply tm'. get_tickets_impl sample_env (tokenmap_store_call sample_env (\<lambda>n. Delivered)) sample_clerk
     sample_tickets_request tokenmap_new = (Ok reply, tm') \<and> length (tr_tickets reply) = 1"
proof -
  obtain reply tm' where "get_tickets_impl sample_env (tokenmap_store_call sample_env (\<lambda>n. Delivered)) sample_clerk
     sample_tickets_request tokenmap_new = (Ok reply, tm')"
    using sample_issue by blast
  note this and issued_tickets_verify_and_filed [OF this sample_ecdsa_correct, of "[[7]]"]
  then show ?thesis by (fastforce simp: sample_clerk_def sample_tickets_request_def)
qed

lemma issued_ticket_never_refreshed_witness:
  "\<exists>tm1 st. get_tickets_impl sample_env (tokenmap_store_call sample_env (\<lambda>n. Delivered)) sample_clerk
      sample_tickets_request tokenmap_new = (Ok \<lparr>tr_signing_key = [7], tr_tickets = [st]\<rparr>, tm1)
    \<and> \<not> is_ok (fst (refresh_tickets_impl sample_env (tokenmap_store_call sample_env (\<lambda>n. Delivered)) sample_clerk
      \<lparr>rk_version = 0, rk_known_epoch = 1000, rk_ttc_public_key = [3], rk_nac_public_key = [4],
       rk_nac_signature = replicate 336 1, rk_tickets = [st]\<rparr>
      (snd (store_tickets_impl sample_env [] None tm1))))"
proof -
  obtain tm1 st where run: "get_tickets_impl sample_env (tokenmap_store_call sample_env (\<lambda>n. Delivered)) sample_clerk
      sample_tickets_request tokenmap_new = (Ok \<lparr>tr_signing_key = [7], tr_tickets = [st]\<rparr>, tm1)"
    using sample_issue by blast
  show ?thesis
    by (intro exI conjI, rule run, rule issued_ticket_never_refreshed [OF run, of st]) simp_all
qed

subsection \<open>Revoked groups and epochs\<close>

definition with_bitfield :: "bytes \<Rightarrow> clerk \<Rightarrow> clerk" where
  "with_bitfield bits ck = ck\<lparr>ck_epoch_update := map_option
     (\<lambda>eu. eu\<lparr>eu_data := map_option (\<lambda>d. d\<lparr>ed_group_bitfield := bits\<rparr>) (eu_data eu)\<rparr>) (ck_epoch_update ck)\<rparr>"

lemma with_bitfield_sign [simp]:
  "clerk_sign_ticket e draw (with_bitfield bits ck) tk = clerk_sign_ticket e draw ck tk"
  "issue_ticket e draw (with_bitfield bits ck) = issue_ticket e draw ck"
  by (simp_all add: clerk_sign_ticket_def issue_ticket_def with_bitfield_def fun_eq_iff)

lemma with_bitfield_preamble:
  "clerk_preamble e (with_bitfield bits ck) ttc known nac sg msg =
     and_then (clerk_preamble e ck ttc known nac sg msg) (\<lambda>(eed, ed). Ok (eed, ed\<lparr>ed_group_bitfield := bits\<rparr>))"
proof (cases "ck_epoch_update ck")
  case (Some eu)
  show ?thesis
  proof (cases "eu_data eu")
    case d: (Some d)
    show ?thesis
      by (cases "eu_extended_data eu"; cases "v1_verify e nac (Some (u64_to_le_bytes (ed_epoch d))) None sg msg")
        (simp_all add: with_bitfield_def clerk_preamble_def Some d)
  qed (cases "eu_extended_data eu", simp_all add: with_bitfield_def clerk_preamble_def Some)
qed (simp add: with_bitfield_def clerk_preamble_def)

text \<open>the epoch's revocation bits stop a refresh but not an issue: a refresh that is answered had no
  ticket of a revoked group, whereas what \<open>get_tickets\<close> answers does not depend on the bits at all, and
  the group number of a new ticket is the one the caller names.\<close>

theorem revocation_bits_only_in_refresh:
  "get_tickets_impl e store (with_bitfield bits ck) rq s = get_tickets_impl e store ck rq s
   \<and> (\<forall>rrq reply s'. refresh_tickets_impl e store ck rrq s = (Ok reply, s') \<longrightarrow>
        (\<forall>st \<in> set (rk_tickets rrq). \<exists>ed tk tags. (\<exists>eu. ck_epoch_update ck = Some eu \<and> eu_data eu = Some ed)
           \<and> st_ticket st = Some tk \<and> tk_tags tk = Some tags \<and> \<not> group_revoked ed (td_group_number tags)))"
proof (intro conjI allI impI ballI)
  have "clerk_store e store (with_bitfield bits ck) (ed\<lparr>ed_group_bitfield := bits\<rparr>) nac sg ts s
      = clerk_store e store ck ed nac sg ts s" for ed nac sg ts s
    by (simp add: clerk_store_def with_bitfield_def split: prod.split bool.split)
  then show "get_tickets_impl e store (with_bitfield bits ck) rq s = get_tickets_impl e store ck rq s"
    by (auto simp: get_tickets_impl_def with_bitfield_preamble on_ok_def and_then_def Let_def
        split: option.split sum.split)
next
  fix rrq reply s' st
  assume "refresh_tickets_impl e store ck rrq s = (Ok reply, s')" and mem: "st \<in> set (rk_tickets rrq)"
  then obtain eed ed tickets where
    pre: "clerk_preamble e ck (rk_ttc_public_key rrq) (rk_known_epoch rrq) (rk_nac_public_key rrq)
      (rk_nac_signature rrq) (concat (map (enc_signed_ticket e) (rk_tickets rrq))) = Ok (eed, ed)"
    and col: "collect (\<lambda>draw. refresh_ticket e draw ck (rk_ttc_public_key rrq)
        (ticket_lifetime_for_nac_group (ee_group_policies eed) (rk_nac_public_key rrq)) ed) 0 (rk_tickets rrq) = Ok tickets"
    by (auto simp: refresh_tickets_impl_def on_ok_Inr_iff Let_def split: if_splits)
  obtain i where "i < length (rk_tickets rrq)" "st = rk_tickets rrq ! i"
    using mem by (auto simp: in_set_conv_nth)
  then have "\<exists>d lt st'. refresh_ticket e d ck (rk_ttc_public_key rrq) lt ed st = Ok st'"
    using col by (auto simp: collect_Ok_iff)
  then show "\<exists>ed tk tags. (\<exists>eu. ck_epoch_update ck = Some eu \<and> eu_data eu = Some ed)
           \<and> st_ticket st = Some tk \<and> tk_tags tk = Some tags \<and> \<not> group_revoked ed (td_group_number tags)"
    using refresh_ticket_credential clerk_preamble_Ok [OF pre] by metis
qed

text \<open>The clerk's epoch update, once one was added.\<close>

definition clerk_epoch_inv :: "env \<Rightarrow> clerk \<Rightarrow> bool" where
  "clerk_epoch_inv e ck \<longleftrightarrow>
     (\<forall>eu. ck_epoch_update ck = Some eu \<longrightarrow> epoch_authentic e eu (ck_epoch_verifying_key ck))"

lemma add_epoch_impl_cases:
  "add_epoch_impl e disk_ok u ck = (r, ck') \<Longrightarrow>
     ck' = ck \<or> ck' = ck\<lparr>ck_epoch_update := Some u\<rparr> \<and> epoch_authentic e u (ck_epoch_verifying_key ck)
       \<and> r = (if disk_ok then Ok () else Err ServerDiskError)"
  using epoch_verify_Ok_iff [of e u "ck_epoch_verifying_key ck"]
  by (auto simp: add_epoch_impl_def Let_def split: if_splits sum.splits)

text \<open>the clerk serves only epoch updates signed with its epoch key, so its handlers never panic for
  a missing part of one; but an update is accepted whatever its number, so any authentic update of
  an older epoch replaces a newer one, and it does so even when the call reports a disk error.\<close>

theorem add_epoch_authentic_not_monotone:
  "(clerk_epoch_inv e ck \<longrightarrow> clerk_epoch_inv e (snd (add_epoch_impl e disk_ok u ck)))
   \<and> (epoch_authentic e u (ck_epoch_verifying_key ck) \<and> eu_version u = 0 \<and> eu_epoch_signature u \<noteq> []
        \<and> eu_signing_key u \<noteq> [] \<longrightarrow>
      add_epoch_impl e disk_ok u ck
        = (if disk_ok then Ok () else Err ServerDiskError, ck\<lparr>ck_epoch_update := Some u\<rparr>))"
proof (intro conjI impI)
  assume inv: "clerk_epoch_inv e ck"
  obtain r ck' where eq: "add_epoch_impl e disk_ok u ck = (r, ck')" by force
  show "clerk_epoch_inv e (snd (add_epoch_impl e disk_ok u ck))"
    using add_epoch_impl_cases [OF eq] inv by (auto simp: eq clerk_epoch_inv_def)
next
  assume a: "epoch_authentic e u (ck_epoch_verifying_key ck) \<and> eu_version u = 0 \<and> eu_epoch_signature u \<noteq> []
        \<and> eu_signing_key u \<noteq> []"
  then have "epoch_verify e u (ck_epoch_verifying_key ck) = Ok True" by (simp add: epoch_verify_Ok_iff)
  then show "add_epoch_impl e disk_ok u ck
        = (if disk_ok then Ok () else Err ServerDiskError, ck\<lparr>ck_epoch_update := Some u\<rparr>)"
    using a by (auto simp: add_epoch_impl_def Let_def epoch_authentic_def)
qed

lemma revocation_bits_only_in_refresh_witness:
  "\<exists>reply tm' ed. refresh_tickets_impl sample_env (tokenmap_store_call sample_env (\<lambda>n. Delivered)) sample_clerk
      \<lparr>rk_version = 0, rk_known_epoch = 1000, rk_ttc_public_key = [3], rk_nac_public_key = [4],
       rk_nac_signature = replicate 336 1, rk_tickets = [sample_ticket 2 1000]\<rparr> tokenmap_new = (Ok reply, tm')
    \<and> \<not> group_revoked ed 1"
proof -
  let ?rq = "\<lparr>rk_version = 0, rk_known_epoch = 1000, rk_ttc_public_key = [3], rk_nac_public_key = [4],
       rk_nac_signature = replicate 336 1, rk_tickets = [sample_ticket 2 1000]\<rparr>"
  have "\<exists>reply tm'. refresh_tickets_impl sample_env (tokenmap_store_call sample_env (\<lambda>n. Delivered)) sample_clerk
      ?rq tokenmap_new = (Ok reply, tm')"
    by (simp add: refresh_tickets_impl_def sample_clerk_def clerk_preamble_def
      refresh_ticket_def clerk_sign_ticket_def sign_recoverable_def Let_def DEFAULT_TICKET_LIFETIME_def
      clerk_store_def tokenmap_store_call_def store_tickets_impl_def expires_on_def expires_on_with_epoch_def
      ticket_tags_def DEFAULT_EPOCH_SECONDS_def u32_mul_def u64_add_def insert_signed_ticket_def sql_u64_def
      tokenmap_new_def tbl_insert_def group_revoked_def)
  then obtain reply tm' where run: "refresh_tickets_impl sample_env (tokenmap_store_call sample_env (\<lambda>n. Delivered)) sample_clerk
      ?rq tokenmap_new = (Ok reply, tm')" by blast
  have "\<exists>ed tk tags. (\<exists>eu. ck_epoch_update sample_clerk = Some eu \<and> eu_data eu = Some ed)
      \<and> st_ticket (sample_ticket 2 1000) = Some tk \<and> tk_tags tk = Some tags \<and> \<not> group_revoked ed (td_group_number tags)"
    using revocation_bits_only_in_refresh run by fastforce
  then show ?thesis using run by auto
qed

lemma add_epoch_authentic_not_monotone_witness:
  "add_epoch_impl sample_env True
     (the (ck_epoch_update sample_clerk)) \<lparr>ck_ticket_signing_key = [7], ck_epoch_verifying_key = [5],
        ck_epoch_update = None\<rparr> = (Ok (), sample_clerk)"
  using add_epoch_authentic_not_monotone [of sample_env
      "\<lparr>ck_ticket_signing_key = [7], ck_epoch_verifying_key = [5], ck_epoch_update = None\<rparr>" True
      "the (ck_epoch_update sample_clerk)"]
  by (simp add: epoch_authentic_def sample_clerk_def)

end
