(* ===== verification/Wallet.thy ===== *)
theory Wallet
  imports Clerk Mint
begin

section \<open>The wallet (\<open>wallet/src/lib.rs\<close>)\<close>

text \<open>
  \<open>WalletData\<close>: the two credentials, the epoch it works in, its tickets and tokens, and the
  transfers that are ready to be sent. A service call is a function argument from the request to
  what the wallet gets: no connection, an error status, or a reply. Random draws are numbered. A
  smart card is a signer called with the number of the draw, so that its answers may change from
  call to call. \<open>fractional_value\<close>, an \<open>f32\<close> no operation reads, is kept as the \<open>i32\<close> it rounds.
  A handler that panics leaves the fields as they were at that point.
\<close>

datatype 'a rpc = No_Connection | Rpc_Error | Reply 'a

record credential =
  cr_public_key :: bytes
  cr_secret_key :: bytes
  cr_group_public_key :: "bytes option"
  cr_credential :: "bytes option"
  cr_credential_signature :: "bytes option"
  cr_host_secret_key :: "bytes option"

record wallet_epoch =
  we_epoch_update :: "epoch_update option"
  we_eu_serialized :: bytes
  we_epoch_number :: u64
  we_group_bitfield :: bytes
  we_ttc_group_public_keys :: "bytes list"
  we_epoch_signing_keys :: "bytes list"
  we_ticket_signing_keys :: "bytes list"
  we_mint_signing_keys :: "bytes list"

record ticket_entry =
  te_ticket :: bytes
  te_credential :: bytes
  te_group_number :: u32
  te_created_on :: u64
  te_lifetime :: u32
  te_signature :: bytes

record token_entry =
  ke_token :: bytes
  ke_credential :: bytes
  ke_whole_value :: i32
  ke_fractional_value :: i32
  ke_value_code :: i32

text \<open>\<open>split::sign_split\<close> on the NAC card: draw, host key, message, credential, basename, randomize.\<close>

type_synonym nac_signer =
  "nat \<Rightarrow> bytes \<Rightarrow> bytes \<Rightarrow> bytes \<Rightarrow> bytes option \<Rightarrow> bool \<Rightarrow> bytes option result"

record wallet =
  wa_hw_id :: bytes
  wa_network_credential :: credential
  wa_transfer_credential :: credential
  wa_epoch :: wallet_epoch
  wa_tickets :: "ticket_entry list"
  wa_tokens :: "token_entry list"
  wa_pending_tokens :: "bytes list"
  wa_seen_tokens :: "bytes set"
  wa_nac_card :: "nac_signer option"
  wa_ttc_card :: "card_signer option"

subsection \<open>Conversions\<close>

definition token_entry_of :: "env \<Rightarrow> token \<Rightarrow> token_entry result" where
  "token_entry_of e tok =
     and_then (if tok_history tok = [] then unwrap (tok_base tok) else Ok (last (tok_history tok))) (\<lambda>h.
     and_then (recipient_credential h) (\<lambda>c.
     and_then (unwrap (tok_descriptor tok)) (\<lambda>d.
     and_then (unwrap (ds_value d)) (\<lambda>v.
     Ok \<lparr>ke_token = enc_token e tok, ke_credential = c, ke_whole_value = am_whole v,
         ke_fractional_value = am_fractional v, ke_value_code = am_code v\<rparr>))))"

definition signed_ticket_of :: "ticket_entry \<Rightarrow> signed_ticket" where
  "signed_ticket_of te = \<lparr>st_ticket = Some \<lparr>tk_credential = te_credential te,
     tk_tags = Some \<lparr>td_group_number = te_group_number te, td_lifetime = te_lifetime te,
       td_created_on = te_created_on te\<rparr>\<rparr>, st_signature = te_signature te\<rparr>"

definition token_of_entry :: "env \<Rightarrow> token_entry \<Rightarrow> token result" where
  "token_of_entry e ke = unwrap (dec_token e (ke_token ke))"

subsection \<open>Keys and cards\<close>

definition set_split_keys :: "bytes \<Rightarrow> bytes \<Rightarrow> bytes \<Rightarrow> bytes \<Rightarrow> bytes \<Rightarrow> wallet \<Rightarrow> wallet" where
  "set_split_keys hw_id nac_pk nac_host_sk ttc_pk ttc_host_sk w =
     w\<lparr>wa_hw_id := hw_id,
       wa_network_credential := (wa_network_credential w)\<lparr>cr_public_key := nac_pk,
         cr_secret_key := nac_host_sk, cr_host_secret_key := Some nac_host_sk\<rparr>,
       wa_transfer_credential := (wa_transfer_credential w)\<lparr>cr_public_key := ttc_pk,
         cr_secret_key := ttc_host_sk, cr_host_secret_key := Some ttc_host_sk\<rparr>\<rparr>"

definition attestation_challenge_preimage :: "wallet \<Rightarrow> bytes" where
  "attestation_challenge_preimage w =
     wa_hw_id w @ cr_public_key (wa_network_credential w) @ cr_public_key (wa_transfer_credential w)"

definition attach_smart_cards :: "nac_signer \<Rightarrow> card_signer \<Rightarrow> wallet \<Rightarrow> wallet" where
  "attach_smart_cards nac ttc w = w\<lparr>wa_nac_card := Some nac, wa_ttc_card := Some ttc\<rparr>"

definition is_split_key_mode :: "wallet \<Rightarrow> bool" where
  "is_split_key_mode w \<longleftrightarrow>
     cr_host_secret_key (wa_network_credential w) \<noteq> None
     \<and> cr_host_secret_key (wa_transfer_credential w) \<noteq> None
     \<and> wa_nac_card w \<noteq> None \<and> wa_ttc_card w \<noteq> None"

definition sign_or_split ::
  "env \<Rightarrow> nat \<Rightarrow> nac_signer option \<Rightarrow> bytes option \<Rightarrow> bytes \<Rightarrow> bytes \<Rightarrow> bytes \<Rightarrow> bytes option \<Rightarrow> bool
    \<Rightarrow> bytes option result" where
  "sign_or_split e draw handle host_sk message cred secret_key basename randomize_cred =
     (case (handle, host_sk) of
        (Some signer, Some hsk) \<Rightarrow> signer draw hsk message cred basename randomize_cred
      | _ \<Rightarrow> v1_sign e draw message cred secret_key basename randomize_cred)"

subsection \<open>Transfers\<close>

definition wallet_transfer_token ::
  "env \<Rightarrow> nat \<Rightarrow> wallet \<Rightarrow> signed_ticket \<Rightarrow> swap_authorization option \<Rightarrow> token \<Rightarrow> token result" where
  "wallet_transfer_token e draw w dest swap_auth tok =
     (case (wa_ttc_card w, cr_host_secret_key (wa_transfer_credential w)) of
        (Some signer, Some hsk) \<Rightarrow> token_transfer_split e draw tok dest signer hsk swap_auth
      | _ \<Rightarrow> token_transfer e draw tok dest (cr_secret_key (wa_transfer_credential w)))"

text \<open>
  The loop of \<open>transfer_inner\<close>: tokens are popped from the end; the list is recursed on reversed, so
  that its head is the token \<open>pop\<close> returns. The token popped when nothing is left to send is not
  put back.
\<close>

fun transfer_loop ::
  "env \<Rightarrow> nat \<Rightarrow> signed_ticket \<Rightarrow> swap_authorization option \<Rightarrow> nat \<Rightarrow> token_entry list \<Rightarrow> wallet
    \<Rightarrow> bool result \<times> wallet" where
  "transfer_loop e draw dest swap_auth tx_amt [] w = (Ok True, w\<lparr>wa_tokens := []\<rparr>)"
| "transfer_loop e draw dest swap_auth tx_amt (ke # rest) w =
     (let popped = w\<lparr>wa_tokens := rev rest\<rparr> in
      if tx_amt = 0 then (Ok True, popped)
      else case dec_token e (ke_token ke) of
        None \<Rightarrow> (Ok False, popped)
      | Some tok \<Rightarrow>
          (case wallet_transfer_token e draw w dest swap_auth tok of
             Inl Panic \<Rightarrow> (panic, popped)
           | Inl (Fail c) \<Rightarrow>
               if c = BloomFilterHit then (Ok False, popped\<lparr>wa_tokens := rev rest @ [ke]\<rparr>)
               else (Ok False, popped)
           | Inr tok' \<Rightarrow>
               transfer_loop e (Suc draw) dest swap_auth (tx_amt - 1) rest
                 (popped\<lparr>wa_pending_tokens := wa_pending_tokens w @ [enc_token e tok']\<rparr>)))"

definition transfer_inner ::
  "env \<Rightarrow> nat \<Rightarrow> u32 \<Rightarrow> bytes \<Rightarrow> swap_authorization option \<Rightarrow> wallet \<Rightarrow> bool result \<times> wallet" where
  "transfer_inner e draw amt recipient swap_auth w =
     (if length (wa_tokens w) < unat amt then (Ok False, w)
      else case dec_signed_ticket e recipient of
        None \<Rightarrow> (Ok True, w)
      | Some dest \<Rightarrow> transfer_loop e draw dest swap_auth (unat amt) (rev (wa_tokens w)) w)"

definition wallet_transfer :: "env \<Rightarrow> nat \<Rightarrow> u32 \<Rightarrow> bytes \<Rightarrow> wallet \<Rightarrow> bool result \<times> wallet" where
  "wallet_transfer e draw amt recipient w = transfer_inner e draw amt recipient None w"

text \<open>The basename the swap server is asked about: the last signature of the last token.\<close>

definition swap_basename :: "env \<Rightarrow> wallet \<Rightarrow> bytes option" where
  "swap_basename e w =
     Option.bind (last_opt (wa_tokens w)) (\<lambda>ke.
     Option.bind (dec_token e (ke_token ke)) (\<lambda>tok.
     case last_opt (tok_history tok) of
       Some h \<Rightarrow> Some (hi_signature h)
     | None \<Rightarrow> map_option hi_signature (tok_base tok)))"

text \<open>\<open>authorize\<close> is the swap server: an error in the reply is \<open>Reply None\<close>.\<close>

definition transfer_with_swap_retry ::
  "env \<Rightarrow> nat \<Rightarrow> u32 \<Rightarrow> bytes \<Rightarrow> (bytes \<Rightarrow> swap_authorization option rpc) \<Rightarrow> wallet
    \<Rightarrow> bool result \<times> wallet" where
  "transfer_with_swap_retry e draw amt recipient authorize w =
     (case transfer_inner e draw amt recipient None w of
        (Inl f, w') \<Rightarrow> (Inl f, w')
      | (Inr True, w') \<Rightarrow> (Ok True, w')
      | (Inr False, w') \<Rightarrow>
          if wa_ttc_card w' = None then (Ok False, w')
          else case swap_basename e w' of
            None \<Rightarrow> (Ok False, w')
          | Some basename \<Rightarrow>
              (case authorize basename of
                 Reply (Some auth) \<Rightarrow> transfer_inner e (draw + unat amt) amt recipient (Some auth) w'
               | _ \<Rightarrow> (Ok False, w')))"

subsection \<open>Credentials\<close>

text \<open>\<open>v1::generate_wallet_keypair\<close>, an argument: draw, nonce, to secret and public key.\<close>

type_synonym keygen = "nat \<Rightarrow> bytes \<Rightarrow> (bytes \<times> bytes) option"

definition initialize_keys :: "keygen \<Rightarrow> (bytes \<Rightarrow> bytes) \<Rightarrow> nat \<Rightarrow> bytes \<Rightarrow> wallet \<Rightarrow> bool \<times> wallet" where
  "initialize_keys gen hex_digest draw i w =
     (let w1 = w\<lparr>wa_hw_id := hex_digest i\<rparr> in
      case gen draw (wa_hw_id w1) of
        None \<Rightarrow> (False, w1)
      | Some (tsk, tpk) \<Rightarrow>
          let w2 = w1\<lparr>wa_transfer_credential := (wa_transfer_credential w1)\<lparr>cr_secret_key := tsk, cr_public_key := tpk\<rparr>\<rparr> in
          (case gen (Suc draw) tpk of
             None \<Rightarrow> (False, w2)
           | Some (nsk, npk) \<Rightarrow>
               (True, w2\<lparr>wa_network_credential :=
                 (wa_network_credential w2)\<lparr>cr_secret_key := nsk, cr_public_key := npk\<rparr>\<rparr>)))"

record credential_reply =
  cp_credential :: bytes
  cp_credential_signature :: bytes
  cp_group_public_key :: bytes

definition install_credential :: "credential_reply option \<Rightarrow> credential \<Rightarrow> credential" where
  "install_credential r c = (case r of
     None \<Rightarrow> c
   | Some p \<Rightarrow> c\<lparr>cr_credential := Some (cp_credential p),
       cr_credential_signature := Some (cp_credential_signature p),
       cr_group_public_key := Some (cp_group_public_key p)\<rparr>)"

text \<open>The reply of \<open>register_call\<close>: the network and the transfer credential, each optional.\<close>

definition initialize_credential ::
  "(credential_reply option \<times> credential_reply option) rpc \<Rightarrow> wallet \<Rightarrow> bool \<times> wallet" where
  "initialize_credential response w =
     (if cr_secret_key (wa_transfer_credential w) = [] \<or> cr_secret_key (wa_network_credential w) = []
      then (False, w)
      else case response of
        Reply (nac, ttc) \<Rightarrow>
          (True, w\<lparr>wa_network_credential := install_credential nac (wa_network_credential w),
                   wa_transfer_credential := install_credential ttc (wa_transfer_credential w)\<rparr>)
      | _ \<Rightarrow> (False, w))"

subsection \<open>Tickets\<close>

text \<open>A random credential and group for each requested ticket. \<open>pick i n\<close> is draw \<open>i\<close> below \<open>n\<close>;
  \<open>gen_range\<close> panics on an empty range.\<close>

primrec build_requests ::
  "env \<Rightarrow> (nat \<Rightarrow> nat \<Rightarrow> nat) \<Rightarrow> bytes \<Rightarrow> nat \<Rightarrow> nat \<Rightarrow> nat \<Rightarrow> ticket_request list result" where
  "build_requests e pick cred max_groups draw 0 = Ok []"
| "build_requests e pick cred max_groups draw (Suc k) =
     and_then (v1_randomize_credential e draw cred) (\<lambda>randomized.
     and_then (unwrap randomized) (\<lambda>c.
     if max_groups = 0 then panic
     else and_then (build_requests e pick cred max_groups (Suc draw) k) (\<lambda>rs.
       Ok (\<lparr>trq_credential = c, trq_group_number = of_nat (pick draw max_groups mod max_groups)\<rparr> # rs))))"

definition known_signing_key :: "wallet \<Rightarrow> bytes \<Rightarrow> bool" where
  "known_signing_key w key \<longleftrightarrow> key \<in> set (we_ticket_signing_keys (wa_epoch w))"

definition ticket_entry_of :: "env \<Rightarrow> signed_ticket \<Rightarrow> ticket \<Rightarrow> ticket_entry" where
  "ticket_entry_of e st tk =
     (let te = \<lparr>te_ticket = enc_ticket e tk, te_credential = tk_credential tk, te_group_number = 0,
                te_created_on = 0, te_lifetime = 0, te_signature = st_signature st\<rparr> in
      case tk_tags tk of
        None \<Rightarrow> te
      | Some tags \<Rightarrow> te\<lparr>te_group_number := td_group_number tags, te_created_on := td_created_on tags,
                       te_lifetime := td_lifetime tags\<rparr>)"

text \<open>The tickets of the reply are imported one by one; the first bad signature ends the import.\<close>

fun import_tickets :: "env \<Rightarrow> bytes \<Rightarrow> signed_ticket list \<Rightarrow> wallet \<Rightarrow> bool \<times> wallet" where
  "import_tickets e key [] w = (True, w)"
| "import_tickets e key (st # sts) w =
     (case st_ticket st of
        None \<Rightarrow> import_tickets e key sts w
      | Some tk \<Rightarrow>
          let sig = butlast (st_signature st) in
          if \<not> ecdsa_sig_parses e sig then (False, w)
          else if \<not> ecdsa_verify e key (enc_ticket e tk) sig then (False, w)
          else import_tickets e key sts (w\<lparr>wa_tickets := wa_tickets w @ [ticket_entry_of e st tk]\<rparr>))"

definition wallet_get_tickets ::
  "env \<Rightarrow> (nat \<Rightarrow> nat \<Rightarrow> nat) \<Rightarrow> nat \<Rightarrow> u32 \<Rightarrow> (get_tickets_request \<Rightarrow> tickets_reply rpc) \<Rightarrow> wallet
    \<Rightarrow> bool result \<times> wallet" where
  "wallet_get_tickets e pick draw count clerk w =
     (case (cr_credential (wa_transfer_credential w), cr_credential (wa_network_credential w)) of
        (Some ttc, Some nac) \<Rightarrow>
          on_ok (build_requests e pick ttc (length (we_group_bitfield (wa_epoch w)) * 8) draw (unat count), w)
            (\<lambda>requests w.
          on_ok (sign_or_split e (draw + unat count) (wa_nac_card w) (cr_host_secret_key (wa_network_credential w))
                   (enc_ticket_requests e requests) nac (cr_secret_key (wa_network_credential w))
                   (Some (u64_to_le_bytes (we_epoch_number (wa_epoch w)))) True, w) (\<lambda>signed w.
          on_ok (unwrap signed, w) (\<lambda>signature w.
          on_ok (unwrap (cr_group_public_key (wa_network_credential w)), w) (\<lambda>nac_gpk w.
          on_ok (unwrap (cr_group_public_key (wa_transfer_credential w)), w) (\<lambda>ttc_gpk w.
          case clerk \<lparr>gk_version = 0, gk_known_epoch = we_epoch_number (wa_epoch w), gk_ttc_public_key = ttc_gpk,
                 gk_nac_public_key = nac_gpk, gk_nac_signature = signature, gk_requests = Some requests\<rparr> of
            Reply msg \<Rightarrow>
              if \<not> known_signing_key w (tr_signing_key msg) then (Ok False, w)
              else if \<not> ecdsa_pk_parses e (tr_signing_key msg) then (panic, w)
              else map_prod Ok id (import_tickets e (tr_signing_key msg) (tr_tickets msg) w)
          | _ \<Rightarrow> (Ok False, w))))))
      | _ \<Rightarrow> (Ok False, w))"

text \<open>\<open>refresh_tickets\<close>: the tickets at the given indices are decoded, sent, and replaced in place.\<close>

fun tickets_at :: "env \<Rightarrow> ticket_entry list \<Rightarrow> nat list \<Rightarrow> signed_ticket list option" where
  "tickets_at e tickets [] = Some []"
| "tickets_at e tickets (idx # idxs) =
     (if length tickets \<le> idx then None
      else case dec_ticket e (te_ticket (tickets ! idx)) of
        None \<Rightarrow> None
      | Some tk \<Rightarrow> map_option (\<lambda>sts. \<lparr>st_ticket = Some tk, st_signature = te_signature (tickets ! idx)\<rparr> # sts)
          (tickets_at e tickets idxs))"

definition refreshed_entry :: "env \<Rightarrow> signed_ticket \<Rightarrow> ticket \<Rightarrow> ticket_entry \<Rightarrow> ticket_entry" where
  "refreshed_entry e st tk te =
     (let te1 = te\<lparr>te_ticket := enc_ticket e tk\<rparr>;
          te2 = (case tk_tags tk of None \<Rightarrow> te1
                 | Some tags \<Rightarrow> te1\<lparr>te_created_on := td_created_on tags, te_lifetime := td_lifetime tags\<rparr>)
      in te2\<lparr>te_signature := st_signature st\<rparr>)"

fun replace_tickets ::
  "env \<Rightarrow> bytes \<Rightarrow> nat list \<Rightarrow> signed_ticket list \<Rightarrow> nat \<Rightarrow> ticket_entry list \<Rightarrow> nat \<times> ticket_entry list" where
  "replace_tickets e key (idx # idxs) (st # sts) refreshed tickets =
     (case st_ticket st of
        None \<Rightarrow> replace_tickets e key idxs sts refreshed tickets
      | Some tk \<Rightarrow>
          let sig = butlast (st_signature st) in
          if \<not> ecdsa_sig_parses e sig \<or> \<not> ecdsa_verify e key (enc_ticket e tk) sig
          then replace_tickets e key idxs sts refreshed tickets
          else replace_tickets e key idxs sts (Suc refreshed)
                 (tickets[idx := refreshed_entry e st tk (tickets ! idx)]))"
| "replace_tickets e key _ _ refreshed tickets = (refreshed, tickets)"

definition wallet_refresh_tickets ::
  "env \<Rightarrow> nat \<Rightarrow> nat list \<Rightarrow> (refresh_tickets_request \<Rightarrow> tickets_reply rpc) \<Rightarrow> wallet
    \<Rightarrow> nat result \<times> wallet" where
  "wallet_refresh_tickets e draw idxs clerk w =
     (case cr_credential (wa_network_credential w) of
        None \<Rightarrow> (Ok 0, w)
      | Some nac \<Rightarrow>
     if idxs = [] then (Ok 0, w)
     else case tickets_at e (wa_tickets w) idxs of
       None \<Rightarrow> (Ok 0, w)
     | Some sts \<Rightarrow>
         on_ok (sign_or_split e draw (wa_nac_card w) (cr_host_secret_key (wa_network_credential w))
                  (concat (map (enc_signed_ticket e) sts)) nac (cr_secret_key (wa_network_credential w))
                  (Some (u64_to_le_bytes (we_epoch_number (wa_epoch w)))) True, w) (\<lambda>signed w.
         case signed of
           None \<Rightarrow> (Ok 0, w)
         | Some signature \<Rightarrow>
             on_ok (unwrap (cr_group_public_key (wa_network_credential w)), w) (\<lambda>nac_gpk w.
             on_ok (unwrap (cr_group_public_key (wa_transfer_credential w)), w) (\<lambda>ttc_gpk w.
             case clerk \<lparr>rk_version = 0, rk_known_epoch = we_epoch_number (wa_epoch w),
                    rk_ttc_public_key = ttc_gpk, rk_nac_public_key = nac_gpk, rk_nac_signature = signature,
                    rk_tickets = sts\<rparr> of
               Reply msg \<Rightarrow>
                 if \<not> known_signing_key w (tr_signing_key msg) then (Ok 0, w)
                 else if \<not> ecdsa_pk_parses e (tr_signing_key msg) then (panic, w)
                 else (case replace_tickets e (tr_signing_key msg) idxs (tr_tickets msg) 0 (wa_tickets w) of
                   (refreshed, tickets) \<Rightarrow> (Ok refreshed, w\<lparr>wa_tickets := tickets\<rparr>))
             | _ \<Rightarrow> (Ok 0, w)))))"

subsection \<open>Tokens\<close>

fun wallet_verify_tokens :: "env \<Rightarrow> u64 \<Rightarrow> wallet \<Rightarrow> token list \<Rightarrow> bool result" where
  "wallet_verify_tokens e now w [] = Ok True"
| "wallet_verify_tokens e now w (tok # toks) =
     and_then (unwrap (cr_group_public_key (wa_transfer_credential w))) (\<lambda>gpk.
     case token_verify e now tok gpk (we_mint_signing_keys (wa_epoch w)) (we_ticket_signing_keys (wa_epoch w)) of
       Inr _ \<Rightarrow> wallet_verify_tokens e now w toks
     | Inl Panic \<Rightarrow> panic
     | Inl (Fail c) \<Rightarrow> Ok False)"

fun import_tokens :: "env \<Rightarrow> token list \<Rightarrow> wallet \<Rightarrow> bool result \<times> wallet" where
  "import_tokens e [] w = (Ok True, w)"
| "import_tokens e (tok # toks) w =
     (case token_entry_of e tok of
        Inl f \<Rightarrow> (Inl f, w)
      | Inr ke \<Rightarrow> import_tokens e toks (w\<lparr>wa_tokens := wa_tokens w @ [ke]\<rparr>))"

text \<open>The ticket is put back only when there was no connection.\<close>

definition withdraw ::
  "env \<Rightarrow> u64 \<Rightarrow> u32 \<Rightarrow> (get_tokens_request \<Rightarrow> token list rpc) \<Rightarrow> wallet \<Rightarrow> bool result \<times> wallet" where
  "withdraw e now amt mint w =
     (if wa_tickets w = [] then (Ok False, w)
      else
        let te = last (wa_tickets w); w1 = w\<lparr>wa_tickets := butlast (wa_tickets w)\<rparr> in
        on_ok (u64_add (overflow_checks e) 31536000 now, w1) (\<lambda>valid_until w1.
        case mint \<lparr>gtr_version = 0,
               gtr_amount = Some \<lparr>am_whole = 1, am_fractional = 0, am_code = TEST_TOKEN\<rparr>,
               gtr_tags = [Some (ValidUntil valid_until)], gtr_count = amt,
               gtr_ticket = Some (signed_ticket_of te)\<rparr> of
          Reply toks \<Rightarrow> import_tokens e toks w1
        | Rpc_Error \<Rightarrow> (Ok False, w1)
        | No_Connection \<Rightarrow> (Ok False, w1\<lparr>wa_tickets := wa_tickets w1 @ [te]\<rparr>)))"

definition validate_reply_ok :: "bool list rpc \<Rightarrow> bool" where
  "validate_reply_ok r = (case r of Reply flags \<Rightarrow> list_all id flags | _ \<Rightarrow> False)"

definition wallet_validate_tokens :: "(token list \<Rightarrow> bool list rpc) \<Rightarrow> token list \<Rightarrow> bool" where
  "wallet_validate_tokens validate tokens =
     (if tokens = [] then False else validate_reply_ok (validate tokens))"

fun tokens_of_entries :: "env \<Rightarrow> token_entry list \<Rightarrow> token list result" where
  "tokens_of_entries e [] = Ok []"
| "tokens_of_entries e (ke # kes) =
     and_then (token_of_entry e ke) (\<lambda>tok. and_then (tokens_of_entries e kes) (\<lambda>toks. Ok (tok # toks)))"

definition wallet_validate :: "env \<Rightarrow> (token list \<Rightarrow> bool list rpc) \<Rightarrow> wallet \<Rightarrow> bool result" where
  "wallet_validate e validate w =
     (if wa_tokens w = [] then Ok False
      else and_then (tokens_of_entries e (wa_tokens w)) (\<lambda>toks. Ok (wallet_validate_tokens validate toks)))"

subsection \<open>Epochs\<close>

definition gossip_key :: "wallet \<Rightarrow> epoch_update \<Rightarrow> bytes option" where
  "gossip_key w u =
     (if eu_signing_key u \<in> set (we_epoch_signing_keys (wa_epoch w)) then Some (eu_signing_key u)
      else if we_epoch_signing_keys (wa_epoch w) = [] then Some (eu_signing_key u)
      else None)"

definition install_extended :: "extended_epoch_data \<Rightarrow> wallet_epoch \<Rightarrow> wallet_epoch" where
  "install_extended x ep = ep\<lparr>we_ttc_group_public_keys := ee_ttc_group_public_keys x,
     we_epoch_signing_keys := ee_epoch_signing_keys x, we_ticket_signing_keys := ee_ticket_signing_keys x,
     we_mint_signing_keys := ee_mint_signing_keys x\<rparr>"

definition gossip_synchronize :: "env \<Rightarrow> epoch_update \<Rightarrow> wallet \<Rightarrow> bool result \<times> wallet" where
  "gossip_synchronize e u w =
     (case gossip_key w u of
        None \<Rightarrow> (Ok False, w)
      | Some key \<Rightarrow>
     case epoch_verify e u key of
       Inl Panic \<Rightarrow> (panic, w)
     | Inl (Fail c) \<Rightarrow> (Ok False, w)
     | Inr _ \<Rightarrow>
     let w1 = w\<lparr>wa_epoch := (wa_epoch w)\<lparr>we_epoch_update := Some u, we_eu_serialized := enc_epoch_update e u\<rparr>\<rparr> in
     case eu_extended_data u of
       None \<Rightarrow> (Ok False, w1)
     | Some x \<Rightarrow>
         (case eu_data u of
            None \<Rightarrow> (Ok True, w1\<lparr>wa_epoch := install_extended x (wa_epoch w1)\<rparr>)
          | Some d \<Rightarrow>
              let w2 = (if ed_epoch d \<noteq> we_epoch_number (wa_epoch w1) then w1\<lparr>wa_seen_tokens := {}\<rparr> else w1);
                  w3 = w2\<lparr>wa_epoch := (wa_epoch w2)\<lparr>we_epoch_number := ed_epoch d,
                         we_group_bitfield := ed_group_bitfield d\<rparr>\<rparr> in
              if sha256 e (enc_extended_epoch_data e x) \<noteq> ed_extended_epoch_data_hash d
              then (Ok False, w3\<lparr>wa_epoch := (wa_epoch w3)\<lparr>we_epoch_update := None, we_eu_serialized := []\<rparr>\<rparr>)
              else (Ok True, w3\<lparr>wa_epoch := install_extended x (wa_epoch w3)\<rparr>)))"

definition synchronize :: "env \<Rightarrow> epoch_update option rpc \<Rightarrow> wallet \<Rightarrow> bool result \<times> wallet" where
  "synchronize e response w =
     (case response of Reply (Some u) \<Rightarrow> gossip_synchronize e u w | _ \<Rightarrow> (Ok False, w))"

subsection \<open>Moving tokens to a fresh ticket\<close>

fun ticket_expiries :: "env \<Rightarrow> ticket_entry list \<Rightarrow> u64 list result" where
  "ticket_expiries e [] = Ok []"
| "ticket_expiries e (te # tes) =
     and_then (expires_on e (signed_ticket_of te)) (\<lambda>x.
     and_then (ticket_expiries e tes) (\<lambda>xs. Ok (x # xs)))"

text \<open>\<open>min_by_key\<close> of the tickets that expire after \<open>now\<close>: the first of the least.\<close>

fun destination_index :: "u64 \<Rightarrow> nat \<Rightarrow> u64 list \<Rightarrow> (nat \<times> u64) option \<Rightarrow> nat option" where
  "destination_index now i [] best = map_option fst best"
| "destination_index now i (x # xs) best =
     destination_index now (Suc i) xs
       (if now < x then
          (case best of None \<Rightarrow> Some (i, x) | Some (j, y) \<Rightarrow> if x < y then Some (i, x) else best)
        else best)"

fun expired_indices :: "env \<Rightarrow> u64 \<Rightarrow> nat \<Rightarrow> token_entry list \<Rightarrow> nat list result" where
  "expired_indices e now i [] = Ok []"
| "expired_indices e now i (ke # kes) =
     and_then (case Option.bind (dec_token e (ke_token ke)) (\<lambda>tok.
                   case last_opt (tok_history tok) of
                     Some h \<Rightarrow> recipient_of h
                   | None \<Rightarrow> Option.bind (tok_base tok) recipient_of) of
                 None \<Rightarrow> Ok False
               | Some st \<Rightarrow> and_then (expires_on e st) (\<lambda>x. Ok (x < now))) (\<lambda>expired.
     and_then (expired_indices e now (Suc i) kes) (\<lambda>idxs.
     Ok (if expired then i # idxs else idxs)))"

definition remove_at :: "nat \<Rightarrow> 'a list \<Rightarrow> 'a list" where
  "remove_at i xs = take i xs @ drop (Suc i) xs"

definition insert_at :: "nat \<Rightarrow> 'a \<Rightarrow> 'a list \<Rightarrow> 'a list" where
  "insert_at i x xs = take i xs @ x # drop i xs"

text \<open>The indices come in descending order.\<close>

fun migrate_loop ::
  "env \<Rightarrow> nat \<Rightarrow> signed_ticket \<Rightarrow> nat list \<Rightarrow> nat \<Rightarrow> wallet \<Rightarrow> nat result \<times> wallet" where
  "migrate_loop e draw dest [] migrated w = (Ok migrated, w)"
| "migrate_loop e draw dest (idx # idxs) migrated w =
     (if length (wa_tokens w) \<le> idx then (panic, w)
      else
        let ke = wa_tokens w ! idx; rest = remove_at idx (wa_tokens w); w1 = w\<lparr>wa_tokens := rest\<rparr>;
            back = w\<lparr>wa_tokens := insert_at idx ke rest\<rparr> in
        case dec_token e (ke_token ke) of
          None \<Rightarrow> migrate_loop e (Suc draw) dest idxs migrated back
        | Some tok \<Rightarrow>
            (case wallet_transfer_token e draw w1 dest None tok of
               Inl Panic \<Rightarrow> (panic, w1)
             | Inl (Fail c) \<Rightarrow> migrate_loop e (Suc draw) dest idxs migrated back
             | Inr tok' \<Rightarrow>
                 (case token_entry_of e tok' of
                    Inl f \<Rightarrow> (Inl f, w1)
                  | Inr ke' \<Rightarrow> migrate_loop e (Suc draw) dest idxs (Suc migrated) (w\<lparr>wa_tokens := rest @ [ke']\<rparr>))))"

definition self_transfer_expired :: "env \<Rightarrow> u64 \<Rightarrow> nat \<Rightarrow> wallet \<Rightarrow> nat result \<times> wallet" where
  "self_transfer_expired e now draw w =
     on_ok (ticket_expiries e (wa_tickets w), w) (\<lambda>xs w.
     case destination_index now 0 xs None of
       None \<Rightarrow> (Ok 0, w)
     | Some dest_idx \<Rightarrow>
         on_ok (expired_indices e now 0 (wa_tokens w), w) (\<lambda>idxs w.
         migrate_loop e draw (signed_ticket_of (wa_tickets w ! dest_idx)) (rev idxs) 0 w))"

end
