(* ===== verification/WalletProps.thy ===== *)
theory WalletProps
  imports Wallet
begin

section \<open>What the wallet's operations do to its tokens, tickets and keys\<close>

text \<open>
  Accounting of the transfer loop and of the move to a fresh ticket, the tickets a wallet imports,
  and the keys it trusts after a gossiped epoch update.
\<close>

subsection \<open>Accounting of a transfer\<close>

lemma transfer_loop_True:
  assumes "transfer_loop e draw dest sa n kes w = (Ok True, w')" "n \<le> length kes"
  shows "length (wa_tokens w') = length kes - Suc n \<and> (\<exists>sent. wa_pending_tokens w' = wa_pending_tokens w @ sent \<and> length sent = n)
    \<and> w'\<lparr>wa_tokens := [], wa_pending_tokens := []\<rparr> = w\<lparr>wa_tokens := [], wa_pending_tokens := []\<rparr>"
  using assms
proof (induction e draw dest sa n kes w rule: transfer_loop.induct)
  case (2 e draw dest sa n ke rest w)
  show ?case
  proof (cases "n = 0")
    case False
    then obtain tok tok' where step: "dec_token e (ke_token ke) = Some tok" "wallet_transfer_token e draw w dest sa tok = Ok tok'"
      "transfer_loop e (Suc draw) dest sa (n - 1) rest (w\<lparr>wa_tokens := rev rest,
         wa_pending_tokens := wa_pending_tokens w @ [enc_token e tok']\<rparr>) = (Ok True, w')"
      using 2(2) by (auto simp: Let_def split: option.splits sum.splits fault.splits if_splits)
    then show ?thesis
      using 2(1) [OF refl False step(1,2)] 2(3) False by (cases n) auto
  qed (use 2 in \<open>auto simp: Let_def\<close>)
qed auto

lemma transfer_loop_False:
  assumes "transfer_loop e draw dest sa n kes w = (Ok False, w')"
  shows "\<exists>sent. wa_pending_tokens w' = wa_pending_tokens w @ sent \<and> length sent < n
    \<and> length (wa_tokens w') + length sent \<in> {length kes, length kes - 1}
    \<and> wa_ttc_card w' = wa_ttc_card w"
  using assms
proof (induction e draw dest sa n kes w rule: transfer_loop.induct)
  case (2 e draw dest sa n ke rest w)
  then have n: "n \<noteq> 0" by (cases "n = 0") (auto simp: Let_def)
  let ?p = "w\<lparr>wa_tokens := rev rest\<rparr>"
  show ?case
  proof (cases "dec_token e (ke_token ke)")
    case (Some tok)
    show ?thesis
    proof (cases "wallet_transfer_token e draw w dest sa tok")
      case (Inl f)
      then show ?thesis
        using 2(2) n Some by (auto simp: Let_def split: fault.splits if_splits)
    next
      case (Inr tok')
      have rec: "transfer_loop e (Suc draw) dest sa (n - 1) rest (?p\<lparr>wa_pending_tokens :=
          wa_pending_tokens w @ [enc_token e tok']\<rparr>) = (Ok False, w')"
        using 2(2) n Some Inr by (simp add: Let_def)
      from 2(1) [OF refl n Some Inr rec] obtain sent where
        "wa_pending_tokens w' = (wa_pending_tokens w @ [enc_token e tok']) @ sent" "length sent < n - 1"
        "length (wa_tokens w') + length sent \<in> {length rest, length rest - 1}" "wa_ttc_card w' = wa_ttc_card w"
        by auto
      then show ?thesis using n by (intro exI [of _ "enc_token e tok' # sent"]) (cases rest; auto)
    qed
  qed (use 2(2) n in \<open>auto simp: Let_def\<close>)
qed auto

lemma transfer_inner_pending:
  assumes "transfer_inner e draw amt recipient sa w = (Ok r, w')" "dec_signed_ticket e recipient = Some dest"
  shows "\<exists>sent. wa_pending_tokens w' = wa_pending_tokens w @ sent
    \<and> (r \<longrightarrow> length sent = unat amt \<and> length (wa_tokens w') = length (wa_tokens w) - Suc (unat amt))
    \<and> (\<not> r \<longrightarrow> wa_ttc_card w' = wa_ttc_card w)"
proof (cases "length (wa_tokens w) < unat amt")
  case False
  then have loop: "transfer_loop e draw dest sa (unat amt) (rev (wa_tokens w)) w = (Ok r, w')"
    using assms by (simp add: transfer_inner_def)
  show ?thesis
  proof (cases r)
    case True
    then show ?thesis using transfer_loop_True [of e draw dest sa "unat amt" "rev (wa_tokens w)" w w'] loop False by auto
  next
    case f: False
    then show ?thesis using transfer_loop_False [of e draw dest sa "unat amt" "rev (wa_tokens w)" w w'] loop by auto
  qed
qed (use assms in \<open>auto simp: transfer_inner_def\<close>)

text \<open>a transfer that reports success queues exactly the requested number of transfers, but it takes
  one token more than that from the wallet when there is one: the loop pops a token before it looks
  whether any is left to send, and drops it. A transfer of 0 tokens loses one token. A recipient that
  does not decode is reported as success with nothing sent.\<close>

theorem transfer_loses_a_token:
  assumes "wallet_transfer e draw amt recipient w = (Ok True, w')"
  shows "case dec_signed_ticket e recipient of
      None \<Rightarrow> w' = w
    | Some dest \<Rightarrow>
        length (wa_pending_tokens w') = length (wa_pending_tokens w) + unat amt
        \<and> length (wa_tokens w') = length (wa_tokens w) - Suc (unat amt)"
proof (cases "dec_signed_ticket e recipient")
  case None
  then show ?thesis using assms by (auto simp: wallet_transfer_def transfer_inner_def split: if_splits)
next
  case (Some dest)
  then show ?thesis
    using assms transfer_inner_pending [of e draw amt recipient None w True w' dest]
    by (auto simp: wallet_transfer_def)
qed

definition sample_credential :: credential where
  "sample_credential = \<lparr>cr_public_key = [1], cr_secret_key = [2], cr_group_public_key = Some [3],
     cr_credential = Some (replicate 192 1), cr_credential_signature = None, cr_host_secret_key = None\<rparr>"

definition sample_wallet :: wallet where
  "sample_wallet = \<lparr>wa_hw_id = [], wa_network_credential = sample_credential, wa_transfer_credential = sample_credential,
     wa_epoch = \<lparr>we_epoch_update = None, we_eu_serialized = [], we_epoch_number = 0, we_group_bitfield = [],
       we_ttc_group_public_keys = [], we_epoch_signing_keys = [], we_ticket_signing_keys = [[7]],
       we_mint_signing_keys = [[9]]\<rparr>,
     wa_tickets = [], wa_tokens = [], wa_pending_tokens = [], wa_seen_tokens = {}, wa_nac_card = None,
     wa_ttc_card = None\<rparr>"

definition sample_entry :: token_entry where
  "sample_entry = \<lparr>ke_token = [1], ke_credential = replicate 192 1, ke_whole_value = 10,
     ke_fractional_value = 0, ke_value_code = 2\<rparr>"

text \<open>The sample environment, with every token blob decoding to a token of holder 1 and every ticket
  blob to the ticket of holder 2.\<close>

definition sample_codec_env :: env where
  "sample_codec_env = sample_env\<lparr>dec_token := (\<lambda>b. Some (sample_token 10 1 [])),
     dec_signed_ticket := (\<lambda>b. Some (sample_ticket 2 1000))\<rparr>"

lemma sample_codec_simps [simp]:
  "dec_token sample_codec_env b = Some (sample_token 10 1 [])"
  "dec_signed_ticket sample_codec_env b = Some (sample_ticket 2 1000)"
  "enc_token sample_codec_env t = []" "enc_transfer sample_codec_env t' = tf_previous_signature t'"
  "v1_sign sample_codec_env draw m cred sk bsn randomize =
     Ok (if length cred = 192 then Some (replicate 64 0 @ cred @ replicate 80 0) else None)"
  "overflow_checks sample_codec_env"
  by (simp_all add: sample_codec_env_def)

lemma transfer_loses_a_token_witness:
  "\<exists>w'. wallet_transfer sample_codec_env 0 1 [] (sample_wallet\<lparr>wa_tokens := [sample_entry, sample_entry, sample_entry]\<rparr>)
      = (Ok True, w') \<and> length (wa_pending_tokens w') = 1 \<and> length (wa_tokens w') = 1"
proof -
  have "\<exists>w'. wallet_transfer sample_codec_env 0 1 [] (sample_wallet\<lparr>wa_tokens := [sample_entry, sample_entry, sample_entry]\<rparr>)
      = (Ok True, w')"
    by (simp add: wallet_transfer_def transfer_inner_def Let_def wallet_transfer_token_def sample_wallet_def
        token_transfer_def transfer_basis_def recipient_credential_def recipient_ticket_def)
  then obtain w' where w': "wallet_transfer sample_codec_env 0 1 [] (sample_wallet\<lparr>wa_tokens := [sample_entry, sample_entry, sample_entry]\<rparr>)
      = (Ok True, w')" by blast
  then show ?thesis using transfer_loses_a_token [OF w'] by (auto simp: sample_wallet_def)
qed

subsection \<open>Retrying after the card's bloom filter\<close>

text \<open>when the first attempt of a transfer queues some transfers before the card refuses one and the
  retry with a swap authorisation succeeds, the transfers already queued stay and the full amount is
  sent again: the recipient gets more tokens than were asked for.\<close>

theorem swap_retry_sends_again:
  assumes "transfer_inner e draw amt recipient None w = (Ok False, w1)"
    and "transfer_with_swap_retry e draw amt recipient authorize w = (Ok True, w')"
    and "dec_signed_ticket e recipient = Some dest"
  shows "\<exists>again. wa_pending_tokens w' = wa_pending_tokens w1 @ again \<and> length again = unat amt
    \<and> length (wa_pending_tokens w') = length (wa_pending_tokens w)
        + (length (wa_pending_tokens w1) - length (wa_pending_tokens w)) + unat amt"
proof -
  obtain auth where "transfer_inner e (draw + unat amt) amt recipient (Some auth) w1 = (Ok True, w')"
    using assms(1,2) by (auto simp: transfer_with_swap_retry_def split: if_splits option.splits rpc.splits)
  then obtain again where a: "wa_pending_tokens w' = wa_pending_tokens w1 @ again" "length again = unat amt"
    using transfer_inner_pending [OF _ assms(3)] by fastforce
  obtain sent where "wa_pending_tokens w1 = wa_pending_tokens w @ sent"
    using transfer_inner_pending [OF assms(1,3)] by blast
  with a show ?thesis by simp
qed

text \<open>A card that refuses draw 1 with its bloom filter and signs every other.\<close>

definition sample_card :: card_signer where
  "sample_card draw hsk msg cred bsn randomize auth =
     Ok (if draw = 1 then Inl Card_BloomFilterHit else Inr (replicate 64 0 @ cred @ replicate 80 0))"

lemma swap_retry_sends_again_witness:
  "\<exists>w'. transfer_with_swap_retry sample_codec_env 0 2 [] (\<lambda>b. Reply (Some \<lparr>sa_c = [], sa_s = []\<rparr>))
      (sample_wallet\<lparr>wa_ttc_card := Some sample_card,
         wa_transfer_credential := sample_credential\<lparr>cr_host_secret_key := Some []\<rparr>,
         wa_tokens := [sample_entry, sample_entry, sample_entry]\<rparr>) = (Ok True, w')
    \<and> length (wa_pending_tokens w') = 3"
proof -
  let ?w = "sample_wallet\<lparr>wa_ttc_card := Some sample_card,
         wa_transfer_credential := sample_credential\<lparr>cr_host_secret_key := Some []\<rparr>,
         wa_tokens := [sample_entry, sample_entry, sample_entry]\<rparr>"
  have step: "wallet_transfer_token sample_codec_env d w dest sa (sample_token 10 1 []) =
      (if d = 1 then Err BloomFilterHit else Ok (push_history (sample_token 10 1 [])
         (new_transfer dest (9 # replicate 64 0)) (replicate 64 0 @ replicate 192 1 @ replicate 80 0)))"
    if "wa_ttc_card w = Some sample_card" "cr_host_secret_key (wa_transfer_credential w) = Some []" for d w dest sa
    using that by (simp add: wallet_transfer_token_def token_transfer_split_def transfer_basis_def sample_card_def
        recipient_credential_def recipient_ticket_def)
  have first: "\<exists>w1. transfer_inner sample_codec_env 0 2 [] None ?w = (Ok False, w1) \<and> wa_ttc_card w1 = Some sample_card
      \<and> cr_host_secret_key (wa_transfer_credential w1) = Some [] \<and> wa_tokens w1 = [sample_entry, sample_entry]
      \<and> length (wa_pending_tokens w1) = 1"
    by (simp add: transfer_inner_def Let_def step) (simp add: sample_wallet_def)
  then obtain w1 where w1: "transfer_inner sample_codec_env 0 2 [] None ?w = (Ok False, w1)"
    "wa_ttc_card w1 = Some sample_card" "cr_host_secret_key (wa_transfer_credential w1) = Some []"
    "wa_tokens w1 = [sample_entry, sample_entry]" "length (wa_pending_tokens w1) = 1" by blast
  have "\<exists>w'. transfer_inner sample_codec_env 2 2 [] (Some a) w1 = (Ok True, w')" for a
    using w1 by (simp add: transfer_inner_def Let_def step)
  then obtain w' where "transfer_inner sample_codec_env 2 2 [] (Some \<lparr>sa_c = [], sa_s = []\<rparr>) w1 = (Ok True, w')"
    by blast
  then have "transfer_with_swap_retry sample_codec_env 0 2 [] (\<lambda>b. Reply (Some \<lparr>sa_c = [], sa_s = []\<rparr>)) ?w
      = (Ok True, w')"
    using w1 by (simp add: transfer_with_swap_retry_def swap_basename_def flip: numeral_2_eq_2)
  note this and swap_retry_sends_again [OF w1(1) this]
  then show ?thesis using w1 by (auto simp: sample_wallet_def)
qed

subsection \<open>Moving tokens to a fresh ticket\<close>

lemma remove_insert_at: "i < length xs \<Longrightarrow> insert_at i (xs ! i) (remove_at i xs) = xs"
  by (simp add: insert_at_def remove_at_def id_take_nth_drop [symmetric] min_def)

lemma length_remove_at [simp]: "i < length xs \<Longrightarrow> length (remove_at i xs) = length xs - 1"
  by (simp add: remove_at_def)

lemma nth_remove_at: "j < i \<Longrightarrow> i < length xs \<Longrightarrow> remove_at i xs ! j = xs ! j"
  by (simp add: remove_at_def nth_append)

lemma set_remove_at:
  assumes "i < length xs" "j < length xs" "j \<noteq> i"
  shows "xs ! j \<in> set (remove_at i xs)"
proof (cases "j < i")
  case True
  then have "take i xs ! j \<in> set (take i xs)" using assms by (intro nth_mem) simp
  then show ?thesis using True by (simp add: remove_at_def)
next
  case False
  then have "drop (Suc i) xs ! (j - Suc i) \<in> set (drop (Suc i) xs)" using assms by (intro nth_mem) simp
  moreover have "drop (Suc i) xs ! (j - Suc i) = xs ! j" using False assms by (subst nth_drop) simp_all
  ultimately show ?thesis by (simp add: remove_at_def)
qed

text \<open>One round puts the entry back, or replaces it by the transferred token at the end.\<close>

lemma migrate_loop_Ok:
  assumes "migrate_loop e draw dest idxs m w = (Ok n, w')" "sorted_wrt (>) idxs"
    and "\<And>i. i \<in> set idxs \<Longrightarrow> i < length (wa_tokens w)"
  shows "length (wa_tokens w') = length (wa_tokens w) \<and> m \<le> n \<and> n \<le> m + length idxs
    \<and> w'\<lparr>wa_tokens := []\<rparr> = w\<lparr>wa_tokens := []\<rparr>
    \<and> (\<forall>j < length (wa_tokens w). j \<notin> set idxs \<longrightarrow> wa_tokens w ! j \<in> set (wa_tokens w'))"
  using assms
proof (induction idxs arbitrary: draw m w)
  case (Cons idx idxs)
  let ?ke = "wa_tokens w ! idx" and ?rest = "remove_at idx (wa_tokens w)"
  have idx: "idx < length (wa_tokens w)" using Cons.prems(3) by simp
  have restored: "w\<lparr>wa_tokens := insert_at idx ?ke ?rest\<rparr> = w" using idx by (simp add: remove_insert_at)
  have sorted: "sorted_wrt (>) idxs" "\<And>i. i \<in> set idxs \<Longrightarrow> i < idx" using Cons.prems(2) by auto
  consider (kept) d where "migrate_loop e d dest idxs m w = (Ok n, w')"
    | (moved) ke' d where "migrate_loop e d dest idxs (Suc m) (w\<lparr>wa_tokens := ?rest @ [ke']\<rparr>) = (Ok n, w')"
    using Cons.prems(1) idx by (auto simp: Let_def restored split: option.splits sum.splits fault.splits)
  then show ?case
  proof cases
    case kept
    then show ?thesis using Cons.IH [OF kept sorted(1)] Cons.prems(3) by fastforce
  next
    case moved
    let ?w = "w\<lparr>wa_tokens := ?rest @ [ke']\<rparr>"
    have len: "length (wa_tokens ?w) = length (wa_tokens w)" using idx by simp
    have bound: "i < length (wa_tokens ?w)" if "i \<in> set idxs" for i
      using sorted(2) [OF that] idx len by simp
    note ih = Cons.IH [OF moved sorted(1) bound]
    have keep: "wa_tokens w ! j \<in> set (wa_tokens w')"
      if j: "j < length (wa_tokens w)" "j \<notin> set (idx # idxs)" for j
    proof -
      have "\<exists>k < length (wa_tokens ?w). k \<notin> set idxs \<and> wa_tokens ?w ! k = wa_tokens w ! j"
      proof (cases "j < idx")
        case True
        then show ?thesis using j idx by (intro exI [of _ j]) (auto simp: nth_append nth_remove_at)
      next
        case False
        then have "idx < j" using j by simp
        moreover have "(?rest @ [ke']) ! (j - 1) = wa_tokens w ! j"
          using \<open>idx < j\<close> j idx by (simp add: nth_append remove_at_def)
        moreover have "j - 1 \<notin> set idxs" using sorted(2) \<open>idx < j\<close> by fastforce
        ultimately show ?thesis using j len by (intro exI [of _ "j - 1"]) simp
      qed
      then show ?thesis using ih by metis
    qed
    then show ?thesis using ih len by auto
  qed
qed simp

lemma expired_indices_Ok:
  assumes "expired_indices e now i kes = Ok idxs"
  shows "sorted_wrt (<) idxs \<and> (\<forall>j \<in> set idxs. i \<le> j \<and> j < i + length kes)"
  using assms
proof (induction kes arbitrary: i idxs)
  case (Cons ke kes)
  then obtain x rest where rest: "expired_indices e now (Suc i) kes = Ok rest"
    and idxs: "idxs = (if x then i # rest else rest)"
    by (auto simp: and_then_Inr_iff)
  have bound: "Suc i \<le> j \<and> j < Suc i + length kes" if "j \<in> set rest" for j
    using Cons.IH [OF rest] that by auto
  have "sorted_wrt (<) rest" using Cons.IH [OF rest] by simp
  then have "sorted_wrt (<) idxs" using idxs bound by (cases x) (auto simp: less_eq_Suc_le)
  moreover have "i \<le> j \<and> j < i + length (ke # kes)" if "j \<in> set idxs" for j
    using that idxs bound [of j] by (cases x) auto
  ultimately show ?case by blast
qed simp

text \<open>moving the tokens of expired tickets to a fresh ticket loses nothing: the wallet has as many
  tokens afterwards, every token whose ticket was not expired is still there, a token that could not
  be signed over is kept where it was, and nothing but the token list changes.\<close>

theorem self_transfer_conserves:
  assumes "self_transfer_expired e now draw w = (Ok n, w')"
  shows "length (wa_tokens w') = length (wa_tokens w)
    \<and> w'\<lparr>wa_tokens := []\<rparr> = w\<lparr>wa_tokens := []\<rparr>
    \<and> (n \<noteq> 0 \<longrightarrow> (\<exists>idxs. expired_indices e now 0 (wa_tokens w) = Ok idxs \<and> n \<le> length idxs
         \<and> (\<forall>j < length (wa_tokens w). j \<notin> set idxs \<longrightarrow> wa_tokens w ! j \<in> set (wa_tokens w'))))"
proof -
  obtain xs where "ticket_expiries e (wa_tickets w) = Ok xs"
    using assms by (auto simp: self_transfer_expired_def on_ok_Inr_iff)
  show ?thesis
  proof (cases "destination_index now 0 xs None")
    case None
    then show ?thesis using assms \<open>ticket_expiries e (wa_tickets w) = Ok xs\<close> by (simp add: self_transfer_expired_def)
  next
    case (Some k)
    then obtain idxs where idxs: "expired_indices e now 0 (wa_tokens w) = Ok idxs"
      and loop: "migrate_loop e draw (signed_ticket_of (wa_tickets w ! k)) (rev idxs) 0 w = (Ok n, w')"
      using assms \<open>ticket_expiries e (wa_tickets w) = Ok xs\<close>
      by (auto simp: self_transfer_expired_def on_ok_Inr_iff)
    have "sorted_wrt (>) (rev idxs)" "\<And>i. i \<in> set (rev idxs) \<Longrightarrow> i < length (wa_tokens w)"
      using expired_indices_Ok [OF idxs] by (auto simp: sorted_wrt_rev)
    from migrate_loop_Ok [OF loop this] show ?thesis using idxs by auto
  qed
qed

text \<open>A ticket entry that expires at 1604800, after the sample tokens' ticket at 605800.\<close>

definition sample_ticket_entry :: ticket_entry where
  "sample_ticket_entry = \<lparr>te_ticket = [], te_credential = replicate 192 5, te_group_number = 1,
     te_created_on = 1000000, te_lifetime = 7, te_signature = 7 # replicate 64 0\<rparr>"

lemma sample_codec_expires:
  "expires_on sample_codec_env (signed_ticket_of sample_ticket_entry) = Ok 1604800"
  "expires_on sample_codec_env (sample_ticket n 1000) = Ok 605800"
  by (simp_all add: expires_on_def expires_on_with_epoch_def ticket_tags_def signed_ticket_of_def
      sample_ticket_entry_def DEFAULT_EPOCH_SECONDS_def u32_mul_def u64_add_def arith_def)

lemma self_transfer_conserves_witness:
  "\<exists>w'. self_transfer_expired sample_codec_env 700000 0
      (sample_wallet\<lparr>wa_tickets := [sample_ticket_entry], wa_tokens := [sample_entry, sample_entry]\<rparr>) = (Ok 2, w')
    \<and> length (wa_tokens w') = 2"
proof -
  let ?w = "sample_wallet\<lparr>wa_tickets := [sample_ticket_entry], wa_tokens := [sample_entry, sample_entry]\<rparr>"
  have tr: "wallet_transfer_token sample_codec_env d w dest None (sample_token 10 1 []) =
      Ok (push_history (sample_token 10 1 []) (new_transfer dest (9 # replicate 64 0))
         (replicate 64 0 @ replicate 192 1 @ replicate 80 0))" if "wa_ttc_card w = None" for d w dest
    using that by (simp add: wallet_transfer_token_def token_transfer_def transfer_basis_def
        recipient_credential_def recipient_ticket_def)
  have en: "\<exists>ke. token_entry_of sample_codec_env (push_history (sample_token 10 1 [])
      (new_transfer (signed_ticket_of te) (9 # replicate 64 0)) sig) = Ok ke" for te sig
    by (simp add: token_entry_of_def recipient_credential_def recipient_ticket_def new_transfer_def signed_ticket_of_def)
  have "\<exists>w'. self_transfer_expired sample_codec_env 700000 0 ?w = (Ok 2, w')"
    using en by (auto simp: self_transfer_expired_def sample_codec_expires Let_def tr remove_at_def
        sample_wallet_def nth_append split: sum.split) (metis sum.distinct(1))+
  then obtain w' where "self_transfer_expired sample_codec_env 700000 0 ?w = (Ok 2, w')" by blast
  note this and self_transfer_conserves [OF this]
  then show ?thesis by (auto simp: sample_wallet_def)
qed

subsection \<open>Trust in epoch updates\<close>

lemma gossip_key_Some:
  "gossip_key w u = Some key \<longleftrightarrow> key = eu_signing_key u
     \<and> (key \<in> set (we_epoch_signing_keys (wa_epoch w)) \<or> we_epoch_signing_keys (wa_epoch w) = [])"
  by (auto simp: gossip_key_def)

lemma gossip_True_iff:
  "fst (gossip_synchronize e u w) = Ok True \<longleftrightarrow>
     epoch_authentic e u (eu_signing_key u)
     \<and> (eu_signing_key u \<in> set (we_epoch_signing_keys (wa_epoch w)) \<or> we_epoch_signing_keys (wa_epoch w) = [])"
proof (cases "gossip_key w u")
  case (Some key)
  then have key: "key = eu_signing_key u"
    "eu_signing_key u \<in> set (we_epoch_signing_keys (wa_epoch w)) \<or> we_epoch_signing_keys (wa_epoch w) = []"
    by (auto simp: gossip_key_Some)
  show ?thesis
  proof (cases "epoch_verify e u key")
    case (Inr b)
    then have au: "epoch_authentic e u key" by (simp add: epoch_verify_Ok_iff)
    then obtain d x where "eu_data u = Some d" "eu_extended_data u = Some x"
      "sha256 e (enc_extended_epoch_data e x) = ed_extended_epoch_data_hash d"
      by (auto simp: epoch_authentic_def)
    then show ?thesis
      using au key(2) by (simp add: key(1) gossip_synchronize_def Let_def Some [unfolded key(1)] Inr [unfolded key(1)])
  next
    case (Inl f)
    then have "\<not> epoch_authentic e u key" using epoch_verify_Ok_iff [of e u key True] by auto
    then show ?thesis
      using key(2) by (simp add: key(1) gossip_synchronize_def Some [unfolded key(1)] Inl [unfolded key(1)] split: fault.split)
  qed
qed (auto simp: gossip_synchronize_def gossip_key_def split: if_splits)

lemma gossip_installs:
  assumes "gossip_synchronize e u w = (Ok True, w')"
  shows "\<exists>d x. eu_data u = Some d \<and> eu_extended_data u = Some x
    \<and> wa_epoch w' = \<lparr>we_epoch_update = Some u, we_eu_serialized = enc_epoch_update e u,
        we_epoch_number = ed_epoch d, we_group_bitfield = ed_group_bitfield d,
        we_ttc_group_public_keys = ee_ttc_group_public_keys x, we_epoch_signing_keys = ee_epoch_signing_keys x,
        we_ticket_signing_keys = ee_ticket_signing_keys x, we_mint_signing_keys = ee_mint_signing_keys x\<rparr>"
proof -
  have "fst (gossip_synchronize e u w) = Ok True" using assms by simp
  then have key: "gossip_key w u = Some (eu_signing_key u)" and au: "epoch_authentic e u (eu_signing_key u)"
    by (auto simp: gossip_True_iff gossip_key_Some)
  then have "epoch_verify e u (eu_signing_key u) = Ok True" by (simp add: epoch_verify_Ok_iff)
  then show ?thesis
    using assms key au by (auto simp: gossip_synchronize_def Let_def install_extended_def epoch_authentic_def)
qed

text \<open>a gossiped epoch update is taken over exactly when it is signed by its own signing key and that
  key is one the wallet trusts or the wallet trusts none yet; its keys, groups and epoch then replace
  the wallet's, whatever epoch the wallet was in.\<close>

theorem gossip_accepts_iff:
  "fst (gossip_synchronize e u w) = Ok True \<longleftrightarrow>
     epoch_authentic e u (eu_signing_key u)
     \<and> (eu_signing_key u \<in> set (we_epoch_signing_keys (wa_epoch w)) \<or> we_epoch_signing_keys (wa_epoch w) = [])"
  by (rule gossip_True_iff)

text \<open>an accepted update that lists no epoch keys takes the wallet back to trusting the first key it
  sees: any update that is authentic under the key it carries itself is accepted next, and installs
  that sender's mint and ticket keys.\<close>

theorem empty_epoch_keys_reset_trust:
  assumes "gossip_synchronize e u w = (Ok True, w1)" "eu_extended_data u = Some x" "ee_epoch_signing_keys x = []"
    and "epoch_authentic e u2 (eu_signing_key u2)" "eu_extended_data u2 = Some x2"
  shows "\<exists>w2. gossip_synchronize e u2 w1 = (Ok True, w2)
    \<and> we_mint_signing_keys (wa_epoch w2) = ee_mint_signing_keys x2
    \<and> we_ticket_signing_keys (wa_epoch w2) = ee_ticket_signing_keys x2"
proof -
  have "we_epoch_signing_keys (wa_epoch w1) = []" using gossip_installs [OF assms(1)] assms(2,3) by auto
  then have "fst (gossip_synchronize e u2 w1) = Ok True" using assms(4) by (simp add: gossip_True_iff)
  then obtain w2 where "gossip_synchronize e u2 w1 = (Ok True, w2)" by (metis prod.collapse)
  with gossip_installs [OF this] assms(5) show ?thesis by auto
qed

definition sample_update :: "bytes \<Rightarrow> bytes list \<Rightarrow> bytes list \<Rightarrow> epoch_update" where
  "sample_update key epoch_keys mint_keys =
     \<lparr>eu_version = 0, eu_data = Some \<lparr>ed_epoch = 1, ed_group_bitfield = [],
        ed_extended_epoch_data_hash = replicate 32 0\<rparr>,
      eu_extended_data = Some \<lparr>ee_ttc_group_public_keys = [], ee_epoch_signing_keys = epoch_keys,
        ee_ticket_signing_keys = [], ee_mint_signing_keys = mint_keys, ee_epoch_seconds = 0,
        ee_service_map = None, ee_group_policies = []\<rparr>,
      eu_epoch_signature = key @ replicate 63 0, eu_signing_key = key\<rparr>"

lemma sample_update_authentic [simp]:
  "length key = 1 \<Longrightarrow> epoch_authentic sample_env (sample_update key ks ms) key"
  by (simp add: epoch_authentic_def sample_update_def)

lemma empty_epoch_keys_reset_trust_witness:
  "\<exists>w1 w2. gossip_synchronize sample_env (sample_update [5] [] [[9]]) sample_wallet = (Ok True, w1)
     \<and> gossip_synchronize sample_env (sample_update [66] [] [[66]]) w1 = (Ok True, w2)
     \<and> we_mint_signing_keys (wa_epoch w2) = [[66]]"
proof -
  have "fst (gossip_synchronize sample_env (sample_update [5] [] [[9]]) sample_wallet) = Ok True"
    by (subst gossip_True_iff) (simp add: sample_wallet_def epoch_authentic_def sample_update_def)
  then obtain w1 where w1: "gossip_synchronize sample_env (sample_update [5] [] [[9]]) sample_wallet = (Ok True, w1)"
    by (metis prod.collapse)
  have "\<exists>w2. gossip_synchronize sample_env (sample_update [66] [] [[66]]) w1 = (Ok True, w2)
      \<and> we_mint_signing_keys (wa_epoch w2) = [[66]]"
    using empty_epoch_keys_reset_trust [OF w1, of "the (eu_extended_data (sample_update [5] [] [[9]]))"
        "sample_update [66] [] [[66]]" "the (eu_extended_data (sample_update [66] [] [[66]]))"]
    by (auto simp: sample_update_def epoch_authentic_def)
  then show ?thesis using w1 by blast
qed

subsection \<open>Tickets and tokens taken in\<close>

lemma import_tickets_verified:
  assumes "import_tickets e key sts w = (r, w')"
  shows "\<exists>new. wa_tickets w' = wa_tickets w @ new \<and> w'\<lparr>wa_tickets := []\<rparr> = w\<lparr>wa_tickets := []\<rparr>
    \<and> (\<forall>te \<in> set new. \<exists>st tk. st \<in> set sts \<and> st_ticket st = Some tk \<and> te = ticket_entry_of e st tk
         \<and> ecdsa_verify e key (enc_ticket e tk) (butlast (te_signature te)))"
  using assms
proof (induction e key sts w rule: import_tickets.induct)
  case (2 e key st sts w)
  show ?case
  proof (cases "st_ticket st")
    case None
    then show ?thesis using 2 by fastforce
  next
    case (Some tk)
    show ?thesis
    proof (cases "ecdsa_sig_parses e (butlast (st_signature st)) \<and> ecdsa_verify e key (enc_ticket e tk) (butlast (st_signature st))")
      case True
      let ?te = "ticket_entry_of e st tk"
      have sig: "te_signature ?te = st_signature st"
        by (simp add: ticket_entry_of_def Let_def split: option.split)
      obtain new where new: "wa_tickets w' = (wa_tickets w @ [?te]) @ new" "w'\<lparr>wa_tickets := []\<rparr> = w\<lparr>wa_tickets := []\<rparr>"
        "\<forall>te \<in> set new. \<exists>st tk. st \<in> set sts \<and> st_ticket st = Some tk \<and> te = ticket_entry_of e st tk
         \<and> ecdsa_verify e key (enc_ticket e tk) (butlast (te_signature te))"
        using 2(2) [OF Some refl] 2(3) Some True by auto
      show ?thesis
        by (rule exI [of _ "?te # new"]) (use new Some True sig in \<open>fastforce\<close>)
    qed (use 2(3) Some in \<open>auto simp: Let_def split: if_splits\<close>)
  qed
qed auto

text \<open>whatever the clerk answers, a ticket is added to the wallet only with a signature that verifies
  under a ticket key of the wallet's epoch, and a ticket request changes nothing else in the wallet.\<close>

theorem imported_tickets_verified:
  assumes "wallet_get_tickets e pick draw count clerk w = (r, w')"
  shows "\<exists>new. wa_tickets w' = wa_tickets w @ new \<and> w'\<lparr>wa_tickets := []\<rparr> = w\<lparr>wa_tickets := []\<rparr>
    \<and> (\<forall>te \<in> set new. \<exists>key st tk. key \<in> set (we_ticket_signing_keys (wa_epoch w))
         \<and> st_ticket st = Some tk \<and> te = ticket_entry_of e st tk
         \<and> ecdsa_verify e key (enc_ticket e tk) (butlast (te_signature te)))"
proof (cases "\<exists>key sts r'. known_signing_key w key \<and> import_tickets e key sts w = (r', w')")
  case True
  then show ?thesis using import_tickets_verified unfolding known_signing_key_def by fastforce
next
  case False
  then have "w' = w"
    using assms
    by (auto simp: wallet_get_tickets_def on_ok_def map_prod_def
        split: option.splits sum.splits rpc.splits if_splits prod.splits)
  then show ?thesis by auto
qed

lemma imported_tickets_verified_witness:
  "\<exists>w'. wallet_get_tickets sample_env (\<lambda>i n. 0) 0 0
      (\<lambda>rq. Reply \<lparr>tr_signing_key = [7], tr_tickets = [sample_ticket 2 1000]\<rparr>) sample_wallet = (Ok True, w')
    \<and> (\<exists>new. wa_tickets w' = wa_tickets sample_wallet @ new)"
proof -
  have "\<exists>w'. wallet_get_tickets sample_env (\<lambda>i n. 0) 0 0
      (\<lambda>rq. Reply \<lparr>tr_signing_key = [7], tr_tickets = [sample_ticket 2 1000]\<rparr>) sample_wallet = (Ok True, w')"
    by (simp add: wallet_get_tickets_def sample_wallet_def sample_credential_def sign_or_split_def
        known_signing_key_def Let_def)
  then show ?thesis using imported_tickets_verified by blast
qed

lemma import_tokens_Ok:
  assumes "import_tokens e toks w = (Ok True, w')"
  shows "\<exists>new. wa_tokens w' = wa_tokens w @ new \<and> length new = length toks
    \<and> map ke_token new = map (enc_token e) toks \<and> w'\<lparr>wa_tokens := []\<rparr> = w\<lparr>wa_tokens := []\<rparr>"
  using assms
proof (induction e toks w rule: import_tokens.induct)
  case (2 e tok toks w)
  then obtain ke where ke: "token_entry_of e tok = Ok ke" by (auto split: sum.splits)
  then have "ke_token ke = enc_token e tok" by (auto simp: token_entry_of_def and_then_Inr_iff)
  moreover obtain new where "wa_tokens w' = (wa_tokens w @ [ke]) @ new" "length new = length toks"
      "map ke_token new = map (enc_token e) toks" "w'\<lparr>wa_tokens := []\<rparr> = w\<lparr>wa_tokens := []\<rparr>"
    using 2 ke by auto
  ultimately show ?case by (intro exI [of _ "ke # new"]) simp
qed simp

lemma year_from_now:
  assumes "unat (now :: u64) + 31536000 < 2 ^ 64"
  shows "u64_add checked 31536000 now = Ok (31536000 + now)"
proof -
  have "unat (31536000 :: u64) = 31536000" by simp
  then show ?thesis using u64_add_unat(1) [of "31536000 :: u64" now] assms by (simp only: add.commute)
qed

text \<open>a withdrawal that reports success adds the blobs of the mint's tokens in order, unverified, and
  uses up the last ticket. One that the mint refuses uses up the ticket as well: only a failed
  connection puts it back.\<close>

theorem withdraw_ticket_accounting:
  assumes "wa_tickets w = ts @ [te]"
  shows "(withdraw e now amt mint w = (Ok True, w') \<longrightarrow>
      wa_tickets w' = ts \<and> (\<exists>rq toks. mint rq = Reply toks \<and> gtr_ticket rq = Some (signed_ticket_of te)
        \<and> map ke_token (wa_tokens w') = map ke_token (wa_tokens w) @ map (enc_token e) toks))
    \<and> (unat now + 31536000 < 2 ^ 64 \<and> (\<forall>rq. mint rq = Rpc_Error) \<longrightarrow>
        withdraw e now amt mint w = (Ok False, w\<lparr>wa_tickets := ts\<rparr>))
    \<and> (unat now + 31536000 < 2 ^ 64 \<and> (\<forall>rq. mint rq = No_Connection) \<longrightarrow>
        withdraw e now amt mint w = (Ok False, w))"
proof (rule conjI [OF impI conjI [OF impI impI]])
  assume "withdraw e now amt mint w = (Ok True, w')"
  then obtain vu where run: "(case mint \<lparr>gtr_version = 0, gtr_amount = Some \<lparr>am_whole = 1, am_fractional = 0, am_code = TEST_TOKEN\<rparr>,
      gtr_tags = [Some (ValidUntil vu)], gtr_count = amt, gtr_ticket = Some (signed_ticket_of te)\<rparr> of
        Reply toks \<Rightarrow> import_tokens e toks (w\<lparr>wa_tickets := ts\<rparr>)
      | Rpc_Error \<Rightarrow> (Ok False, w\<lparr>wa_tickets := ts\<rparr>)
      | No_Connection \<Rightarrow> (Ok False, w\<lparr>wa_tickets := ts, wa_tickets := wa_tickets (w\<lparr>wa_tickets := ts\<rparr>) @ [te]\<rparr>)) = (Ok True, w')"
    using assms by (auto simp: withdraw_def on_ok_Inr_iff Let_def)
  define rq where "rq = \<lparr>gtr_version = 0, gtr_amount = Some \<lparr>am_whole = 1, am_fractional = 0, am_code = TEST_TOKEN\<rparr>,
      gtr_tags = [Some (ValidUntil vu)], gtr_count = amt, gtr_ticket = Some (signed_ticket_of te)\<rparr>"
  obtain toks where "mint rq = Reply toks" and imp: "import_tokens e toks (w\<lparr>wa_tickets := ts\<rparr>) = (Ok True, w')"
    using run by (cases "mint rq") (simp_all add: rq_def)
  moreover have "gtr_ticket rq = Some (signed_ticket_of te)" by (simp add: rq_def)
  moreover obtain new where new: "wa_tokens w' = wa_tokens w @ new" "map ke_token new = map (enc_token e) toks"
      "w'\<lparr>wa_tokens := []\<rparr> = w\<lparr>wa_tickets := ts, wa_tokens := []\<rparr>"
    using import_tokens_Ok [OF imp] by auto
  moreover have "wa_tickets w' = ts" using arg_cong [OF new(3), of wa_tickets] by simp
  ultimately show "wa_tickets w' = ts \<and> (\<exists>rq toks. mint rq = Reply toks \<and> gtr_ticket rq = Some (signed_ticket_of te)
        \<and> map ke_token (wa_tokens w') = map ke_token (wa_tokens w) @ map (enc_token e) toks)"
    by (metis map_append)
next
  assume "unat now + 31536000 < 2 ^ 64 \<and> (\<forall>rq. mint rq = Rpc_Error)"
  then show "withdraw e now amt mint w = (Ok False, w\<lparr>wa_tickets := ts\<rparr>)"
    using assms by (simp add: withdraw_def Let_def year_from_now)
next
  assume "unat now + 31536000 < 2 ^ 64 \<and> (\<forall>rq. mint rq = No_Connection)"
  then show "withdraw e now amt mint w = (Ok False, w)"
    using assms by (simp add: withdraw_def Let_def year_from_now)
qed

lemma withdraw_ticket_accounting_witness:
  "withdraw sample_env 5 1 (\<lambda>rq. Rpc_Error) (sample_wallet\<lparr>wa_tickets := [sample_ticket_entry]\<rparr>) = (Ok False, sample_wallet)"
  using withdraw_ticket_accounting [of "sample_wallet\<lparr>wa_tickets := [sample_ticket_entry]\<rparr>" "[]" sample_ticket_entry
      sample_env 5 1 "\<lambda>rq. Rpc_Error"]
  by (simp add: sample_wallet_def)

subsection \<open>Verifying a list of tokens\<close>

lemma wallet_verify_tokens_True_iff:
  "wallet_verify_tokens e now w toks = Ok True \<longleftrightarrow>
     toks = [] \<or> (\<exists>gpk. cr_group_public_key (wa_transfer_credential w) = Some gpk
       \<and> (\<forall>tok \<in> set toks. token_verify e now tok gpk (we_mint_signing_keys (wa_epoch w))
            (we_ticket_signing_keys (wa_epoch w)) = Ok True))"
proof (induction toks)
  case (Cons tok toks)
  show ?case
  proof (cases "cr_group_public_key (wa_transfer_credential w)")
    case (Some gpk)
    show ?thesis
    proof (cases "token_verify e now tok gpk (we_mint_signing_keys (wa_epoch w)) (we_ticket_signing_keys (wa_epoch w))")
      case (Inr b)
      then have b by (simp add: token_verify_Ok_iff)
      then show ?thesis using Cons Some Inr by auto
    qed (use Some in \<open>auto split: fault.split\<close>)
  qed simp
qed simp

end
