(* ===== verification/Receiver.thy ===== *)
theory Receiver
  imports WalletProps Validate
begin

section \<open>The receiver (\<open>receiver/src/server.rs\<close>)\<close>

text \<open>
  \<open>BrioletteReceiver\<close>: the payee's side of a payment. A payer opens a transaction with \<open>Initiate\<close>,
  brings the epochs together with \<open>Gossip\<close>, proposes tokens with \<open>Transact\<close> and delivers them with
  \<open>Transfer\<close>; a timer per transaction removes it when its state has not changed for a tick.

  The wallet sits behind a \<open>std::sync::RwLock\<close>: a panic of a handler that holds the write guard
  poisons it, and every later \<open>unwrap\<close> of the lock panics. \<open>rx_wallet_poisoned\<close> is that flag. The
  timer tasks of the open transactions are \<open>rx_timers\<close>, each with the state it read before its
  sleep (\<open>last_state\<close>), or \<open>None\<close> when it is about to read it.
\<close>

type_synonym socket_addr = string

record transaction =
  tx_amount :: amount
  tx_peer :: "socket_addr option"

datatype transaction_state =
    Gossip (tx_inner: transaction)
  | Transact (tx_inner: transaction)
  | Transfer (tx_inner: transaction)
  | Complete (tx_inner: transaction)

fun tx_complete :: "transaction_state \<Rightarrow> bool" where
  "tx_complete (Complete _) = True"
| "tx_complete _ = False"

record receiver =
  rx_next_tx_amount :: amount
  rx_next_id :: u64
  rx_transactions :: "u64 \<rightharpoonup> transaction_state"
  rx_wallet :: wallet
  rx_wallet_poisoned :: bool
  rx_timers :: "u64 \<rightharpoonup> transaction_state option"

record initiate_request =
  irq_version :: i32
  irq_epoch :: "epoch_data option"
  irq_epoch_signature :: bytes

record transaction_item =
  ti_amount :: "amount option"
  ti_name :: string
  ti_description :: string
  ti_supported_mint_public_keys :: "bytes list"

record initiate_reply =
  irp_tx_id :: bytes
  irp_epoch :: "epoch_data option"
  irp_epoch_signature :: bytes
  irp_ticket :: "signed_ticket option"
  irp_items :: "transaction_item list"

subsection \<open>Operations\<close>

text \<open>\<open>new\<close> asserts each step of setting up its wallet, whose outcome is the argument here.\<close>

definition receiver_new :: "(bool \<times> bool \<times> bool \<times> bool) \<Rightarrow> wallet \<Rightarrow> receiver result" where
  "receiver_new outcome w =
     (case outcome of (keys, credential, epoch, tickets) \<Rightarrow>
        if keys \<and> credential \<and> epoch \<and> tickets then
          Ok \<lparr>rx_next_tx_amount = amount_default, rx_next_id = 1, rx_transactions = Map.empty,
              rx_wallet = w, rx_wallet_poisoned = False, rx_timers = Map.empty\<rparr>
        else panic)"

text \<open>\<open>whole as i32\<close> keeps the low 32 bits.\<close>

definition next_amount :: "u64 \<Rightarrow> i32 \<Rightarrow> receiver \<Rightarrow> receiver" where
  "next_amount whole fractional_micros rx =
     rx\<lparr>rx_next_tx_amount := \<lparr>am_whole = ucast whole, am_fractional = fractional_micros, am_code = TEST_TOKEN\<rparr>\<rparr>"

text \<open>\<open>usize::from_le_bytes(id.try_into().unwrap_or(usize::MAX.to_le_bytes()))\<close>.\<close>

definition tx_id_of :: "bytes \<Rightarrow> u64" where
  "tx_id_of bs = (if length bs = 8 then of_nat (le_bytes_to_nat bs) else - 1)"

definition set_transaction :: "u64 \<Rightarrow> transaction_state \<Rightarrow> receiver \<Rightarrow> receiver" where
  "set_transaction i st rx = rx\<lparr>rx_transactions := (rx_transactions rx)(i \<mapsto> st)\<rparr>"

definition poison :: "receiver \<Rightarrow> receiver" where
  "poison rx = rx\<lparr>rx_wallet_poisoned := True\<rparr>"

definition initiate_impl ::
  "initiate_request \<Rightarrow> socket_addr option \<Rightarrow> receiver \<Rightarrow> initiate_reply result \<times> receiver" where
  "initiate_impl request peer rx =
     (if irq_version request \<noteq> VERSION_CURRENT then (Err InvalidVersion, rx)
      else if irq_epoch request \<noteq> None \<and> irq_epoch_signature request = [] then (Err InvalidMissingFields, rx)
      else
        let tx_data = \<lparr>tx_amount = rx_next_tx_amount rx, tx_peer = peer\<rparr>;
            tx_id = rx_next_id rx;
            rx1 = rx\<lparr>rx_next_id := rx_next_id rx + 1\<rparr> in
        if tx_id = - 2 then (panic, rx1)
        else if rx_wallet_poisoned rx1 then (panic, rx1)
        else
          let ep = wa_epoch (rx_wallet rx1);
              mismatch = (case irq_epoch request of None \<Rightarrow> True | Some d \<Rightarrow> ed_epoch d \<noteq> we_epoch_number ep);
              rx2 = set_transaction tx_id (if mismatch then Gossip tx_data else Transact tx_data) rx1 in
          (case we_epoch_update ep of
             None \<Rightarrow> (panic, rx2)
           | Some u \<Rightarrow>
               if wa_tickets (rx_wallet rx2) = [] then (panic, rx2)
               else
                 (Ok \<lparr>irp_tx_id = u64_to_le_bytes tx_id, irp_epoch = eu_data u,
                      irp_epoch_signature = eu_epoch_signature u,
                      irp_ticket = Some (signed_ticket_of (last (wa_tickets (rx_wallet rx2)))),
                      irp_items = [\<lparr>ti_amount = Some (rx_next_tx_amount rx2), ti_name = ''test item'',
                        ti_description = ''Some transaction item'', ti_supported_mint_public_keys = []\<rparr>]\<rparr>,
                  rx2\<lparr>rx_timers := (rx_timers rx2)(tx_id \<mapsto> None)\<rparr>)))"

text \<open>The guard the three later calls share: the transaction is known and its peer is the caller.\<close>

definition find_transaction ::
  "bytes \<Rightarrow> socket_addr option \<Rightarrow> receiver \<Rightarrow> (u64 \<times> transaction) result" where
  "find_transaction id_bytes peer rx =
     (case rx_transactions rx (tx_id_of id_bytes) of
        None \<Rightarrow> Err UnknownTransactionId
      | Some st \<Rightarrow>
          if peer \<noteq> tx_peer (tx_inner st) then Err UnknownTransactionPeer
          else Ok (tx_id_of id_bytes, tx_inner st))"

definition gossip_impl ::
  "env \<Rightarrow> bytes \<Rightarrow> epoch_update option \<Rightarrow> socket_addr option \<Rightarrow> receiver
    \<Rightarrow> epoch_update option result \<times> receiver" where
  "gossip_impl e id_bytes update peer rx =
     (if id_bytes = [] then (Err InvalidMissingFields, rx)
      else on_ok (find_transaction id_bytes peer rx, rx) (\<lambda>(i, tx_data) rx.
      if rx_wallet_poisoned rx then (panic, rx)
      else case update of
        None \<Rightarrow> (Ok (we_epoch_update (wa_epoch (rx_wallet rx))), set_transaction i (Transact tx_data) rx)
      | Some u \<Rightarrow>
          (case eu_data u of
             None \<Rightarrow> (panic, poison rx)
           | Some d \<Rightarrow>
               if we_epoch_number (wa_epoch (rx_wallet rx)) < ed_epoch d then
                 (case gossip_synchronize e u (rx_wallet rx) of
                    (Inl f, w) \<Rightarrow> (Inl f, poison (rx\<lparr>rx_wallet := w\<rparr>))
                  | (Inr False, w) \<Rightarrow> (Err InvalidEpochSignature, rx\<lparr>rx_wallet := w\<rparr>)
                  | (Inr True, w) \<Rightarrow> (Ok None, set_transaction i (Transact tx_data) (rx\<lparr>rx_wallet := w\<rparr>)))
               else (Ok None, set_transaction i (Transact tx_data) rx))))"

text \<open>\<open>self.wallet.write().unwrap().verify_tokens(..)\<close>.\<close>

definition receiver_verify_tokens :: "env \<Rightarrow> u64 \<Rightarrow> token list \<Rightarrow> receiver \<Rightarrow> bool result \<times> receiver" where
  "receiver_verify_tokens e now toks rx =
     (if rx_wallet_poisoned rx then (panic, rx)
      else case wallet_verify_tokens e now (rx_wallet rx) toks of
        Inl f \<Rightarrow> (Inl f, poison rx)
      | Inr b \<Rightarrow> (Ok b, rx))"

text \<open>Adding a token's value; \<open>None\<close> is the reply \<open>false\<close> on a currency mismatch.\<close>

definition add_value :: "env \<Rightarrow> amount \<Rightarrow> token \<Rightarrow> amount option result" where
  "add_value e acc tok =
     and_then (unwrap (tok_descriptor tok)) (\<lambda>d.
     and_then (unwrap (ds_value d)) (\<lambda>v.
     case amount_add e acc v of
       Inl Panic \<Rightarrow> panic
     | Inl (Fail c) \<Rightarrow> Ok None
     | Inr a \<Rightarrow> Ok (Some a)))"

fun add_values :: "env \<Rightarrow> amount \<Rightarrow> token list \<Rightarrow> amount option result" where
  "add_values e acc [] = Ok (Some acc)"
| "add_values e acc (tok # toks) =
     and_then (add_value e acc tok) (\<lambda>r.
     case r of None \<Rightarrow> Ok None | Some a \<Rightarrow> add_values e a toks)"

fun add_methods :: "env \<Rightarrow> u64 \<Rightarrow> amount \<Rightarrow> token list list \<Rightarrow> receiver \<Rightarrow> amount option result \<times> receiver" where
  "add_methods e now acc [] rx = (Ok (Some acc), rx)"
| "add_methods e now acc (toks # methods) rx =
     on_ok (receiver_verify_tokens e now toks rx) (\<lambda>verified rx.
     if \<not> verified then (Ok None, rx)
     else on_ok (add_values e acc toks, rx) (\<lambda>r rx.
       case r of None \<Rightarrow> (Ok None, rx) | Some a \<Rightarrow> add_methods e now a methods rx))"

definition transact_impl ::
  "env \<Rightarrow> u64 \<Rightarrow> bytes \<Rightarrow> token list list \<Rightarrow> socket_addr option \<Rightarrow> receiver \<Rightarrow> bool result \<times> receiver" where
  "transact_impl e now id_bytes methods peer rx =
     on_ok (find_transaction id_bytes peer rx, rx) (\<lambda>(i, tx_data) rx.
     on_ok (add_methods e now amount_default methods rx) (\<lambda>r rx.
     case r of
       None \<Rightarrow> (Ok False, rx)
     | Some total_amount \<Rightarrow>
         if total_amount \<noteq> tx_amount tx_data then (Ok False, rx)
         else (Ok True, set_transaction i (Transfer tx_data) rx)))"

text \<open>The loop of \<open>transfer_impl\<close>: the value is added, then the last history entry must name our ticket.\<close>

fun add_received :: "env \<Rightarrow> bytes \<Rightarrow> amount \<Rightarrow> token list \<Rightarrow> amount option result" where
  "add_received e credential acc [] = Ok (Some acc)"
| "add_received e credential acc (tok # toks) =
     and_then (add_value e acc tok) (\<lambda>r.
     case r of
       None \<Rightarrow> Ok None
     | Some a \<Rightarrow>
         and_then (unwrap (last_opt (tok_history tok))) (\<lambda>h.
         and_then (recipient_credential h) (\<lambda>c.
         if c \<noteq> credential then Ok None else add_received e credential a toks)))"

fun store_received :: "env \<Rightarrow> token list \<Rightarrow> receiver \<Rightarrow> unit result \<times> receiver" where
  "store_received e [] rx = (Ok (), rx)"
| "store_received e (tok # toks) rx =
     (if rx_wallet_poisoned rx then (panic, rx)
      else case token_entry_of e tok of
        Inl f \<Rightarrow> (Inl f, poison rx)
      | Inr ke \<Rightarrow> store_received e toks
          (rx\<lparr>rx_wallet := (rx_wallet rx)\<lparr>wa_tokens := wa_tokens (rx_wallet rx) @ [ke]\<rparr>\<rparr>))"

definition transfer_impl ::
  "env \<Rightarrow> u64 \<Rightarrow> bytes \<Rightarrow> token list \<Rightarrow> socket_addr option \<Rightarrow> receiver \<Rightarrow> bool result \<times> receiver" where
  "transfer_impl e now id_bytes toks peer rx =
     on_ok (find_transaction id_bytes peer rx, rx) (\<lambda>(i, tx_data) rx.
     on_ok (receiver_verify_tokens e now toks rx) (\<lambda>verified rx.
     if \<not> verified then (Ok False, rx)
     else if wa_tickets (rx_wallet rx) = [] then (panic, rx)
     else on_ok (add_received e (te_credential (last (wa_tickets (rx_wallet rx)))) amount_default toks, rx)
       (\<lambda>r rx.
     case r of
       None \<Rightarrow> (Ok False, rx)
     | Some total_amount \<Rightarrow>
         if total_amount \<noteq> tx_amount tx_data then (Ok False, rx)
         else on_ok (store_received e toks rx) (\<lambda>_ rx. (Ok True, set_transaction i (Complete tx_data) rx)))))"

text \<open>
  A timer's loop: \<open>timer_read\<close> is its top, where a removed transaction ends the task, and
  \<open>timer_fire\<close> what follows the sleep. The second read unwraps: a transaction that was removed
  during the sleep panics the task.
\<close>

definition timer_read :: "u64 \<Rightarrow> receiver \<Rightarrow> receiver" where
  "timer_read i rx =
     (case rx_transactions rx i of
        None \<Rightarrow> rx\<lparr>rx_timers := (rx_timers rx)(i := None)\<rparr>
      | Some st \<Rightarrow> rx\<lparr>rx_timers := (rx_timers rx)(i \<mapsto> Some st)\<rparr>)"

definition timer_fire :: "u64 \<Rightarrow> transaction_state \<Rightarrow> receiver \<Rightarrow> unit result \<times> receiver" where
  "timer_fire i last_state rx =
     (case rx_transactions rx i of
        None \<Rightarrow> (panic, rx\<lparr>rx_timers := (rx_timers rx)(i := None)\<rparr>)
      | Some st \<Rightarrow>
          let rx1 = rx\<lparr>rx_timers := (rx_timers rx)(i \<mapsto> None)\<rparr> in
          (Ok (), if st = last_state \<or> tx_complete st
                  then rx1\<lparr>rx_transactions := (rx_transactions rx1)(i := None)\<rparr> else rx1))"


subsection \<open>Transaction ids\<close>

lemma le_bytes_to_nat_digits:
  "le_bytes_to_nat (map (\<lambda>i. of_nat (n div 256 ^ i)) [0..<k]) = n mod 256 ^ k"
proof (induction k arbitrary: n)
  case (Suc k)
  have "map (\<lambda>i. of_nat (n div 256 ^ i) :: u8) [0..<Suc k]
      = of_nat n # map (\<lambda>i. of_nat ((n div 256) div 256 ^ i)) [0..<k]"
    by (simp add: upt_conv_Cons map_Suc_upt [symmetric] div_mult2_eq [symmetric] comp_def del: upt_Suc)
  then show ?case
    using mod_mult2_eq [of n 256 "256 ^ k"] by (simp add: Suc.IH unsigned_of_nat take_bit_eq_mod)
qed simp

lemma u64_le_digits: "u64_to_le_bytes w = map (\<lambda>i. of_nat (unat w div 256 ^ i)) [0..<8]"
proof -
  have "(ucast (drop_bit (8 * i) w) :: u8) = of_nat (unat w div 256 ^ i)" for i
  proof (rule bit_word_eqI)
    have "unat w div 256 ^ i = drop_bit (8 * i) (unat w)"
      by (simp add: drop_bit_eq_div power_mult)
    then show "bit (ucast (drop_bit (8 * i) w) :: u8) n = bit (of_nat (unat w div 256 ^ i) :: u8) n"
      if "n < LENGTH(8)" for n
      using that by (simp add: bit_simps)
  qed
  then show ?thesis by (simp add: u64_to_le_bytes_def)
qed

lemma tx_id_roundtrip: "tx_id_of (u64_to_le_bytes w) = w"
proof -
  have "unat w < 2 ^ 64" using unsigned_less [where 'a = nat, of w] by simp
  then show ?thesis
    using le_bytes_to_nat_digits [of "unat w" 8] by (simp add: tx_id_of_def u64_le_digits)
qed

lemma find_transaction_Ok_iff:
  "find_transaction idb peer rx = Ok (i, tx) \<longleftrightarrow>
     i = tx_id_of idb \<and> tx_peer tx = peer \<and> (\<exists>st. rx_transactions rx i = Some st \<and> tx = tx_inner st)"
  by (auto simp: find_transaction_def split: option.split)

subsection \<open>What a step keeps\<close>

lemma gossip_refused_keeps_wallet:
  assumes "fst (gossip_synchronize e u w) \<noteq> Ok True"
  shows "snd (gossip_synchronize e u w) = w"
proof (cases "gossip_key w u")
  case (Some key)
  show ?thesis
  proof (cases "epoch_verify e u key")
    case (Inl f)
    then show ?thesis using Some by (simp add: gossip_synchronize_def split: fault.split)
  next
    case (Inr b)
    then have "epoch_authentic e u key" by (simp add: epoch_verify_Ok_iff)
    then show ?thesis
      using assms Some Inr by (auto simp: gossip_synchronize_def Let_def epoch_authentic_def)
  qed
qed (simp add: gossip_synchronize_def)

lemma receiver_verify_tokens_state:
  "snd (receiver_verify_tokens e now toks rx) = rx \<or> snd (receiver_verify_tokens e now toks rx) = poison rx"
  by (auto simp: receiver_verify_tokens_def split: sum.split)

lemma receiver_verify_tokens_Ok:
  "receiver_verify_tokens e now toks rx = (Ok b, rx') \<longleftrightarrow>
     \<not> rx_wallet_poisoned rx \<and> wallet_verify_tokens e now (rx_wallet rx) toks = Ok b \<and> rx' = rx"
  by (auto simp: receiver_verify_tokens_def split: sum.split)

lemma add_methods_state:
  "snd (add_methods e now acc methods rx) = rx \<or> snd (add_methods e now acc methods rx) = poison rx"
proof (induction methods arbitrary: acc)
  case (Cons toks methods)
  show ?case
  proof (cases "receiver_verify_tokens e now toks rx")
    case (Pair r rx1)
    show ?thesis
    proof (cases r)
      case (Inl f)
      then show ?thesis using Pair receiver_verify_tokens_state [of e now toks rx] by simp
    next
      case (Inr b)
      then have "rx1 = rx" using Pair by (simp add: receiver_verify_tokens_Ok)
      then show ?thesis
        using Pair Inr Cons by (cases "add_values e acc toks") (auto split: option.split)
    qed
  qed
qed simp

lemma store_received_import:
  "\<not> rx_wallet_poisoned rx \<Longrightarrow> store_received e toks rx =
     (case import_tokens e toks (rx_wallet rx) of
        (Inl f, w) \<Rightarrow> (Inl f, poison (rx\<lparr>rx_wallet := w\<rparr>))
      | (Inr _, w) \<Rightarrow> (Ok (), rx\<lparr>rx_wallet := w\<rparr>))"
  by (induction e toks rx rule: store_received.induct) (auto split: sum.split prod.split)

lemma import_tokens_prefix:
  "wa_tokens (snd (import_tokens e toks w)) = wa_tokens w @ map (\<lambda>tok. projr (token_entry_of e tok))
     (takeWhile (\<lambda>tok. is_ok (token_entry_of e tok)) toks)
   \<and> (snd (import_tokens e toks w))\<lparr>wa_tokens := []\<rparr> = w\<lparr>wa_tokens := []\<rparr>"
  by (induction e toks w rule: import_tokens.induct) (auto split: sum.split)

lemma import_tokens_any_wallet:
  assumes "import_tokens e toks w = (Ok True, w')"
  shows "import_tokens e toks v = (Ok True, v\<lparr>wa_tokens := wa_tokens v @ map (\<lambda>tok. projr (token_entry_of e tok)) toks\<rparr>)"
  using assms by (induction e toks w arbitrary: v rule: import_tokens.induct) (auto split: sum.splits)

lemma import_tokens_flag: "import_tokens e toks w = (Ok b, w') \<Longrightarrow> b"
  by (induction e toks w rule: import_tokens.induct) (auto split: sum.splits)


lemma wallet_verify_tokens_frame:
  "wa_transfer_credential v = wa_transfer_credential w \<Longrightarrow> wa_epoch v = wa_epoch w \<Longrightarrow>
     wallet_verify_tokens e now v toks = wallet_verify_tokens e now w toks"
  by (induction toks) (simp_all cong: sum.case_cong)

lemma add_received_Ok:
  "add_received e credential acc toks = Ok (Some a) \<longleftrightarrow>
     add_values e acc toks = Ok (Some a)
     \<and> (\<forall>tok \<in> set toks. \<exists>h. last_opt (tok_history tok) = Some h \<and> recipient_credential h = Ok credential)"
  by (induction toks arbitrary: acc) (auto simp: and_then_Inr_iff split: option.splits if_splits)

text \<open>One lemma that inverts an accepted transfer; the properties below read it.\<close>

lemma transfer_impl_True:
  "transfer_impl e now idb toks peer rx = (Ok True, rx') \<longleftrightarrow>
     (\<exists>st te w. rx_transactions rx (tx_id_of idb) = Some st \<and> tx_peer (tx_inner st) = peer
        \<and> \<not> rx_wallet_poisoned rx \<and> wallet_verify_tokens e now (rx_wallet rx) toks = Ok True
        \<and> last_opt (wa_tickets (rx_wallet rx)) = Some te
        \<and> add_received e (te_credential te) amount_default toks = Ok (Some (tx_amount (tx_inner st)))
        \<and> import_tokens e toks (rx_wallet rx) = (Ok True, w)
        \<and> rx' = set_transaction (tx_id_of idb) (Complete (tx_inner st)) (rx\<lparr>rx_wallet := w\<rparr>))"
  (is "_ \<longleftrightarrow> ?R")
proof
  assume "transfer_impl e now idb toks peer rx = (Ok True, rx')"
  then obtain st te rx2 where "rx_transactions rx (tx_id_of idb) = Some st" "tx_peer (tx_inner st) = peer"
      "\<not> rx_wallet_poisoned rx" "wallet_verify_tokens e now (rx_wallet rx) toks = Ok True"
      "last_opt (wa_tickets (rx_wallet rx)) = Some te"
      "add_received e (te_credential te) amount_default toks = Ok (Some (tx_amount (tx_inner st)))"
      "store_received e toks rx = (Ok (), rx2)" "rx' = set_transaction (tx_id_of idb) (Complete (tx_inner st)) rx2"
    by (auto simp: transfer_impl_def on_ok_Inr_iff find_transaction_Ok_iff receiver_verify_tokens_Ok
        split: if_splits option.splits)
  then show ?R
    using import_tokens_flag by (fastforce simp: store_received_import split: sum.splits prod.splits)
next
  assume ?R
  then show "transfer_impl e now idb toks peer rx = (Ok True, rx')"
    by (auto simp: transfer_impl_def find_transaction_def receiver_verify_tokens_def store_received_import
        last_opt_Some_iff)
qed


subsection \<open>What an accepted transfer adds up to\<close>

definition token_value :: "token \<Rightarrow> amount option" where
  "token_value tok = Option.bind (tok_descriptor tok) ds_value"

definition whole_of :: "token \<Rightarrow> int" where
  "whole_of tok = (case token_value tok of None \<Rightarrow> 0 | Some v \<Rightarrow> sint (am_whole v))"

definition micros_of :: "token \<Rightarrow> int" where
  "micros_of tok = (case token_value tok of None \<Rightarrow> 0 | Some v \<Rightarrow> micros v)"

definition plain_value :: "token \<Rightarrow> bool" where
  "plain_value tok \<longleftrightarrow> (\<forall>v. token_value tok = Some v \<longrightarrow> amount_ok v)"

lemma add_value_Some_iff:
  "add_value e acc tok = Ok (Some a) \<longleftrightarrow> (\<exists>v. token_value tok = Some v \<and> amount_add e acc v = Ok a)"
proof (cases "token_value tok")
  case None
  then show ?thesis
    by (cases "tok_descriptor tok") (simp_all add: add_value_def token_value_def)
next
  case (Some v)
  then obtain d where "tok_descriptor tok = Some d" "ds_value d = Some v"
    by (auto simp: token_value_def bind_eq_Some_conv)
  then show ?thesis
    using Some by (cases "amount_add e acc v") (auto simp: add_value_def split: fault.split)
qed

lemma add_values_micros:
  assumes "add_values e acc toks = Ok (Some a)" "amount_ok acc" "\<forall>tok \<in> set toks. plain_value tok"
    and "sint (am_whole acc) + (\<Sum>tok\<leftarrow>toks. whole_of tok + 1) < 2 ^ 31"
  shows "amount_ok a \<and> micros a = micros acc + (\<Sum>tok\<leftarrow>toks. micros_of tok)"
  using assms
proof (induction toks arbitrary: acc)
  case (Cons tok toks)
  then obtain b where "add_value e acc tok = Ok (Some b)" and rest: "add_values e b toks = Ok (Some a)"
    by (auto simp: and_then_Inr_iff split: option.splits)
  then obtain v where v: "token_value tok = Some v" and add: "amount_add e acc v = Ok b"
    by (auto simp: add_value_Some_iff)
  have okv: "amount_ok v" using Cons.prems(3) v by (auto simp: plain_value_def)
  have same: "am_code acc = am_code v" using add by (cases "am_code acc = am_code v") simp_all
  have nonneg: "0 \<le> (\<Sum>tok\<leftarrow>toks. whole_of tok + 1)"
    using Cons.prems(3)
    by (intro sum_list_nonneg) (auto simp: whole_of_def plain_value_def amount_ok_def split: option.split)
  have step: "amount_ok b \<and> micros b = micros acc + micros v"
    using amount_add_exact [OF Cons.prems(2) okv same, of e] add Cons.prems(4) nonneg v
    by (simp add: whole_of_def)
  then have "sint (am_whole b) \<le> sint (am_whole acc) + sint (am_whole v) + 1"
    using Cons.prems(2) okv by (simp add: micros_def amount_ok_def)
  then have "sint (am_whole b) + (\<Sum>tok\<leftarrow>toks. whole_of tok + 1) < 2 ^ 31"
    using Cons.prems(4) v by (simp add: whole_of_def)
  then have "amount_ok a \<and> micros a = micros b + (\<Sum>tok\<leftarrow>toks. micros_of tok)"
    using Cons.IH [OF rest] step Cons.prems(3) by simp
  then show ?case using step v by (simp add: micros_of_def)
qed simp

subsection \<open>A receiver with one open transaction\<close>

text \<open>Transaction 1 of the peer \<open>payer\<close> asks for 10 test tokens, to the ticket of holder 2.\<close>

definition sample_test_token :: token where
  "sample_test_token = (sample_token 10 1 [sample_hop 2 []])
     \<lparr>tok_descriptor := Some \<lparr>ds_version = 0, ds_value = Some \<lparr>am_whole = 10, am_fractional = 0, am_code = 0\<rparr>\<rparr>\<rparr>"

definition sample_receiver :: receiver where
  "sample_receiver = \<lparr>rx_next_tx_amount = \<lparr>am_whole = 10, am_fractional = 0, am_code = 0\<rparr>, rx_next_id = 2,
     rx_transactions = [1 \<mapsto> Gossip \<lparr>tx_amount = \<lparr>am_whole = 10, am_fractional = 0, am_code = 0\<rparr>, tx_peer = Some ''payer''\<rparr>],
     rx_wallet = sample_wallet\<lparr>wa_tickets := [ticket_entry_of sample_env (sample_ticket 2 1000) (the (st_ticket (sample_ticket 2 1000)))],
       wa_epoch := (wa_epoch sample_wallet)\<lparr>we_epoch_update := Some sample_epoch\<rparr>\<rparr>,
     rx_wallet_poisoned = False, rx_timers = [1 \<mapsto> None]\<rparr>"

lemma sample_test_token_simps [simp]:
  "tok_base sample_test_token = Some (sample_base 1)"
  "tok_history sample_test_token = [sample_hop 2 []]"
  "tok_descriptor sample_test_token = Some \<lparr>ds_version = 0, ds_value = Some \<lparr>am_whole = 10, am_fractional = 0, am_code = 0\<rparr>\<rparr>"
  by (simp_all add: sample_test_token_def)

lemma sample_test_token_verified: "token_verify sample_env 2000 sample_test_token gpk [[9]] [[7]] = Ok True"
  by (simp add: token_verify_Ok_iff valid_chain_def holder_ticket_ok_def current_entry_def unexpired_def
      splits_fit_def entry_before_def)

lemma sample_transfer_accepted:
  "\<exists>rx'. transfer_impl sample_env 2000 [1,0,0,0,0,0,0,0] [sample_test_token] (Some ''payer'') sample_receiver = (Ok True, rx')"
  using sample_test_token_verified
  by (simp add: transfer_impl_True sample_receiver_def tx_id_of_def wallet_verify_tokens_True_iff
      sample_wallet_def sample_credential_def add_value_def amount_default_def amount_add_def i32_add_def
      signed_divide_int_def signed_modulo_int_def
      recipient_credential_def recipient_ticket_def ticket_entry_of_def token_entry_of_def)

text \<open>C12: the receiver accepts a transfer only from the peer of a known transaction, when every token
  verifies under its epoch's keys, the last transfer of each is to its own last ticket, and the
  values add up to the amount asked for (exactly, while the sum fits an \<open>i32\<close>); it then stores
  the tokens in order after those it holds.\<close>

theorem accepted_transfer:
  assumes "transfer_impl e now idb toks peer rx = (Ok True, rx')"
  shows "\<exists>st te new. rx_transactions rx (tx_id_of idb) = Some st \<and> tx_peer (tx_inner st) = peer
    \<and> last_opt (wa_tickets (rx_wallet rx)) = Some te
    \<and> (\<forall>tok \<in> set toks. \<exists>gpk h. cr_group_public_key (wa_transfer_credential (rx_wallet rx)) = Some gpk
        \<and> token_verify e now tok gpk (we_mint_signing_keys (wa_epoch (rx_wallet rx)))
            (we_ticket_signing_keys (wa_epoch (rx_wallet rx))) = Ok True
        \<and> last_opt (tok_history tok) = Some h \<and> recipient_credential h = Ok (te_credential te))
    \<and> ((\<forall>tok \<in> set toks. plain_value tok) \<and> (\<Sum>tok\<leftarrow>toks. whole_of tok + 1) < 2 ^ 31 \<longrightarrow>
        (\<Sum>tok\<leftarrow>toks. micros_of tok) = micros (tx_amount (tx_inner st)))
    \<and> wa_tokens (rx_wallet rx') = wa_tokens (rx_wallet rx) @ new \<and> map ke_token new = map (enc_token e) toks
    \<and> rx_transactions rx' = (rx_transactions rx)(tx_id_of idb \<mapsto> Complete (tx_inner st))"
proof -
  obtain st te w where st: "rx_transactions rx (tx_id_of idb) = Some st" "tx_peer (tx_inner st) = peer"
      "wallet_verify_tokens e now (rx_wallet rx) toks = Ok True" "last_opt (wa_tickets (rx_wallet rx)) = Some te"
      "add_received e (te_credential te) amount_default toks = Ok (Some (tx_amount (tx_inner st)))"
      "import_tokens e toks (rx_wallet rx) = (Ok True, w)"
      "rx' = set_transaction (tx_id_of idb) (Complete (tx_inner st)) (rx\<lparr>rx_wallet := w\<rparr>)"
    using assms by (auto simp: transfer_impl_True)
  obtain new where "wa_tokens w = wa_tokens (rx_wallet rx) @ new" "map ke_token new = map (enc_token e) toks"
    using import_tokens_Ok [OF st(6)] by blast
  moreover have "add_values e amount_default toks = Ok (Some (tx_amount (tx_inner st)))"
      and to_us: "\<forall>tok \<in> set toks. \<exists>h. last_opt (tok_history tok) = Some h \<and> recipient_credential h = Ok (te_credential te)"
    using st(5) by (simp_all add: add_received_Ok)
  then have "(\<forall>tok \<in> set toks. plain_value tok) \<and> (\<Sum>tok\<leftarrow>toks. whole_of tok + 1) < 2 ^ 31 \<longrightarrow>
      (\<Sum>tok\<leftarrow>toks. micros_of tok) = micros (tx_amount (tx_inner st))"
    using add_values_micros [of e amount_default toks "tx_amount (tx_inner st)"]
    by (simp add: amount_default_def amount_ok_def micros_def)
  ultimately show ?thesis
    using st to_us by (intro exI [of _ st] exI [of _ te] exI [of _ new])
      (auto simp: set_transaction_def wallet_verify_tokens_True_iff)
qed

lemma accepted_transfer_witness:
  "\<exists>rx' new. transfer_impl sample_env 2000 [1,0,0,0,0,0,0,0] [sample_test_token] (Some ''payer'') sample_receiver = (Ok True, rx')
     \<and> wa_tokens (rx_wallet rx') = [new] \<and> micros_of sample_test_token = 10000000"
proof -
  obtain rx' where run: "transfer_impl sample_env 2000 [1,0,0,0,0,0,0,0] [sample_test_token] (Some ''payer'') sample_receiver = (Ok True, rx')"
    using sample_transfer_accepted by blast
  have "wa_tokens (rx_wallet sample_receiver) = []" by (simp add: sample_receiver_def sample_wallet_def)
  then obtain new where "wa_tokens (rx_wallet rx') = new" "length new = 1"
    using accepted_transfer [OF run] map_eq_imp_length_eq by fastforce
  then obtain x where "wa_tokens (rx_wallet rx') = [x]" by (cases new) auto
  then show ?thesis using run by (auto simp: micros_of_def token_value_def micros_def)
qed

text \<open>nothing ties a transfer to the state of its transaction or to tokens already received: the same
  accepted request sent again, before the timer removes the transaction, is accepted again and the
  same tokens are stored a second time.\<close>

theorem transfer_replayed_twice:
  assumes "transfer_impl e now idb toks peer rx = (Ok True, rx1)"
  shows "\<exists>rx2 new. transfer_impl e now idb toks peer rx1 = (Ok True, rx2) \<and> length new = length toks
    \<and> wa_tokens (rx_wallet rx1) = wa_tokens (rx_wallet rx) @ new
    \<and> wa_tokens (rx_wallet rx2) = wa_tokens (rx_wallet rx) @ new @ new"
proof -
  let ?new = "map (\<lambda>tok. projr (token_entry_of e tok)) toks"
  let ?add = "\<lambda>w. w\<lparr>wa_tokens := wa_tokens w @ ?new\<rparr>"
  obtain st te w where st: "rx_transactions rx (tx_id_of idb) = Some st" "tx_peer (tx_inner st) = peer"
      "\<not> rx_wallet_poisoned rx"
      "wallet_verify_tokens e now (rx_wallet rx) toks = Ok True" "last_opt (wa_tickets (rx_wallet rx)) = Some te"
      "add_received e (te_credential te) amount_default toks = Ok (Some (tx_amount (tx_inner st)))"
      "import_tokens e toks (rx_wallet rx) = (Ok True, w)"
      and rx1: "rx1 = set_transaction (tx_id_of idb) (Complete (tx_inner st)) (rx\<lparr>rx_wallet := w\<rparr>)"
    using assms by (auto simp: transfer_impl_True)
  have any: "import_tokens e toks v = (Ok True, ?add v)" for v
    by (rule import_tokens_any_wallet [OF st(7)])
  have w: "w = ?add (rx_wallet rx)" using st(7) any [of "rx_wallet rx"] by simp
  have "wallet_verify_tokens e now w toks = Ok True"
    using st(4) wallet_verify_tokens_frame [of w "rx_wallet rx" e now toks] w by simp
  then have "transfer_impl e now idb toks peer rx1
      = (Ok True, set_transaction (tx_id_of idb) (Complete (tx_inner st)) (rx1\<lparr>rx_wallet := ?add w\<rparr>))"
    using st any [of w] by (simp add: transfer_impl_True rx1 set_transaction_def w)
  then show ?thesis by (auto simp: rx1 w set_transaction_def intro!: exI [of _ ?new])
qed


lemma transfer_replayed_twice_witness:
  "\<exists>rx1 rx2. transfer_impl sample_env 2000 [1,0,0,0,0,0,0,0] [sample_test_token] (Some ''payer'') sample_receiver = (Ok True, rx1)
     \<and> transfer_impl sample_env 2000 [1,0,0,0,0,0,0,0] [sample_test_token] (Some ''payer'') rx1 = (Ok True, rx2)
     \<and> length (wa_tokens (rx_wallet rx2)) = 2"
proof -
  obtain rx1 where run: "transfer_impl sample_env 2000 [1,0,0,0,0,0,0,0] [sample_test_token] (Some ''payer'') sample_receiver = (Ok True, rx1)"
    using sample_transfer_accepted by blast
  have "wa_tokens (rx_wallet sample_receiver) = []" by (simp add: sample_receiver_def sample_wallet_def)
  then show ?thesis using run transfer_replayed_twice [OF run] by fastforce
qed

subsection \<open>Runs of the receiver\<close>

inductive rx_step :: "env \<Rightarrow> receiver \<Rightarrow> receiver \<Rightarrow> bool" for e where
  initiate: "rx_step e rx (snd (initiate_impl rq peer rx))"
| gossip: "rx_step e rx (snd (gossip_impl e idb u peer rx))"
| transact: "rx_step e rx (snd (transact_impl e now idb methods peer rx))"
| transfer: "rx_step e rx (snd (transfer_impl e now idb toks peer rx))"
| amount: "rx_step e rx (next_amount whole micro rx)"
| timer_read: "rx_timers rx i = Some None \<Longrightarrow> rx_step e rx (timer_read i rx)"
| timer_fire: "rx_timers rx i = Some (Some st) \<Longrightarrow> rx_step e rx (snd (timer_fire i st rx))"

inductive_cases rx_stepE: "rx_step e rx rx'"

text \<open>What every step keeps: the wallet only gains tokens, its epoch only advances, poison stays, and
  a sleeping timer's transaction stays.\<close>

definition wallet_grows :: "wallet \<Rightarrow> wallet \<Rightarrow> bool" where
  "wallet_grows w w' \<longleftrightarrow> we_epoch_number (wa_epoch w) \<le> we_epoch_number (wa_epoch w')
     \<and> prefix (wa_tokens w) (wa_tokens w') \<and> wa_tickets w' = wa_tickets w"

definition rx_grows :: "receiver \<Rightarrow> receiver \<Rightarrow> bool" where
  "rx_grows rx rx' \<longleftrightarrow> wallet_grows (rx_wallet rx) (rx_wallet rx')
     \<and> (rx_wallet_poisoned rx \<longrightarrow> rx_wallet_poisoned rx')"

definition timers_sound :: "receiver \<Rightarrow> bool" where
  "timers_sound rx \<longleftrightarrow> (\<forall>i st. rx_timers rx i = Some (Some st) \<longrightarrow> rx_transactions rx i \<noteq> None)"

lemma wallet_grows_refl [simp, intro]: "wallet_grows w w"
  by (simp add: wallet_grows_def)

lemma wallet_grows_trans: "wallet_grows u v \<Longrightarrow> wallet_grows v w \<Longrightarrow> wallet_grows u w"
  by (auto simp: wallet_grows_def intro: prefix_order.trans)

lemma rx_grows_refl [simp, intro]: "rx_grows rx rx"
  by (simp add: rx_grows_def)

lemma rx_grows_trans: "rx_grows a b \<Longrightarrow> rx_grows b c \<Longrightarrow> rx_grows a c"
  by (auto simp: rx_grows_def intro: wallet_grows_trans)

lemma rx_grows_updates [simp]:
  "rx_grows rx (set_transaction i st rx') = rx_grows rx rx'"
  "rx_grows rx (rx\<lparr>rx_timers := t\<rparr>)" "rx_grows rx (rx\<lparr>rx_transactions := m\<rparr>)"
  "rx_grows rx (rx\<lparr>rx_timers := t, rx_transactions := m\<rparr>)"
  "rx_grows rx (rx\<lparr>rx_next_id := n\<rparr>)" "rx_grows rx (next_amount whole micro rx)"
  "rx_grows rx (poison rx)"
  by (simp_all add: rx_grows_def set_transaction_def poison_def next_amount_def)

lemma gossip_grows:
  assumes "eu_data u = Some d" "we_epoch_number (wa_epoch w) < ed_epoch d"
  shows "wallet_grows w (snd (gossip_synchronize e u w))"
proof (cases "fst (gossip_synchronize e u w) = Ok True")
  case True
  then obtain w' where run: "gossip_synchronize e u w = (Ok True, w')" by (metis prod.collapse)
  have "wa_tokens w' = wa_tokens w \<and> wa_tickets w' = wa_tickets w"
    using run by (auto simp: gossip_synchronize_def Let_def split: option.splits sum.splits fault.splits if_splits)
  then show ?thesis
    using run gossip_installs [OF run] assms by (auto simp: wallet_grows_def)
qed (simp add: gossip_refused_keeps_wallet)

lemma import_grows: "wallet_grows w (snd (import_tokens e toks w))"
proof -
  let ?w = "snd (import_tokens e toks w)"
  have eq: "?w\<lparr>wa_tokens := []\<rparr> = w\<lparr>wa_tokens := []\<rparr>"
    using import_tokens_prefix [of e toks w] by simp
  have "wa_epoch ?w = wa_epoch w" using arg_cong [OF eq, of wa_epoch] by simp
  moreover have "wa_tickets ?w = wa_tickets w" using arg_cong [OF eq, of wa_tickets] by simp
  ultimately show ?thesis
    using import_tokens_prefix [of e toks w] by (simp add: wallet_grows_def)
qed

lemma initiate_grows: "rx_grows rx (snd (initiate_impl rq peer rx))"
  by (simp add: initiate_impl_def Let_def rx_grows_def set_transaction_def split: option.split)

lemma gossip_impl_grows: "rx_grows rx (snd (gossip_impl e idb u peer rx))"
proof (cases "find_transaction idb peer rx")
  case (Inr r)
  show ?thesis
  proof (cases "\<exists>up d. u = Some up \<and> eu_data up = Some d \<and> we_epoch_number (wa_epoch (rx_wallet rx)) < ed_epoch d")
    case True
    then obtain up d where u: "u = Some up" "eu_data up = Some d"
      "we_epoch_number (wa_epoch (rx_wallet rx)) < ed_epoch d" by blast
    obtain res w where g: "gossip_synchronize e up (rx_wallet rx) = (res, w)" by fastforce
    have "wallet_grows (rx_wallet rx) w" using gossip_grows [OF u(2,3), of e] g by simp
    then show ?thesis
      using Inr u g by (simp add: gossip_impl_def rx_grows_def poison_def set_transaction_def
          split: prod.split sum.split bool.split)
  qed (use Inr in \<open>simp add: gossip_impl_def split: prod.split option.split\<close>)
qed (simp add: gossip_impl_def)

lemma store_received_grows: "rx_grows rx (snd (store_received e toks rx))"
proof (cases "rx_wallet_poisoned rx")
  case False
  then show ?thesis
    using import_grows [of "rx_wallet rx" e toks]
    by (auto simp: store_received_import rx_grows_def poison_def split: prod.split sum.split)
qed (cases toks; simp)

lemma transact_grows: "rx_grows rx (snd (transact_impl e now idb methods peer rx))"
proof (cases "find_transaction idb peer rx")
  case (Inr r)
  obtain res rx1 where m: "add_methods e now amount_default methods rx = (res, rx1)" by fastforce
  then have "rx_grows rx rx1"
    using add_methods_state [of e now amount_default methods rx] by auto
  then show ?thesis
    using Inr m by (cases res) (simp_all add: transact_impl_def split: prod.split option.split)
qed (simp add: transact_impl_def)

lemma transfer_grows: "rx_grows rx (snd (transfer_impl e now idb toks peer rx))"
proof (cases "find_transaction idb peer rx")
  case (Inr r)
  obtain res rx1 where v: "receiver_verify_tokens e now toks rx = (res, rx1)" by fastforce
  then have g: "rx_grows rx rx1" using receiver_verify_tokens_state [of e now toks rx] by auto
  obtain res2 rx2 where st: "store_received e toks rx1 = (res2, rx2)" by fastforce
  then have "rx_grows rx rx2" using rx_grows_trans [OF g store_received_grows [of rx1 e toks]] by simp
  then show ?thesis
    using Inr v g st by (cases res; cases res2; cases "add_received e (te_credential (last (wa_tickets (rx_wallet rx1)))) amount_default toks")
      (simp_all add: transfer_impl_def split: prod.split option.split)
qed (simp add: transfer_impl_def)

lemma rx_step_grows: "rx_step e rx rx' \<Longrightarrow> rx_grows rx rx'"
  by (induction rule: rx_step.induct)
    (auto simp: initiate_grows gossip_impl_grows transact_grows transfer_grows timer_read_def timer_fire_def
      Let_def split: option.split)

lemma rx_run_grows: "(rx_step e)\<^sup>*\<^sup>* rx rx' \<Longrightarrow> rx_grows rx rx'"
  by (induction rule: rtranclp_induct) (auto dest: rx_step_grows intro: rx_grows_trans)

text \<open>Handlers other than a timer never remove a transaction and start no timer asleep.\<close>

definition keeps_transactions :: "receiver \<Rightarrow> receiver \<Rightarrow> bool" where
  "keeps_transactions rx rx' \<longleftrightarrow>
     (\<forall>i. rx_transactions rx i \<noteq> None \<longrightarrow> rx_transactions rx' i \<noteq> None)
     \<and> (\<forall>i st. rx_timers rx' i = Some (Some st) \<longrightarrow> rx_timers rx i = Some (Some st))"

lemma keeps_transactions_sound: "keeps_transactions rx rx' \<Longrightarrow> timers_sound rx \<Longrightarrow> timers_sound rx'"
  by (auto simp: keeps_transactions_def timers_sound_def)

lemma keeps_transactions_simps [simp]:
  "keeps_transactions rx rx" "keeps_transactions rx (poison rx') = keeps_transactions rx rx'"
  "keeps_transactions rx (rx'\<lparr>rx_wallet := w\<rparr>) = keeps_transactions rx rx'"
  "keeps_transactions rx (rx'\<lparr>rx_next_id := n\<rparr>) = keeps_transactions rx rx'"
  "keeps_transactions rx (next_amount whole micro rx') = keeps_transactions rx rx'"
  "keeps_transactions rx rx' \<Longrightarrow> keeps_transactions rx (set_transaction i st rx')"
  "keeps_transactions rx rx' \<Longrightarrow> keeps_transactions rx (rx'\<lparr>rx_timers := (rx_timers rx')(i \<mapsto> None)\<rparr>)"
  by (auto simp: keeps_transactions_def poison_def next_amount_def set_transaction_def)

lemma store_received_keeps: "keeps_transactions rx (snd (store_received e toks rx))"
proof (cases "rx_wallet_poisoned rx")
  case False
  then show ?thesis by (auto simp: store_received_import split: prod.split sum.split)
qed (cases toks; simp)

lemma handlers_keep_transactions:
  "keeps_transactions rx (snd (initiate_impl rq peer rx))"
  "keeps_transactions rx (snd (gossip_impl e idb u peer rx))"
  "keeps_transactions rx (snd (transact_impl e now idb methods peer rx))"
  "keeps_transactions rx (snd (transfer_impl e now idb toks peer rx))"
proof -
  show "keeps_transactions rx (snd (initiate_impl rq peer rx))"
    by (simp add: initiate_impl_def Let_def split: option.split)
  show "keeps_transactions rx (snd (gossip_impl e idb u peer rx))"
    by (cases "find_transaction idb peer rx")
      (simp_all add: gossip_impl_def split: prod.split sum.split bool.split option.split)
  obtain res rx1 where m: "add_methods e now amount_default methods rx = (res, rx1)" by fastforce
  then have "keeps_transactions rx rx1"
    using add_methods_state [of e now amount_default methods rx] by auto
  then show "keeps_transactions rx (snd (transact_impl e now idb methods peer rx))"
    using m by (cases "find_transaction idb peer rx"; cases res)
      (simp_all add: transact_impl_def split: prod.split option.split)
  obtain res rx1 where v: "receiver_verify_tokens e now toks rx = (res, rx1)" by fastforce
  then have one: "rx1 = rx \<or> rx1 = poison rx" using receiver_verify_tokens_state [of e now toks rx] by auto
  obtain res2 rx2 where st: "store_received e toks rx1 = (res2, rx2)" by fastforce
  then have "keeps_transactions rx1 rx2" using store_received_keeps [of rx1 e toks] by simp
  then have "keeps_transactions rx rx1" "keeps_transactions rx rx2"
    using one by (auto simp: keeps_transactions_def poison_def)
  then show "keeps_transactions rx (snd (transfer_impl e now idb toks peer rx))"
    using v st by (cases "find_transaction idb peer rx"; cases res; cases res2;
        cases "add_received e (te_credential (last (wa_tickets (rx_wallet rx1)))) amount_default toks")
      (simp_all add: transfer_impl_def split: prod.split option.split)
qed

lemma rx_step_sound: "rx_step e rx rx' \<Longrightarrow> timers_sound rx \<Longrightarrow> timers_sound rx'"
proof (induction rule: rx_step.induct)
  case (timer_read rx i)
  then show ?case by (auto simp: timers_sound_def timer_read_def split: option.split)
next
  case (timer_fire rx i st)
  then show ?case by (auto simp: timers_sound_def timer_fire_def Let_def split: option.split)
next
  case (amount rx whole micro)
  then show ?case by (simp add: timers_sound_def next_amount_def)
qed (auto intro: keeps_transactions_sound [OF handlers_keep_transactions(1)]
    keeps_transactions_sound [OF handlers_keep_transactions(2)]
    keeps_transactions_sound [OF handlers_keep_transactions(3)]
    keeps_transactions_sound [OF handlers_keep_transactions(4)])

lemma rx_run_sound: "(rx_step e)\<^sup>*\<^sup>* rx rx' \<Longrightarrow> timers_sound rx \<Longrightarrow> timers_sound rx'"
  by (induction rule: rtranclp_induct) (auto dest: rx_step_sound)


text \<open>C13: in every run of the receiver, whatever its peers send and whenever its timers fire, its wallet's
  epoch never goes back, its tickets stay, and the tokens it holds are only appended to.\<close>

theorem receiver_run_monotone:
  assumes "(rx_step e)\<^sup>*\<^sup>* rx rx'"
  shows "we_epoch_number (wa_epoch (rx_wallet rx)) \<le> we_epoch_number (wa_epoch (rx_wallet rx'))
    \<and> prefix (wa_tokens (rx_wallet rx)) (wa_tokens (rx_wallet rx'))
    \<and> wa_tickets (rx_wallet rx') = wa_tickets (rx_wallet rx)"
  using rx_run_grows [OF assms] by (simp add: rx_grows_def wallet_grows_def)

lemma receiver_run_monotone_witness:
  "prefix (wa_tokens (rx_wallet sample_receiver)) (wa_tokens (rx_wallet (timer_read 1 (next_amount 3 0 sample_receiver))))"
proof -
  have "(rx_step sample_env)\<^sup>*\<^sup>* sample_receiver (timer_read 1 (next_amount 3 0 sample_receiver))"
    by (rule rtranclp_trans [OF r_into_rtranclp [where r = "rx_step sample_env", OF rx_step.amount]
          r_into_rtranclp [where r = "rx_step sample_env", OF rx_step.timer_read]])
      (simp add: sample_receiver_def next_amount_def)
  from receiver_run_monotone [OF this] show ?thesis by simp
qed

text \<open>from a new receiver, no run brings a timer to the panic of its second read: a sleeping timer
  always finds its transaction.\<close>

theorem timers_never_panic:
  assumes "receiver_new outcome w = Ok rx0" "(rx_step e)\<^sup>*\<^sup>* rx0 rx" "rx_timers rx i = Some (Some last_state)"
  shows "fst (timer_fire i last_state rx) = Ok ()"
proof -
  have "timers_sound rx0"
    using assms(1) by (auto simp: receiver_new_def timers_sound_def split: prod.splits if_splits)
  then have "timers_sound rx" using rx_run_sound [OF assms(2)] by simp
  then obtain st where "rx_transactions rx i = Some st"
    using assms(3) by (auto simp: timers_sound_def)
  then show ?thesis by (simp add: timer_fire_def Let_def)
qed

lemma timers_never_panic_witness:
  "\<exists>rx0 rx st. receiver_new (True, True, True, True) (rx_wallet sample_receiver) = Ok rx0
     \<and> (rx_step sample_env)\<^sup>*\<^sup>* rx0 rx \<and> rx_timers rx 1 = Some (Some st) \<and> fst (timer_fire 1 st rx) = Ok ()"
proof -
  obtain rx0 where new: "receiver_new (True, True, True, True) (rx_wallet sample_receiver) = Ok rx0"
    by (simp add: receiver_new_def)
  define rx1 where "rx1 = snd (initiate_impl \<lparr>irq_version = VERSION_CURRENT, irq_epoch = None, irq_epoch_signature = []\<rparr> None rx0)"
  have "(rx_step sample_env)\<^sup>*\<^sup>* rx0 rx1" by (simp add: rx1_def r_into_rtranclp rx_step.initiate)
  moreover have one: "rx_timers rx1 1 = Some None" "\<exists>st. rx_transactions rx1 1 = Some st"
    using new by (auto simp: rx1_def receiver_new_def initiate_impl_def Let_def set_transaction_def sample_receiver_def sample_wallet_def)
  ultimately have run: "(rx_step sample_env)\<^sup>*\<^sup>* rx0 (timer_read 1 rx1)"
    by (meson rtranclp.rtrancl_into_rtrancl rx_step.timer_read)
  obtain st where "rx_timers (timer_read 1 rx1) 1 = Some (Some st)"
    using one by (auto simp: timer_read_def)
  with timers_never_panic [OF new run this] new run show ?thesis by blast
qed

text \<open>a peer of an open transaction that gossips an update without its data poisons the wallet's lock,
  and from then on, whatever happens, no transaction is opened, no gossip is answered and no
  transfer is accepted.\<close>

theorem gossip_without_data_bricks:
  assumes "find_transaction idb peer rx = Ok r" "idb \<noteq> []" "\<not> rx_wallet_poisoned rx" "eu_data u = None"
    and "(rx_step e)\<^sup>*\<^sup>* (snd (gossip_impl e idb (Some u) peer rx)) rx'"
  shows "fst (gossip_impl e idb (Some u) peer rx) = panic
    \<and> (\<forall>rq p reply. fst (initiate_impl rq p rx') \<noteq> Ok reply)
    \<and> (\<forall>i v p reply. fst (gossip_impl e i v p rx') \<noteq> Ok reply)
    \<and> (\<forall>now i toks p b. fst (transfer_impl e now i toks p rx') \<noteq> Ok b)"
proof -
  have g: "gossip_impl e idb (Some u) peer rx = (panic, poison rx)"
    using assms(1-4) by (simp add: gossip_impl_def split: prod.split)
  then have "rx_grows (poison rx) rx'" using rx_run_grows assms(5) by simp
  then have p: "rx_wallet_poisoned rx'" by (simp add: rx_grows_def poison_def)
  have "fst (initiate_impl rq q rx') \<noteq> Ok reply" for rq q reply
    using p by (simp add: initiate_impl_def Let_def)
  moreover have "fst (gossip_impl e i v q rx') \<noteq> Ok reply" for i v q reply
    using p by (cases "find_transaction i q rx'") (simp_all add: gossip_impl_def split: prod.split)
  moreover have "fst (transfer_impl e now i toks q rx') \<noteq> Ok b" for now i toks q b
    using p by (cases "find_transaction i q rx'")
      (simp_all add: transfer_impl_def receiver_verify_tokens_def split: prod.split)
  ultimately show ?thesis using g by simp
qed

lemma gossip_without_data_bricks_witness:
  "fst (gossip_impl sample_env [1,0,0,0,0,0,0,0] (Some (sample_epoch\<lparr>eu_data := None\<rparr>)) (Some ''payer'') sample_receiver) = panic"
proof -
  have "find_transaction [1,0,0,0,0,0,0,0] (Some ''payer'') sample_receiver
      = Ok (1, \<lparr>tx_amount = \<lparr>am_whole = 10, am_fractional = 0, am_code = 0\<rparr>, tx_peer = Some ''payer''\<rparr>)"
    by (simp add: find_transaction_def sample_receiver_def tx_id_of_def)
  then show ?thesis
    using gossip_without_data_bricks [of "[1,0,0,0,0,0,0,0]" "Some ''payer''" sample_receiver _ "sample_epoch\<lparr>eu_data := None\<rparr>" sample_env]
    by (auto simp: sample_receiver_def)
qed

text \<open>the id in the reply to an initiation is the one the next call of that peer finds: the new
  transaction is open for the amount of the reply's item, and waits for gossip exactly when the
  peer named no epoch or another one than the wallet's.\<close>

theorem initiate_opens_transaction:
  assumes "initiate_impl rq peer rx = (Ok reply, rx')"
  shows "find_transaction (irp_tx_id reply) peer rx'
      = Ok (rx_next_id rx, \<lparr>tx_amount = rx_next_tx_amount rx, tx_peer = peer\<rparr>)
    \<and> map ti_amount (irp_items reply) = [Some (rx_next_tx_amount rx)]
    \<and> (rx_transactions rx' (rx_next_id rx) = Some (Transact \<lparr>tx_amount = rx_next_tx_amount rx, tx_peer = peer\<rparr>)
        \<longleftrightarrow> (\<exists>d. irq_epoch rq = Some d \<and> ed_epoch d = we_epoch_number (wa_epoch (rx_wallet rx))))
    \<and> rx_wallet rx' = rx_wallet rx"
  using assms
  by (auto simp: initiate_impl_def Let_def find_transaction_Ok_iff tx_id_roundtrip set_transaction_def
      split: if_splits option.splits)

lemma initiate_opens_transaction_witness:
  "\<exists>reply rx'. initiate_impl \<lparr>irq_version = VERSION_CURRENT, irq_epoch = None, irq_epoch_signature = []\<rparr> None sample_receiver
       = (Ok reply, rx') \<and> find_transaction (irp_tx_id reply) None rx'
       = Ok (2, \<lparr>tx_amount = \<lparr>am_whole = 10, am_fractional = 0, am_code = 0\<rparr>, tx_peer = None\<rparr>)"
proof -
  obtain reply rx' where run: "initiate_impl \<lparr>irq_version = VERSION_CURRENT, irq_epoch = None, irq_epoch_signature = []\<rparr> None sample_receiver
       = (Ok reply, rx')"
    by (simp add: initiate_impl_def Let_def set_transaction_def sample_receiver_def sample_wallet_def)
  from initiate_opens_transaction [OF run] have "find_transaction (irp_tx_id reply) None rx'
       = Ok (rx_next_id sample_receiver, \<lparr>tx_amount = rx_next_tx_amount sample_receiver, tx_peer = None\<rparr>)" by simp
  then show ?thesis using run by (simp add: sample_receiver_def)
qed

end
