(* ===== verification/Recovery.thy ===== *)
theory Recovery
  imports WalletProps
begin

section \<open>Recovery of a lost wallet (\<open>recovery/src/server.rs\<close> and the wallet's side)\<close>

text \<open>
  Before a loss a wallet registers a binding between its transfer key and a delegate; after it the
  delegate claims the wallet's expired tokens. \<open>BrioletteRecovery\<close> keeps the bindings in a SQLite
  table keyed by binding id; the \<open>state\<close> column is text. The pool wallet, the cool-off and the
  token map's address are kept but no handler reads them; the \<open>recovery_log\<close> table is never written.
  The wallet's four calls take the server as an argument. Among several bindings of one key that
  are not active, SQLite's choice is taken to be the oldest.
\<close>

record recovery_binding =
  rb_ttc_public_key :: bytes
  rb_delegate_type :: i32
  rb_delegate_key :: bytes
  rb_valid_until :: u64

record binding_row =
  bi_ttc_public_key_hash :: bytes
  bi_ttc_public_key :: bytes
  bi_delegate_type :: i32
  bi_delegate_key :: bytes
  bi_valid_until :: u64
  bi_state :: string
  bi_created_epoch :: u64
  bi_nac_basename :: bytes

record recovery =
  rc_bindings :: "(bytes, binding_row) table"
  rc_wallet :: wallet
  rc_recovery_cooloff_epochs :: u64
  rc_tokenmap_uri :: string

datatype binding_state = BindingUnknown | BindingActive | BindingIsExpired | BindingIsRevoked | BindingConsumed

record recovered_token =
  rt_original_token :: "token option"
  rt_recovered_token :: "token option"

subsection \<open>The server\<close>

text \<open>The set-up asserts each step of preparing the pool wallet; opening the database may fail.\<close>

definition recovery_new ::
  "bool list \<Rightarrow> bool \<Rightarrow> wallet \<Rightarrow> string \<Rightarrow> u64 \<Rightarrow> recovery result" where
  "recovery_new outcomes db_opens w tokenmap_uri cooloff =
     (if \<not> list_all id outcomes then panic
      else if \<not> db_opens then Err ServerDiskError
      else Ok \<lparr>rc_bindings = [], rc_wallet = w, rc_recovery_cooloff_epochs = cooloff, rc_tokenmap_uri = tokenmap_uri\<rparr>)"

text \<open>The id is the hash of the clock in nanoseconds, 16 bytes, and 16 zero bytes.\<close>

definition generate_binding_id :: "env \<Rightarrow> nat \<Rightarrow> bytes" where
  "generate_binding_id e nanos =
     sha256 e (map (\<lambda>i. of_nat (nanos div 256 ^ i)) [0..<16] @ replicate 16 0)"

definition is_active :: "binding_row \<Rightarrow> bool" where
  "is_active r \<longleftrightarrow> bi_state r = ''active''"

definition bindings_of :: "bytes \<Rightarrow> (bytes, binding_row) table \<Rightarrow> (bytes \<times> binding_row) list" where
  "bindings_of h t = filter (\<lambda>kr. bi_ttc_public_key_hash (snd kr) = h) t"

text \<open>\<open>ORDER BY CASE state WHEN 'active' THEN 0 ELSE 1 END LIMIT 1\<close>.\<close>

definition best_binding :: "bytes \<Rightarrow> (bytes, binding_row) table \<Rightarrow> binding_row option" where
  "best_binding h t =
     (case filter (\<lambda>kr. is_active (snd kr)) (bindings_of h t) of
        kr # _ \<Rightarrow> Some (snd kr)
      | [] \<Rightarrow> (case bindings_of h t of [] \<Rightarrow> None | kr # _ \<Rightarrow> Some (snd kr)))"

definition register_binding_impl ::
  "env \<Rightarrow> nat \<Rightarrow> i32 \<Rightarrow> recovery_binding option \<Rightarrow> linkable_signature option \<Rightarrow> recovery
    \<Rightarrow> bytes result \<times> recovery" where
  "register_binding_impl e nanos version binding nac_signature rc =
     (if version \<noteq> VERSION_CURRENT then (Err InvalidVersion, rc)
      else on_ok (ok_or binding InvalidMissingFields, rc) (\<lambda>b rc.
      if rb_ttc_public_key b = [] \<or> rb_delegate_key b = [] then (Err InvalidMissingFields, rc)
      else on_ok (ok_or nac_signature InvalidMissingFields, rc) (\<lambda>ns rc.
      let ttc_hash = sha256 e (rb_ttc_public_key b); binding_id = generate_binding_id e nanos in
      if \<exists>kr \<in> set (bindings_of ttc_hash (rc_bindings rc)). is_active (snd kr) then (Err InvalidMissingFields, rc)
      else if \<not> sql_u64 (rb_valid_until b) then (Err DatabaseInteractionError, rc)
      else case tbl_insert (rc_bindings rc) binding_id
             \<lparr>bi_ttc_public_key_hash = ttc_hash, bi_ttc_public_key = rb_ttc_public_key b,
              bi_delegate_type = rb_delegate_type b, bi_delegate_key = rb_delegate_key b,
              bi_valid_until = rb_valid_until b, bi_state = ''active'', bi_created_epoch = 0,
              bi_nac_basename = ls_basename ns\<rparr> of
        None \<Rightarrow> (Err DatabaseInteractionError, rc)
      | Some t \<Rightarrow> (Ok binding_id, rc\<lparr>rc_bindings := t\<rparr>))))"

text \<open>\<open>UPDATE bindings SET .. WHERE id = ? AND state = 'active'\<close>; no row is the error \<open>BindingNotFound\<close>.\<close>

definition update_active ::
  "bytes \<Rightarrow> (binding_row \<Rightarrow> binding_row) \<Rightarrow> recovery \<Rightarrow> unit result \<times> recovery" where
  "update_active i f rc =
     (case tbl_get (rc_bindings rc) i of
        None \<Rightarrow> (Err BindingNotFound, rc)
      | Some r \<Rightarrow>
          if is_active r then (Ok (), rc\<lparr>rc_bindings := tbl_update (rc_bindings rc) i (f r)\<rparr>)
          else (Err BindingNotFound, rc))"

definition refresh_binding_impl ::
  "i32 \<Rightarrow> bytes \<Rightarrow> u64 \<Rightarrow> linkable_signature option \<Rightarrow> recovery \<Rightarrow> unit result \<times> recovery" where
  "refresh_binding_impl version binding_id new_valid_until nac_signature rc =
     (if version \<noteq> VERSION_CURRENT then (Err InvalidVersion, rc)
      else if binding_id = [] then (Err InvalidMissingFields, rc)
      else on_ok (ok_or nac_signature InvalidMissingFields, rc) (\<lambda>_ rc.
      if \<not> sql_u64 new_valid_until then (Err DatabaseInteractionError, rc)
      else update_active binding_id (\<lambda>r. r\<lparr>bi_valid_until := new_valid_until\<rparr>) rc))"

definition revoke_binding_impl ::
  "i32 \<Rightarrow> bytes \<Rightarrow> linkable_signature option \<Rightarrow> recovery \<Rightarrow> unit result \<times> recovery" where
  "revoke_binding_impl version binding_id nac_signature rc =
     (if version \<noteq> VERSION_CURRENT then (Err InvalidVersion, rc)
      else if binding_id = [] then (Err InvalidMissingFields, rc)
      else on_ok (ok_or nac_signature InvalidMissingFields, rc) (\<lambda>_ rc.
      update_active binding_id (\<lambda>r. r\<lparr>bi_state := ''revoked''\<rparr>) rc))"

text \<open>The tokens found are always the empty list, so no binding is ever marked \<open>consumed\<close>.\<close>

definition recover_tokens_impl ::
  "env \<Rightarrow> i32 \<Rightarrow> bytes \<Rightarrow> bytes \<Rightarrow> u64 \<Rightarrow> signed_ticket option \<Rightarrow> recovery
    \<Rightarrow> (recovered_token list \<times> u32) result \<times> recovery" where
  "recover_tokens_impl e version old_ttc_public_key delegate_proof timestamp new_wallet_ticket rc =
     (if version \<noteq> VERSION_CURRENT then (Err InvalidVersion, rc)
      else if old_ttc_public_key = [] \<or> delegate_proof = [] then (Err InvalidMissingFields, rc)
      else on_ok (ok_or new_wallet_ticket InvalidMissingFields, rc) (\<lambda>_ rc.
      case best_binding (sha256 e old_ttc_public_key) (rc_bindings rc) of
        None \<Rightarrow> (Err BindingNotFound, rc)
      | Some r \<Rightarrow>
          if bi_state r = ''active'' then (Ok ([], 0), rc)
          else if bi_state r = ''expired'' then (Err BindingExpired, rc)
          else if bi_state r = ''revoked'' then (Err BindingRevoked, rc)
          else if bi_state r = ''consumed'' then (Err RecoveryAlreadyClaimed, rc)
          else (Err InvalidServerState, rc)))"

definition binding_state_of :: "string \<Rightarrow> binding_state" where
  "binding_state_of st =
     (if st = ''active'' then BindingActive else if st = ''expired'' then BindingIsExpired
      else if st = ''revoked'' then BindingIsRevoked else if st = ''consumed'' then BindingConsumed
      else BindingUnknown)"

definition get_binding_status_impl ::
  "env \<Rightarrow> i32 \<Rightarrow> bytes \<Rightarrow> recovery \<Rightarrow> (binding_state \<times> u64) result" where
  "get_binding_status_impl e version ttc_public_key rc =
     (if version \<noteq> VERSION_CURRENT then Err InvalidVersion
      else if ttc_public_key = [] then Err InvalidMissingFields
      else case best_binding (sha256 e ttc_public_key) (rc_bindings rc) of
        None \<Rightarrow> Ok (BindingUnknown, 0)
      | Some r \<Rightarrow> Ok (binding_state_of (bi_state r), bi_valid_until r))"

subsection \<open>The wallet's calls\<close>

text \<open>A reply carries an optional error next to its value; every failure of the call is reported as
  \<open>InvalidMissingFields\<close>.\<close>

definition recovery_reply :: "('a \<times> error_code option) rpc \<Rightarrow> 'a result" where
  "recovery_reply r =
     (case r of Reply (x, None) \<Rightarrow> Ok x | _ \<Rightarrow> Err InvalidMissingFields)"

definition recovery_signature ::
  "env \<Rightarrow> nat \<Rightarrow> wallet \<Rightarrow> bytes \<Rightarrow> bytes \<Rightarrow> bytes option result" where
  "recovery_signature e draw w message credential =
     sign_or_split e draw (wa_nac_card w) (cr_host_secret_key (wa_network_credential w)) message credential
       (cr_secret_key (wa_network_credential w)) (Some (u64_to_le_bytes (we_epoch_number (wa_epoch w)))) True"

definition linkable :: "wallet \<Rightarrow> bytes \<Rightarrow> linkable_signature" where
  "linkable w sig = \<lparr>ls_signature = sig, ls_basename = u64_to_le_bytes (we_epoch_number (wa_epoch w)),
     ls_group_public_key = (case cr_group_public_key (wa_network_credential w) of None \<Rightarrow> [] | Some g \<Rightarrow> g)\<rparr>"

definition register_recovery_binding ::
  "env \<Rightarrow> (recovery_binding \<Rightarrow> bytes) \<Rightarrow> nat \<Rightarrow> bytes \<Rightarrow> i32 \<Rightarrow> u64
    \<Rightarrow> (recovery_binding \<Rightarrow> linkable_signature \<Rightarrow> (bytes \<times> error_code option) rpc) \<Rightarrow> wallet \<Rightarrow> bytes result" where
  "register_recovery_binding e enc_binding draw delegate_key delegate_type valid_until server w =
     (let binding = \<lparr>rb_ttc_public_key = cr_public_key (wa_transfer_credential w), rb_delegate_type = delegate_type,
            rb_delegate_key = delegate_key, rb_valid_until = valid_until\<rparr> in
      case cr_credential (wa_network_credential w) of
        None \<Rightarrow> Err InvalidMissingFields
      | Some credential \<Rightarrow>
          and_then (recovery_signature e draw w (enc_binding binding) credential) (\<lambda>signed.
          case signed of
            None \<Rightarrow> Err FailedToSignTokenTransfer
          | Some sig \<Rightarrow>
              if sig = [] then Err FailedToSignTokenTransfer
              else recovery_reply (server binding (linkable w sig))))"

text \<open>Refreshing and revoking ignore whether the signature succeeded: its buffer stays empty.\<close>

definition refresh_recovery_binding ::
  "env \<Rightarrow> nat \<Rightarrow> bytes \<Rightarrow> u64 \<Rightarrow> (bytes \<Rightarrow> u64 \<Rightarrow> linkable_signature \<Rightarrow> (unit \<times> error_code option) rpc)
    \<Rightarrow> wallet \<Rightarrow> unit result" where
  "refresh_recovery_binding e draw binding_id new_valid_until server w =
     (case cr_credential (wa_network_credential w) of
        None \<Rightarrow> Err InvalidMissingFields
      | Some credential \<Rightarrow>
          and_then (recovery_signature e draw w binding_id credential) (\<lambda>signed.
          recovery_reply (server binding_id new_valid_until
            (linkable w (case signed of None \<Rightarrow> [] | Some sig \<Rightarrow> sig)))))"

definition revoke_recovery_binding ::
  "env \<Rightarrow> nat \<Rightarrow> bytes \<Rightarrow> (bytes \<Rightarrow> linkable_signature \<Rightarrow> (unit \<times> error_code option) rpc) \<Rightarrow> wallet
    \<Rightarrow> unit result" where
  "revoke_recovery_binding e draw binding_id server w =
     (case cr_credential (wa_network_credential w) of
        None \<Rightarrow> Err InvalidMissingFields
      | Some credential \<Rightarrow>
          and_then (recovery_signature e draw w binding_id credential) (\<lambda>signed.
          recovery_reply (server binding_id (linkable w (case signed of None \<Rightarrow> [] | Some sig \<Rightarrow> sig)))))"

definition initiate_recovery ::
  "env \<Rightarrow> u64 \<Rightarrow> bytes \<Rightarrow> bytes
    \<Rightarrow> (bytes \<Rightarrow> bytes \<Rightarrow> u64 \<Rightarrow> signed_ticket \<Rightarrow> ((recovered_token list \<times> u32) \<times> error_code option) rpc)
    \<Rightarrow> wallet \<Rightarrow> token list result \<times> wallet" where
  "initiate_recovery e now old_ttc_public_key delegate_proof server w =
     (if wa_tickets w = [] then (Err InvalidMissingFields, w)
      else on_ok (recovery_reply (server old_ttc_public_key delegate_proof now
                    (signed_ticket_of (hd (wa_tickets w)))), w) (\<lambda>(found, pending) w.
      let recovered = List.map_filter rt_recovered_token found in
      on_ok (import_tokens e recovered w) (\<lambda>_ w. (Ok recovered, w))))"

subsection \<open>The table of bindings\<close>

text \<open>Ids are distinct, a key has at most one active binding, and every binding is active or revoked: no
  handler expires or consumes one.\<close>

definition one_active :: "(bytes, binding_row) table \<Rightarrow> bool" where
  "one_active t \<longleftrightarrow> (\<forall>k r k' r'. tbl_get t k = Some r \<and> tbl_get t k' = Some r' \<and> is_active r \<and> is_active r'
     \<and> bi_ttc_public_key_hash r = bi_ttc_public_key_hash r' \<longrightarrow> k = k')"

definition recovery_inv :: "recovery \<Rightarrow> bool" where
  "recovery_inv rc \<longleftrightarrow> tbl_wf (rc_bindings rc) \<and> one_active (rc_bindings rc)
     \<and> (\<forall>k r. tbl_get (rc_bindings rc) k = Some r \<longrightarrow> bi_state r = ''active'' \<or> bi_state r = ''revoked'')"

inductive recovery_step :: "env \<Rightarrow> recovery \<Rightarrow> recovery \<Rightarrow> bool" for e where
  register: "recovery_step e rc (snd (register_binding_impl e nanos v b ns rc))"
| refresh: "recovery_step e rc (snd (refresh_binding_impl v i until ns rc))"
| revoke: "recovery_step e rc (snd (revoke_binding_impl v i ns rc))"
| recover: "recovery_step e rc (snd (recover_tokens_impl e v k p ts st rc))"

lemma bindings_of_mem:
  assumes "tbl_wf t"
  shows "(k, r) \<in> set (bindings_of h t) \<longleftrightarrow> tbl_get t k = Some r \<and> bi_ttc_public_key_hash r = h"
  by (auto simp: bindings_of_def dest: tbl_mem_get [OF assms] tbl_get_mem)

lemma best_binding_active:
  assumes inv: "recovery_inv rc" and row: "tbl_get (rc_bindings rc) k = Some r" "is_active r"
  shows "best_binding (bi_ttc_public_key_hash r) (rc_bindings rc) = Some r"
proof -
  let ?h = "bi_ttc_public_key_hash r" and ?t = "rc_bindings rc"
  have wf: "tbl_wf ?t" using inv by (simp add: recovery_inv_def)
  let ?act = "filter (\<lambda>kr. is_active (snd kr)) (bindings_of ?h ?t)"
  have mem: "(k, r) \<in> set ?act" using row wf by (simp add: bindings_of_mem)
  have "kr = (k, r)" if "kr \<in> set ?act" for kr
  proof (cases kr)
    case (Pair k' r')
    then have "tbl_get ?t k' = Some r'" "bi_ttc_public_key_hash r' = ?h" "is_active r'"
      using that wf by (auto simp: bindings_of_mem)
    then show ?thesis
      using inv row Pair unfolding recovery_inv_def one_active_def by (metis option.inject)
  qed
  moreover obtain kr krs where act: "?act = kr # krs" using mem by (cases ?act) auto
  ultimately have "kr = (k, r)" by simp
  then show ?thesis using act by (simp add: best_binding_def)
qed

lemma best_binding_Some:
  assumes "best_binding h t = Some r" "tbl_wf t"
  shows "\<exists>k. tbl_get t k = Some r \<and> bi_ttc_public_key_hash r = h"
proof -
  have "\<exists>k. (k, r) \<in> set (bindings_of h t)"
  proof (cases "filter (\<lambda>kr. is_active (snd kr)) (bindings_of h t)")
    case Nil
    then show ?thesis using assms(1) by (cases "bindings_of h t") (auto simp: best_binding_def)
  next
    case (Cons kr krs)
    then have "kr \<in> set (filter (\<lambda>kr. is_active (snd kr)) (bindings_of h t))" by simp
    then have "kr \<in> set (bindings_of h t)" by simp
    moreover have "(fst kr, r) = kr" using assms(1) Cons by (simp add: best_binding_def prod_eq_iff)
    ultimately show ?thesis by metis
  qed
  then show ?thesis using assms(2) by (auto simp: bindings_of_mem)
qed

lemma best_binding_inactive:
  assumes "recovery_inv rc" "best_binding h (rc_bindings rc) = Some r" "\<not> is_active r"
  shows "bi_state r = ''revoked'' \<and> (\<forall>k r'. tbl_get (rc_bindings rc) k = Some r' \<and> bi_ttc_public_key_hash r' = h \<longrightarrow> \<not> is_active r')"
proof -
  have wf: "tbl_wf (rc_bindings rc)" using assms(1) by (simp add: recovery_inv_def)
  have "\<not> is_active r'" if "tbl_get (rc_bindings rc) k = Some r'" "bi_ttc_public_key_hash r' = h" for k r'
    using best_binding_active [OF assms(1) that(1)] that(2) assms(2,3) by auto
  then show ?thesis
    using best_binding_Some [OF assms(2) wf] assms(1,3) by (auto simp: recovery_inv_def is_active_def)
qed

lemma update_active_inv:
  assumes inv: "recovery_inv rc"
    and keys: "\<And>r. bi_ttc_public_key_hash (f r) = bi_ttc_public_key_hash r"
    and states: "\<And>r. is_active r \<Longrightarrow> bi_state (f r) = ''active'' \<or> bi_state (f r) = ''revoked''"
  shows "recovery_inv (snd (update_active i f rc))"
proof (cases "tbl_get (rc_bindings rc) i")
  case (Some r)
  show ?thesis
  proof (cases "is_active r")
    case True
    let ?t = "tbl_update (rc_bindings rc) i (f r)"
    have old: "one_active (rc_bindings rc)" using inv by (simp add: recovery_inv_def)
    have get: "tbl_get ?t k = (if k = i then Some (f r) else tbl_get (rc_bindings rc) k)" for k
      using Some by (simp add: tbl.upd_get)
    have "one_active ?t"
      using old Some True keys unfolding one_active_def get
      by (smt (verit) option.inject)
    then show ?thesis
      using inv Some True states [OF True] by (auto simp: update_active_def recovery_inv_def tbl.upd_wf get)
  qed (use inv Some in \<open>simp add: update_active_def\<close>)
qed (use inv in \<open>simp add: update_active_def\<close>)

lemma register_binding_impl_Ok:
  "register_binding_impl e nanos version binding nac_signature rc = (Ok i, rc') \<longleftrightarrow>
     version = VERSION_CURRENT \<and> i = generate_binding_id e nanos
     \<and> (\<exists>b ns t. binding = Some b \<and> nac_signature = Some ns \<and> rb_ttc_public_key b \<noteq> [] \<and> rb_delegate_key b \<noteq> []
        \<and> (\<forall>kr \<in> set (bindings_of (sha256 e (rb_ttc_public_key b)) (rc_bindings rc)). \<not> is_active (snd kr))
        \<and> sql_u64 (rb_valid_until b)
        \<and> tbl_insert (rc_bindings rc) i \<lparr>bi_ttc_public_key_hash = sha256 e (rb_ttc_public_key b),
             bi_ttc_public_key = rb_ttc_public_key b, bi_delegate_type = rb_delegate_type b,
             bi_delegate_key = rb_delegate_key b, bi_valid_until = rb_valid_until b, bi_state = ''active'',
             bi_created_epoch = 0, bi_nac_basename = ls_basename ns\<rparr> = Some t
        \<and> rc' = rc\<lparr>rc_bindings := t\<rparr>)"
  by (cases binding; cases nac_signature) (auto simp: register_binding_impl_def Let_def split: option.split)

lemma register_binding_impl_Inl:
  "register_binding_impl e nanos version binding nac_signature rc = (Inl f, rc') \<Longrightarrow> rc' = rc"
  by (cases binding; cases nac_signature)
    (auto simp: register_binding_impl_def Let_def split: option.splits if_splits)

lemma register_inv:
  assumes inv: "recovery_inv rc"
  shows "recovery_inv (snd (register_binding_impl e nanos v b ns rc))"
proof (cases "register_binding_impl e nanos v b ns rc")
  case (Pair res rc')
  show ?thesis
  proof (cases res)
    case (Inl f)
    then have "rc' = rc" using Pair register_binding_impl_Inl by blast
    then show ?thesis using Pair inv by simp
  next
    case (Inr i)
    obtain b' :: recovery_binding and ns' :: linkable_signature and t where free: "\<forall>kr \<in> set (bindings_of (sha256 e (rb_ttc_public_key b')) (rc_bindings rc)). \<not> is_active (snd kr)"
        and ins': "tbl_insert (rc_bindings rc) i \<lparr>bi_ttc_public_key_hash = sha256 e (rb_ttc_public_key b'),
             bi_ttc_public_key = rb_ttc_public_key b', bi_delegate_type = rb_delegate_type b',
             bi_delegate_key = rb_delegate_key b', bi_valid_until = rb_valid_until b', bi_state = ''active'',
             bi_created_epoch = 0, bi_nac_basename = ls_basename ns'\<rparr> = Some t" (is "tbl_insert _ _ ?row = _")
        and rc': "rc' = rc\<lparr>rc_bindings := t\<rparr>"
      using Pair Inr by (auto simp: register_binding_impl_Ok)
    define h row where "h = sha256 e (rb_ttc_public_key b')" and "row = ?row"
    then have free: "\<forall>kr \<in> set (bindings_of h (rc_bindings rc)). \<not> is_active (snd kr)"
        and row: "bi_ttc_public_key_hash row = h" "bi_state row = ''active''"
        and ins: "tbl_insert (rc_bindings rc) i row = Some t"
      using free ins' by simp_all
    have wf: "tbl_wf (rc_bindings rc)" and old: "one_active (rc_bindings rc)"
      using inv by (simp_all add: recovery_inv_def)
    have get: "tbl_get t k = (if k = i then Some row else tbl_get (rc_bindings rc) k)" for k
      by (rule tbl.ins_get [OF ins])
    have inactive: "\<not> is_active r" if "tbl_get (rc_bindings rc) k = Some r" "bi_ttc_public_key_hash r = h" for k r
      using free that wf by (metis bindings_of_mem snd_conv)
    have "k = k'" if "tbl_get t k = Some r" "tbl_get t k' = Some r'" "is_active r" "is_active r'"
      "bi_ttc_public_key_hash r = bi_ttc_public_key_hash r'" for k k' r r'
    proof (cases "k = i \<or> k' = i")
      case True
      then show ?thesis
        using that inactive [of k r] inactive [of k' r'] row(1) by (auto simp: get split: if_splits)
    next
      case False
      then show ?thesis using that old unfolding one_active_def get by simp
    qed
    then have "one_active t" unfolding one_active_def by blast
    then show ?thesis
      using inv Pair rc' row tbl.ins_wf [OF wf ins] by (auto simp: recovery_inv_def get)
  qed
qed

lemma recovery_step_inv: "recovery_step e rc rc' \<Longrightarrow> recovery_inv rc \<Longrightarrow> recovery_inv rc'"
proof (induction rule: recovery_step.induct)
  case (refresh rc v i until ns)
  then show ?case
    by (cases ns) (auto simp: refresh_binding_impl_def is_active_def intro!: update_active_inv)
next
  case (revoke rc v i ns)
  then show ?case
    by (cases ns) (auto simp: revoke_binding_impl_def intro!: update_active_inv)
next
  case (recover rc v k p ts st)
  then show ?case by (cases st) (simp_all add: recover_tokens_impl_def split: option.split)
qed (rule register_inv)

lemma recovery_run_inv: "(recovery_step e)\<^sup>*\<^sup>* rc rc' \<Longrightarrow> recovery_inv rc \<Longrightarrow> recovery_inv rc'"
  by (induction rule: rtranclp_induct) (auto dest: recovery_step_inv)

text \<open>C14: in every state the recovery server reaches, binding ids are distinct, each transfer key has at
  most one active binding, and every binding is active or revoked: none ever becomes expired or
  consumed, so the errors \<open>BindingExpired\<close> and \<open>RecoveryAlreadyClaimed\<close> cannot occur.\<close>

theorem recovery_reachable_inv:
  assumes "recovery_new outcomes db_opens w uri cooloff = Ok rc0" "(recovery_step e)\<^sup>*\<^sup>* rc0 rc"
  shows "recovery_inv rc
    \<and> fst (recover_tokens_impl e v k p ts st rc) \<noteq> Err BindingExpired
    \<and> fst (recover_tokens_impl e v k p ts st rc) \<noteq> Err RecoveryAlreadyClaimed"
proof -
  have "recovery_inv rc0"
    using assms(1) by (auto simp: recovery_new_def recovery_inv_def one_active_def split: if_splits)
  then have inv: "recovery_inv rc" using recovery_run_inv assms(2) by blast
  have "bi_state r = ''active'' \<or> bi_state r = ''revoked''" if "best_binding h (rc_bindings rc) = Some r" for h r
    using best_binding_Some [OF that] inv by (auto simp: recovery_inv_def)
  then have "bi_state r \<noteq> ''expired'' \<and> bi_state r \<noteq> ''consumed''" if "best_binding h (rc_bindings rc) = Some r" for h r
    using that by fastforce
  then show ?thesis
    using inv by (cases st) (auto simp: recover_tokens_impl_def split: option.split)
qed

lemma recovery_reachable_inv_witness:
  "recovery_inv (snd (register_binding_impl sample_env 7 VERSION_CURRENT
     (Some \<lparr>rb_ttc_public_key = [1], rb_delegate_type = 0, rb_delegate_key = [2], rb_valid_until = 9\<rparr>)
     (Some \<lparr>ls_signature = [], ls_basename = [], ls_group_public_key = []\<rparr>)
     \<lparr>rc_bindings = [], rc_wallet = sample_wallet, rc_recovery_cooloff_epochs = 3, rc_tokenmap_uri = []\<rparr>))"
  using recovery_reachable_inv [of "[True]" True sample_wallet "[]" 3 _ sample_env]
  by (simp add: recovery_new_def r_into_rtranclp recovery_step.register)

text \<open>recovering is answered with success exactly when the key has an active binding: the proof need
  only be non-empty, the binding's \<open>valid_until\<close> and the timestamp are not looked at, the list of
  recovered tokens is empty and the binding stays as it was.\<close>

theorem recover_tokens_outcome:
  assumes "recovery_inv rc"
  shows "snd (recover_tokens_impl e v k proof ts st rc) = rc
    \<and> (fst (recover_tokens_impl e v k proof ts st rc) = Ok reply \<longleftrightarrow>
        reply = ([], 0) \<and> v = VERSION_CURRENT \<and> k \<noteq> [] \<and> proof \<noteq> [] \<and> st \<noteq> None
        \<and> (\<exists>i r. tbl_get (rc_bindings rc) i = Some r \<and> bi_ttc_public_key_hash r = sha256 e k \<and> is_active r))"
proof -
  have "(\<exists>r. best_binding (sha256 e k) (rc_bindings rc) = Some r \<and> bi_state r = ''active'') \<longleftrightarrow>
      (\<exists>i r. tbl_get (rc_bindings rc) i = Some r \<and> bi_ttc_public_key_hash r = sha256 e k \<and> is_active r)"
    using best_binding_active [OF assms] best_binding_Some [of "sha256 e k" "rc_bindings rc"] assms
    by (fastforce simp: is_active_def recovery_inv_def)
  then show ?thesis
    by (cases st) (auto simp: recover_tokens_impl_def split: option.split)
qed

text \<open>a binding can be revoked by anyone who knows its id, with any signature; from then on recovery
  for its key fails with \<open>BindingRevoked\<close>, and the key can be bound again, to another delegate.\<close>

theorem revoke_then_rebind:
  assumes "recovery_inv rc" "tbl_get (rc_bindings rc) i = Some r" "is_active r" "i \<noteq> []"
    and "bi_ttc_public_key_hash r = sha256 e k" "k \<noteq> []" "proof \<noteq> []"
  shows "\<exists>rc1. revoke_binding_impl VERSION_CURRENT i (Some any_signature) rc = (Ok (), rc1)
    \<and> fst (recover_tokens_impl e VERSION_CURRENT k proof ts (Some st) rc1) = Err BindingRevoked
    \<and> (tbl_get (rc_bindings rc) (generate_binding_id e nanos) = None \<and> sql_u64 until \<and> delegate \<noteq> [] \<longrightarrow>
        fst (register_binding_impl e nanos VERSION_CURRENT
          (Some \<lparr>rb_ttc_public_key = k, rb_delegate_type = dt, rb_delegate_key = delegate, rb_valid_until = until\<rparr>)
          (Some any_signature) rc1) = Ok (generate_binding_id e nanos))"
proof -
  define rc1 where "rc1 = rc\<lparr>rc_bindings := tbl_update (rc_bindings rc) i (r\<lparr>bi_state := ''revoked''\<rparr>)\<rparr>"
  have run: "revoke_binding_impl VERSION_CURRENT i (Some any_signature) rc = (Ok (), rc1)"
    using assms by (simp add: revoke_binding_impl_def update_active_def rc1_def)
  have inv1: "recovery_inv rc1"
    using recovery_step_inv [OF recovery_step.revoke [of e rc VERSION_CURRENT i "Some any_signature"] assms(1)] run by simp
  have get: "tbl_get (rc_bindings rc1) j = (if j = i then Some (r\<lparr>bi_state := ''revoked''\<rparr>) else tbl_get (rc_bindings rc) j)" for j
    using assms(2) by (simp add: rc1_def tbl.upd_get)
  have none: "\<not> is_active r'" if "tbl_get (rc_bindings rc1) j = Some r'" "bi_ttc_public_key_hash r' = sha256 e k" for j r'
    using that assms(1-3,5) unfolding get recovery_inv_def one_active_def
    by (cases "j = i") (auto simp: is_active_def)
  have mem: "(i, r\<lparr>bi_state := ''revoked''\<rparr>) \<in> set (bindings_of (sha256 e k) (rc_bindings rc1))"
    using inv1 assms(5) by (subst bindings_of_mem) (simp_all add: get recovery_inv_def)
  have inactive: "\<forall>kr \<in> set (bindings_of (sha256 e k) (rc_bindings rc1)). \<not> is_active (snd kr)"
    using none inv1 bindings_of_mem by (fastforce simp: recovery_inv_def)
  then have empty: "filter (\<lambda>kr. is_active (snd kr)) (bindings_of (sha256 e k) (rc_bindings rc1)) = []"
    by (simp add: filter_empty_conv)
  obtain r1 where best: "best_binding (sha256 e k) (rc_bindings rc1) = Some r1"
    using mem empty by (cases "bindings_of (sha256 e k) (rc_bindings rc1)") (auto simp: best_binding_def)
  have "bi_state r1 = ''revoked''"
    using best_binding_Some [OF best] inv1 none
    by (auto simp: recovery_inv_def is_active_def)
  then have "fst (recover_tokens_impl e VERSION_CURRENT k proof ts (Some st) rc1) = Err BindingRevoked"
    using best assms(6,7) by (simp add: recover_tokens_impl_def)
  moreover have "tbl_insert (rc_bindings rc1) (generate_binding_id e nanos) row = None \<longleftrightarrow>
      tbl_get (rc_bindings rc) (generate_binding_id e nanos) \<noteq> None" for row
    using assms(2) by (simp add: tbl.ins_refused get)
  ultimately show ?thesis
    using run inactive assms(6) by (auto simp: register_binding_impl_def Let_def split: option.split)
qed


text \<open>A server with one active binding of the key \<open>[1]\<close>, under an environment whose hash keeps its input's first 32 bytes.\<close>

definition sample_hash_env :: env where
  "sample_hash_env = sample_env\<lparr>sha256 := (\<lambda>m. take 32 (m @ replicate 32 0))\<rparr>"

definition sample_binding :: binding_row where
  "sample_binding = \<lparr>bi_ttc_public_key_hash = sha256 sample_hash_env [1], bi_ttc_public_key = [1], bi_delegate_type = 0,
     bi_delegate_key = [2], bi_valid_until = 9, bi_state = ''active'', bi_created_epoch = 0, bi_nac_basename = []\<rparr>"

definition sample_recovery :: recovery where
  "sample_recovery = \<lparr>rc_bindings = [([5], sample_binding)], rc_wallet = sample_wallet, rc_recovery_cooloff_epochs = 3,
     rc_tokenmap_uri = []\<rparr>"

lemma sample_recovery_inv: "recovery_inv sample_recovery"
  by (auto simp: recovery_inv_def sample_recovery_def sample_binding_def tbl_wf_def one_active_def tbl_get_def
      split: if_splits)

lemma recover_tokens_outcome_witness:
  "fst (recover_tokens_impl sample_hash_env VERSION_CURRENT [1] [66] 1000000 (Some (sample_ticket 2 1000)) sample_recovery)
     = Ok ([], 0)"
  using recover_tokens_outcome [OF sample_recovery_inv, of sample_hash_env VERSION_CURRENT "[1]" "[66]" 1000000
      "Some (sample_ticket 2 1000)" "([], 0)"]
  by (auto simp: sample_recovery_def sample_binding_def is_active_def tbl_get_def)

lemma revoke_then_rebind_witness:
  "\<exists>rc1. revoke_binding_impl VERSION_CURRENT [5] (Some \<lparr>ls_signature = [], ls_basename = [], ls_group_public_key = []\<rparr>)
       sample_recovery = (Ok (), rc1)
     \<and> fst (register_binding_impl sample_hash_env 7 VERSION_CURRENT
         (Some \<lparr>rb_ttc_public_key = [1], rb_delegate_type = 0, rb_delegate_key = [66], rb_valid_until = 9\<rparr>)
         (Some \<lparr>ls_signature = [], ls_basename = [], ls_group_public_key = []\<rparr>) rc1)
       = Ok (generate_binding_id sample_hash_env 7)"
proof -
  have row: "tbl_get (rc_bindings sample_recovery) [5] = Some sample_binding" "is_active sample_binding"
    "bi_ttc_public_key_hash sample_binding = sha256 sample_hash_env [1]"
    by (simp_all add: sample_recovery_def sample_binding_def is_active_def tbl_get_def)
  have "length (generate_binding_id sample_hash_env 7) = 32"
    by (simp add: generate_binding_id_def sample_hash_env_def)
  then have "generate_binding_id sample_hash_env 7 \<noteq> [5]" by auto
  then have "tbl_get (rc_bindings sample_recovery) (generate_binding_id sample_hash_env 7) = None"
    by (simp add: sample_recovery_def tbl_get_def)
  then show ?thesis
    using revoke_then_rebind [OF sample_recovery_inv row(1,2) _ row(3), of "[66]"
        "\<lparr>ls_signature = [], ls_basename = [], ls_group_public_key = []\<rparr>" 0 "sample_ticket 2 1000" 7 9 "[66]" 0]
    by (auto simp: sql_u64_def)
qed

subsection \<open>The wallet and the server together\<close>

text \<open>The server as the wallet reaches it: an error status is \<open>Rpc_Error\<close>; the error field stays unset.\<close>

definition recovery_rpc :: "'a result \<Rightarrow> ('a \<times> error_code option) rpc" where
  "recovery_rpc r = (case r of Inr x \<Rightarrow> Reply (x, None) | Inl f \<Rightarrow> Rpc_Error)"

lemma recovery_reply_rpc [simp]:
  "recovery_reply (recovery_rpc (Inr x)) = Ok x" "recovery_reply (recovery_rpc (Inl f)) = Err InvalidMissingFields"
  by (simp_all add: recovery_reply_def recovery_rpc_def)

text \<open>a delegate's wallet that claims a lost wallet's tokens from this server never receives any: the
  claim fails or reports success with an empty list, and the wallet is as before.\<close>

theorem recovery_returns_nothing:
  assumes "recovery_inv rc"
    and "initiate_recovery e now k proof
      (\<lambda>k p ts st. recovery_rpc (fst (recover_tokens_impl e VERSION_CURRENT k p ts (Some st) rc))) w = (res, w')"
  shows "w' = w \<and> (res = Ok [] \<or> res = Err InvalidMissingFields)"
proof (cases "fst (recover_tokens_impl e VERSION_CURRENT k proof now (Some (signed_ticket_of (hd (wa_tickets w)))) rc)")
  case (Inl f)
  then show ?thesis using assms(2) by (auto simp: initiate_recovery_def split: if_splits)
next
  case (Inr reply)
  then have "reply = ([], 0)"
    using assms(1) by (cases "best_binding (sha256 e k) (rc_bindings rc)") (auto simp: recover_tokens_impl_def split: if_splits)
  then show ?thesis using assms(2) Inr by (auto simp: initiate_recovery_def map_filter_def split: if_splits)
qed

lemma recovery_returns_nothing_witness:
  "initiate_recovery sample_hash_env 5 [1] [66]
      (\<lambda>k p ts st. recovery_rpc (fst (recover_tokens_impl sample_hash_env VERSION_CURRENT k p ts (Some st) sample_recovery)))
      sample_wallet = (Err InvalidMissingFields, sample_wallet)"
proof -
  obtain res w' where run: "initiate_recovery sample_hash_env 5 [1] [66]
      (\<lambda>k p ts st. recovery_rpc (fst (recover_tokens_impl sample_hash_env VERSION_CURRENT k p ts (Some st) sample_recovery)))
      sample_wallet = (res, w')" by fastforce
  then have "res = Err InvalidMissingFields" by (simp add: initiate_recovery_def sample_wallet_def)
  then show ?thesis using recovery_returns_nothing [OF sample_recovery_inv run] run by simp
qed

end
