(* ===== verification/Swapper.thy ===== *)
theory Swapper
  imports WalletProps
begin

section \<open>The swap server (\<open>swapper/src/server.rs\<close>)\<close>

text \<open>
  \<open>BrioletteSwapper\<close> takes tokens that were transferred to its ticket and answers with tokens from
  its own wallet; it also signs the basenames a card's bloom filter refused. The wallet sits behind
  a lock that a panic under the write guard poisons. \<open>auth_create\<close> stands for
  \<open>split::swap_auth_create\<close>; \<open>validate\<close> for the validation service.
\<close>

record swapper =
  sw_ticket :: signed_ticket
  sw_wallet :: wallet
  sw_wallet_poisoned :: bool
  sw_swap_sk :: bytes
  sw_swap_pk :: bytes

text \<open>The set-up asserts each step of preparing the wallet.\<close>

definition swapper_new :: "bool list \<Rightarrow> bytes \<times> bytes \<Rightarrow> wallet \<Rightarrow> swapper result" where
  "swapper_new outcomes keypair w =
     (if \<not> list_all id outcomes \<or> wa_tickets w = [] then panic
      else Ok \<lparr>sw_ticket = signed_ticket_of (hd (wa_tickets w)), sw_wallet = w, sw_wallet_poisoned = False,
              sw_swap_sk = fst keypair, sw_swap_pk = snd keypair\<rparr>)"

definition get_destination_impl :: "swapper \<Rightarrow> signed_ticket option" where
  "get_destination_impl sw = Some (sw_ticket sw)"

definition authorize_swap_impl ::
  "(bytes \<Rightarrow> bytes \<Rightarrow> bytes \<Rightarrow> swap_authorization option) \<Rightarrow> swapper \<Rightarrow> i32 \<Rightarrow> bytes \<Rightarrow> swap_authorization result" where
  "authorize_swap_impl auth_create sw version basename =
     (if version \<noteq> VERSION_CURRENT then Err InvalidVersion
      else if basename = [] then Err InvalidMissingFields
      else ok_or (auth_create (sw_swap_sk sw) (sw_swap_pk sw) basename) InvalidSignature)"

definition poison_swapper :: "swapper \<Rightarrow> swapper" where
  "poison_swapper sw = sw\<lparr>sw_wallet_poisoned := True\<rparr>"

text \<open>Whom the replacement goes to: with more than one history entry, the last entry's recipient.\<close>

definition swap_sender :: "token \<Rightarrow> signed_ticket result" where
  "swap_sender tok =
     (if length (tok_history tok) > 1 then and_then (unwrap (last_opt (tok_history tok))) recipient_ticket
      else and_then (unwrap (tok_base tok)) recipient_ticket)"

definition swap_destination :: "token \<Rightarrow> signed_ticket result" where
  "swap_destination tok = and_then (unwrap (last_opt (tok_history tok))) recipient_ticket"

definition token_whole :: "token \<Rightarrow> u32 result" where
  "token_whole tok = and_then (unwrap (tok_descriptor tok)) (\<lambda>d. and_then (unwrap (ds_value d)) (\<lambda>v. Ok (am_whole v)))"

text \<open>One token: our ticket's tokens are replaced by a transfer of \<open>whole\<close> tokens of the wallet, of which
  the last is returned.\<close>

definition swap_one :: "env \<Rightarrow> nat \<Rightarrow> token \<Rightarrow> swapper \<Rightarrow> token list result \<times> swapper" where
  "swap_one e draw tok sw =
     on_ok (swap_sender tok, sw) (\<lambda>sender sw.
     on_ok (swap_destination tok, sw) (\<lambda>dest sw.
     on_ok (unwrap (st_ticket dest), sw) (\<lambda>dest_ticket sw.
     on_ok (unwrap (st_ticket (sw_ticket sw)), sw) (\<lambda>own_ticket sw.
     if tk_credential dest_ticket \<noteq> tk_credential own_ticket then (Ok [], sw)
     else if sw_wallet_poisoned sw then (panic, sw)
     else case token_whole tok of
       Inl f \<Rightarrow> (Inl f, poison_swapper sw)
     | Inr whole \<Rightarrow>
         (case wallet_transfer e draw whole (enc_signed_ticket e sender) (sw_wallet sw) of
            (Inl f, w) \<Rightarrow> (Inl f, poison_swapper (sw\<lparr>sw_wallet := w\<rparr>))
          | (Inr False, w) \<Rightarrow> (Ok [], sw\<lparr>sw_wallet := w\<rparr>)
          | (Inr True, w) \<Rightarrow>
              (case last_opt (wa_pending_tokens w) of
                 None \<Rightarrow> (panic, poison_swapper (sw\<lparr>sw_wallet := w\<rparr>))
               | Some pending \<Rightarrow>
                   let sw1 = sw\<lparr>sw_wallet := w\<lparr>wa_pending_tokens := butlast (wa_pending_tokens w)\<rparr>\<rparr> in
                   on_ok (unwrap (dec_token e pending), sw1) (\<lambda>replacement sw1. (Ok [replacement], sw1))))))))"

text \<open>Draws: a transfer of \<open>n\<close> tokens takes at most \<open>n\<close>, so \<open>2 ^ 32\<close> are set aside for each.\<close>

fun swap_each :: "env \<Rightarrow> nat \<Rightarrow> token list \<Rightarrow> token list \<Rightarrow> swapper \<Rightarrow> token list result \<times> swapper" where
  "swap_each e draw [] acc sw = (Ok acc, sw)"
| "swap_each e draw (tok # toks) acc sw =
     on_ok (swap_one e draw tok sw) (\<lambda>new sw. swap_each e (draw + 2 ^ 32) toks (acc @ new) sw)"

definition swap_tokens_impl ::
  "env \<Rightarrow> (token list \<Rightarrow> bool list rpc) \<Rightarrow> nat \<Rightarrow> i32 \<Rightarrow> token list \<Rightarrow> swapper \<Rightarrow> token list result \<times> swapper" where
  "swap_tokens_impl e validate draw version tokens sw =
     (if version \<noteq> VERSION_CURRENT then (Err InvalidVersion, sw)
      else if tokens = [] then (Err InvalidMissingFields, sw)
      else if sw_wallet_poisoned sw then (panic, sw)
      else if wallet_validate_tokens validate tokens then swap_each e draw tokens [] sw
      else (Ok [], sw))"

subsection \<open>What a swap costs and whom it pays\<close>

lemma wallet_transfer_pending:
  assumes "wallet_transfer e draw amt recipient w = (Ok True, w')" "dec_signed_ticket e recipient = Some dest"
  shows "\<exists>sent. wa_pending_tokens w' = wa_pending_tokens w @ sent \<and> length sent = unat amt
    \<and> length (wa_tokens w') = length (wa_tokens w) - Suc (unat amt)"
  using transfer_inner_pending [of e draw amt recipient None w True w' dest] assms by (auto simp: wallet_transfer_def)

lemma swap_one_replaced:
  assumes "swap_one e draw tok sw = (Ok [r], sw')" "token_whole tok = Ok whole" "whole \<noteq> 0"
    and "swap_sender tok = Ok sender" "dec_signed_ticket e (enc_signed_ticket e sender) = Some sender"
  shows "length (wa_pending_tokens (sw_wallet sw')) + 1 = length (wa_pending_tokens (sw_wallet sw)) + unat whole
    \<and> length (wa_tokens (sw_wallet sw')) = length (wa_tokens (sw_wallet sw)) - Suc (unat whole)"
proof -
  obtain w pending where s:
      "wallet_transfer e draw whole (enc_signed_ticket e sender) (sw_wallet sw) = (Ok True, w)"
      "last_opt (wa_pending_tokens w) = Some pending" "dec_token e pending = Some r"
      "sw_wallet sw' = w\<lparr>wa_pending_tokens := butlast (wa_pending_tokens w)\<rparr>"
    using assms(1,2,4)
    by (auto simp: swap_one_def on_ok_Inr_iff Let_def split: if_splits prod.splits sum.splits bool.splits option.splits)
  from wallet_transfer_pending [OF s(1) assms(5)] obtain sent where
    "wa_pending_tokens w = wa_pending_tokens (sw_wallet sw) @ sent" "length sent = unat whole"
    "length (wa_tokens w) = length (wa_tokens (sw_wallet sw)) - Suc (unat whole)" by blast
  moreover have "unat whole \<noteq> 0" using assms(3) by (simp add: unat_eq_0)
  ultimately show ?thesis using s by auto
qed

definition paid_to :: "signed_ticket \<Rightarrow> token \<Rightarrow> bool" where
  "paid_to dest tok \<longleftrightarrow> (\<exists>h. last_opt (tok_history tok) = Some h \<and> recipient_of h = Some dest)"

lemma push_history_paid_to: "paid_to dest (push_history tok (new_transfer dest sig) s)"
  by (simp add: paid_to_def push_history_def new_transfer_def recipient_of_def)

lemma token_transfer_paid_to: "token_transfer e draw tok dest sk = Ok tok' \<Longrightarrow> paid_to dest tok'"
  using push_history_paid_to
  by (auto simp: token_transfer_def Let_def and_then_Inr_iff split: option.splits prod.splits)

lemma token_transfer_split_paid_to:
  assumes "token_transfer_split e draw tok dest signer hsk sa = Ok tok'"
  shows "paid_to dest tok'"
proof -
  obtain prev cred signed where "signer draw hsk (enc_transfer e (new_transfer dest prev)) cred (Some prev) False sa = Ok signed"
    and after: "(case signed of Inl Card_BloomFilterHit \<Rightarrow> Err BloomFilterHit | Inl _ \<Rightarrow> Err FailedToSignTokenTransfer
      | Inr sig \<Rightarrow> Ok (push_history tok (new_transfer dest prev) sig)) = Ok tok'"
    using assms by (auto simp: token_transfer_split_def Let_def and_then_Inr_iff split: prod.splits)
  show ?thesis
  proof (cases signed)
    case (Inl x)
    then show ?thesis using after by (cases x) simp_all
  next
    case (Inr sig)
    then have "tok' = push_history tok (new_transfer dest prev) sig" using after by simp
    then show ?thesis using push_history_paid_to by simp
  qed
qed

lemma wallet_transfer_token_paid_to:
  "wallet_transfer_token e draw w dest sa tok = Ok tok' \<Longrightarrow> paid_to dest tok'"
  using token_transfer_paid_to token_transfer_split_paid_to
  by (auto simp: wallet_transfer_token_def split: option.splits)

lemma transfer_loop_last:
  assumes "transfer_loop e draw dest sa n kes w = (Ok True, w')" "0 < n" "n \<le> length kes"
  shows "\<exists>tok. last_opt (wa_pending_tokens w') = Some (enc_token e tok) \<and> paid_to dest tok"
  using assms
proof (induction e draw dest sa n kes w rule: transfer_loop.induct)
  case (2 e draw dest sa n ke rest w)
  then obtain tok tok' where step: "dec_token e (ke_token ke) = Some tok" "wallet_transfer_token e draw w dest sa tok = Ok tok'"
    "transfer_loop e (Suc draw) dest sa (n - 1) rest (w\<lparr>wa_tokens := rev rest,
       wa_pending_tokens := wa_pending_tokens w @ [enc_token e tok']\<rparr>) = (Ok True, w')"
    by (auto simp: Let_def split: option.splits sum.splits fault.splits if_splits)
  show ?case
  proof (cases "n - 1 = 0")
    case True
    then have "wa_pending_tokens w' = wa_pending_tokens w @ [enc_token e tok']"
      using step(3) by (cases rest) (auto simp: Let_def)
    then show ?thesis using wallet_transfer_token_paid_to [OF step(2)] by auto
  next
    case False
    then show ?thesis using 2(1) [OF refl _ step] 2(3,4) by auto
  qed
qed simp

text \<open>a token of \<open>whole\<close> value \<open>n\<close> that is swapped takes \<open>n\<close> tokens (and, as every transfer, one more)
  out of the server's wallet but only one token comes back: the other \<open>n - 1\<close> stay among its pending
  tokens. Nothing is paid unless the validation service flagged every token of the request good and
  the token's last transfer is to the server's ticket.\<close>

theorem swap_pays_one_token:
  assumes "swap_tokens_impl e validate draw version [tok] sw = (Ok reply, sw')" "reply \<noteq> []"
    and "token_whole tok = Ok whole" "whole \<noteq> 0"
    and "swap_sender tok = Ok sender" "dec_signed_ticket e (enc_signed_ticket e sender) = Some sender"
  shows "validate_reply_ok (validate [tok])
    \<and> (\<exists>dest tk own. swap_destination tok = Ok dest \<and> st_ticket dest = Some tk \<and> st_ticket (sw_ticket sw) = Some own
        \<and> tk_credential tk = tk_credential own)
    \<and> length reply = 1
    \<and> length (wa_pending_tokens (sw_wallet sw')) = length (wa_pending_tokens (sw_wallet sw)) + (unat whole - 1)
    \<and> length (wa_tokens (sw_wallet sw')) = length (wa_tokens (sw_wallet sw)) - Suc (unat whole)"
proof -
  have ok: "validate_reply_ok (validate [tok])" and one: "swap_one e draw tok sw = (Ok reply, sw')"
    using assms(1,2) by (auto simp: swap_tokens_impl_def wallet_validate_tokens_def on_ok_Inr_iff split: if_splits)
  obtain r where r: "reply = [r]"
    using one assms(2) by (auto simp: swap_one_def on_ok_Inr_iff Let_def
        split: if_splits prod.splits sum.splits bool.splits option.splits)
  have own: "\<exists>dest tk own. swap_destination tok = Ok dest \<and> st_ticket dest = Some tk \<and> st_ticket (sw_ticket sw) = Some own
      \<and> tk_credential tk = tk_credential own"
    using one r by (auto simp: swap_one_def on_ok_Inr_iff split: if_splits)
  have "unat whole \<noteq> 0" using assms(4) by (simp add: unat_eq_0)
  then show ?thesis
    using swap_one_replaced [OF one [unfolded r] assms(3-6)] ok own r by auto
qed

text \<open>a token that changed hands more than once is not swapped back to the payer: the replacement is
  transferred to the recipient of its last transfer, which is the swap server's own ticket.\<close>

theorem swap_of_circulated_token_pays_server:
  assumes "swap_tokens_impl e validate draw version [tok] sw = (Ok [r], sw')" "1 < length (tok_history tok)"
    and "token_whole tok = Ok whole" "whole \<noteq> 0"
    and "swap_sender tok = Ok sender" "dec_signed_ticket e (enc_signed_ticket e sender) = Some sender"
  shows "\<exists>t tk own. dec_token e (enc_token e t) = Some r \<and> paid_to sender t \<and> st_ticket sender = Some tk
    \<and> st_ticket (sw_ticket sw) = Some own \<and> tk_credential tk = tk_credential own"
proof -
  have one: "swap_one e draw tok sw = (Ok [r], sw')"
    using assms(1) by (auto simp: swap_tokens_impl_def on_ok_Inr_iff split: if_splits)
  then obtain tk own w pending where s: "st_ticket sender = Some tk"
      "st_ticket (sw_ticket sw) = Some own" "tk_credential tk = tk_credential own"
      "wallet_transfer e draw whole (enc_signed_ticket e sender) (sw_wallet sw) = (Ok True, w)"
      "last_opt (wa_pending_tokens w) = Some pending" "dec_token e pending = Some r"
    using assms(2,3,5)
    by (auto simp: swap_one_def swap_sender_def swap_destination_def on_ok_Inr_iff Let_def
        split: if_splits prod.splits sum.splits bool.splits option.splits)
  have "transfer_loop e draw sender None (unat whole) (rev (wa_tokens (sw_wallet sw))) (sw_wallet sw) = (Ok True, w)"
    and "unat whole \<le> length (rev (wa_tokens (sw_wallet sw)))"
    using s(4) assms(6) by (auto simp: wallet_transfer_def transfer_inner_def split: if_splits)
  moreover have "0 < unat whole" using assms(4) by (simp add: unat_gt_0)
  ultimately obtain t where "last_opt (wa_pending_tokens w) = Some (enc_token e t)" "paid_to sender t"
    using transfer_loop_last by blast
  then show ?thesis using s by auto
qed

text \<open>A swap server holding three tokens of holder 1, whose ticket is that of holder 2.\<close>

definition sample_swapper :: swapper where
  "sample_swapper = \<lparr>sw_ticket = sample_ticket 2 1000,
     sw_wallet = sample_wallet\<lparr>wa_tokens := [sample_entry, sample_entry, sample_entry]\<rparr>,
     sw_wallet_poisoned = False, sw_swap_sk = [], sw_swap_pk = []\<rparr>"

lemma sample_swap_runs:
  assumes "tok = sample_token 1 1 (hs @ [sample_hop 2 []])" "swap_sender tok = Ok (sample_ticket 2 1000)"
  shows "\<exists>r sw'. swap_tokens_impl sample_codec_env (\<lambda>toks. Reply [True]) 0 VERSION_CURRENT [tok] sample_swapper = (Ok [r], sw')"
  using assms
  by (simp add: swap_tokens_impl_def wallet_validate_tokens_def validate_reply_ok_def sample_swapper_def swap_one_def
      swap_destination_def recipient_ticket_def token_whole_def wallet_transfer_def transfer_inner_def Let_def
      wallet_transfer_token_def sample_wallet_def sample_credential_def token_transfer_def transfer_basis_def
      recipient_credential_def)

lemma swap_pays_one_token_witness:
  "\<exists>r sw'. swap_tokens_impl sample_codec_env (\<lambda>toks. Reply [True]) 0 VERSION_CURRENT [sample_token 1 1 [sample_hop 3 [], sample_hop 2 []]]
      sample_swapper = (Ok [r], sw') \<and> length (wa_tokens (sw_wallet sw')) = 1"
proof -
  let ?tok = "sample_token 1 1 [sample_hop 3 [], sample_hop 2 []]"
  have sender: "swap_sender ?tok = Ok (sample_ticket 2 1000)"
    by (simp add: swap_sender_def recipient_ticket_def)
  obtain r sw' where run: "swap_tokens_impl sample_codec_env (\<lambda>toks. Reply [True]) 0 VERSION_CURRENT [?tok] sample_swapper
      = (Ok [r], sw')"
    using sample_swap_runs [of ?tok "[sample_hop 3 []]"] sender by auto
  have "token_whole ?tok = Ok 1" by (simp add: token_whole_def)
  from swap_pays_one_token [OF run _ this _ sender] run show ?thesis
    by (auto simp: sample_swapper_def)
qed

lemma swap_of_circulated_token_pays_server_witness:
  "\<exists>r sw' t. swap_tokens_impl sample_codec_env (\<lambda>toks. Reply [True]) 0 VERSION_CURRENT [sample_token 1 1 [sample_hop 3 [], sample_hop 2 []]]
      sample_swapper = (Ok [r], sw') \<and> paid_to (sw_ticket sample_swapper) t"
proof -
  let ?tok = "sample_token 1 1 [sample_hop 3 [], sample_hop 2 []]"
  have sender: "swap_sender ?tok = Ok (sample_ticket 2 1000)"
    by (simp add: swap_sender_def recipient_ticket_def)
  obtain r sw' where run: "swap_tokens_impl sample_codec_env (\<lambda>toks. Reply [True]) 0 VERSION_CURRENT [?tok] sample_swapper
      = (Ok [r], sw')"
    using sample_swap_runs [of ?tok "[sample_hop 3 []]"] sender by auto
  have "token_whole ?tok = Ok 1" by (simp add: token_whole_def)
  from swap_of_circulated_token_pays_server [OF run _ this _ sender] run show ?thesis
    by (auto simp: sample_swapper_def)
qed

end
