(* ===== verification/Attestation.thy ===== *)
theory Attestation
  imports Samples
begin

section \<open>Hardware attestation (\<open>registrar/src/attestation.rs\<close>)\<close>

text \<open>
  Three verifiers of attestations: an Android Key Attestation certificate chain, an Apple App Attest
  object, and a card's manufacturer attestation. The X.509, DER and CBOR decoders and P-256 are
  crates; they are the fields of \<open>x509\<close>. What the repository does with what they return is
  modelled: the length-prefixed chain, the walk along the chain, the choice of the signature check
  by algorithm, the binding of the challenge to the credential keys, the trusted roots.
  Error messages are dropped.
\<close>

datatype security_level = Low | Medium | High

fun level_index :: "security_level \<Rightarrow> nat" where
  "level_index Low = 0"
| "level_index Medium = 1"
| "level_index High = 2"

text \<open>\<open>SecurityLevel\<close> derives \<open>Ord\<close> from its numbers.\<close>

instantiation security_level :: linorder
begin

definition less_eq_security_level :: "security_level \<Rightarrow> security_level \<Rightarrow> bool" where
  "less_eq_security_level a b \<longleftrightarrow> level_index a \<le> level_index b"

definition less_security_level :: "security_level \<Rightarrow> security_level \<Rightarrow> bool" where
  "less_security_level a b \<longleftrightarrow> level_index a < level_index b"

instance
proof
  fix a b :: security_level
  show "a \<le> b \<Longrightarrow> b \<le> a \<Longrightarrow> a = b"
    by (cases a; cases b) (simp_all add: less_eq_security_level_def)
qed (auto simp: less_eq_security_level_def less_security_level_def)

end

record hardware_id =
  hd_vendor_id :: u64
  hd_software_id :: u64
  hd_hardware_id :: u64
  hd_hw_id :: bytes
  hd_security :: i32

record attest_signature =
  sg_algorithm :: i32
  sg_signature :: bytes
  sg_public_key :: bytes

record attestation_result =
  ar_security_level :: security_level
  ar_hw_nonce :: bytes

datatype attestation_error =
    InvalidCertChain | ChallengeMismatch | NotHardwareBacked | UntrustedRoot | MalformedData
  | UnsupportedFormat | NonceMismatch | InvalidAppId

type_synonym 'a attested = "attestation_error + 'a"

subsection \<open>What the decoders return\<close>

record extension =
  ex_oid_bytes :: bytes
  ex_oid_text :: string
  ex_value :: bytes

record certificate =
  ce_issuer :: bytes
  ce_subject :: bytes
  ce_public_key :: bytes
  ce_tbs_der :: "bytes option"
  ce_signature :: bytes
  ce_algorithm_oid :: string
  ce_extensions :: "extension list"

text \<open>\<open>ciborium::Value\<close>; the kinds no field of an attestation uses are one constructor.\<close>

datatype cbor = Cbor_Map "(cbor \<times> cbor) list" | Cbor_Text string | Cbor_Bytes bytes | Cbor_Array "cbor list" | Cbor_Other

fun as_text :: "cbor \<Rightarrow> string option" where "as_text (Cbor_Text s) = Some s" | "as_text _ = None"
fun as_bytes :: "cbor \<Rightarrow> bytes option" where "as_bytes (Cbor_Bytes b) = Some b" | "as_bytes _ = None"
fun as_map :: "cbor \<Rightarrow> (cbor \<times> cbor) list option" where "as_map (Cbor_Map m) = Some m" | "as_map _ = None"
fun as_array :: "cbor \<Rightarrow> cbor list option" where "as_array (Cbor_Array a) = Some a" | "as_array _ = None"

text \<open>\<open>x5_key_description\<close> is the DER sequence of the Android extension: the two versions and raw
  levels, the challenge and the unique id. \<open>x5_verify\<close> takes key, message, signature.\<close>

record x509 =
  x5_parse :: "bytes \<Rightarrow> certificate option"
  x5_key_description :: "bytes \<Rightarrow> (u32 \<times> u32 \<times> u32 \<times> u32 \<times> bytes \<times> bytes) option"
  x5_cbor :: "bytes \<Rightarrow> cbor option"
  x5_key_parses :: "bytes \<Rightarrow> bool"
  x5_sig_parses :: "bytes \<Rightarrow> bool"
  x5_der_sig_parses :: "bytes \<Rightarrow> bool"
  x5_verify :: "bytes \<Rightarrow> bytes \<Rightarrow> bytes \<Rightarrow> bool"

definition or_error :: "'a option \<Rightarrow> attestation_error \<Rightarrow> 'a attested" where
  "or_error x c = (case x of None \<Rightarrow> Inl c | Some v \<Rightarrow> Inr v)"

definition require :: "bool \<Rightarrow> attestation_error \<Rightarrow> unit attested" where
  "require b c = (if b then Inr () else Inl c)"

lemma or_error_Inr_iff [simp]: "or_error x c = Inr y \<longleftrightarrow> x = Some y"
  by (cases x) (auto simp: or_error_def)

lemma require_Inr_iff [simp]: "require b c = Inr u \<longleftrightarrow> b"
  by (simp add: require_def)

subsection \<open>The certificate chain\<close>

definition be_u32 :: "bytes \<Rightarrow> nat" where
  "be_u32 bs = foldl (\<lambda>acc b. 256 * acc + unat b) 0 bs"

text \<open>The loop over the data after the offset; fewer than four bytes at the end are ignored.\<close>

function parse_certs :: "bytes \<Rightarrow> bytes list \<Rightarrow> bytes list attested" where
  "parse_certs data certs =
     (if length data < 4 then Inr certs
      else
        let len = be_u32 (take 4 data); rest = drop 4 data in
        if length rest < len then Inl MalformedData
        else parse_certs (drop len rest) (certs @ [take len rest]))"
  by pat_completeness auto
termination by (relation "measure (\<lambda>(data, certs). length data)") auto

declare parse_certs.simps [simp del]

definition parse_cert_chain :: "bytes \<Rightarrow> bytes list attested" where
  "parse_cert_chain data =
     and_then (parse_certs data []) (\<lambda>certs. if certs = [] then Inl MalformedData else Inr certs)"

text \<open>\<open>str::contains\<close>, and \<open>windows(n).any(..)\<close>.\<close>

definition has_slice :: "'a list \<Rightarrow> 'a list \<Rightarrow> bool" where
  "has_slice s pat \<longleftrightarrow> list_ex (\<lambda>k. prefix pat (drop k s)) [0..<Suc (length s)]"

definition ecdsa_sha256_oid :: "string \<Rightarrow> bool" where
  "ecdsa_sha256_oid alg \<longleftrightarrow> has_slice alg ''1.2.840.10045.4.3.2'' \<or> has_slice alg ''ecdsa-with-SHA256''"

text \<open>A signature of any other algorithm is not looked at.\<close>

definition verify_cert_signature :: "x509 \<Rightarrow> certificate \<Rightarrow> certificate \<Rightarrow> unit attested" where
  "verify_cert_signature x subject issuer =
     and_then (or_error (ce_tbs_der subject) InvalidCertChain) (\<lambda>tbs_der.
     if ecdsa_sha256_oid (ce_algorithm_oid subject) then
       and_then (require (x5_key_parses x (ce_public_key issuer)) InvalidCertChain) (\<lambda>_.
       and_then (require (x5_sig_parses x (ce_signature subject)) InvalidCertChain) (\<lambda>_.
       require (x5_verify x (ce_public_key issuer) tbs_der (ce_signature subject)) InvalidCertChain))
     else Inr ())"

fun verify_chain :: "x509 \<Rightarrow> certificate list \<Rightarrow> unit attested" where
  "verify_chain x (subject # issuer # certs) =
     and_then (require (ce_issuer subject = ce_subject issuer) InvalidCertChain) (\<lambda>_.
     and_then (verify_cert_signature x subject issuer) (\<lambda>_. verify_chain x (issuer # certs)))"
| "verify_chain x _ = Inr ()"

fun parse_each :: "x509 \<Rightarrow> bytes list \<Rightarrow> certificate list attested" where
  "parse_each x [] = Inr []"
| "parse_each x (der # ders) =
     and_then (or_error (x5_parse x der) InvalidCertChain) (\<lambda>c.
     and_then (parse_each x ders) (\<lambda>cs. Inr (c # cs)))"

text \<open>An empty list of trusted roots trusts every root.\<close>

definition root_trusted :: "bytes list \<Rightarrow> bytes list \<Rightarrow> bool" where
  "root_trusted trusted_roots chain \<longleftrightarrow> trusted_roots = [] \<or> last chain \<in> set trusted_roots"

subsection \<open>Android Key Attestation\<close>

datatype android_security_level = Software | TrustedEnvironment | StrongBox

definition android_level :: "u32 \<Rightarrow> android_security_level" where
  "android_level raw = (if raw = 1 then TrustedEnvironment else if raw = 2 then StrongBox else Software)"

record android_key_description =
  ak_attestation_version :: u32
  ak_attestation_security_level :: android_security_level
  ak_keymaster_version :: u32
  ak_keymaster_security_level :: android_security_level
  ak_attestation_challenge :: bytes
  ak_unique_id :: bytes

definition parse_android_key_description :: "x509 \<Rightarrow> bytes \<Rightarrow> android_key_description attested" where
  "parse_android_key_description x ext_value =
     and_then (or_error (x5_key_description x ext_value) MalformedData)
       (\<lambda>(version, level, km_version, km_level, challenge, unique_id).
       Inr \<lparr>ak_attestation_version = version, ak_attestation_security_level = android_level level,
            ak_keymaster_version = km_version, ak_keymaster_security_level = android_level km_level,
            ak_attestation_challenge = challenge, ak_unique_id = unique_id\<rparr>)"

definition android_extension :: "extension \<Rightarrow> bool" where
  "android_extension ext \<longleftrightarrow>
     ex_oid_bytes ext = [0x06, 0x0C, 0x2B, 0x06, 0x01, 0x04, 0x01, 0xD6, 0x79, 0x02, 0x01, 0x11]
     \<or> ex_oid_text ext = ''1.3.6.1.4.1.11129.2.1.17''"

fun medium_at_most :: "android_security_level \<Rightarrow> security_level" where
  "medium_at_most StrongBox = Medium"
| "medium_at_most TrustedEnvironment = Medium"
| "medium_at_most Software = Low"

definition binding_challenge :: "env \<Rightarrow> hardware_id \<Rightarrow> bytes list \<Rightarrow> bytes" where
  "binding_challenge e hwid pks = sha256 e (hd_hw_id hwid @ concat pks)"

text \<open>The hardware nonce: the unique id when there is one.\<close>

definition android_nonce :: "env \<Rightarrow> hardware_id \<Rightarrow> attest_signature \<Rightarrow> bytes \<Rightarrow> bytes" where
  "android_nonce e hwid sg unique_id =
     (if unique_id = [] then sha256 e (hd_hw_id hwid @ sg_public_key sg) else sha256 e unique_id)"

definition verify_android_attestation ::
  "env \<Rightarrow> x509 \<Rightarrow> hardware_id \<Rightarrow> attest_signature \<Rightarrow> bytes list \<Rightarrow> bytes list \<Rightarrow> attestation_result attested" where
  "verify_android_attestation e x hwid sg trusted_roots pks =
     and_then (parse_cert_chain (sg_signature sg)) (\<lambda>chain.
     and_then (require (2 \<le> length chain) InvalidCertChain) (\<lambda>_.
     and_then (parse_each x chain) (\<lambda>certs.
     and_then (verify_chain x certs) (\<lambda>_.
     and_then (require (root_trusted trusted_roots chain) UntrustedRoot) (\<lambda>_.
     and_then (or_error (find android_extension (ce_extensions (hd certs))) MalformedData) (\<lambda>ext.
     and_then (parse_android_key_description x (ex_value ext)) (\<lambda>desc.
     and_then (require (ak_attestation_challenge desc = binding_challenge e hwid pks) ChallengeMismatch) (\<lambda>_.
     and_then (require (ak_attestation_security_level desc \<noteq> Software) NotHardwareBacked) (\<lambda>_.
     Inr \<lparr>ar_security_level = medium_at_most (ak_attestation_security_level desc),
          ar_hw_nonce = android_nonce e hwid sg (ak_unique_id desc)\<rparr>)))))))))"

subsection \<open>Apple App Attest\<close>

text \<open>The CBOR helpers: the first entry with the key whose value has the kind asked for.\<close>

fun find_cbor :: "(cbor \<Rightarrow> 'a option) \<Rightarrow> string \<Rightarrow> (cbor \<times> cbor) list \<Rightarrow> 'a option" where
  "find_cbor kind key [] = None"
| "find_cbor kind key ((k, v) # kvs) =
     (if as_text k = Some key \<and> kind v \<noteq> None then kind v else find_cbor kind key kvs)"

fun bytes_each :: "cbor list \<Rightarrow> bytes list attested" where
  "bytes_each [] = Inr []"
| "bytes_each (c # cs) =
     and_then (or_error (as_bytes c) MalformedData) (\<lambda>b. and_then (bytes_each cs) (\<lambda>bs. Inr (b # bs)))"

definition string_bytes :: "string \<Rightarrow> bytes" where
  "string_bytes s = map of_char s"

definition client_data_hash :: "env \<Rightarrow> hardware_id \<Rightarrow> attest_signature \<Rightarrow> bytes list \<Rightarrow> bytes" where
  "client_data_hash e hwid sg pks = sha256 e (hd_hw_id hwid @ sg_public_key sg @ concat pks)"

definition ios_nonce :: "env \<Rightarrow> hardware_id \<Rightarrow> attest_signature \<Rightarrow> bytes" where
  "ios_nonce e hwid sg = (if sg_public_key sg = [] then sha256 e (hd_hw_id hwid) else sha256 e (sg_public_key sg))"

text \<open>The counter in bytes 33 to 36 of \<open>auth_data\<close> is read and logged, but decides nothing.\<close>

definition verify_ios_attestation ::
  "env \<Rightarrow> x509 \<Rightarrow> hardware_id \<Rightarrow> attest_signature \<Rightarrow> string \<Rightarrow> bytes list \<Rightarrow> bytes list \<Rightarrow> attestation_result attested" where
  "verify_ios_attestation e x hwid sg expected_app_id trusted_roots pks =
     and_then (or_error (x5_cbor x (sg_signature sg)) MalformedData) (\<lambda>value.
     and_then (or_error (as_map value) MalformedData) (\<lambda>m.
     and_then (or_error (find_cbor as_text ''fmt'' m) MalformedData) (\<lambda>fmt.
     and_then (require (fmt = ''apple-appattest'') UnsupportedFormat) (\<lambda>_.
     and_then (or_error (find_cbor as_map ''attStmt'' m) MalformedData) (\<lambda>att_stmt.
     and_then (or_error (find_cbor as_bytes ''authData'' m) MalformedData) (\<lambda>auth_data.
     and_then (or_error (find_cbor as_array ''x5c'' att_stmt) MalformedData) (\<lambda>x5c.
     and_then (require (x5c \<noteq> []) MalformedData) (\<lambda>_.
     and_then (bytes_each x5c) (\<lambda>chain.
     and_then (parse_each x chain) (\<lambda>certs.
     and_then (verify_chain x certs) (\<lambda>_.
     and_then (require (root_trusted trusted_roots chain) UntrustedRoot) (\<lambda>_.
     let expected_nonce = sha256 e (auth_data @ client_data_hash e hwid sg pks) in
     and_then (or_error (find (\<lambda>ext. ex_oid_text ext = ''1.2.840.113635.100.8.2'') (ce_extensions (hd certs))) NonceMismatch) (\<lambda>ext.
     and_then (require (has_slice (ex_value ext) expected_nonce) NonceMismatch) (\<lambda>_.
     and_then (require (37 \<le> length auth_data) MalformedData) (\<lambda>_.
     and_then (require (take 32 auth_data = sha256 e (string_bytes expected_app_id)) InvalidAppId) (\<lambda>_.
     Inr \<lparr>ar_security_level = Medium,
          ar_hw_nonce = ios_nonce e hwid sg\<rparr>))))))))))))))))"

subsection \<open>Card manufacturer attestation\<close>

definition verify_card_p256_attestation ::
  "env \<Rightarrow> x509 \<Rightarrow> hardware_id \<Rightarrow> attest_signature \<Rightarrow> bytes list \<Rightarrow> bytes list \<Rightarrow> attestation_result attested" where
  "verify_card_p256_attestation e x hwid sg trusted_ca_keys pks =
     (let data = sg_signature sg in
      if data = [] then Inl MalformedData
      else let sig_len = unat (data ! 0) in
      if length data < 1 + sig_len + 1 then Inl MalformedData
      else let attest_sig = take sig_len (drop 1 data); cert_offset = 1 + sig_len;
               cert_len = unat (data ! cert_offset) in
      if length data < cert_offset + 1 + cert_len + 65 then Inl MalformedData
      else let cert = take cert_len (drop (cert_offset + 1) data);
               pubkey = drop (cert_offset + 1 + cert_len) data in
      and_then (require (length pubkey = 65) MalformedData) (\<lambda>_.
      and_then (require (x5_key_parses x pubkey) MalformedData) (\<lambda>_.
      and_then (require (x5_der_sig_parses x attest_sig) MalformedData) (\<lambda>_.
      and_then (require (x5_verify x pubkey (binding_challenge e hwid pks) attest_sig) ChallengeMismatch) (\<lambda>_.
      and_then (require (x5_der_sig_parses x cert) MalformedData) (\<lambda>_.
      and_then (require (list_ex (\<lambda>ca. x5_verify x ca pubkey cert) trusted_ca_keys \<or> trusted_ca_keys = []) UntrustedRoot) (\<lambda>_.
      Inr \<lparr>ar_security_level = Medium, ar_hw_nonce = sha256 e pubkey\<rparr>)))))))"

subsection \<open>The framing of the chain\<close>

definition frame_cert :: "bytes \<Rightarrow> bytes" where
  "frame_cert c = u32_to_be_bytes (length c) @ c"

lemma be_u32_roundtrip: "n < 2 ^ 32 \<Longrightarrow> be_u32 (u32_to_be_bytes n) = n"
proof -
  assume n: "n < 2 ^ 32"
  have digits: "n div 65536 = n div 256 div 256" "n div 16777216 = n div 256 div 256 div 256"
    by (simp_all flip: div_mult2_eq)
  have "be_u32 (u32_to_be_bytes n)
      = 16777216 * (n div 16777216) + 65536 * (n div 65536 mod 256) + 256 * (n div 256 mod 256) + n mod 256"
    using n by (simp add: be_u32_def u32_to_be_bytes_def unsigned_of_nat take_bit_eq_mod)
  also have "\<dots> = n"
    using mult_div_mod_eq [of 256 n] mult_div_mod_eq [of 256 "n div 256"] mult_div_mod_eq [of 256 "n div 256 div 256"]
    unfolding digits by linarith
  finally show ?thesis .
qed

lemma length_u32_to_be_bytes [simp]: "length (u32_to_be_bytes n) = 4"
  by (simp add: u32_to_be_bytes_def)

lemma parse_certs_framed:
  assumes "\<forall>c \<in> set cs. length c < 2 ^ 32" "length rest < 4"
  shows "parse_certs (concat (map frame_cert cs) @ rest) acc = Inr (acc @ cs)"
  using assms(1)
proof (induction cs arbitrary: acc)
  case (Cons c cs)
  have "parse_certs (frame_cert c @ (concat (map frame_cert cs) @ rest)) acc
      = parse_certs (concat (map frame_cert cs) @ rest) (acc @ [c])"
    using Cons.prems by (subst parse_certs.simps) (simp add: frame_cert_def be_u32_roundtrip)
  then show ?case using Cons by simp
qed (use assms(2) in \<open>simp add: parse_certs.simps\<close>)

lemma parse_each_Inr:
  "parse_each x ders = Inr cs \<longleftrightarrow> list_all2 (\<lambda>der c. x5_parse x der = Some c) ders cs"
  by (induction ders arbitrary: cs) (auto simp: and_then_Inr_iff list_all2_Cons1)

definition cert_link :: "x509 \<Rightarrow> certificate \<Rightarrow> certificate \<Rightarrow> bool" where
  "cert_link x subject issuer \<longleftrightarrow> ce_issuer subject = ce_subject issuer
     \<and> (\<exists>tbs. ce_tbs_der subject = Some tbs
        \<and> (ecdsa_sha256_oid (ce_algorithm_oid subject) \<longrightarrow>
            x5_key_parses x (ce_public_key issuer) \<and> x5_sig_parses x (ce_signature subject)
            \<and> x5_verify x (ce_public_key issuer) tbs (ce_signature subject)))"

lemma verify_cert_signature_Inr:
  "ce_issuer s = ce_subject i \<and> verify_cert_signature x s i = Inr u \<longleftrightarrow> cert_link x s i"
  by (auto simp: verify_cert_signature_def cert_link_def and_then_Inr_iff)

lemma verify_chain_Inr:
  "verify_chain x cs = Inr u \<longleftrightarrow> (\<forall>i. Suc i < length cs \<longrightarrow> cert_link x (cs ! i) (cs ! Suc i))"
proof (induction x cs rule: verify_chain.induct)
  case (1 x s i cs)
  have "verify_chain x (s # i # cs) = Inr u \<longleftrightarrow> cert_link x s i \<and> verify_chain x (i # cs) = Inr u"
    by (auto simp: and_then_Inr_iff verify_cert_signature_Inr [of s i x "()", simplified, symmetric])
  also have "\<dots> \<longleftrightarrow> (\<forall>k. Suc k < length (s # i # cs) \<longrightarrow> cert_link x ((s # i # cs) ! k) ((s # i # cs) ! Suc k))"
    using 1 by (auto simp: nth_Cons less_Suc_eq_0_disj split: nat.split)
  finally show ?case .
qed auto

subsection \<open>What is accepted\<close>

definition chain_linked :: "x509 \<Rightarrow> certificate list \<Rightarrow> bool" where
  "chain_linked x cs \<longleftrightarrow> (\<forall>i. Suc i < length cs \<longrightarrow> cert_link x (cs ! i) (cs ! Suc i))"

definition certs_of :: "x509 \<Rightarrow> bytes list \<Rightarrow> certificate list \<Rightarrow> bool" where
  "certs_of x ders cs \<longleftrightarrow> list_all2 (\<lambda>der c. x5_parse x der = Some c) ders cs"

text \<open>a chain of certificates of less than \<open>2 ^ 32\<close> bytes each, framed as the message's comment says,
  is read back as it was, and up to three stray bytes after it are ignored.\<close>

theorem cert_chain_roundtrip:
  assumes "\<forall>c \<in> set cs. length c < 2 ^ 32" "cs \<noteq> []" "length rest < 4"
  shows "parse_cert_chain (concat (map frame_cert cs) @ rest) = Inr cs"
  using parse_certs_framed [OF assms(1,3)] assms(2) by (simp add: parse_cert_chain_def)

lemma cert_chain_roundtrip_witness:
  "parse_cert_chain ([0, 0, 0, 2, 8, 9, 0, 0, 0, 1, 7] @ [5]) = Inr [[8, 9], [7]]"
  using cert_chain_roundtrip [of "[[8, 9], [7]]" "[5]"]
  by (simp add: frame_cert_def u32_to_be_bytes_def)

lemma android_accepts:
  "verify_android_attestation e x hwid sg trusted_roots pks = Inr r \<longleftrightarrow>
     (\<exists>chain certs ext version level km_version km_level unique_id.
        parse_cert_chain (sg_signature sg) = Inr chain \<and> 2 \<le> length chain \<and> certs_of x chain certs
        \<and> chain_linked x certs \<and> root_trusted trusted_roots chain
        \<and> find android_extension (ce_extensions (hd certs)) = Some ext
        \<and> x5_key_description x (ex_value ext)
            = Some (version, level, km_version, km_level, binding_challenge e hwid pks, unique_id)
        \<and> android_level level \<noteq> Software
        \<and> r = \<lparr>ar_security_level = Medium, ar_hw_nonce = android_nonce e hwid sg unique_id\<rparr>)"
  (is "_ \<longleftrightarrow> ?R")
proof -
  have medium: "l \<noteq> Software \<Longrightarrow> medium_at_most l = Medium" for l by (cases l) simp_all
  have desc: "parse_android_key_description x v = Inr d \<longleftrightarrow>
      (\<exists>ver l kv kl c u. x5_key_description x v = Some (ver, l, kv, kl, c, u)
        \<and> d = \<lparr>ak_attestation_version = ver, ak_attestation_security_level = android_level l, ak_keymaster_version = kv,
              ak_keymaster_security_level = android_level kl, ak_attestation_challenge = c, ak_unique_id = u\<rparr>)" for v d
    by (auto simp: parse_android_key_description_def and_then_Inr_iff)
  show ?thesis
    unfolding verify_android_attestation_def and_then_Inr_iff or_error_Inr_iff require_Inr_iff parse_each_Inr
      verify_chain_Inr desc certs_of_def chain_linked_def
    using medium by fastforce
qed

text \<open>an Android attestation is accepted exactly when its chain of at least two certificates is linked
  by issuer names (and by signatures where they are ECDSA with SHA-256), ends in a trusted root, its
  leaf's key description carries the hash of the hardware id and both credential keys, and the key
  is not a software key. The level is always Medium.\<close>

theorem android_accepts_iff:
  "verify_android_attestation e x hwid sg trusted_roots pks = Inr r \<longleftrightarrow>
     (\<exists>chain certs ext version level km_version km_level unique_id.
        parse_cert_chain (sg_signature sg) = Inr chain \<and> 2 \<le> length chain \<and> certs_of x chain certs
        \<and> chain_linked x certs \<and> root_trusted trusted_roots chain
        \<and> find android_extension (ce_extensions (hd certs)) = Some ext
        \<and> x5_key_description x (ex_value ext)
            = Some (version, level, km_version, km_level, binding_challenge e hwid pks, unique_id)
        \<and> android_level level \<noteq> Software
        \<and> r = \<lparr>ar_security_level = Medium, ar_hw_nonce = android_nonce e hwid sg unique_id\<rparr>)"
  by (rule android_accepts)

text \<open>a leaf certificate whose signature algorithm is not ECDSA with SHA-256 needs no signature at all:
  next to a trusted root's public certificate, whose name it claims as issuer, it is accepted as
  Medium hardware for any credential keys, whatever its signature bytes are.\<close>

theorem android_unsigned_leaf_accepted:
  assumes "x5_parse x root_der = Some root" "x5_parse x leaf_der = Some leaf"
    and "root_trusted trusted_roots [root_der]" "ce_issuer leaf = ce_subject root" "ce_tbs_der leaf = Some tbs"
    and "\<not> ecdsa_sha256_oid (ce_algorithm_oid leaf)"
    and "find android_extension (ce_extensions leaf) = Some ext"
    and "x5_key_description x (ex_value ext) = Some (v, 1, kv, kl, binding_challenge e hwid pks, uid)"
    and "length leaf_der < 2 ^ 32" "length root_der < 2 ^ 32"
    and "sg_signature sg = frame_cert leaf_der @ frame_cert root_der"
  shows "\<exists>r. verify_android_attestation e x hwid sg trusted_roots pks = Inr r \<and> ar_security_level r = Medium"
proof -
  have "parse_cert_chain (sg_signature sg) = Inr [leaf_der, root_der]"
    using parse_certs_framed [of "[leaf_der, root_der]" "[]" "[]"] assms(9-11) by (simp add: parse_cert_chain_def)
  moreover have "certs_of x [leaf_der, root_der] [leaf, root]" using assms(1,2) by (simp add: certs_of_def)
  moreover have "cert_link x leaf root" using assms(4-6) by (simp add: cert_link_def)
  then have "chain_linked x [leaf, root]" by (simp add: chain_linked_def)
  moreover have "root_trusted trusted_roots [leaf_der, root_der]" using assms(3) by (simp add: root_trusted_def)
  moreover have "android_level 1 \<noteq> Software" by (simp add: android_level_def)
  ultimately show ?thesis
    using assms(7,8) by (subst android_accepts) (fastforce intro!: exI [of _ "[leaf_der, root_der]"] exI [of _ "[leaf, root]"])
qed

text \<open>A decoder for the witness: \<open>[2]\<close> is the trusted root, \<open>[1]\<close> a leaf signed with RSA and naming it.\<close>

definition sample_root :: certificate where
  "sample_root = \<lparr>ce_issuer = [2], ce_subject = [2], ce_public_key = [2], ce_tbs_der = Some [2], ce_signature = [],
     ce_algorithm_oid = ''1.2.840.10045.4.3.2'', ce_extensions = []\<rparr>"

definition sample_leaf :: certificate where
  "sample_leaf = \<lparr>ce_issuer = [2], ce_subject = [1], ce_public_key = [1], ce_tbs_der = Some [1], ce_signature = [],
     ce_algorithm_oid = ''1.2.840.113549.1.1.11'',
     ce_extensions = [\<lparr>ex_oid_bytes = [], ex_oid_text = ''1.3.6.1.4.1.11129.2.1.17'', ex_value = []\<rparr>]\<rparr>"

definition sample_x509 :: x509 where
  "sample_x509 = \<lparr>x5_parse = (\<lambda>d. if d = [1] then Some sample_leaf else if d = [2] then Some sample_root else None),
     x5_key_description = (\<lambda>v. Some (3, 1, 3, 1, replicate 32 0, [])),
     x5_cbor = (\<lambda>b. Some (Cbor_Map [(Cbor_Text ''fmt'', Cbor_Text ''apple-appattest''),
        (Cbor_Text ''attStmt'', Cbor_Map [(Cbor_Text ''x5c'', Cbor_Array [Cbor_Bytes [3]])]),
        (Cbor_Text ''authData'', Cbor_Bytes (replicate 33 0 @ [0, 0, 0, 9]))])),
     x5_key_parses = (\<lambda>k. True), x5_sig_parses = (\<lambda>s. s \<noteq> []), x5_der_sig_parses = (\<lambda>s. s \<noteq> []),
     x5_verify = (\<lambda>k m s. take 1 s = take 1 k)\<rparr>"

definition sample_hwid :: hardware_id where
  "sample_hwid = \<lparr>hd_vendor_id = 0, hd_software_id = 0, hd_hardware_id = 0, hd_hw_id = [1], hd_security = 0\<rparr>"

lemma rsa_oid: "\<not> ecdsa_sha256_oid ''1.2.840.113549.1.1.11''"
  by (simp add: ecdsa_sha256_oid_def has_slice_def upt_conv_Cons)

lemma android_unsigned_leaf_accepted_witness:
  "\<exists>r. verify_android_attestation sample_env sample_x509 sample_hwid
      \<lparr>sg_algorithm = 1, sg_signature = [0, 0, 0, 1, 1, 0, 0, 0, 1, 2], sg_public_key = []\<rparr> [[2]] [[66], [66]] = Inr r
    \<and> ar_security_level r = Medium"
proof -
  have "\<not> ecdsa_sha256_oid (ce_algorithm_oid sample_leaf)" using rsa_oid by (simp add: sample_leaf_def)
  moreover have "[0, 0, 0, 1, 1, 0, 0, 0, 1, 2] = frame_cert [1] @ frame_cert [2]"
    by (simp add: frame_cert_def u32_to_be_bytes_def)
  ultimately show ?thesis
    by (intro android_unsigned_leaf_accepted [of sample_x509 "[2]" sample_root "[1]" sample_leaf])
      (simp_all add: sample_x509_def sample_leaf_def sample_root_def root_trusted_def android_extension_def
        binding_challenge_def)
qed

text \<open>an App Attest object is accepted exactly when it has the format's fields, its chain is linked and
  ends in a trusted root, the leaf's nonce extension contains the hash of the authenticator data and
  the client data (hardware id, key id and both credential keys), and the data starts with the hash
  of the app id. The counter may have any value. The level is always Medium.\<close>

theorem ios_accepts_iff:
  "verify_ios_attestation e x hwid sg app_id trusted_roots pks = Inr r \<longleftrightarrow>
     (\<exists>m stmt auth_data x5c chain certs ext.
        x5_cbor x (sg_signature sg) = Some (Cbor_Map m) \<and> find_cbor as_text ''fmt'' m = Some ''apple-appattest''
        \<and> find_cbor as_map ''attStmt'' m = Some stmt \<and> find_cbor as_bytes ''authData'' m = Some auth_data
        \<and> find_cbor as_array ''x5c'' stmt = Some x5c \<and> x5c = map Cbor_Bytes chain \<and> chain \<noteq> []
        \<and> certs_of x chain certs \<and> chain_linked x certs \<and> root_trusted trusted_roots chain
        \<and> find (\<lambda>ext. ex_oid_text ext = ''1.2.840.113635.100.8.2'') (ce_extensions (hd certs)) = Some ext
        \<and> has_slice (ex_value ext) (sha256 e (auth_data @ client_data_hash e hwid sg pks))
        \<and> 37 \<le> length auth_data \<and> take 32 auth_data = sha256 e (string_bytes app_id)
        \<and> r = \<lparr>ar_security_level = Medium, ar_hw_nonce = ios_nonce e hwid sg\<rparr>)"
proof -
  have map: "as_map v = Some m \<longleftrightarrow> v = Cbor_Map m" for v m by (cases v) auto
  have bytes1: "as_bytes v = Some b \<longleftrightarrow> v = Cbor_Bytes b" for v b by (cases v) auto
  have bytes: "bytes_each cs = Inr bs \<longleftrightarrow> cs = map Cbor_Bytes bs" for cs bs
    by (induction cs arbitrary: bs) (auto simp: and_then_Inr_iff bytes1 Cons_eq_map_conv)
  show ?thesis
    unfolding verify_ios_attestation_def Let_def and_then_Inr_iff or_error_Inr_iff require_Inr_iff parse_each_Inr
      verify_chain_Inr bytes map certs_of_def chain_linked_def
    by (safe; force)
qed

text \<open>a card attestation with a signature and a certificate of less than 256 bytes and a key of 65 is
  accepted exactly when the card's key verifies the challenge over the hardware id and both
  credential keys and a trusted manufacturer verifies the card's key, or no manufacturer is trusted;
  it then counts as Medium.\<close>

theorem card_attestation_accepts_iff:
  assumes "length sig < 256" "length cert < 256" "length pubkey = 65"
    and "sg_signature sg = of_nat (length sig) # sig @ of_nat (length cert) # cert @ pubkey"
  shows "verify_card_p256_attestation e x hwid sg cas pks = Inr r \<longleftrightarrow>
    x5_key_parses x pubkey \<and> x5_der_sig_parses x sig \<and> x5_verify x pubkey (binding_challenge e hwid pks) sig
    \<and> x5_der_sig_parses x cert \<and> (cas = [] \<or> (\<exists>ca \<in> set cas. x5_verify x ca pubkey cert))
    \<and> r = \<lparr>ar_security_level = Medium, ar_hw_nonce = sha256 e pubkey\<rparr>"
proof -
  have lens: "unat (of_nat (length sig) :: u8) = length sig" "unat (of_nat (length cert) :: u8) = length cert"
    using assms(1,2) by (simp_all add: unsigned_of_nat take_bit_nat_eq_self)
  have "(sig @ of_nat (length cert) # cert @ pubkey) ! length sig = (of_nat (length cert) :: u8)"
    by (simp add: nth_append)
  then show ?thesis
    using assms(3) by (auto simp: verify_card_p256_attestation_def assms(4) Let_def lens and_then_Inr_iff list_ex_iff)
qed

lemma card_attestation_accepts_iff_witness:
  "verify_card_p256_attestation sample_env sample_x509 sample_hwid
     \<lparr>sg_algorithm = 3, sg_signature = [1, 4, 1, 5] @ replicate 65 4, sg_public_key = []\<rparr> [[5]] [[66], [66]]
     = Inr \<lparr>ar_security_level = Medium, ar_hw_nonce = replicate 32 0\<rparr>"
  using card_attestation_accepts_iff [of "[4]" "[5]" "replicate 65 4"
      "\<lparr>sg_algorithm = 3, sg_signature = [1, 4, 1, 5] @ replicate 65 4, sg_public_key = []\<rparr>" sample_env sample_x509 sample_hwid
      "[[5]]" "[[66], [66]]"]
  by (simp add: sample_x509_def)

end
