(* ===== verification/Registrar.thy ===== *)
theory Registrar
  imports Attestation
begin

section \<open>The registrar (\<open>registrar/src/server.rs\<close>)\<close>

text \<open>
  \<open>BrioletteRegistrar\<close> issues a wallet its two credentials: the network credential from the issuer
  of the security level its attestation reached, the transfer credential from one issuer for all.
  Key files are a map from paths to contents; a path that cannot be written panics the start-up.
  \<open>attestor\<close> is the contract of the verifiers of \<open>Attestation\<close> that the registrar's comment on
  levels rests on.
\<close>

subsection \<open>Issuer keys\<close>

type_synonym files = "string \<rightharpoonup> bytes"

record issuer_keys =
  ik_secret_key :: bytes
  ik_group_public_key :: bytes

record registrar =
  rg_network_secret_key :: bytes
  rg_network_group_public_key :: bytes
  rg_nac_issuers :: "issuer_keys list"
  rg_transfer_secret_key :: bytes
  rg_transfer_group_public_key :: bytes
  rg_android_trusted_roots :: "bytes list"
  rg_ios_trusted_roots :: "bytes list"
  rg_ios_app_id :: string
  rg_require_attestation :: bool
  rg_card_trusted_ca_keys :: "bytes list"

definition write_file :: "(string \<Rightarrow> bool) \<Rightarrow> string \<Rightarrow> bytes \<Rightarrow> files \<Rightarrow> unit result \<times> files" where
  "write_file writable path content fs =
     (if path = [] then (Ok (), fs) else if \<not> writable path then (panic, fs) else (Ok (), fs(path \<mapsto> content)))"

text \<open>\<open>fresh\<close> is what \<open>generate_issuer_keypair\<close> yields: it replaces, a loaded file is appended.\<close>

definition read_or_generate_key ::
  "(string \<Rightarrow> bool) \<Rightarrow> (bytes \<times> bytes) option \<Rightarrow> bool \<Rightarrow> string \<Rightarrow> string \<Rightarrow> bytes \<Rightarrow> bytes \<Rightarrow> files
    \<Rightarrow> (bool \<times> bytes \<times> bytes) result \<times> files" where
  "read_or_generate_key writable fresh generate sk_file gpk_file sk gpk fs =
     (case (fs sk_file, fs gpk_file) of
        (Some sk_in, Some gpk_in) \<Rightarrow> (Ok (True, sk @ sk_in, gpk @ gpk_in), fs)
      | _ \<Rightarrow>
          if \<not> generate then (Ok (False, sk, gpk), fs)
          else case fresh of
            None \<Rightarrow> (Ok (False, sk, gpk), fs)
          | Some (new_sk, new_gpk) \<Rightarrow>
              on_ok (write_file writable sk_file new_sk fs) (\<lambda>_ fs.
              on_ok (write_file writable gpk_file new_gpk fs) (\<lambda>_ fs.
              (Ok (True, new_sk, new_gpk), fs))))"

text \<open>\<open>new\<close> asserts that both pairs are there; \<open>fresh\<close> numbers the generated pairs.\<close>

definition registrar_new ::
  "(string \<Rightarrow> bool) \<Rightarrow> (nat \<Rightarrow> (bytes \<times> bytes) option) \<Rightarrow> bool \<Rightarrow> string \<Rightarrow> string \<Rightarrow> string \<Rightarrow> string \<Rightarrow> files
    \<Rightarrow> registrar result \<times> files" where
  "registrar_new writable fresh generate nsk_file ngpk_file tsk_file tgpk_file fs =
     on_ok (read_or_generate_key writable (fresh 0) generate nsk_file ngpk_file [] [] fs) (\<lambda>(ok1, nsk, ngpk) fs.
     if \<not> ok1 then (panic, fs)
     else on_ok (read_or_generate_key writable (fresh 1) generate tsk_file tgpk_file [] [] fs) (\<lambda>(ok2, tsk, tgpk) fs.
     if \<not> ok2 then (panic, fs)
     else (Ok \<lparr>rg_network_secret_key = nsk, rg_network_group_public_key = ngpk, rg_nac_issuers = [],
             rg_transfer_secret_key = tsk, rg_transfer_group_public_key = tgpk, rg_android_trusted_roots = [],
             rg_ios_trusted_roots = [], rg_ios_app_id = [], rg_require_attestation = False,
             rg_card_trusted_ca_keys = []\<rparr>, fs)))"

fun load_levels ::
  "(string \<Rightarrow> bool) \<Rightarrow> (nat \<Rightarrow> (bytes \<times> bytes) option) \<Rightarrow> nat \<Rightarrow> bool \<Rightarrow> (security_level \<times> string \<times> string) list
    \<Rightarrow> registrar \<Rightarrow> files \<Rightarrow> registrar result \<times> files" where
  "load_levels writable fresh n generate [] rg fs = (Ok rg, fs)"
| "load_levels writable fresh n generate ((level, sk_file, gpk_file) # levels) rg fs =
     (let keys = rg_nac_issuers rg ! level_index level in
      on_ok (read_or_generate_key writable (fresh n) generate sk_file gpk_file
               (ik_secret_key keys) (ik_group_public_key keys) fs) (\<lambda>(ok, sk, gpk) fs.
      if \<not> ok then (panic, fs)
      else load_levels writable fresh (Suc n) generate levels
             (rg\<lparr>rg_nac_issuers := (rg_nac_issuers rg)[level_index level := \<lparr>ik_secret_key = sk, ik_group_public_key = gpk\<rparr>]\<rparr>) fs))"

definition registrar_new_tiered ::
  "(string \<Rightarrow> bool) \<Rightarrow> (nat \<Rightarrow> (bytes \<times> bytes) option) \<Rightarrow> bool \<Rightarrow> string \<Rightarrow> string \<Rightarrow> string \<Rightarrow> string
    \<Rightarrow> (security_level \<times> string \<times> string) list \<Rightarrow> files \<Rightarrow> registrar result \<times> files" where
  "registrar_new_tiered writable fresh generate nsk_file ngpk_file tsk_file tgpk_file levels fs =
     on_ok (registrar_new writable fresh generate nsk_file ngpk_file tsk_file tgpk_file fs) (\<lambda>rg fs.
     load_levels writable fresh 2 generate levels
       (rg\<lparr>rg_nac_issuers := replicate 3 \<lparr>ik_secret_key = [], ik_group_public_key = []\<rparr>\<rparr>) fs)"

definition nac_keys_for_level :: "registrar \<Rightarrow> security_level \<Rightarrow> bytes \<times> bytes" where
  "nac_keys_for_level rg level =
     (let idx = level_index level in
      if idx < length (rg_nac_issuers rg) \<and> ik_secret_key (rg_nac_issuers rg ! idx) \<noteq> [] then
        (ik_secret_key (rg_nac_issuers rg ! idx), ik_group_public_key (rg_nac_issuers rg ! idx))
      else (rg_network_secret_key rg, rg_network_group_public_key rg))"

subsection \<open>Registration\<close>

datatype algorithm = Algorithm_None | AndroidKmAttestation | IosAppAttest | CardP256Attestation

definition algorithm_of :: "i32 \<Rightarrow> algorithm" where
  "algorithm_of n =
     (if n = 0 then Algorithm_None else if n = 1 then AndroidKmAttestation else if n = 2 then IosAppAttest
      else if n = 3 then CardP256Attestation else Algorithm_None)"

definition hwid_result :: "attestation_result attested \<Rightarrow> attestation_result result" where
  "hwid_result r = (case r of Inl c \<Rightarrow> Err InvalidHwidSignature | Inr a \<Rightarrow> Ok a)"

definition verify_attestation ::
  "env \<Rightarrow> x509 \<Rightarrow> registrar \<Rightarrow> hardware_id \<Rightarrow> attest_signature \<Rightarrow> bytes list \<Rightarrow> attestation_result result" where
  "verify_attestation e x rg hwid sg pks =
     (case algorithm_of (sg_algorithm sg) of
        Algorithm_None \<Rightarrow>
          if rg_require_attestation rg then Err InvalidHwidSignature
          else Ok \<lparr>ar_security_level = Low, ar_hw_nonce = hd_hw_id hwid\<rparr>
      | AndroidKmAttestation \<Rightarrow> hwid_result (verify_android_attestation e x hwid sg (rg_android_trusted_roots rg) pks)
      | IosAppAttest \<Rightarrow> hwid_result (verify_ios_attestation e x hwid sg (rg_ios_app_id rg) (rg_ios_trusted_roots rg) pks)
      | CardP256Attestation \<Rightarrow> hwid_result (verify_card_p256_attestation e x hwid sg (rg_card_trusted_ca_keys rg) pks))"

record register_request =
  rr_version :: i32
  rr_hwid :: "hardware_id option"
  rr_hwid_signature :: "attest_signature option"
  rr_network_public_key :: "bytes option"
  rr_transfer_public_key :: "bytes option"
  rr_split_key_proof :: "(bytes \<times> bytes) option"
  rr_card_attestation :: "attest_signature option"

record issued_credential =
  ic_credential :: bytes
  ic_credential_signature :: bytes
  ic_group_public_key :: bytes

text \<open>The card's attestation is verified, but either outcome leaves the level at \<open>High\<close>.\<close>

definition effective_level ::
  "env \<Rightarrow> x509 \<Rightarrow> registrar \<Rightarrow> hardware_id \<Rightarrow> bytes \<Rightarrow> bytes \<Rightarrow> (bytes \<times> bytes) option \<Rightarrow> attest_signature option
    \<Rightarrow> security_level \<Rightarrow> security_level" where
  "effective_level e x rg hwid npk tpk proof card_attestation level =
     (if Medium \<le> level then
        (case proof of
           None \<Rightarrow> level
         | Some (nac_card_pk, ttc_card_pk) \<Rightarrow>
             if v1_verify_split_key_proof e npk nac_card_pk \<and> v1_verify_split_key_proof e tpk ttc_card_pk then
               (case card_attestation of
                  None \<Rightarrow> High
                | Some sg \<Rightarrow>
                    (case verify_card_p256_attestation e x hwid sg (rg_card_trusted_ca_keys rg) [npk, tpk] of
                       Inr _ \<Rightarrow> High | Inl _ \<Rightarrow> High))
             else level)
      else level)"

definition register_call_impl ::
  "env \<Rightarrow> x509 \<Rightarrow> nat \<Rightarrow> registrar \<Rightarrow> register_request \<Rightarrow> (issued_credential \<times> issued_credential) result" where
  "register_call_impl e x draw rg rq =
     (if rr_version rq \<noteq> 0 then Err InvalidVersion
      else case (rr_hwid rq, rr_hwid_signature rq, rr_network_public_key rq, rr_transfer_public_key rq) of
        (Some hwid, Some sg, Some npk, Some tpk) \<Rightarrow>
          and_then (verify_attestation e x rg hwid sg [npk, tpk]) (\<lambda>att.
          let level = effective_level e x rg hwid npk tpk (rr_split_key_proof rq) (rr_card_attestation rq) (ar_security_level att);
              nac_keys = nac_keys_for_level rg level in
          and_then (ok_or (v1_issue_credential e draw npk (fst nac_keys) tpk) InvalidNetworkCredentialRequest) (\<lambda>(nc, ncs).
          and_then (ok_or (v1_issue_credential e (Suc draw) tpk (rg_transfer_secret_key rg) (ar_hw_nonce att))
                      InvalidTokenCredentialRequest) (\<lambda>(tc, tcs).
          Ok (\<lparr>ic_credential = nc, ic_credential_signature = ncs, ic_group_public_key = snd nac_keys\<rparr>,
              \<lparr>ic_credential = tc, ic_credential_signature = tcs, ic_group_public_key = rg_transfer_group_public_key rg\<rparr>))))
      | _ \<Rightarrow> Err InvalidMissingFields)"

subsection \<open>What the registrar relies on\<close>

text \<open>A platform's verifier never answers more than \<open>Medium\<close>: \<open>High\<close> needs the split-key proof.\<close>

locale attestor =
  fixes verify :: "hardware_id \<Rightarrow> attest_signature \<Rightarrow> bytes list \<Rightarrow> attestation_result attested"
  assumes at_most_medium: "verify hwid sg pks = Inr r \<Longrightarrow> ar_security_level r \<le> Medium"
begin

lemma verified_level: "hwid_result (verify hwid sg pks) = Ok r \<Longrightarrow> ar_security_level r \<le> Medium"
  using at_most_medium by (auto simp: hwid_result_def split: sum.splits)

lemma not_high: "hwid_result (verify hwid sg pks) = Ok r \<Longrightarrow> ar_security_level r \<noteq> High"
  using verified_level by (fastforce simp: less_eq_security_level_def)

end

interpretation android: attestor "\<lambda>hwid sg pks. verify_android_attestation e x hwid sg roots pks" for e x roots
  by unfold_locales (auto simp: android_accepts)

interpretation ios: attestor "\<lambda>hwid sg pks. verify_ios_attestation e x hwid sg app roots pks" for e x app roots
  by unfold_locales (auto simp: verify_ios_attestation_def Let_def and_then_Inr_iff)

interpretation card_attest: attestor "\<lambda>hwid sg pks. verify_card_p256_attestation e x hwid sg cas pks" for e x cas
  by unfold_locales (auto simp: verify_card_p256_attestation_def Let_def and_then_Inr_iff split: if_splits)

lemma verify_attestation_not_high:
  "verify_attestation e x rg hwid sg pks = Ok att \<Longrightarrow> ar_security_level att \<noteq> High"
  using android.not_high ios.not_high card_attest.not_high
  by (auto simp: verify_attestation_def split: algorithm.splits if_splits)

lemma effective_level_High:
  "level \<noteq> High \<Longrightarrow> effective_level e x rg hwid npk tpk proof ca level = High \<longleftrightarrow>
     Medium \<le> level \<and> (\<exists>a b. proof = Some (a, b) \<and> v1_verify_split_key_proof e npk a \<and> v1_verify_split_key_proof e tpk b)"
  by (auto simp: effective_level_def split: option.split sum.split)

lemma effective_level_low: "level < Medium \<Longrightarrow> effective_level e x rg hwid npk tpk proof ca level = level"
  by (cases level) (simp_all add: effective_level_def less_security_level_def less_eq_security_level_def)

lemma effective_level_card: "effective_level e x rg hwid npk tpk proof ca level = effective_level e x rg hwid npk tpk proof None level"
  by (simp add: effective_level_def split: option.split sum.split)

lemma register_call_impl_Ok:
  "register_call_impl e x draw rg rq = Ok (nac, ttc) \<longleftrightarrow>
     rr_version rq = 0 \<and> (\<exists>hwid sg npk tpk att nc ncs tc tcs.
       rr_hwid rq = Some hwid \<and> rr_hwid_signature rq = Some sg \<and> rr_network_public_key rq = Some npk
       \<and> rr_transfer_public_key rq = Some tpk \<and> verify_attestation e x rg hwid sg [npk, tpk] = Ok att
       \<and> (let keys = nac_keys_for_level rg (effective_level e x rg hwid npk tpk (rr_split_key_proof rq)
                       (rr_card_attestation rq) (ar_security_level att))
          in v1_issue_credential e draw npk (fst keys) tpk = Some (nc, ncs)
             \<and> nac = \<lparr>ic_credential = nc, ic_credential_signature = ncs, ic_group_public_key = snd keys\<rparr>)
       \<and> v1_issue_credential e (Suc draw) tpk (rg_transfer_secret_key rg) (ar_hw_nonce att) = Some (tc, tcs)
       \<and> ttc = \<lparr>ic_credential = tc, ic_credential_signature = tcs, ic_group_public_key = rg_transfer_group_public_key rg\<rparr>)"
  by (auto simp: register_call_impl_def Let_def and_then_Inr_iff split: option.splits)

text \<open>C15: a registration that succeeds was attested as its algorithm asks, issues the transfer credential in
  the one transfer group with the attestation's hardware nonce, and the network credential in the
  group of the effective level: \<open>High\<close> exactly when the attestation gave \<open>Medium\<close> and both split-key
  proofs pass, else the attested level, which is \<open>Low\<close> for a request without attestation.\<close>

theorem registration_tier:
  assumes "register_call_impl e x draw rg rq = Ok (nac, ttc)"
  shows "\<exists>hwid sg npk tpk att level. rr_hwid rq = Some hwid \<and> rr_hwid_signature rq = Some sg
    \<and> rr_network_public_key rq = Some npk \<and> rr_transfer_public_key rq = Some tpk
    \<and> verify_attestation e x rg hwid sg [npk, tpk] = Ok att
    \<and> ic_group_public_key ttc = rg_transfer_group_public_key rg
    \<and> v1_issue_credential e (Suc draw) tpk (rg_transfer_secret_key rg) (ar_hw_nonce att)
        = Some (ic_credential ttc, ic_credential_signature ttc)
    \<and> v1_issue_credential e draw npk (fst (nac_keys_for_level rg level)) tpk
        = Some (ic_credential nac, ic_credential_signature nac)
    \<and> ic_group_public_key nac = snd (nac_keys_for_level rg level)
    \<and> (level = High \<longleftrightarrow> ar_security_level att = Medium
        \<and> (\<exists>a b. rr_split_key_proof rq = Some (a, b) \<and> v1_verify_split_key_proof e npk a \<and> v1_verify_split_key_proof e tpk b))
    \<and> (level \<noteq> High \<longrightarrow> level = ar_security_level att)
    \<and> (algorithm_of (sg_algorithm sg) = Algorithm_None \<longrightarrow> level = Low \<and> \<not> rg_require_attestation rg)"
proof -
  obtain hwid sg npk tpk att nc ncs tc tcs where r: "rr_hwid rq = Some hwid" "rr_hwid_signature rq = Some sg"
      "rr_network_public_key rq = Some npk" "rr_transfer_public_key rq = Some tpk"
      "verify_attestation e x rg hwid sg [npk, tpk] = Ok att"
      "v1_issue_credential e (Suc draw) tpk (rg_transfer_secret_key rg) (ar_hw_nonce att) = Some (tc, tcs)"
      "ttc = \<lparr>ic_credential = tc, ic_credential_signature = tcs, ic_group_public_key = rg_transfer_group_public_key rg\<rparr>"
    and n: "let keys = nac_keys_for_level rg (effective_level e x rg hwid npk tpk (rr_split_key_proof rq)
                       (rr_card_attestation rq) (ar_security_level att))
          in v1_issue_credential e draw npk (fst keys) tpk = Some (nc, ncs)
             \<and> nac = \<lparr>ic_credential = nc, ic_credential_signature = ncs, ic_group_public_key = snd keys\<rparr>"
    using assms by (auto simp: register_call_impl_Ok)
  let ?l = "effective_level e x rg hwid npk tpk (rr_split_key_proof rq) (rr_card_attestation rq) (ar_security_level att)"
  have not_high: "ar_security_level att \<noteq> High" by (rule verify_attestation_not_high [OF r(5)])
  then have "Medium \<le> ar_security_level att \<longleftrightarrow> ar_security_level att = Medium"
    by (cases "ar_security_level att") (simp_all add: less_eq_security_level_def)
  then have "?l = High \<longleftrightarrow> ar_security_level att = Medium
        \<and> (\<exists>a b. rr_split_key_proof rq = Some (a, b) \<and> v1_verify_split_key_proof e npk a \<and> v1_verify_split_key_proof e tpk b)"
    using effective_level_High [OF not_high] by simp
  moreover have "?l \<noteq> High \<longrightarrow> ?l = ar_security_level att"
    by (auto simp: effective_level_def split: option.split sum.split)
  moreover have "?l = Low \<and> \<not> rg_require_attestation rg" if "algorithm_of (sg_algorithm sg) = Algorithm_None"
    using that r(5) by (auto simp: verify_attestation_def effective_level_low less_security_level_def split: if_splits)
  ultimately show ?thesis using r n by (intro exI [of _ hwid] exI [of _ sg] exI [of _ npk] exI [of _ tpk] exI [of _ att] exI [of _ ?l])
    (simp add: Let_def)
qed

definition sample_registrar :: registrar where
  "sample_registrar = \<lparr>rg_network_secret_key = [1], rg_network_group_public_key = [11],
     rg_nac_issuers = [\<lparr>ik_secret_key = [], ik_group_public_key = []\<rparr>, \<lparr>ik_secret_key = [2], ik_group_public_key = [12]\<rparr>,
       \<lparr>ik_secret_key = [3], ik_group_public_key = [13]\<rparr>],
     rg_transfer_secret_key = [4], rg_transfer_group_public_key = [14], rg_android_trusted_roots = [[2]],
     rg_ios_trusted_roots = [], rg_ios_app_id = [], rg_require_attestation = True, rg_card_trusted_ca_keys = [[5]]\<rparr>"

definition sample_registration :: "(bytes \<times> bytes) option \<Rightarrow> register_request" where
  "sample_registration proof = \<lparr>rr_version = 0, rr_hwid = Some sample_hwid,
     rr_hwid_signature = Some \<lparr>sg_algorithm = 3, sg_signature = [1, 4, 1, 5] @ replicate 65 4, sg_public_key = []\<rparr>,
     rr_network_public_key = Some [66], rr_transfer_public_key = Some [66], rr_split_key_proof = proof,
     rr_card_attestation = None\<rparr>"

lemma sample_registration_runs:
  "\<exists>nac ttc. register_call_impl sample_env sample_x509 0 sample_registrar (sample_registration proof) = Ok (nac, ttc)"
proof -
  have "verify_card_p256_attestation sample_env sample_x509 sample_hwid
     \<lparr>sg_algorithm = 3, sg_signature = [1, 4, 1, 5] @ replicate 65 4, sg_public_key = []\<rparr> [[5]] [[66], [66]]
     = Inr \<lparr>ar_security_level = Medium, ar_hw_nonce = replicate 32 0\<rparr>"
    by (simp add: verify_card_p256_attestation_def Let_def sample_x509_def require_def)
  then show ?thesis
    by (simp add: register_call_impl_def sample_registration_def sample_registrar_def verify_attestation_def
        algorithm_of_def hwid_result_def Let_def ok_or_def split: prod.split)
qed

lemma registration_tier_witness:
  "\<exists>nac ttc. register_call_impl sample_env sample_x509 0 sample_registrar (sample_registration (Some ([1], [2]))) = Ok (nac, ttc)
     \<and> ic_group_public_key nac \<in> {[11], [12], [13]} \<and> ic_group_public_key ttc = [14]"
proof -
  obtain nac ttc where run: "register_call_impl sample_env sample_x509 0 sample_registrar (sample_registration (Some ([1], [2]))) = Ok (nac, ttc)"
    using sample_registration_runs by blast
  obtain level where "ic_group_public_key nac = snd (nac_keys_for_level sample_registrar level)"
    "ic_group_public_key ttc = rg_transfer_group_public_key sample_registrar"
    using registration_tier [OF run] by blast
  then show ?thesis using run by (cases level) (auto simp: nac_keys_for_level_def sample_registrar_def)
qed

text \<open>whether a card's manufacturer attestation is present, valid or forged makes no difference to what
  is issued.\<close>

theorem card_attestation_ignored:
  "register_call_impl e x draw rg (rq\<lparr>rr_card_attestation := ca\<rparr>) = register_call_impl e x draw rg (rq\<lparr>rr_card_attestation := None\<rparr>)"
  by (cases "rr_hwid rq"; cases "rr_hwid_signature rq"; cases "rr_network_public_key rq"; cases "rr_transfer_public_key rq")
    (simp_all add: register_call_impl_def effective_level_card [where ca = ca])

end
