(* ===== verification/Curve.thy ===== *)
theory Curve
  imports Environment
begin

section \<open>The pairing-friendly curve under the group signatures\<close>

text \<open>
  \<open>crypto/src/v1.rs\<close> is written over the crate \<open>bls12_381_plus\<close>: the scalar field, the groups G1 and
  G2 of prime order, a pairing, compressed encodings and the hash functions of RFC 9380. The crate is
  the record \<open>curve\<close>, an argument of every definition that uses it; the scalars are any field and the
  groups any abelian groups. \<open>group_ok\<close> states what the crate documents of the groups: scalars act
  linearly, a scalar moves from one argument of the pairing to the other, the pairing with the generator
  determines a point. \<open>curve_ok\<close> adds that the encodings have fixed lengths and decode to what was encoded.
  The laws derived from \<open>group_ok\<close> serve the older curve of \<open>crypto/src/v0.rs\<close> too.

  The random scalars a call draws are \<open>cv_random cv draw k\<close>, where \<open>draw\<close> numbers the call and \<open>k\<close> the
  scalar within it.
\<close>

record ('f, 'g, 'h, 't) curve =
  cv_mul1 :: "'g \<Rightarrow> 'f \<Rightarrow> 'g"
  cv_mul2 :: "'h \<Rightarrow> 'f \<Rightarrow> 'h"
  cv_gen1 :: 'g
  cv_gen2 :: 'h
  cv_pairing :: "'g \<Rightarrow> 'h \<Rightarrow> 't"
  cv_compress1 :: "'g \<Rightarrow> bytes"
  cv_decompress1 :: "bytes \<Rightarrow> 'g option"
  cv_compress2 :: "'h \<Rightarrow> bytes"
  cv_decompress2 :: "bytes \<Rightarrow> 'h option"
  cv_to_be :: "'f \<Rightarrow> bytes"
  cv_from_be :: "bytes \<Rightarrow> 'f option"
  cv_hash_scalar :: "bytes \<Rightarrow> 'f"
  cv_hash_g1 :: "bytes \<Rightarrow> 'g"
  cv_random :: "nat \<Rightarrow> nat \<Rightarrow> 'f"

definition group_ok :: "('f::field, 'g::ab_group_add, 'h::ab_group_add, 't) curve \<Rightarrow> bool" where
  "group_ok cv \<longleftrightarrow>
     (\<forall>P a b. cv_mul1 cv P (a + b) = cv_mul1 cv P a + cv_mul1 cv P b)
   \<and> (\<forall>P Q a. cv_mul1 cv (P + Q) a = cv_mul1 cv P a + cv_mul1 cv Q a)
   \<and> (\<forall>P a b. cv_mul1 cv (cv_mul1 cv P a) b = cv_mul1 cv P (a * b))
   \<and> (\<forall>P. cv_mul1 cv P 1 = P)
   \<and> (\<forall>P Q a. cv_pairing cv (cv_mul1 cv P a) Q = cv_pairing cv P (cv_mul2 cv Q a))
   \<and> (\<forall>P Q. cv_pairing cv P (cv_gen2 cv) = cv_pairing cv Q (cv_gen2 cv) \<longrightarrow> P = Q)"

definition curve_ok :: "('f::field, 'g::ab_group_add, 'h::ab_group_add, 't) curve \<Rightarrow> bool" where
  "curve_ok cv \<longleftrightarrow> group_ok cv
   \<and> (\<forall>P. length (cv_compress1 cv P) = 48 \<and> cv_decompress1 cv (cv_compress1 cv P) = Some P)
   \<and> (\<forall>P. length (cv_compress2 cv P) = 96 \<and> cv_decompress2 cv (cv_compress2 cv P) = Some P)
   \<and> (\<forall>a. length (cv_to_be cv a) = 32 \<and> cv_from_be cv (cv_to_be cv a) = Some a)"

named_theorems curve_simps

lemma curve_group: "curve_ok cv \<Longrightarrow> group_ok cv"
  by (simp add: curve_ok_def)

lemma curve_encodings [curve_simps]:
  assumes "curve_ok cv"
  shows "length (cv_compress1 cv P) = 48" "cv_decompress1 cv (cv_compress1 cv P) = Some P"
    and "length (cv_compress2 cv Q) = 96" "cv_decompress2 cv (cv_compress2 cv Q) = Some Q"
    and "length (cv_to_be cv a) = 32" "cv_from_be cv (cv_to_be cv a) = Some a"
  using assms by (auto simp: curve_ok_def)

subsection \<open>What follows from the laws of the groups\<close>

lemma group_laws:
  assumes "group_ok cv"
  shows "cv_mul1 cv P (a + b) = cv_mul1 cv P a + cv_mul1 cv P b"
    and "cv_mul1 cv (P + Q) a = cv_mul1 cv P a + cv_mul1 cv Q a"
    and "cv_mul1 cv (cv_mul1 cv P a) b = cv_mul1 cv P (a * b)"
    and "cv_mul1 cv P 1 = P"
  using assms by (auto simp: group_ok_def)

lemma group_pairing:
  assumes "group_ok cv"
  shows "cv_pairing cv (cv_mul1 cv P a) R = cv_pairing cv P (cv_mul2 cv R a)"
    and "cv_pairing cv P (cv_gen2 cv) = cv_pairing cv Q (cv_gen2 cv) \<longleftrightarrow> P = Q"
  using assms by (auto simp: group_ok_def)

lemma group_mul1_zero: "group_ok cv \<Longrightarrow> cv_mul1 cv P 0 = 0"
  using group_laws(1) [of cv P 0 0] by simp

lemma group_mul1_identity: "group_ok cv \<Longrightarrow> cv_mul1 cv 0 a = 0"
  using group_laws(2) [of cv 0 0 a] by simp

lemma group_mul1_neg: "group_ok cv \<Longrightarrow> cv_mul1 cv P (- a) = - cv_mul1 cv P a"
  using group_laws(1) [of cv P a "- a"] minus_unique [of "cv_mul1 cv P a" "cv_mul1 cv P (- a)"]
  by (simp add: group_mul1_zero)

lemma group_mul1_minus: "group_ok cv \<Longrightarrow> cv_mul1 cv P (a - b) = cv_mul1 cv P a - cv_mul1 cv P b"
  using group_laws(1) [of cv P a "- b"] by (simp add: group_mul1_neg)

lemma group_mul1_point_minus:
  "group_ok cv \<Longrightarrow> cv_mul1 cv (P - Q) a = cv_mul1 cv P a - cv_mul1 cv Q a"
  using group_laws(2) [of cv "P - Q" Q a] by (simp add: eq_diff_eq)

text \<open>The order of G1 is prime: only the scalar zero or the identity give the identity.\<close>

lemma group_mul1_eq_0_iff:
  assumes ok: "group_ok cv"
  shows "cv_mul1 cv P a = 0 \<longleftrightarrow> a = 0 \<or> P = 0"
proof
  assume z: "cv_mul1 cv P a = 0"
  show "a = 0 \<or> P = 0"
  proof (cases "a = 0")
    case False
    have "cv_mul1 cv (cv_mul1 cv P a) (1 / a) = P" using False by (simp add: group_laws(3,4) [OF ok])
    with z show ?thesis by (simp add: group_mul1_identity [OF ok])
  qed simp
qed (auto simp: group_mul1_zero [OF ok] group_mul1_identity [OF ok])

lemma group_mul1_scalar_inj: "group_ok cv \<Longrightarrow> P \<noteq> 0 \<Longrightarrow> cv_mul1 cv P a = cv_mul1 cv P b \<longleftrightarrow> a = b"
  using group_mul1_eq_0_iff [of cv P "a - b"] group_mul1_minus [of cv P a b] by auto

lemma group_mul1_point_inj: "group_ok cv \<Longrightarrow> a \<noteq> 0 \<Longrightarrow> cv_mul1 cv P a = cv_mul1 cv Q a \<longleftrightarrow> P = Q"
  using group_mul1_eq_0_iff [of cv "P - Q" a] group_mul1_point_minus [of cv P Q a] by auto

text \<open>The two pairing equations a credential satisfies, as equations of points.\<close>

lemma group_pairing_eq_iff:
  assumes "group_ok cv"
  shows "cv_pairing cv A (cv_mul2 cv (cv_gen2 cv) y) = cv_pairing cv B (cv_gen2 cv) \<longleftrightarrow> B = cv_mul1 cv A y"
    and "cv_pairing cv B (cv_gen2 cv) = cv_pairing cv A (cv_mul2 cv (cv_gen2 cv) y) \<longleftrightarrow> B = cv_mul1 cv A y"
  using group_pairing(1) [OF assms, of A y "cv_gen2 cv", symmetric]
    group_pairing(2) [OF assms, of B "cv_mul1 cv A y"] group_pairing(2) [OF assms, of "cv_mul1 cv A y" B]
  by auto

text \<open>Schnorr's equation: the verifier recomputes the prover's commitment.\<close>

lemma group_schnorr_commitment:
  "group_ok cv \<Longrightarrow> cv_mul1 cv P (r + c * k) - cv_mul1 cv (cv_mul1 cv P k) c = cv_mul1 cv P r"
  by (simp add: group_laws mult.commute [of k])

text \<open>Two answers to different challenges for one commitment give the secret.\<close>

lemma group_schnorr_extract:
  assumes "group_ok cv" "c \<noteq> c'"
    and "cv_mul1 cv P s - cv_mul1 cv Q c = cv_mul1 cv P s' - cv_mul1 cv Q c'"
  shows "Q = cv_mul1 cv P ((s - s') / (c - c'))"
proof -
  have "cv_mul1 cv Q c - cv_mul1 cv Q c' = cv_mul1 cv P s - cv_mul1 cv P s'"
    using assms(3) by (metis (no_types, opaque_lifting) diff_add_cancel diff_diff_eq2 add.commute add_diff_cancel)
  then have "cv_mul1 cv Q (c - c') = cv_mul1 cv P (s - s')"
    by (simp add: group_mul1_minus [OF assms(1)])
  then have "cv_mul1 cv (cv_mul1 cv Q (c - c')) (1 / (c - c')) = cv_mul1 cv (cv_mul1 cv P (s - s')) (1 / (c - c'))"
    by simp
  then show ?thesis using assms(2) by (simp add: group_laws(3,4) [OF assms(1)])
qed

text \<open>The same for a curve with its encodings.\<close>

lemmas curve_laws [curve_simps] = group_laws [OF curve_group]
lemmas curve_pairing = group_pairing [OF curve_group]
lemmas mul1_zero [curve_simps] = group_mul1_zero [OF curve_group]
lemmas mul1_identity [curve_simps] = group_mul1_identity [OF curve_group]
lemmas mul1_neg [curve_simps] = group_mul1_neg [OF curve_group]
lemmas mul1_minus [curve_simps] = group_mul1_minus [OF curve_group]
lemmas mul1_point_minus [curve_simps] = group_mul1_point_minus [OF curve_group]
lemmas mul1_eq_0_iff [curve_simps] = group_mul1_eq_0_iff [OF curve_group]
lemmas mul1_scalar_inj = group_mul1_scalar_inj [OF curve_group]
lemmas mul1_point_inj = group_mul1_point_inj [OF curve_group]
lemmas pairing_eq_iff = group_pairing_eq_iff [OF curve_group]
lemmas schnorr_commitment = group_schnorr_commitment [OF curve_group]
lemmas schnorr_extract = group_schnorr_extract [OF curve_group]

end
