(* ===== verification/SampleCurve.thy ===== *)
theory SampleCurve
  imports Curve
begin

section \<open>A small curve at which the properties of the group signatures are exercised\<close>

text \<open>
  The field of three elements, its additive group as G1 and G2, multiplication as the pairing, and
  encodings that put the element in the last byte. It satisfies \<open>curve_ok\<close>; it is no secure curve, its
  hash functions look at the last byte at most and its random generator is constant.
\<close>

datatype gf3 = Zero3 | One3 | Two3

instantiation gf3 :: field
begin

definition zero_gf3 :: gf3 where "0 = Zero3"
definition one_gf3 :: gf3 where "1 = One3"

fun plus_gf3 :: "gf3 \<Rightarrow> gf3 \<Rightarrow> gf3" where
  "Zero3 + b = b" | "a + Zero3 = a"
| "One3 + One3 = Two3" | "One3 + Two3 = Zero3" | "Two3 + One3 = Zero3" | "Two3 + Two3 = One3"

fun uminus_gf3 :: "gf3 \<Rightarrow> gf3" where
  "- Zero3 = Zero3" | "- One3 = Two3" | "- Two3 = One3"

fun times_gf3 :: "gf3 \<Rightarrow> gf3 \<Rightarrow> gf3" where
  "Zero3 * b = Zero3" | "a * Zero3 = Zero3"
| "One3 * One3 = One3" | "One3 * Two3 = Two3" | "Two3 * One3 = Two3" | "Two3 * Two3 = One3"

definition minus_gf3 :: "gf3 \<Rightarrow> gf3 \<Rightarrow> gf3" where "a - b = a + - (b :: gf3)"
definition inverse_gf3 :: "gf3 \<Rightarrow> gf3" where "inverse a = (a :: gf3)"
definition divide_gf3 :: "gf3 \<Rightarrow> gf3 \<Rightarrow> gf3" where "a div b = a * inverse (b :: gf3)"

instance
proof
  fix p q r :: gf3
  show "p * q = q * p" by (induction p; induction q; simp)
  show "p + q = q + p" by (induction p; induction q; simp)
  show "(p + q) * r = p * r + q * r" by (induction p; induction q; induction r; simp)
  show "p * q * r = p * (q * r)" by (induction p; induction q; induction r; simp)
  show "p + q + r = p + (q + r)" by (induction p; induction q; induction r; simp)
  show "(0 :: gf3) \<noteq> 1" "0 + p = p" "1 * p = p" by (induction p) (simp_all add: zero_gf3_def one_gf3_def)
  show "- p + p = 0" by (induction p) (simp_all add: zero_gf3_def)
  show "p \<noteq> 0 \<Longrightarrow> inverse p * p = 1" by (induction p) (simp_all add: zero_gf3_def one_gf3_def inverse_gf3_def)
  show "p - q = p + - q" "p div q = p * inverse q" "inverse (0 :: gf3) = 0"
    by (simp_all add: minus_gf3_def divide_gf3_def inverse_gf3_def)
qed

end

fun gf3_byte :: "gf3 \<Rightarrow> u8" where
  "gf3_byte Zero3 = 0" | "gf3_byte One3 = 1" | "gf3_byte Two3 = 2"

definition gf3_encode :: "nat \<Rightarrow> gf3 \<Rightarrow> bytes" where
  "gf3_encode n a = replicate n 0 @ [gf3_byte a]"

definition gf3_decode :: "bytes \<Rightarrow> gf3 option" where
  "gf3_decode bs = (if last bs = 0 then Some Zero3 else if last bs = 1 then Some One3
     else if last bs = 2 then Some Two3 else None)"

definition sample_curve :: "(gf3, gf3, gf3, gf3) curve" where
  "sample_curve = \<lparr>cv_mul1 = (*), cv_mul2 = (*), cv_gen1 = One3, cv_gen2 = One3, cv_pairing = (*),
     cv_compress1 = gf3_encode 47, cv_decompress1 = gf3_decode, cv_compress2 = gf3_encode 95, cv_decompress2 = gf3_decode,
     cv_to_be = gf3_encode 31, cv_from_be = gf3_decode, cv_hash_scalar = (\<lambda>data. if last data = 2 then Two3 else One3), cv_hash_g1 = (\<lambda>_. One3),
     cv_random = (\<lambda>_ _. One3)\<rparr>"

lemma gf3_decode_encode [simp]: "gf3_decode (gf3_encode n a) = Some a" "length (gf3_encode n a) = Suc n"
  by (cases a; simp add: gf3_decode_def gf3_encode_def)+

lemma sample_curve_ok [simp]: "curve_ok sample_curve"
  by (simp add: curve_ok_def group_ok_def sample_curve_def algebra_simps flip: one_gf3_def)

end
