(* ===== verification/Ecdaa.thy ===== *)
theory Ecdaa
  imports SampleCurve
begin

section \<open>The group signature scheme (\<open>crypto/src/v1.rs\<close>)\<close>

text \<open>
  ECDAA: an issuer with the secret (x, y) certifies a wallet's key; the wallet signs with a credential
  (A, B, C, D) of four points, which may be randomised, and with a pseudonym K for a basename that is
  the same in every signature of one key under one basename. A signature is the bytes
  \<open>c | s | R | S | T | W | n [| K]\<close>. A getter of a field slices the bytes, which panics when they are
  too short, and then decodes, which may fail: it returns an \<open>option result\<close>. \<open>or_return m d k\<close> is
  \<open>match m { Some(v) => k(v), None => return d }\<close>.
\<close>

definition ISSUER_GROUP_PUBLIC_KEY_LENGTH :: nat where "ISSUER_GROUP_PUBLIC_KEY_LENGTH = 2 * G2_LENGTH"
definition ISSUER_SECRET_KEY_LENGTH :: nat where "ISSUER_SECRET_KEY_LENGTH = 2 * SCALAR_LENGTH"
definition WALLET_PUBLIC_KEY_LENGTH :: nat where "WALLET_PUBLIC_KEY_LENGTH = G1_LENGTH + 3 * SCALAR_LENGTH"

lemmas all_lengths = length_defs ISSUER_GROUP_PUBLIC_KEY_LENGTH_def ISSUER_SECRET_KEY_LENGTH_def
  WALLET_PUBLIC_KEY_LENGTH_def

definition or_return :: "'a option result \<Rightarrow> 'b \<Rightarrow> ('a \<Rightarrow> 'b result) \<Rightarrow> 'b result" where
  "or_return m d k = and_then m (\<lambda>x. case x of None \<Rightarrow> Ok d | Some v \<Rightarrow> k v)"

lemma or_return_simps [simp]:
  "or_return (Ok (Some v)) d k = k v" "or_return (Ok None) d k = Ok d" "or_return (Inl f) d k = Inl f"
  by (simp_all add: or_return_def)

lemma or_return_Inr_iff:
  "or_return m d k = Inr y \<longleftrightarrow> (\<exists>v. m = Ok (Some v) \<and> k v = Ok y) \<or> (m = Ok None \<and> y = d)"
  by (cases m) (auto simp: or_return_def split: option.split)

lemma or_return_value: "y \<noteq> d \<Longrightarrow> or_return m d k = Inr y \<longleftrightarrow> (\<exists>v. m = Ok (Some v) \<and> k v = Ok y)"
  by (auto simp: or_return_Inr_iff)

subsection \<open>Decoding\<close>

definition deserialize_g1 :: "('f, 'g, 'h, 't) curve \<Rightarrow> bytes \<Rightarrow> 'g option" where
  "deserialize_g1 cv data = (if length data < G1_LENGTH then None else cv_decompress1 cv (take G1_LENGTH data))"

definition deserialize_g2 :: "('f, 'g, 'h, 't) curve \<Rightarrow> bytes \<Rightarrow> 'h option" where
  "deserialize_g2 cv data = (if length data < G2_LENGTH then None else cv_decompress2 cv (take G2_LENGTH data))"

definition deserialize_scalar :: "('f, 'g, 'h, 't) curve \<Rightarrow> bytes \<Rightarrow> 'f option" where
  "deserialize_scalar cv data =
     (if length data < SCALAR_LENGTH then None else cv_from_be cv (take SCALAR_LENGTH data))"

text \<open>\<open>decode(&data[from..from + len])\<close>.\<close>

definition at_offset :: "(bytes \<Rightarrow> 'a option) \<Rightarrow> nat \<Rightarrow> nat \<Rightarrow> bytes \<Rightarrow> 'a option result" where
  "at_offset decode from len data =
     (if length data < from + len then panic else Ok (decode (take len (drop from data))))"

definition credential_point :: "('f, 'g, 'h, 't) curve \<Rightarrow> nat \<Rightarrow> bytes \<Rightarrow> 'g option result" where
  "credential_point cv i cred = at_offset (deserialize_g1 cv) (i * G1_LENGTH) G1_LENGTH cred"

definition credential_points ::
  "('f, 'g, 'h, 't) curve \<Rightarrow> bytes \<Rightarrow> 'b \<Rightarrow> ('g \<times> 'g \<times> 'g \<times> 'g \<Rightarrow> 'b result) \<Rightarrow> 'b result" where
  "credential_points cv cred d k =
     or_return (credential_point cv 0 cred) d (\<lambda>pa.
     or_return (credential_point cv 1 cred) d (\<lambda>pb.
     or_return (credential_point cv 2 cred) d (\<lambda>pc.
     or_return (credential_point cv 3 cred) d (\<lambda>pd. k (pa, pb, pc, pd)))))"

definition serialize_credential :: "('f, 'g, 'h, 't) curve \<Rightarrow> 'g \<Rightarrow> 'g \<Rightarrow> 'g \<Rightarrow> 'g \<Rightarrow> bytes" where
  "serialize_credential cv a b c d =
     cv_compress1 cv a @ cv_compress1 cv b @ cv_compress1 cv c @ cv_compress1 cv d"

definition gpk_get_x :: "('f, 'g, 'h, 't) curve \<Rightarrow> bytes \<Rightarrow> 'h option result" where
  "gpk_get_x cv gpk = at_offset (deserialize_g2 cv) 0 G2_LENGTH gpk"

definition gpk_get_y :: "('f, 'g, 'h, 't) curve \<Rightarrow> bytes \<Rightarrow> 'h option result" where
  "gpk_get_y cv gpk = at_offset (deserialize_g2 cv) G2_LENGTH G2_LENGTH gpk"

definition sig_get_scalar :: "('f, 'g, 'h, 't) curve \<Rightarrow> nat \<Rightarrow> bytes \<Rightarrow> 'f option result" where
  "sig_get_scalar cv offset sig = at_offset (deserialize_scalar cv) offset 32 sig"

definition sig_get_point :: "('f, 'g, 'h, 't) curve \<Rightarrow> nat \<Rightarrow> bytes \<Rightarrow> 'g option result" where
  "sig_get_point cv i sig = at_offset (deserialize_g1 cv) (64 + i * G1_LENGTH) G1_LENGTH sig"

definition sig_get_k :: "('f, 'g, 'h, 't) curve \<Rightarrow> bytes \<Rightarrow> 'g option result" where
  "sig_get_k cv sig =
     (if length sig < SIGNATURE_WITH_NYM_LENGTH then Ok None
      else at_offset (deserialize_g1 cv) SIGNATURE_LENGTH G1_LENGTH sig)"

subsection \<open>Challenges\<close>

definition schnorr_hash_member :: "('f, 'g, 'h, 't) curve \<Rightarrow> 'g \<Rightarrow> 'g \<Rightarrow> 'g \<Rightarrow> bytes \<Rightarrow> 'f" where
  "schnorr_hash_member cv u basepoint q nonce =
     cv_hash_scalar cv (cv_compress1 cv u @ cv_compress1 cv basepoint @ cv_compress1 cv q @ nonce)"

definition schnorr_hash_credential :: "('f, 'g, 'h, 't) curve \<Rightarrow> 'g \<Rightarrow> 'g \<Rightarrow> 'g \<Rightarrow> 'f" where
  "schnorr_hash_credential cv b_point pk_q d =
     cv_hash_scalar cv (cv_compress1 cv b_point @ cv_compress1 cv pk_q @ cv_compress1 cv d)"

text \<open>The challenge of a signature: the commitment, the base and the key, the message, the pseudonym's part
  when there is a basename (its commitment, the pseudonym, the hashed basename), then the nonce.\<close>

definition nym_part :: "('f, 'g, 'h, 't) curve \<Rightarrow> ('g \<times> 'g \<times> 'g) option \<Rightarrow> bytes" where
  "nym_part cv nym =
     (case nym of None \<Rightarrow> [] | Some (k_u, k, base) \<Rightarrow> cv_compress1 cv k_u @ cv_compress1 cv k @ cv_compress1 cv base)"

definition signature_challenge ::
  "('f, 'g, 'h, 't) curve \<Rightarrow> 'g \<Rightarrow> 'g \<Rightarrow> 'g \<Rightarrow> bytes \<Rightarrow> ('g \<times> 'g \<times> 'g) option \<Rightarrow> 'f \<Rightarrow> 'f" where
  "signature_challenge cv u b d msg nym n =
     (let c2 = cv_hash_scalar cv (cv_compress1 cv u @ cv_compress1 cv b @ cv_compress1 cv d @ msg @ nym_part cv nym)
      in cv_hash_scalar cv (cv_to_be cv n @ cv_to_be cv c2))"

subsection \<open>Keys and credentials\<close>

definition generate_wallet_keypair ::
  "('f::field, 'g::ab_group_add, 'h, 't) curve \<Rightarrow> nat \<Rightarrow> bytes \<Rightarrow> (bytes \<times> bytes) option" where
  "generate_wallet_keypair cv draw nonce =
     (if nonce = [] then None
      else
        let sk = cv_random cv draw 0; b = cv_hash_g1 cv nonce; q = cv_mul1 cv b sk;
            r = cv_random cv draw 1; u = cv_mul1 cv b r; c = schnorr_hash_member cv u b q nonce;
            s = r + c * sk; n = cv_random cv draw 2
        in Some (cv_to_be cv sk, cv_compress1 cv q @ cv_to_be cv c @ cv_to_be cv s @ cv_to_be cv n))"

definition generate_issuer_keypair ::
  "('f, 'g, 'h, 't) curve \<Rightarrow> nat \<Rightarrow> bytes \<times> bytes" where
  "generate_issuer_keypair cv draw =
     (let x = cv_random cv draw 0; y = cv_random cv draw 1
      in (cv_to_be cv x @ cv_to_be cv y,
          cv_compress2 cv (cv_mul2 cv (cv_gen2 cv) x) @ cv_compress2 cv (cv_mul2 cv (cv_gen2 cv) y)))"

definition issue_credential ::
  "('f::field, 'g::ab_group_add, 'h, 't) curve \<Rightarrow> nat \<Rightarrow> bytes \<Rightarrow> bytes \<Rightarrow> bytes
    \<Rightarrow> (bytes \<times> bytes) option result" where
  "issue_credential cv draw member_pk isk nonce =
     (if length member_pk < WALLET_PUBLIC_KEY_LENGTH \<or> length isk < ISSUER_SECRET_KEY_LENGTH then Ok None
      else
        or_return (at_offset (deserialize_g1 cv) 0 G1_LENGTH member_pk) None (\<lambda>q.
        or_return (at_offset (deserialize_scalar cv) G1_LENGTH SCALAR_LENGTH member_pk) None (\<lambda>pk_c.
        or_return (at_offset (deserialize_scalar cv) (G1_LENGTH + SCALAR_LENGTH) SCALAR_LENGTH member_pk) None (\<lambda>pk_s.
        let b = cv_hash_g1 cv nonce; u = cv_mul1 cv b pk_s - cv_mul1 cv q pk_c in
        if pk_c \<noteq> schnorr_hash_member cv u b q nonce then Ok None
        else
        or_return (at_offset (deserialize_scalar cv) 0 SCALAR_LENGTH isk) None (\<lambda>x.
        or_return (at_offset (deserialize_scalar cv) SCALAR_LENGTH SCALAR_LENGTH isk) None (\<lambda>y.
        if y = 0 then Ok None
        else
          let a = cv_mul1 cv b (inverse y); d = q; c = cv_mul1 cv (a + d) x;
              r = cv_random cv draw 0; u_sig = cv_mul1 cv b r;
              c_sig = schnorr_hash_credential cv u_sig q d; s_sig = r + c_sig * y
          in Ok (Some (serialize_credential cv a b c d, cv_to_be cv c_sig @ cv_to_be cv s_sig))))))))"

subsection \<open>Signing and verifying\<close>

definition scale_credential :: "('f, 'g, 'h, 't) curve \<Rightarrow> 'f \<Rightarrow> 'g \<times> 'g \<times> 'g \<times> 'g \<Rightarrow> 'g \<times> 'g \<times> 'g \<times> 'g" where
  "scale_credential cv l = (\<lambda>(a, b, c, d). (cv_mul1 cv a l, cv_mul1 cv b l, cv_mul1 cv c l, cv_mul1 cv d l))"

definition assemble_signature ::
  "('f, 'g, 'h, 't) curve \<Rightarrow> 'f \<Rightarrow> 'f \<Rightarrow> 'g \<times> 'g \<times> 'g \<times> 'g \<Rightarrow> 'f \<Rightarrow> 'g option \<Rightarrow> bytes" where
  "assemble_signature cv c s cred n k =
     (case cred of (pa, pb, pc, pd) \<Rightarrow>
        cv_to_be cv c @ cv_to_be cv s @ serialize_credential cv pa pb pc pd @ cv_to_be cv n
        @ (case k of None \<Rightarrow> [] | Some p \<Rightarrow> cv_compress1 cv p))"

text \<open>The part of \<open>sign\<close> after the credential is decoded.\<close>

definition sign_points ::
  "('f::field, 'g::ab_group_add, 'h, 't) curve \<Rightarrow> nat \<Rightarrow> bytes \<Rightarrow> bytes \<Rightarrow> bytes option \<Rightarrow> bool
    \<Rightarrow> 'g \<times> 'g \<times> 'g \<times> 'g \<Rightarrow> bytes option result" where
  "sign_points cv draw msg secret_key bsn randomize_cred points =
     (case deserialize_scalar cv secret_key of
        None \<Rightarrow> Ok None
      | Some sk \<Rightarrow>
          (case (if randomize_cred then scale_credential cv (cv_random cv draw 0) points else points) of (a, b, c, d) \<Rightarrow>
            let r = cv_random cv draw 1; n = cv_random cv draw 2; u = cv_mul1 cv b r;
                nym = map_option (\<lambda>bs. let base = cv_hash_g1 cv bs
                                       in (cv_mul1 cv base r, cv_mul1 cv base sk, base)) bsn;
                sig_c = signature_challenge cv u b d msg nym n;
                sig_s = r + sig_c * sk
            in Ok (Some (assemble_signature cv sig_c sig_s (a, b, c, d) n (map_option (\<lambda>(_, k, _). k) nym)))))"

definition sign ::
  "('f::field, 'g::ab_group_add, 'h, 't) curve \<Rightarrow> nat \<Rightarrow> bytes \<Rightarrow> bytes \<Rightarrow> bytes \<Rightarrow> bytes option \<Rightarrow> bool
    \<Rightarrow> bytes option result" where
  "sign cv draw msg cred secret_key bsn randomize_cred =
     (if msg = [] \<or> cred = [] \<or> secret_key = [] then Ok None
      else if bsn = Some [] then Ok None
      else credential_points cv cred None (sign_points cv draw msg secret_key bsn randomize_cred))"

definition verify ::
  "('f::field, 'g::ab_group_add, 'h::ab_group_add, 't) curve \<Rightarrow> bytes \<Rightarrow> bytes option \<Rightarrow> bytes option \<Rightarrow> bytes
    \<Rightarrow> bytes \<Rightarrow> bool result" where
  "verify cv gpk bsn signing_credential sig msg =
     (if gpk = [] \<or> sig = [] \<or> msg = [] then Ok False
      else if length sig < (if bsn = None then SIGNATURE_LENGTH else SIGNATURE_WITH_NYM_LENGTH) then Ok False
      else
        or_return (gpk_get_x cv gpk) False (\<lambda>x.
        or_return (gpk_get_y cv gpk) False (\<lambda>y.
        or_return (sig_get_scalar cv 0 sig) False (\<lambda>sig_c.
        or_return (sig_get_scalar cv 32 sig) False (\<lambda>sig_s.
        or_return (sig_get_point cv 0 sig) False (\<lambda>r.
        or_return (sig_get_point cv 1 sig) False (\<lambda>s_point.
        or_return (sig_get_point cv 2 sig) False (\<lambda>t.
        or_return (sig_get_point cv 3 sig) False (\<lambda>w.
        or_return (sig_get_scalar cv (64 + 4 * G1_LENGTH) sig) False (\<lambda>n.
        if r = 0 \<or> s_point = 0 \<or> t = 0 \<or> w = 0 then Ok False
        else if (case signing_credential of
                   None \<Rightarrow> False
                 | Some req \<Rightarrow> length req < CREDENTIAL_LENGTH \<or> serialize_credential cv r s_point t w \<noteq> req)
        then Ok False
        else
          let u = cv_mul1 cv s_point sig_s - cv_mul1 cv w sig_c in
          or_return
            (case bsn of
               None \<Rightarrow> Ok (Some None)
             | Some bs \<Rightarrow> or_return (sig_get_k cv sig) None (\<lambda>k.
                 let base = cv_hash_g1 cv bs
                 in Ok (Some (Some (cv_mul1 cv base sig_s - cv_mul1 cv k sig_c, k, base))))) False (\<lambda>nym.
          if sig_c \<noteq> signature_challenge cv u s_point w msg nym n then Ok False
          else if cv_pairing cv r y \<noteq> cv_pairing cv s_point (cv_gen2 cv) then Ok False
          else if cv_pairing cv t (cv_gen2 cv) \<noteq> cv_pairing cv (r + w) x then Ok False
          else Ok True)))))))))))"

definition randomize_credential ::
  "('f, 'g, 'h, 't) curve \<Rightarrow> nat \<Rightarrow> bytes \<Rightarrow> bytes option result" where
  "randomize_credential cv draw cred =
     (if cred = [] then Ok None
      else credential_points cv cred None (\<lambda>points.
        case scale_credential cv (cv_random cv draw 0) points of
          (a, b, c, d) \<Rightarrow> Ok (Some (serialize_credential cv a b c d))))"

definition credential_in_group ::
  "('f, 'g::ab_group_add, 'h::ab_group_add, 't) curve \<Rightarrow> bytes \<Rightarrow> bytes \<Rightarrow> bool result" where
  "credential_in_group cv cred gpk =
     (if cred = [] \<or> gpk = [] then Ok False
      else if length cred < CREDENTIAL_LENGTH \<or> length gpk < ISSUER_GROUP_PUBLIC_KEY_LENGTH then Ok False
      else
        credential_points cv cred False (\<lambda>(a, b, c, d).
        or_return (gpk_get_x cv gpk) False (\<lambda>x.
        or_return (gpk_get_y cv gpk) False (\<lambda>y.
        if a = 0 \<or> b = 0 then Ok False
        else if cv_pairing cv a y \<noteq> cv_pairing cv b (cv_gen2 cv) then Ok False
        else if cv_pairing cv c (cv_gen2 cv) \<noteq> cv_pairing cv (a + d) x then Ok False
        else Ok True))))"

definition verify_split_key_proof ::
  "('f, 'g::ab_group_add, 'h, 't) curve \<Rightarrow> bytes \<Rightarrow> bytes \<Rightarrow> bool" where
  "verify_split_key_proof cv combined_pk card_pk =
     (case deserialize_g1 cv card_pk of
        None \<Rightarrow> False
      | Some card_q \<Rightarrow>
          card_q \<noteq> 0 \<and> G1_LENGTH \<le> length combined_pk \<and>
          (case deserialize_g1 cv (take G1_LENGTH combined_pk) of
             None \<Rightarrow> False
           | Some combined_q \<Rightarrow> card_q \<noteq> combined_q))"

subsection \<open>Decoding what was encoded\<close>

lemma deserialize_prefix [curve_simps]:
  assumes "curve_ok cv"
  shows "deserialize_g1 cv (cv_compress1 cv P @ xs) = Some P"
    and "deserialize_g2 cv (cv_compress2 cv Q @ xs) = Some Q"
    and "deserialize_scalar cv (cv_to_be cv a @ xs) = Some a"
  by (simp_all add: deserialize_g1_def deserialize_g2_def deserialize_scalar_def length_defs
      curve_encodings [OF assms])

lemma deserialize_exact [curve_simps]:
  assumes "curve_ok cv"
  shows "deserialize_g1 cv (cv_compress1 cv P) = Some P"
    and "deserialize_g2 cv (cv_compress2 cv Q) = Some Q"
    and "deserialize_scalar cv (cv_to_be cv a) = Some a"
  using deserialize_prefix [OF assms, where xs = "[]"] by simp_all

text \<open>A getter that finds its bytes at the front, or behind the bytes it skips.\<close>

lemma at_offset_append:
  assumes "length xs = from" "length ys = len"
  shows "at_offset decode from len (xs @ ys @ zs) = Ok (decode ys)"
  using assms by (simp add: at_offset_def)

lemma at_offset_front: "length ys = len \<Longrightarrow> at_offset decode 0 len (ys @ zs) = Ok (decode ys)"
  by (simp add: at_offset_def)

lemma at_offset_whole: "length xs = from \<Longrightarrow> length ys = len \<Longrightarrow> at_offset decode from len (xs @ ys) = Ok (decode ys)"
  by (simp add: at_offset_def)

lemma at_offset_longer:
  "from + len \<le> length xs \<Longrightarrow> at_offset decode from len (xs @ ys) = at_offset decode from len xs"
  by (simp add: at_offset_def)

lemma at_offset_no_panic: "from + len \<le> length xs \<Longrightarrow> at_offset decode from len xs = Ok (decode (take len (drop from xs)))"
  by (simp add: at_offset_def)

lemma length_serialize_credential [curve_simps]:
  "curve_ok cv \<Longrightarrow> length (serialize_credential cv a b c d) = 192"
  by (simp add: serialize_credential_def curve_encodings)

lemma credential_point_serialize:
  assumes "curve_ok cv"
  shows "credential_point cv 0 (serialize_credential cv a b c d @ rest) = Ok (Some a)"
    and "credential_point cv 1 (serialize_credential cv a b c d @ rest) = Ok (Some b)"
    and "credential_point cv 2 (serialize_credential cv a b c d @ rest) = Ok (Some c)"
    and "credential_point cv 3 (serialize_credential cv a b c d @ rest) = Ok (Some d)"
  using at_offset_front [of "cv_compress1 cv a" 48 "deserialize_g1 cv"]
    at_offset_append [of "cv_compress1 cv a" 48 "cv_compress1 cv b" 48 "deserialize_g1 cv"]
    at_offset_append [of "cv_compress1 cv a @ cv_compress1 cv b" 96 "cv_compress1 cv c" 48 "deserialize_g1 cv"]
    at_offset_append [of "cv_compress1 cv a @ cv_compress1 cv b @ cv_compress1 cv c" 144 "cv_compress1 cv d" 48
      "deserialize_g1 cv"]
  by (simp_all add: credential_point_def serialize_credential_def G1_LENGTH_def curve_encodings [OF assms]
      deserialize_exact [OF assms])

lemma credential_points_serialize:
  "curve_ok cv \<Longrightarrow> credential_points cv (serialize_credential cv a b c d @ rest) dflt k = k (a, b, c, d)"
  by (simp add: credential_points_def credential_point_serialize credential_point_serialize(2) [unfolded One_nat_def])

lemmas credential_points_exact = credential_points_serialize [where rest = "[]", unfolded append_Nil2]

lemma gpk_get_serialize:
  assumes "curve_ok cv"
  shows "gpk_get_x cv (cv_compress2 cv X @ cv_compress2 cv Y) = Ok (Some X)"
    and "gpk_get_y cv (cv_compress2 cv X @ cv_compress2 cv Y) = Ok (Some Y)"
  using assms
  by (simp_all add: gpk_get_x_def gpk_get_y_def at_offset_front at_offset_whole length_defs curve_simps)

lemma sig_get_assemble:
  assumes ok: "curve_ok cv" and sig: "sig = assemble_signature cv c s (pa, pb, pc, pd) n k @ junk"
  shows "sig_get_scalar cv 0 sig = Ok (Some c)" "sig_get_scalar cv 32 sig = Ok (Some s)"
    and "sig_get_point cv 0 sig = Ok (Some pa)" "sig_get_point cv 1 sig = Ok (Some pb)"
    and "sig_get_point cv 2 sig = Ok (Some pc)" "sig_get_point cv 3 sig = Ok (Some pd)"
    and "sig_get_scalar cv (64 + 4 * G1_LENGTH) sig = Ok (Some n)"
    and "k = Some p \<Longrightarrow> sig_get_k cv sig = Ok (Some p)"
proof -
  let ?a = "cv_compress1 cv pa" and ?b = "cv_compress1 cv pb" and ?c = "cv_compress1 cv pc" and ?d = "cv_compress1 cv pd"
  let ?h = "cv_to_be cv c @ cv_to_be cv s"
  note dec = curve_encodings [OF ok] deserialize_exact [OF ok]
  note sig_eq = sig [unfolded assemble_signature_def serialize_credential_def split]
  show "sig_get_scalar cv 0 sig = Ok (Some c)"
    using at_offset_front [of "cv_to_be cv c" 32 "deserialize_scalar cv"] by (simp add: sig_get_scalar_def sig_eq dec)
  show "sig_get_scalar cv 32 sig = Ok (Some s)"
    using at_offset_append [of "cv_to_be cv c" 32 "cv_to_be cv s" 32 "deserialize_scalar cv"]
    by (simp add: sig_get_scalar_def sig_eq dec)
  show "sig_get_point cv 0 sig = Ok (Some pa)"
    using at_offset_append [of ?h 64 ?a 48 "deserialize_g1 cv"]
    by (simp add: sig_get_point_def sig_eq dec G1_LENGTH_def)
  show "sig_get_point cv 1 sig = Ok (Some pb)"
    using at_offset_append [of "?h @ ?a" 112 ?b 48 "deserialize_g1 cv"]
    by (simp add: sig_get_point_def sig_eq dec G1_LENGTH_def)
  show "sig_get_point cv 2 sig = Ok (Some pc)"
    using at_offset_append [of "?h @ ?a @ ?b" 160 ?c 48 "deserialize_g1 cv"]
    by (simp add: sig_get_point_def sig_eq dec G1_LENGTH_def)
  show "sig_get_point cv 3 sig = Ok (Some pd)"
    using at_offset_append [of "?h @ ?a @ ?b @ ?c" 208 ?d 48 "deserialize_g1 cv"]
    by (simp add: sig_get_point_def sig_eq dec G1_LENGTH_def)
  show "sig_get_scalar cv (64 + 4 * G1_LENGTH) sig = Ok (Some n)"
    using at_offset_append [of "?h @ ?a @ ?b @ ?c @ ?d" 256 "cv_to_be cv n" 32 "deserialize_scalar cv"]
    by (simp add: sig_get_scalar_def sig_eq dec G1_LENGTH_def)
  show "sig_get_k cv sig = Ok (Some p)" if "k = Some p"
    using at_offset_append [of "?h @ ?a @ ?b @ ?c @ ?d @ cv_to_be cv n" 288 "cv_compress1 cv p" 48 "deserialize_g1 cv"]
    by (simp add: sig_get_k_def sig_eq that dec length_defs)
qed

lemma length_assemble_signature:
  "curve_ok cv \<Longrightarrow> length (assemble_signature cv c s points n k) = (case k of None \<Rightarrow> 288 | Some _ \<Rightarrow> 336)"
  by (auto simp: assemble_signature_def curve_encodings length_serialize_credential split: prod.split option.split)

lemma credential_from_assemble:
  "curve_ok cv \<Longrightarrow> credential_from_signature (assemble_signature cv c s (pa, pb, pc, pd) n k)
     = Some (serialize_credential cv pa pb pc pd)"
  by (simp add: credential_from_signature_def length_assemble_signature length_defs split: option.split)
    (simp add: assemble_signature_def curve_encodings length_serialize_credential)

subsection \<open>Completeness\<close>

text \<open>The credential (A, B, C, D) certifies the key \<open>k\<close> in the group of the issuer's secret (x, y).\<close>

definition certifies ::
  "('f::field, 'g::ab_group_add, 'h, 't) curve \<Rightarrow> 'f \<Rightarrow> 'f \<Rightarrow> 'f \<Rightarrow> 'g \<times> 'g \<times> 'g \<times> 'g \<Rightarrow> bool" where
  "certifies cv x y k = (\<lambda>(a, b, c, d).
     b = cv_mul1 cv a y \<and> c = cv_mul1 cv (a + d) x \<and> d = cv_mul1 cv b k)"

definition proper :: "'g::ab_group_add \<times> 'g \<times> 'g \<times> 'g \<Rightarrow> bool" where
  "proper = (\<lambda>(a, b, c, d). a \<noteq> 0 \<and> b \<noteq> 0 \<and> c \<noteq> 0 \<and> d \<noteq> 0)"

definition group_key :: "('f, 'g, 'h, 't) curve \<Rightarrow> 'f \<Rightarrow> 'f \<Rightarrow> bytes" where
  "group_key cv x y =
     cv_compress2 cv (cv_mul2 cv (cv_gen2 cv) x) @ cv_compress2 cv (cv_mul2 cv (cv_gen2 cv) y)"

lemma group_certifies_scale:
  assumes "group_ok cv" "certifies cv x y k points"
  shows "certifies cv x y k (scale_credential cv l points)"
    and "l \<noteq> 0 \<Longrightarrow> proper points \<Longrightarrow> proper (scale_credential cv l points)"
  using assms
  by (auto simp: certifies_def scale_credential_def proper_def group_laws group_mul1_eq_0_iff mult_ac split: prod.splits)

lemmas certifies_scale = group_certifies_scale [OF curve_group]

text \<open>What \<open>sign\<close> returns: the scaled credential, the challenge of the transcript, Schnorr's answer.\<close>

definition nym_of :: "('f, 'g, 'h, 't) curve \<Rightarrow> 'f \<Rightarrow> 'f \<Rightarrow> bytes option \<Rightarrow> ('g \<times> 'g \<times> 'g) option" where
  "nym_of cv r k bsn = map_option (\<lambda>bs. let base = cv_hash_g1 cv bs in (cv_mul1 cv base r, cv_mul1 cv base k, base)) bsn"

lemma sign_Some:
  assumes "sign cv draw msg (serialize_credential cv pa pb pc pd) sk bsn rand = Ok (Some sig)" "curve_ok cv"
  shows "\<exists>k a b c d r n sc. deserialize_scalar cv sk = Some k \<and> msg \<noteq> [] \<and> bsn \<noteq> Some []
    \<and> (a, b, c, d) = (if rand then scale_credential cv (cv_random cv draw 0) (pa, pb, pc, pd) else (pa, pb, pc, pd))
    \<and> r = cv_random cv draw 1 \<and> n = cv_random cv draw 2
    \<and> sc = signature_challenge cv (cv_mul1 cv b r) b d msg (nym_of cv r k bsn) n
    \<and> sig = assemble_signature cv sc (r + sc * k) (a, b, c, d) n (map_option (\<lambda>bs. cv_mul1 cv (cv_hash_g1 cv bs) k) bsn)"
proof -
  obtain a b c d where points:
    "(if rand then scale_credential cv (cv_random cv draw 0) (pa, pb, pc, pd) else (pa, pb, pc, pd)) = (a, b, c, d)"
    by (cases "if rand then scale_credential cv (cv_random cv draw 0) (pa, pb, pc, pd) else (pa, pb, pc, pd)") auto
  show ?thesis
    using assms(1) points
    by (cases "deserialize_scalar cv sk"; cases bsn)
      (auto simp: sign_def sign_points_def credential_points_exact [OF assms(2)] nym_of_def Let_def
        split: if_splits)
qed

lemma verify_signed:
  assumes ok: "curve_ok cv"
    and cert: "certifies cv x y k (a, b, c, d)" and proper: "proper (a, b, c, d)" and msg: "msg \<noteq> []"
    and sc: "sc = signature_challenge cv (cv_mul1 cv b r) b d msg (nym_of cv r k bsn) n"
    and sig: "sig = assemble_signature cv sc (r + sc * k) (a, b, c, d) n
      (map_option (\<lambda>bs. cv_mul1 cv (cv_hash_g1 cv bs) k) bsn)"
    and req: "req = None \<or> req = Some (serialize_credential cv a b c d)"
  shows "verify cv (group_key cv x y) bsn req sig msg = Ok True"
proof -
  note get = sig_get_assemble [OF ok, of sig _ _ _ _ _ _ _ _ "[]", unfolded append_Nil2, OF sig]
  have len: "length sig = (if bsn = None then 288 else 336)"
    using ok by (auto simp: sig length_assemble_signature split: option.split)
  have gk: "group_key cv x y \<noteq> []" "gpk_get_x cv (group_key cv x y) = Ok (Some (cv_mul2 cv (cv_gen2 cv) x))"
      "gpk_get_y cv (group_key cv x y) = Ok (Some (cv_mul2 cv (cv_gen2 cv) y))"
    using curve_encodings(3) [OF ok, of "cv_mul2 cv (cv_gen2 cv) x"]
    by (auto simp: group_key_def gpk_get_serialize [OF ok])
  have lens: "\<not> length sig < (if bsn = None then SIGNATURE_LENGTH else SIGNATURE_WITH_NYM_LENGTH)" "sig \<noteq> []"
      "\<not> length (serialize_credential cv a b c d) < CREDENTIAL_LENGTH"
    using len by (auto simp: length_defs length_serialize_credential [OF ok] split: if_splits)
  have ne: "a \<noteq> 0" "b \<noteq> 0" "c \<noteq> 0" "d \<noteq> 0" using proper by (auto simp: proper_def)
  have d: "d = cv_mul1 cv b k" and pairs: "b = cv_mul1 cv a y" "c = cv_mul1 cv (a + d) x"
    using cert by (auto simp: certifies_def)
  have u: "cv_mul1 cv b (r + sc * k) - cv_mul1 cv d sc = cv_mul1 cv b r"
    using schnorr_commitment [OF ok] by (simp add: d)
  have nym: "(case bsn of
        None \<Rightarrow> Ok (Some None)
      | Some bs \<Rightarrow> or_return (sig_get_k cv sig) None (\<lambda>q. let base = cv_hash_g1 cv bs
          in Ok (Some (Some (cv_mul1 cv base (r + sc * k) - cv_mul1 cv q sc, q, base)))))
      = Ok (Some (nym_of cv r k bsn))"
    using get(8) schnorr_commitment [OF ok] by (cases bsn) (simp_all add: nym_of_def Let_def)
  have cred: "\<not> (case req of None \<Rightarrow> False
      | Some rq \<Rightarrow> length rq < CREDENTIAL_LENGTH \<or> serialize_credential cv a b c d \<noteq> rq)"
    using req lens by auto
  have "\<not> (a = 0 \<or> b = 0 \<or> c = 0 \<or> d = 0)" using ne by simp
  then show ?thesis
    unfolding verify_def
    by (simp only: gk lens msg get(1-7) or_return_simps cred if_False if_True simp_thms u nym [unfolded Let_def] Let_def
        sc [symmetric] pairing_eq_iff [OF ok] pairs [symmetric])
qed

text \<open>What an issuer's keys, a wallet's keys and the issuance between them give.\<close>

lemma issuer_keypair_bytes:
  "generate_issuer_keypair cv di = (isk, gpk) \<Longrightarrow> \<exists>x y. isk = cv_to_be cv x @ cv_to_be cv y \<and> gpk = group_key cv x y"
  by (auto simp: generate_issuer_keypair_def group_key_def Let_def)

text \<open>A public key with Schnorr's proof for the secret \<open>k\<close>, as both key generations make it.\<close>

definition proves_key :: "('f::field, 'g, 'h, 't) curve \<Rightarrow> bytes \<Rightarrow> 'f \<Rightarrow> bytes \<Rightarrow> bool" where
  "proves_key cv nonce k pk \<longleftrightarrow> (\<exists>r n. let b = cv_hash_g1 cv nonce; q = cv_mul1 cv b k;
       c = schnorr_hash_member cv (cv_mul1 cv b r) b q nonce
     in pk = cv_compress1 cv q @ cv_to_be cv c @ cv_to_be cv (r + c * k) @ cv_to_be cv n)"

lemma wallet_keypair_proves:
  "generate_wallet_keypair cv dw nonce = Some (sk, pk) \<Longrightarrow> \<exists>k. sk = cv_to_be cv k \<and> proves_key cv nonce k pk"
  by (auto simp: generate_wallet_keypair_def proves_key_def Let_def split: if_splits)

lemma issue_credential_proven:
  assumes ok: "curve_ok cv" and wallet: "proves_key cv nonce k pk" and isk: "isk = cv_to_be cv x @ cv_to_be cv y"
  shows "if y = 0 then issue_credential cv draw pk isk nonce = Ok None
     else \<exists>a b c d csig. issue_credential cv draw pk isk nonce = Ok (Some (serialize_credential cv a b c d, csig))
       \<and> certifies cv x y k (a, b, c, d) \<and> b = cv_hash_g1 cv nonce"
proof -
  define b where "b = cv_hash_g1 cv nonce"
  obtain r n c s where pk: "pk = cv_compress1 cv (cv_mul1 cv b k) @ cv_to_be cv c @ cv_to_be cv s @ cv_to_be cv n"
    and c: "c = schnorr_hash_member cv (cv_mul1 cv b r) b (cv_mul1 cv b k) nonce" and s: "s = r + c * k"
    using wallet by (auto simp: proves_key_def Let_def b_def)
  note enc = curve_encodings [OF ok] and dec = deserialize_exact [OF ok]
  have "at_offset (deserialize_g1 cv) 0 48 pk = Ok (Some (cv_mul1 cv b k))"
      "at_offset (deserialize_scalar cv) 48 32 pk = Ok (Some c)" "at_offset (deserialize_scalar cv) 80 32 pk = Ok (Some s)"
    using at_offset_front [of "cv_compress1 cv (cv_mul1 cv b k)" 48 "deserialize_g1 cv"]
      at_offset_append [of "cv_compress1 cv (cv_mul1 cv b k)" 48 "cv_to_be cv c" 32 "deserialize_scalar cv"]
      at_offset_append [of "cv_compress1 cv (cv_mul1 cv b k) @ cv_to_be cv c" 80 "cv_to_be cv s" 32 "deserialize_scalar cv"]
    by (simp_all add: pk enc dec)
  moreover have "at_offset (deserialize_scalar cv) 0 32 isk = Ok (Some x)" "at_offset (deserialize_scalar cv) 32 32 isk = Ok (Some y)"
    by (simp_all add: isk enc dec at_offset_front at_offset_whole)
  moreover have "cv_mul1 cv b s - cv_mul1 cv (cv_mul1 cv b k) c = cv_mul1 cv b r"
    using schnorr_commitment [OF ok] by (simp add: s)
  moreover have "\<not> length pk < 144" "\<not> length isk < 64" by (simp_all add: pk isk enc)
  ultimately have "\<exists>csig. issue_credential cv draw pk isk nonce = (if y = 0 then Ok None else
      let a = cv_mul1 cv b (inverse y); d = cv_mul1 cv b k
      in Ok (Some (serialize_credential cv a b (cv_mul1 cv (a + d) x) d, csig)))"
    by (simp add: issue_credential_def all_lengths Let_def b_def [symmetric] c [symmetric])
  moreover have "certifies cv x y k (cv_mul1 cv b (inverse y), b,
      cv_mul1 cv (cv_mul1 cv b (inverse y) + cv_mul1 cv b k) x, cv_mul1 cv b k)" if "y \<noteq> 0"
    using that by (simp add: certifies_def curve_laws [OF ok])
  ultimately show ?thesis unfolding b_def Let_def by (cases "y = 0") (metis (full_types))+
qed

text \<open>\<open>verify\<close> accepts a signature whose fields decode to points that satisfy the issuer's equations and
  whose challenge is the hash of the recomputed transcript.\<close>

definition accepted_parts ::
  "('f::field, 'g::ab_group_add, 'h, 't) curve \<Rightarrow> bytes \<Rightarrow> 'f \<Rightarrow> 'f \<Rightarrow> 'g \<times> 'g \<times> 'g \<times> 'g \<Rightarrow> bool" where
  "accepted_parts cv sig c s = (\<lambda>(pr, ps, pt, pw).
     sig_get_scalar cv 0 sig = Ok (Some c) \<and> sig_get_scalar cv 32 sig = Ok (Some s)
     \<and> sig_get_point cv 0 sig = Ok (Some pr) \<and> sig_get_point cv 1 sig = Ok (Some ps)
     \<and> sig_get_point cv 2 sig = Ok (Some pt) \<and> sig_get_point cv 3 sig = Ok (Some pw)
     \<and> proper (pr, ps, pt, pw))"

lemma verify_TrueD:
  assumes "verify cv (group_key cv x y) bsn req sig msg = Ok True" "curve_ok cv"
  shows "\<exists>c s pr ps pt pw. accepted_parts cv sig c s (pr, ps, pt, pw)
    \<and> ps = cv_mul1 cv pr y \<and> pt = cv_mul1 cv (pr + pw) x
    \<and> (\<forall>cred. req = Some cred \<longrightarrow> serialize_credential cv pr ps pt pw = cred)"
  using assms
  by (auto simp: verify_def or_return_value group_key_def gpk_get_serialize pairing_eq_iff Let_def accepted_parts_def
      proper_def split: if_splits option.splits)

lemma verify_longer:
  assumes "verify cv gpk bsn req sig msg = Ok True"
  shows "verify cv gpk bsn req (sig @ junk) msg = Ok True"
proof -
  have len: "(if bsn = None then 288 else 336) \<le> length sig" and ne: "gpk \<noteq> []" "sig \<noteq> []" "msg \<noteq> []"
    using assms by (auto simp: verify_def length_defs split: if_splits)
  have "288 \<le> length sig" using len by (auto split: if_splits)
  then have get: "sig_get_scalar cv 0 (sig @ junk) = sig_get_scalar cv 0 sig"
      "sig_get_scalar cv 32 (sig @ junk) = sig_get_scalar cv 32 sig"
      "sig_get_scalar cv (64 + 4 * G1_LENGTH) (sig @ junk) = sig_get_scalar cv (64 + 4 * G1_LENGTH) sig"
      "sig_get_point cv 0 (sig @ junk) = sig_get_point cv 0 sig" "sig_get_point cv 1 (sig @ junk) = sig_get_point cv 1 sig"
      "sig_get_point cv 2 (sig @ junk) = sig_get_point cv 2 sig" "sig_get_point cv 3 (sig @ junk) = sig_get_point cv 3 sig"
    by (simp_all add: sig_get_scalar_def sig_get_point_def at_offset_longer length_defs)
  have k: "sig_get_k cv (sig @ junk) = sig_get_k cv sig" if "bsn \<noteq> None"
    using len that by (auto simp: sig_get_k_def at_offset_longer length_defs)
  have "verify cv gpk bsn req (sig @ junk) msg = verify cv gpk bsn req sig msg"
  proof (cases bsn)
    case None
    then have "\<not> length sig < SIGNATURE_LENGTH" "\<not> length (sig @ junk) < SIGNATURE_LENGTH" "sig @ junk \<noteq> []"
      using len ne by (auto simp: length_defs)
    with None ne show ?thesis unfolding verify_def None by (simp only: get option.case if_True if_False simp_thms)
  next
    case (Some bs)
    then have "\<not> length sig < SIGNATURE_WITH_NYM_LENGTH" "\<not> length (sig @ junk) < SIGNATURE_WITH_NYM_LENGTH"
        "sig @ junk \<noteq> []" "Some bs \<noteq> None" "sig_get_k cv (sig @ junk) = sig_get_k cv sig"
      using len ne k by (auto simp: length_defs)
    with ne show ?thesis unfolding verify_def Some by (simp only: get if_True if_False simp_thms)
  qed
  then show ?thesis using assms by simp
qed

subsection \<open>Exchanging the random generator\<close>

text \<open>The curve with other random scalars: nothing but the draws depends on them.\<close>

definition with_random :: "('f, 'g, 'h, 't) curve \<Rightarrow> (nat \<Rightarrow> 'f) \<Rightarrow> ('f, 'g, 'h, 't) curve" where
  "with_random cv f = cv\<lparr>cv_random := \<lambda>_. f\<rparr>"

lemma with_random_decode [simp]:
  "deserialize_g1 (with_random cv f) = deserialize_g1 cv"
  "deserialize_scalar (with_random cv f) = deserialize_scalar cv"
  by (simp_all add: with_random_def deserialize_g1_def deserialize_scalar_def fun_eq_iff)

lemma curve_ok_with_random [simp]: "curve_ok (with_random cv f) = curve_ok cv"
  by (simp add: with_random_def curve_ok_def group_ok_def)

lemma with_random_simps [simp]:
  "cv_random (with_random cv f) d = f" "cv_mul1 (with_random cv f) = cv_mul1 cv"
  "cv_hash_g1 (with_random cv f) = cv_hash_g1 cv" "cv_compress1 (with_random cv f) = cv_compress1 cv"
  "cv_to_be (with_random cv f) = cv_to_be cv"
  "credential_points (with_random cv f) = (credential_points cv :: bytes \<Rightarrow> 'b \<Rightarrow> _)"
  "cv_hash_scalar (with_random cv f) = cv_hash_scalar cv"
  "scale_credential (with_random cv f) = scale_credential cv"
  "signature_challenge (with_random cv f) = signature_challenge cv"
  "assemble_signature (with_random cv f) = assemble_signature cv"
  by (simp_all add: with_random_decode [unfolded with_random_def] with_random_def credential_points_def
      credential_point_def scale_credential_def signature_challenge_def nym_part_def assemble_signature_def
      serialize_credential_def fun_eq_iff Let_def split: prod.split option.split)

lemma sign_with_random: "sign cv draw msg cred sk bsn rand = sign (with_random cv (cv_random cv draw)) draw msg cred sk bsn rand"
proof -
  have "sign_points (with_random cv (cv_random cv draw)) draw msg sk bsn rand = sign_points cv draw msg sk bsn rand"
    by (auto simp: fun_eq_iff sign_points_def split: option.split)
  then show ?thesis by (simp add: sign_def)
qed

lemma wallet_keypair_with_random:
  "generate_wallet_keypair (with_random cv f) dw nonce = Some (sk, pk) \<Longrightarrow> sk = cv_to_be cv (f 0) \<and> proves_key cv nonce (f 0) pk"
  by (auto simp: generate_wallet_keypair_def proves_key_def schnorr_hash_member_def Let_def split: if_splits)

lemma nym_of_with_random [simp]: "nym_of (with_random cv f) = nym_of cv"
  by (simp add: nym_of_def fun_eq_iff)

lemma sample_certified:
  "certifies sample_curve One3 One3 One3 (One3, One3, Two3, One3)" "proper (One3, One3, Two3, One3)"
  by (simp_all add: certifies_def proper_def sample_curve_def zero_gf3_def)

subsection \<open>Properties of the scheme\<close>

lemma sign_returns:
  assumes ok: "curve_ok cv" and "deserialize_scalar cv sk = Some k" "msg \<noteq> []" "bsn \<noteq> Some []"
  shows "\<exists>sig. sign cv draw msg (serialize_credential cv a b c d) sk bsn rand = Ok (Some sig)"
proof -
  have "sk \<noteq> []" using assms(2) by (auto simp: deserialize_scalar_def SCALAR_LENGTH_def)
  moreover have "serialize_credential cv a b c d \<noteq> []"
    using length_serialize_credential [OF ok, of a b c d] by auto
  ultimately show ?thesis
    using assms
    by (cases "if rand then scale_credential cv (cv_random cv draw 0) (a, b, c, d) else (a, b, c, d)")
      (simp add: sign_def sign_points_def credential_points_exact Let_def)
qed

lemma sign_with_random_returns:
  assumes ok: "curve_ok cv" and sk: "deserialize_scalar cv sk = Some k" and "msg \<noteq> []" "bsn \<noteq> Some []"
  shows "\<exists>sig. sign (with_random cv f) draw msg (serialize_credential cv a b c d) sk bsn rand = Ok (Some sig)"
proof -
  have "serialize_credential (with_random cv f) = serialize_credential cv"
    by (simp add: with_random_def serialize_credential_def fun_eq_iff)
  with sign_returns [of "with_random cv f" sk k msg bsn draw a b c d rand] assms show ?thesis by simp
qed

lemma issued_verifies:
  assumes ok: "curve_ok cv" and wallet: "proves_key cv nonce k pk"
    and issuer: "generate_issuer_keypair cv di = (isk, gpk)"
    and issued: "issue_credential cv dc pk isk nonce = Ok (Some (cred, csig))"
    and cred: "credential_points cv cred False (\<lambda>points. Ok (proper points)) = Ok True"
    and signed: "sign (with_random cv f) ds msg cred (cv_to_be cv k) bsn rand = Ok (Some sig)" and l: "f 0 \<noteq> 0"
  shows "verify cv gpk bsn (if rand then None else Some cred) sig msg = Ok True
    \<and> length sig = (if bsn = None then SIGNATURE_LENGTH else SIGNATURE_WITH_NYM_LENGTH)
    \<and> (\<not> rand \<longrightarrow> credential_from_signature sig = Some cred)"
proof -
  obtain x y where keys: "isk = cv_to_be cv x @ cv_to_be cv y" "gpk = group_key cv x y"
    using issuer_keypair_bytes [OF issuer] by blast
  obtain pa pb pc pd where c: "cred = serialize_credential cv pa pb pc pd"
    and cert: "certifies cv x y k (pa, pb, pc, pd)"
    using issue_credential_proven [OF ok wallet keys(1), of dc] issued by (auto split: if_splits)
  have proper: "proper (pa, pb, pc, pd)"
    using cred by (simp add: c credential_points_exact [OF ok])
  have "serialize_credential (with_random cv f) = serialize_credential cv"
    by (simp add: with_random_def serialize_credential_def fun_eq_iff)
  with signed have "sign (with_random cv f) ds msg (serialize_credential (with_random cv f) pa pb pc pd) (cv_to_be cv k) bsn rand
      = Ok (Some sig)" by (simp add: c)
  from sign_Some [OF this] ok obtain k' a b cc d r n sc where msg: "msg \<noteq> []"
    and k': "deserialize_scalar (with_random cv f) (cv_to_be cv k) = Some k'"
    and pts: "(a, b, cc, d) = (if rand then scale_credential (with_random cv f) (cv_random (with_random cv f) ds 0)
          (pa, pb, pc, pd) else (pa, pb, pc, pd))"
    and sc': "sc = signature_challenge (with_random cv f) (cv_mul1 (with_random cv f) b r) b d msg (nym_of (with_random cv f) r k' bsn) n"
    and sig': "sig = assemble_signature (with_random cv f) sc (r + sc * k') (a, b, cc, d) n
        (map_option (\<lambda>bs. cv_mul1 (with_random cv f) (cv_hash_g1 (with_random cv f) bs) k') bsn)"
    by auto
  have "k' = k" using k' by (simp add: deserialize_exact [OF ok])
  then have sc: "sc = signature_challenge cv (cv_mul1 cv b r) b d msg (nym_of cv r k bsn) n"
    and sig: "sig = assemble_signature cv sc (r + sc * k) (a, b, cc, d) n (map_option (\<lambda>bs. cv_mul1 cv (cv_hash_g1 cv bs) k) bsn)"
    using sc' sig' by simp_all
  have points: "(a, b, cc, d) = (if rand then scale_credential cv (f 0) (pa, pb, pc, pd) else (pa, pb, pc, pd))"
    using pts by (cases rand) simp_all
  have "certifies cv x y k (a, b, cc, d)" "proper (a, b, cc, d)"
    using certifies_scale [OF ok cert, of "f 0"] cert proper l points by (auto split: if_splits)
  note ver = verify_signed [OF ok this msg sc sig]
  show ?thesis
    unfolding keys(2) using ver points
    by (auto simp: sig length_assemble_signature [OF ok] credential_from_assemble [OF ok] c length_defs split: option.split)
qed

text \<open>C8: a wallet whose credential was issued for its own public key signs for the group: every
  signature it makes, with or without randomising the credential and with or without a basename,
  verifies under the issuer's group key, unless a random scalar is zero or the key is one of the two
  for which a point of the credential is the identity. A signature that was not randomised embeds the
  wallet's credential and verifies against it.\<close>

theorem issued_wallet_signs:
  assumes ok: "curve_ok cv" and wallet: "generate_wallet_keypair cv dw nonce = Some (sk, pk)"
    and issuer: "generate_issuer_keypair cv di = (isk, gpk)"
    and issued: "issue_credential cv dc pk isk nonce = Ok (Some (cred, csig))"
    and cred: "credential_points cv cred False (\<lambda>points. Ok (proper points)) = Ok True"
    and signed: "sign cv ds msg cred sk bsn rand = Ok (Some sig)" and l: "cv_random cv ds 0 \<noteq> 0"
  shows "verify cv gpk bsn (if rand then None else Some cred) sig msg = Ok True
    \<and> length sig = (if bsn = None then SIGNATURE_LENGTH else SIGNATURE_WITH_NYM_LENGTH)
    \<and> (\<not> rand \<longrightarrow> credential_from_signature sig = Some cred)"
proof -
  obtain k where k: "sk = cv_to_be cv k" and proves: "proves_key cv nonce k pk" using wallet_keypair_proves [OF wallet] by blast
  have "sign (with_random cv (cv_random cv ds)) ds msg cred (cv_to_be cv k) bsn rand = Ok (Some sig)"
    using signed sign_with_random [of cv ds msg cred sk bsn rand] by (simp add: k)
  from issued_verifies [OF ok proves issuer issued cred this l] show ?thesis .
qed

lemma issued_wallet_signs_witness:
  "\<exists>sk pk isk gpk cred csig sig.
     generate_wallet_keypair sample_curve 0 [5] = Some (sk, pk) \<and> generate_issuer_keypair sample_curve 0 = (isk, gpk)
     \<and> issue_credential sample_curve 0 pk isk [5] = Ok (Some (cred, csig))
     \<and> sign sample_curve 0 [1] cred sk (Some [2]) True = Ok (Some sig)
     \<and> verify sample_curve gpk (Some [2]) None sig [1] = Ok True"
proof -
  obtain sk pk where w: "generate_wallet_keypair sample_curve 0 [5] = Some (sk, pk)" and sk: "sk = cv_to_be sample_curve One3"
    by (simp add: generate_wallet_keypair_def sample_curve_def Let_def)
  obtain isk gpk where i: "generate_issuer_keypair sample_curve 0 = (isk, gpk)"
    and isk: "isk = cv_to_be sample_curve One3 @ cv_to_be sample_curve One3"
    by (simp add: generate_issuer_keypair_def sample_curve_def Let_def)
  have proves: "proves_key sample_curve [5] One3 pk"
    using w wallet_keypair_proves [OF w] deserialize_exact(3) [OF sample_curve_ok] by (metis option.inject sk)
  have "(One3 :: gf3) \<noteq> 0" by (simp add: zero_gf3_def)
  with issue_credential_proven [OF sample_curve_ok proves isk, of 0] obtain a b c d csig where
    cred: "issue_credential sample_curve 0 pk isk [5] = Ok (Some (serialize_credential sample_curve a b c d, csig))"
    and cert: "certifies sample_curve One3 One3 One3 (a, b, c, d)" and b: "b = cv_hash_g1 sample_curve [5]"
    by auto
  have "proper (a, b, c, d)"
    using cert b by (cases a) (auto simp: certifies_def proper_def sample_curve_def zero_gf3_def)
  then have proper: "credential_points sample_curve (serialize_credential sample_curve a b c d) False (\<lambda>p. Ok (proper p)) = Ok True"
    by (simp add: credential_points_exact)
  obtain sig where sig: "sign sample_curve 0 [1] (serialize_credential sample_curve a b c d) sk (Some [2]) True = Ok (Some sig)"
    using sign_returns [OF sample_curve_ok deserialize_exact(3) [OF sample_curve_ok], of "[1]" "Some [2]" 0 a b c d One3 True]
    by (auto simp: sk)
  have "cv_random sample_curve 0 0 \<noteq> 0" by (simp add: sample_curve_def zero_gf3_def)
  from issued_wallet_signs [OF sample_curve_ok w i cred proper sig this] w i cred sig show ?thesis by auto
qed

text \<open>the pseudonym links exactly the signatures of one key: under one basename that does not hash
  to the identity, two signatures carry the same pseudonym if and only if their secret keys are
  equal, whatever their messages, credentials and random scalars.\<close>

theorem pseudonym_links_key:
  assumes ok: "curve_ok cv" and base: "cv_hash_g1 cv bs \<noteq> 0"
    and s1: "sign cv d1 m1 (serialize_credential cv a1 b1 c1 e1) (cv_to_be cv k1) (Some bs) rand1 = Ok (Some sig1)"
    and s2: "sign cv d2 m2 (serialize_credential cv a2 b2 c2 e2) (cv_to_be cv k2) (Some bs) rand2 = Ok (Some sig2)"
  shows "sig_get_k cv sig1 = sig_get_k cv sig2 \<longleftrightarrow> k1 = k2"
proof -
  have nym: "sig_get_k cv sig = Ok (Some (cv_mul1 cv (cv_hash_g1 cv bs) k))"
    if signed: "sign cv d m (serialize_credential cv a b c e) (cv_to_be cv k) (Some bs) rand = Ok (Some sig)"
    for d m a b c e k rand sig
  proof -
    from sign_Some [OF signed ok] obtain k' a' b' c' d' r n sc where "deserialize_scalar cv (cv_to_be cv k) = Some k'"
      and sig: "sig = assemble_signature cv sc (r + sc * k') (a', b', c', d') n
        (map_option (\<lambda>bs. cv_mul1 cv (cv_hash_g1 cv bs) k') (Some bs))"
      by blast
    then have "sig = assemble_signature cv sc (r + sc * k) (a', b', c', d') n (Some (cv_mul1 cv (cv_hash_g1 cv bs) k)) @ []"
      by (simp add: deserialize_exact [OF ok])
    from sig_get_assemble(8) [OF ok this refl] show ?thesis .
  qed
  show ?thesis using nym [OF s1] nym [OF s2] mul1_scalar_inj [OF ok base] by simp
qed

lemma pseudonym_links_key_witness:
  "\<exists>sig1 sig2. sign sample_curve 0 [1] (serialize_credential sample_curve One3 One3 Two3 One3) (cv_to_be sample_curve One3) (Some [2]) False
        = Ok (Some sig1)
     \<and> sign sample_curve 0 [3] (serialize_credential sample_curve One3 One3 Two3 One3) (cv_to_be sample_curve Two3) (Some [2]) True
        = Ok (Some sig2)
     \<and> sig_get_k sample_curve sig1 \<noteq> sig_get_k sample_curve sig2"
proof -
  obtain sig1 sig2 where s:
    "sign sample_curve 0 [1] (serialize_credential sample_curve One3 One3 Two3 One3) (cv_to_be sample_curve One3) (Some [2]) False
      = Ok (Some sig1)"
    "sign sample_curve 0 [3] (serialize_credential sample_curve One3 One3 Two3 One3) (cv_to_be sample_curve Two3) (Some [2]) True
      = Ok (Some sig2)"
    using sign_returns [OF sample_curve_ok deserialize_exact(3) [OF sample_curve_ok], of "[1]" "Some [2]" 0]
      sign_returns [OF sample_curve_ok deserialize_exact(3) [OF sample_curve_ok], of "[3]" "Some [2]" 0] by (metis list.distinct(1) option.inject)
  have "cv_hash_g1 sample_curve [2] \<noteq> 0" by (simp add: sample_curve_def zero_gf3_def)
  from pseudonym_links_key [OF sample_curve_ok this s] s show ?thesis by auto
qed

text \<open>an accepted signature stays accepted when bytes are appended to it: its length is only bounded
  from below and the fields are read from the front, so whoever holds a signature can make others
  that verify for the same message.\<close>

theorem signature_malleable:
  "verify cv gpk bsn req sig msg = Ok True \<Longrightarrow> verify cv gpk bsn req (sig @ junk) msg = Ok True"
  by (rule verify_longer)

lemma signature_malleable_witness:
  "\<exists>sig. verify sample_curve (group_key sample_curve One3 One3) None None sig [1] = Ok True
     \<and> verify sample_curve (group_key sample_curve One3 One3) None None (sig @ [0]) [1] = Ok True"
proof -
  from verify_signed [OF sample_curve_ok sample_certified _ refl refl, where msg = "[1]" and bsn = None and r = One3 and n = One3 and req = None]
  obtain sig where "verify sample_curve (group_key sample_curve One3 One3) None None sig [1] = Ok True" by auto
  with signature_malleable [OF this, of "[0]"] show ?thesis by blast
qed



text \<open>a credential of four encoded points is in the group exactly when its first two points are not
  the identity and the points satisfy the issuer's two equations.\<close>

theorem credential_in_group_iff:
  assumes ok: "curve_ok cv"
  shows "credential_in_group cv (serialize_credential cv a b c d) (group_key cv x y) = Ok True \<longleftrightarrow>
    a \<noteq> 0 \<and> b \<noteq> 0 \<and> b = cv_mul1 cv a y \<and> c = cv_mul1 cv (a + d) x"
proof -
  have "serialize_credential cv a b c d \<noteq> []" "group_key cv x y \<noteq> []"
      "\<not> length (serialize_credential cv a b c d) < 192" "\<not> length (group_key cv x y) < 192"
    using length_serialize_credential [OF ok, of a b c d] curve_encodings(3) [OF ok]
    by (auto simp: group_key_def simp flip: length_0_conv)
  then show ?thesis
    by (auto simp: credential_in_group_def all_lengths pairing_eq_iff [OF ok] credential_points_exact [OF ok]
        group_key_def gpk_get_serialize [OF ok])
qed

lemma credential_in_group_iff_witness:
  "credential_in_group sample_curve (serialize_credential sample_curve One3 One3 Two3 One3) (group_key sample_curve One3 One3) = Ok True"
  using credential_in_group_iff [OF sample_curve_ok, of One3 One3 Two3 One3 One3 One3]
  by (simp add: sample_curve_def zero_gf3_def)

text \<open>the split-key proof proves nothing about the wallet's key: any encoded point that is not the
  identity passes as the card's share of every wallet key but the one with that very point. A wallet
  without a card passes with the curve's generator.\<close>

theorem split_key_proof_unrelated:
  assumes ok: "curve_ok cv" and wallet: "generate_wallet_keypair cv dw nonce = Some (sk, pk)"
    and "P \<noteq> 0" "P \<noteq> cv_mul1 cv (cv_hash_g1 cv nonce) (cv_random cv dw 0)"
  shows "verify_split_key_proof cv pk (cv_compress1 cv P @ junk)"
proof -
  obtain rest where pk: "pk = cv_compress1 cv (cv_mul1 cv (cv_hash_g1 cv nonce) (cv_random cv dw 0)) @ rest"
    using wallet by (auto simp: generate_wallet_keypair_def Let_def split: if_splits)
  then show ?thesis
    using assms by (simp add: verify_split_key_proof_def deserialize_prefix [OF ok] deserialize_exact [OF ok]
        curve_encodings [OF ok] G1_LENGTH_def)
qed

lemma split_key_proof_unrelated_witness:
  "\<exists>sk pk. generate_wallet_keypair sample_curve 0 [5] = Some (sk, pk)
     \<and> verify_split_key_proof sample_curve pk (cv_compress1 sample_curve Two3)"
proof -
  obtain sk pk where w: "generate_wallet_keypair sample_curve 0 [5] = Some (sk, pk)"
    by (simp add: generate_wallet_keypair_def sample_curve_def Let_def)
  have "Two3 \<noteq> 0" "Two3 \<noteq> cv_mul1 sample_curve (cv_hash_g1 sample_curve [5]) (cv_random sample_curve 0 0)"
    by (simp_all add: sample_curve_def zero_gf3_def)
  from split_key_proof_unrelated [OF sample_curve_ok w this, of "[]"] w show ?thesis by auto
qed

end
