(* ===== verification/EcdaaSplit.thy ===== *)
theory EcdaaSplit
  imports Ecdaa Token
begin

section \<open>Signing with a smart card (\<open>v1::split\<close>)\<close>

text \<open>
  The wallet's key is the sum of a share on a smart card and a share on the host. The card is the trait
  \<open>SmartCard\<close>: a record of its operations over a card state \<open>'c\<close>, each of which returns the new state.
  \<open>MockCard\<close> is the implementation in the repository. The contract of the trait, that a card with a share
  answers Schnorr's challenge for its commitment, is the locale \<open>share_card\<close>, interpreted on \<open>MockCard\<close>; what
  the host computes with any such card is proved in the locale.
\<close>

record sign_commitment =
  cs_u_card :: bytes
  cs_k_card :: "bytes option"
  cs_k_u_card :: "bytes option"

record 'c smart_card =
  sc_public_key_share :: "'c \<Rightarrow> bytes \<Rightarrow> bytes result"
  sc_sign_commit :: "'c \<Rightarrow> bytes \<Rightarrow> bytes option \<Rightarrow> sign_commitment option \<times> 'c"
  sc_sign_respond :: "'c \<Rightarrow> bytes \<Rightarrow> bytes option \<times> 'c"
  sc_join_commit :: "'c \<Rightarrow> bytes \<Rightarrow> bytes option \<times> 'c"
  sc_join_respond :: "'c \<Rightarrow> bytes \<Rightarrow> bytes option \<times> 'c"

subsection \<open>The mock card\<close>

text \<open>\<open>mc_random\<close> is the card's random generator and \<open>mc_draws\<close> counts the scalars drawn from it.\<close>

record 'f mock_card =
  mc_card_sk :: 'f
  mc_r_card :: "'f option"
  mc_random :: "nat \<Rightarrow> 'f"
  mc_draws :: nat

definition mock_public_key_share ::
  "('f, 'g, 'h, 't) curve \<Rightarrow> 'f mock_card \<Rightarrow> bytes \<Rightarrow> bytes result" where
  "mock_public_key_share cv m base =
     and_then (unwrap (deserialize_g1 cv base)) (\<lambda>b. Ok (cv_compress1 cv (cv_mul1 cv b (mc_card_sk m))))"

definition mock_draw :: "'f mock_card \<Rightarrow> 'f \<times> 'f mock_card" where
  "mock_draw m =
     (let r = mc_random m (mc_draws m) in (r, m\<lparr>mc_r_card := Some r, mc_draws := Suc (mc_draws m)\<rparr>))"

definition mock_sign_commit ::
  "('f, 'g, 'h, 't) curve \<Rightarrow> 'f mock_card \<Rightarrow> bytes \<Rightarrow> bytes option \<Rightarrow> sign_commitment option \<times> 'f mock_card" where
  "mock_sign_commit cv m s_point basename_base =
     (case deserialize_g1 cv s_point of
        None \<Rightarrow> (None, m)
      | Some s \<Rightarrow>
          (case mock_draw m of (r, m1) \<Rightarrow>
             let u = cv_compress1 cv (cv_mul1 cv s r) in
             case basename_base of
               None \<Rightarrow> (Some \<lparr>cs_u_card = u, cs_k_card = None, cs_k_u_card = None\<rparr>, m1)
             | Some bytes \<Rightarrow>
                 (case deserialize_g1 cv bytes of
                    None \<Rightarrow> (None, m1)
                  | Some base \<Rightarrow>
                      (Some \<lparr>cs_u_card = u, cs_k_card = Some (cv_compress1 cv (cv_mul1 cv base (mc_card_sk m))),
                             cs_k_u_card = Some (cv_compress1 cv (cv_mul1 cv base r))\<rparr>, m1))))"

definition mock_respond ::
  "('f::field, 'g, 'h, 't) curve \<Rightarrow> 'f mock_card \<Rightarrow> bytes \<Rightarrow> bytes option \<times> 'f mock_card" where
  "mock_respond cv m challenge =
     (case deserialize_scalar cv challenge of
        None \<Rightarrow> (None, m)
      | Some c \<Rightarrow>
          (case mc_r_card m of
             None \<Rightarrow> (None, m)
           | Some r \<Rightarrow> (Some (cv_to_be cv (r + c * mc_card_sk m)), m\<lparr>mc_r_card := None\<rparr>)))"

definition mock_join_commit ::
  "('f, 'g, 'h, 't) curve \<Rightarrow> 'f mock_card \<Rightarrow> bytes \<Rightarrow> bytes option \<times> 'f mock_card" where
  "mock_join_commit cv m base =
     (case deserialize_g1 cv base of
        None \<Rightarrow> (None, m)
      | Some b \<Rightarrow> (case mock_draw m of (r, m1) \<Rightarrow> (Some (cv_compress1 cv (cv_mul1 cv b r)), m1)))"

definition mock_card_ops :: "('f::field, 'g, 'h, 't) curve \<Rightarrow> 'f mock_card smart_card" where
  "mock_card_ops cv = \<lparr>sc_public_key_share = mock_public_key_share cv, sc_sign_commit = mock_sign_commit cv,
     sc_sign_respond = mock_respond cv, sc_join_commit = mock_join_commit cv, sc_join_respond = mock_respond cv\<rparr>"

subsection \<open>The host's side\<close>

text \<open>The pseudonym's part of the transcript from the card's and the host's contributions: \<open>None\<close> when the
  card left one out or one does not decode.\<close>

definition combine_nym ::
  "('f::field, 'g::ab_group_add, 'h, 't) curve \<Rightarrow> sign_commitment \<Rightarrow> 'f \<Rightarrow> 'f \<Rightarrow> 'g option
    \<Rightarrow> ('g \<times> 'g \<times> 'g) option option" where
  "combine_nym cv cm h_sk r_host bsn_base =
     (case bsn_base of
        None \<Rightarrow> Some None
      | Some base \<Rightarrow>
          (case Option.bind (cs_k_card cm) (deserialize_g1 cv) of
             None \<Rightarrow> None
           | Some k_card \<Rightarrow>
               (case Option.bind (cs_k_u_card cm) (deserialize_g1 cv) of
                  None \<Rightarrow> None
                | Some k_u_card \<Rightarrow>
                    Some (Some (k_u_card + cv_mul1 cv base r_host, k_card + cv_mul1 cv base h_sk, base)))))"

definition sign_split ::
  "('f::field, 'g::ab_group_add, 'h, 't) curve \<Rightarrow> 'c smart_card \<Rightarrow> nat \<Rightarrow> 'c \<Rightarrow> bytes \<Rightarrow> bytes \<Rightarrow> bytes
    \<Rightarrow> bytes option \<Rightarrow> bool \<Rightarrow> bytes option result \<times> 'c" where
  "sign_split cv ops draw dev host_sk msg cred bsn randomize_cred =
     (if msg = [] \<or> cred = [] \<or> host_sk = [] then (Ok None, dev)
      else if bsn = Some [] then (Ok None, dev)
      else case credential_points cv cred None (\<lambda>ps. Ok (Some ps)) of
        Inl f \<Rightarrow> (Inl f, dev)
      | Inr None \<Rightarrow> (Ok None, dev)
      | Inr (Some ps) \<Rightarrow>
          (case deserialize_scalar cv host_sk of
             None \<Rightarrow> (Ok None, dev)
           | Some h_sk \<Rightarrow>
               (case (if randomize_cred then scale_credential cv (cv_random cv draw 0) ps else ps) of (a, b, c, d) \<Rightarrow>
                let bsn_base = map_option (cv_hash_g1 cv) bsn in
                case sc_sign_commit ops dev (cv_compress1 cv b) (map_option (cv_compress1 cv) bsn_base) of
                  (None, dev1) \<Rightarrow> (Ok None, dev1)
                | (Some cm, dev1) \<Rightarrow>
                    (case deserialize_g1 cv (cs_u_card cm) of
                       None \<Rightarrow> (Ok None, dev1)
                     | Some u_card \<Rightarrow>
                         let r_host = cv_random cv draw 1; u = u_card + cv_mul1 cv b r_host in
                         case combine_nym cv cm h_sk r_host bsn_base of
                           None \<Rightarrow> (Ok None, dev1)
                         | Some nym \<Rightarrow>
                             let n = cv_random cv draw 2; sig_c = signature_challenge cv u b d msg nym n in
                             (case sc_sign_respond ops dev1 (cv_to_be cv sig_c) of
                                (None, dev2) \<Rightarrow> (Ok None, dev2)
                              | (Some resp, dev2) \<Rightarrow>
                                  (case deserialize_scalar cv resp of
                                     None \<Rightarrow> (Ok None, dev2)
                                   | Some s_card \<Rightarrow>
                                       let sig_s = s_card + (r_host + sig_c * h_sk)
                                       in (Ok (Some (assemble_signature cv sig_c sig_s (a, b, c, d) n
                                             (map_option (\<lambda>(_, k, _). k) nym))), dev2)))))))"

text \<open>The same with errors told apart for the caller and a swap authorisation. Both branches on the
  authorisation make the same call of the card.\<close>

definition other_err :: "(smart_card_error + 'a) result" where "other_err = Ok (Inl (Card_Other 0))"

definition sign_split_ext ::
  "('f::field, 'g::ab_group_add, 'h, 't) curve \<Rightarrow> 'c smart_card \<Rightarrow> nat \<Rightarrow> 'c \<Rightarrow> bytes \<Rightarrow> bytes \<Rightarrow> bytes
    \<Rightarrow> bytes option \<Rightarrow> bool \<Rightarrow> swap_authorization option \<Rightarrow> (smart_card_error + bytes) result \<times> 'c" where
  "sign_split_ext cv ops draw dev host_sk msg cred bsn randomize_cred swap_auth =
     (if msg = [] \<or> cred = [] \<or> host_sk = [] then (other_err, dev)
      else if bsn = Some [] then (other_err, dev)
      else case credential_points cv cred None (\<lambda>ps. Ok (Some ps)) of
        Inl f \<Rightarrow> (Inl f, dev)
      | Inr None \<Rightarrow> (other_err, dev)
      | Inr (Some ps) \<Rightarrow>
          (case deserialize_scalar cv host_sk of
             None \<Rightarrow> (other_err, dev)
           | Some h_sk \<Rightarrow>
               (case (if randomize_cred then scale_credential cv (cv_random cv draw 0) ps else ps) of (a, b, c, d) \<Rightarrow>
                let bsn_base = map_option (cv_hash_g1 cv) bsn in
                case (case swap_auth of
                        Some auth \<Rightarrow> sc_sign_commit ops dev (cv_compress1 cv b) (map_option (cv_compress1 cv) bsn_base)
                      | None \<Rightarrow> sc_sign_commit ops dev (cv_compress1 cv b) (map_option (cv_compress1 cv) bsn_base)) of
                  (None, dev1) \<Rightarrow> (other_err, dev1)
                | (Some cm, dev1) \<Rightarrow>
                    (case deserialize_g1 cv (cs_u_card cm) of
                       None \<Rightarrow> (other_err, dev1)
                     | Some u_card \<Rightarrow>
                         let r_host = cv_random cv draw 1; u = u_card + cv_mul1 cv b r_host in
                         case combine_nym cv cm h_sk r_host bsn_base of
                           None \<Rightarrow> (other_err, dev1)
                         | Some nym \<Rightarrow>
                             let n = cv_random cv draw 2; sig_c = signature_challenge cv u b d msg nym n in
                             (case sc_sign_respond ops dev1 (cv_to_be cv sig_c) of
                                (None, dev2) \<Rightarrow> (other_err, dev2)
                              | (Some resp, dev2) \<Rightarrow>
                                  (case deserialize_scalar cv resp of
                                     None \<Rightarrow> (other_err, dev2)
                                   | Some s_card \<Rightarrow>
                                       let sig_s = s_card + (r_host + sig_c * h_sk)
                                       in (Ok (Inr (assemble_signature cv sig_c sig_s (a, b, c, d) n
                                             (map_option (\<lambda>(_, k, _). k) nym))), dev2)))))))"

subsection \<open>The blind join\<close>

definition wallet_public_key :: "('f, 'g, 'h, 't) curve \<Rightarrow> 'g \<Rightarrow> 'f \<Rightarrow> 'f \<Rightarrow> 'f \<Rightarrow> bytes" where
  "wallet_public_key cv q c s n = cv_compress1 cv q @ cv_to_be cv c @ cv_to_be cv s @ cv_to_be cv n"

definition generate_split_wallet_keypair ::
  "('f::field, 'g::ab_group_add, 'h, 't) curve \<Rightarrow> 'c smart_card \<Rightarrow> nat \<Rightarrow> 'c \<Rightarrow> bytes
    \<Rightarrow> (bytes \<times> bytes) option result \<times> 'c" where
  "generate_split_wallet_keypair cv ops draw dev nonce =
     (if nonce = [] then (Ok None, dev)
      else
        let b = cv_hash_g1 cv nonce in
        case sc_public_key_share ops dev (cv_compress1 cv b) of
          Inl f \<Rightarrow> (Inl f, dev)
        | Inr share \<Rightarrow>
            (case deserialize_g1 cv share of
               None \<Rightarrow> (Ok None, dev)
             | Some q_card \<Rightarrow>
                 let host_sk = cv_random cv draw 0; q = q_card + cv_mul1 cv b host_sk in
                 (case sc_join_commit ops dev (cv_compress1 cv b) of
                    (None, dev1) \<Rightarrow> (Ok None, dev1)
                  | (Some u_bytes, dev1) \<Rightarrow>
                      (case deserialize_g1 cv u_bytes of
                         None \<Rightarrow> (Ok None, dev1)
                       | Some u_card \<Rightarrow>
                           let r_host = cv_random cv draw 1; u = u_card + cv_mul1 cv b r_host;
                               c = schnorr_hash_member cv u b q nonce in
                           (case sc_join_respond ops dev1 (cv_to_be cv c) of
                              (None, dev2) \<Rightarrow> (Ok None, dev2)
                            | (Some s_bytes, dev2) \<Rightarrow>
                                (case deserialize_scalar cv s_bytes of
                                   None \<Rightarrow> (Ok None, dev2)
                                 | Some s_card \<Rightarrow>
                                     (Ok (Some (cv_to_be cv host_sk,
                                        wallet_public_key cv q c (s_card + (r_host + c * host_sk)) (cv_random cv draw 2))),
                                      dev2)))))))"

definition split_base_point :: "('f, 'g, 'h, 't) curve \<Rightarrow> bytes \<Rightarrow> bytes" where
  "split_base_point cv nonce = cv_compress1 cv (cv_hash_g1 cv nonce)"

text \<open>The same in two calls, for a host that talks to the card elsewhere.\<close>

definition split_join_host_commit_and_challenge ::
  "('f, 'g::ab_group_add, 'h, 't) curve \<Rightarrow> nat \<Rightarrow> bytes \<Rightarrow> bytes \<Rightarrow> bytes
    \<Rightarrow> (bytes \<times> bytes \<times> bytes \<times> bytes) option" where
  "split_join_host_commit_and_challenge cv draw nonce q_card_bytes u_card_bytes =
     (let b = cv_hash_g1 cv nonce in
      case (deserialize_g1 cv q_card_bytes, deserialize_g1 cv u_card_bytes) of
        (Some q_card, Some u_card) \<Rightarrow>
          let host_sk = cv_random cv draw 0; q = q_card + cv_mul1 cv b host_sk;
              r_host = cv_random cv draw 1; u = u_card + cv_mul1 cv b r_host;
              c = schnorr_hash_member cv u b q nonce
          in Some (cv_to_be cv host_sk, cv_to_be cv r_host, cv_to_be cv c, cv_compress1 cv q)
      | _ \<Rightarrow> None)"

definition split_join_finalize ::
  "('f::field, 'g::ab_group_add, 'h, 't) curve \<Rightarrow> nat \<Rightarrow> bytes \<Rightarrow> bytes \<Rightarrow> bytes \<Rightarrow> bytes \<Rightarrow> bytes \<Rightarrow> bytes
    \<Rightarrow> bytes option" where
  "split_join_finalize cv draw nonce q_card_bytes host_sk_bytes host_r_bytes c_bytes s_card_bytes =
     (case (deserialize_g1 cv q_card_bytes, deserialize_scalar cv host_sk_bytes) of
        (Some q_card, Some host_sk) \<Rightarrow>
          (case (deserialize_scalar cv host_r_bytes, deserialize_scalar cv c_bytes, deserialize_scalar cv s_card_bytes) of
             (Some host_r, Some c, Some s_card) \<Rightarrow>
               Some (wallet_public_key cv (q_card + cv_mul1 cv (cv_hash_g1 cv nonce) host_sk) c
                       (s_card + (host_r + c * host_sk)) (cv_random cv draw 2))
           | _ \<Rightarrow> None)
      | _ \<Rightarrow> None)"

subsection \<open>Swap authorisations\<close>

definition swap_auth_to_bytes :: "swap_authorization \<Rightarrow> bytes" where
  "swap_auth_to_bytes a = sa_c a @ sa_s a"

definition swap_auth_from_bytes :: "bytes \<Rightarrow> swap_authorization option" where
  "swap_auth_from_bytes data =
     (if length data \<noteq> 64 then None else Some \<lparr>sa_c = take 32 data, sa_s = drop 32 data\<rparr>)"

definition swap_auth_hash :: "('f, 'g, 'h, 't) curve \<Rightarrow> 'g \<Rightarrow> 'g \<Rightarrow> 'g \<Rightarrow> 'f" where
  "swap_auth_hash cv r_point bsn_base swap_pk =
     cv_hash_scalar cv (cv_compress1 cv r_point @ cv_compress1 cv bsn_base @ cv_compress1 cv swap_pk)"

definition swap_auth_create ::
  "('f::field, 'g, 'h, 't) curve \<Rightarrow> nat \<Rightarrow> bytes \<Rightarrow> bytes \<Rightarrow> bytes \<Rightarrow> swap_authorization option" where
  "swap_auth_create cv draw swap_sk swap_pk bsn_base_bytes =
     (case (deserialize_scalar cv swap_sk, deserialize_g1 cv swap_pk, deserialize_g1 cv bsn_base_bytes) of
        (Some sk, Some pk, Some bsn) \<Rightarrow>
          let r = cv_random cv draw 0; c = swap_auth_hash cv (cv_mul1 cv (cv_gen1 cv) r) bsn pk; s = r + c * sk
          in Some \<lparr>sa_c = cv_to_be cv c, sa_s = cv_to_be cv s\<rparr>
      | _ \<Rightarrow> None)"

definition swap_auth_verify ::
  "('f::field, 'g::ab_group_add, 'h, 't) curve \<Rightarrow> bytes \<Rightarrow> bytes \<Rightarrow> swap_authorization \<Rightarrow> bool" where
  "swap_auth_verify cv swap_pk bsn_base_bytes auth =
     (case (deserialize_g1 cv swap_pk, deserialize_g1 cv bsn_base_bytes, deserialize_scalar cv (sa_c auth),
            deserialize_scalar cv (sa_s auth)) of
        (Some pk, Some bsn, Some c, Some s) \<Rightarrow>
          c = swap_auth_hash cv (cv_mul1 cv (cv_gen1 cv) s + cv_mul1 cv pk (- c)) bsn pk
      | _ \<Rightarrow> False)"

definition generate_swap_keypair :: "('f, 'g, 'h, 't) curve \<Rightarrow> nat \<Rightarrow> bytes \<times> bytes" where
  "generate_swap_keypair cv draw =
     (let sk = cv_random cv draw 0 in (cv_to_be cv sk, cv_compress1 cv (cv_mul1 cv (cv_gen1 cv) sk)))"

text \<open>Decoding the credential first and going on with its points.\<close>

lemma credential_points_bind:
  "credential_points cv cred None k =
     (case credential_points cv cred None (\<lambda>ps. Ok (Some ps)) of
        Inl f \<Rightarrow> Inl f | Inr None \<Rightarrow> Ok None | Inr (Some ps) \<Rightarrow> k ps)"
  by (auto simp: credential_points_def or_return_def and_then_def split: sum.split option.split)

subsection \<open>The contract of a card that holds a share\<close>

locale share_card =
  fixes cv :: "('f::field, 'g::ab_group_add, 'h::ab_group_add, 't) curve"
    and ops :: "'c smart_card" and holds :: "'c \<Rightarrow> 'f \<Rightarrow> bool"
  assumes public_key_share: "curve_ok cv \<Longrightarrow> holds c k \<Longrightarrow>
      sc_public_key_share ops c (cv_compress1 cv B) = Ok (cv_compress1 cv (cv_mul1 cv B k))"
    and sign_commit: "curve_ok cv \<Longrightarrow> holds c k \<Longrightarrow> \<exists>r c'.
      sc_sign_commit ops c (cv_compress1 cv S) (map_option (cv_compress1 cv) base)
        = (Some \<lparr>cs_u_card = cv_compress1 cv (cv_mul1 cv S r),
                 cs_k_card = map_option (\<lambda>B. cv_compress1 cv (cv_mul1 cv B k)) base,
                 cs_k_u_card = map_option (\<lambda>B. cv_compress1 cv (cv_mul1 cv B r)) base\<rparr>, c')
      \<and> (\<forall>ch. \<exists>c''. sc_sign_respond ops c' (cv_to_be cv ch) = (Some (cv_to_be cv (r + ch * k)), c'') \<and> holds c'' k)"
    and join_commit: "curve_ok cv \<Longrightarrow> holds c k \<Longrightarrow> \<exists>r c'.
      sc_join_commit ops c (cv_compress1 cv B) = (Some (cv_compress1 cv (cv_mul1 cv B r)), c')
      \<and> (\<forall>ch. \<exists>c''. sc_join_respond ops c' (cv_to_be cv ch) = (Some (cv_to_be cv (r + ch * k)), c'') \<and> holds c'' k)"
begin

text \<open>Signing with the card gives the signature of the sum of the two shares, for the sum of the two
  commitments' scalars.\<close>

lemma sign_split_combined:
  assumes ok: "curve_ok cv" and c: "holds c k" and h: "deserialize_scalar cv host_sk = Some h"
  shows "\<exists>r c'. sign_split cv ops draw c host_sk msg cred bsn rand
      = (sign (with_random cv (\<lambda>i. if i = 1 then r + cv_random cv draw 1 else cv_random cv draw i)) draw msg cred
           (cv_to_be cv (k + h)) bsn rand, c')"
proof -
  define base where "base = map_option (cv_hash_g1 cv) bsn"
  have ne: "host_sk \<noteq> []" "cv_to_be cv (k + h) \<noteq> []"
    using h curve_encodings(5) [OF ok, of "k + h"] by (auto simp: deserialize_scalar_def SCALAR_LENGTH_def)
  show ?thesis
  proof (cases "msg = [] \<or> cred = [] \<or> bsn = Some []")
    case True
    then show ?thesis using ne by (auto simp: sign_split_def sign_def)
  next
    case False
    show ?thesis
    proof (cases "credential_points cv cred None (\<lambda>ps. Ok (Some ps))")
      case (Inl f)
      then show ?thesis using False ne
        by (auto simp: sign_split_def sign_def credential_points_bind [of _ _ "sign_points _ _ _ _ _ _"])
    next
      case (Inr ps)
      show ?thesis
      proof (cases ps)
        case None
        then show ?thesis using False ne Inr
          by (auto simp: sign_split_def sign_def credential_points_bind [of _ _ "sign_points _ _ _ _ _ _"])
      next
        case (Some points)
        obtain pa pb pc pd where p: "(if rand then scale_credential cv (cv_random cv draw 0) points else points) = (pa, pb, pc, pd)"
          by (rule prod_cases4)
        obtain r c' where commit: "sc_sign_commit ops c (cv_compress1 cv pb) (map_option (cv_compress1 cv) base)
            = (Some \<lparr>cs_u_card = cv_compress1 cv (cv_mul1 cv pb r),
                     cs_k_card = map_option (\<lambda>B. cv_compress1 cv (cv_mul1 cv B k)) base,
                     cs_k_u_card = map_option (\<lambda>B. cv_compress1 cv (cv_mul1 cv B r)) base\<rparr>, c')"
          and respond: "\<And>ch. \<exists>c''. sc_sign_respond ops c' (cv_to_be cv ch) = (Some (cv_to_be cv (r + ch * k)), c'')"
          using sign_commit [OF ok c, of pb base] by blast
        define rh where "rh = cv_random cv draw (Suc 0)"
        define ch where "ch = signature_challenge cv (cv_mul1 cv pb (r + rh)) pb pd msg
          (map_option (\<lambda>B. (cv_mul1 cv B (r + rh), cv_mul1 cv B (k + h), B)) base) (cv_random cv draw 2)"
        obtain c'' where resp: "sc_sign_respond ops c' (cv_to_be cv ch) = (Some (cv_to_be cv (r + ch * k)), c'')"
          using respond by blast
        have nym: "combine_nym cv \<lparr>cs_u_card = u, cs_k_card = map_option (\<lambda>B. cv_compress1 cv (cv_mul1 cv B k)) base,
            cs_k_u_card = map_option (\<lambda>B. cv_compress1 cv (cv_mul1 cv B r)) base\<rparr> h (rh) base
          = Some (map_option (\<lambda>B. (cv_mul1 cv B (r + rh), cv_mul1 cv B (k + h), B)) base)" for u
          by (cases base) (simp_all add: combine_nym_def deserialize_exact [OF ok] curve_laws [OF ok])
        have u: "cv_mul1 cv pb r + cv_mul1 cv pb (rh) = cv_mul1 cv pb (r + rh)"
          by (simp add: curve_laws [OF ok])
        have s: "r + ch * k + (rh + ch * h) = r + rh + ch * (k + h)"
          by (simp add: algebra_simps)
        have "sign_split cv ops draw c host_sk msg cred bsn rand
            = (Ok (Some (assemble_signature cv ch (r + rh + ch * (k + h)) (pa, pb, pc, pd) (cv_random cv draw 2)
                (map_option (\<lambda>B. cv_mul1 cv B (k + h)) base))), c'')"
          using False ne Inr Some p commit resp
          by (simp add: sign_split_def h base_def [symmetric] deserialize_exact [OF ok] nym u s Let_def ch_def [symmetric] rh_def [symmetric]
              option.map_comp comp_def)
        moreover have "sign (with_random cv (\<lambda>i. if i = 1 then r + cv_random cv draw 1 else cv_random cv draw i)) draw msg cred
              (cv_to_be cv (k + h)) bsn rand
            = Ok (Some (assemble_signature cv ch (r + rh + ch * (k + h)) (pa, pb, pc, pd) (cv_random cv draw 2)
                (map_option (\<lambda>B. cv_mul1 cv B (k + h)) base)))"
          using False ne Inr Some p
          by (cases rand) (simp_all add: sign_def credential_points_bind [of _ _ "sign_points _ _ _ _ _ _"] sign_points_def
              deserialize_exact [OF ok] Let_def option.map_comp comp_def ch_def base_def rh_def)
        ultimately show ?thesis by metis
      qed
    qed
  qed
qed

text \<open>The blind join gives the public key a wallet with the sum of the shares as its secret would make.\<close>

lemma generate_split_combined:
  assumes ok: "curve_ok cv" and c: "holds c k" and nonce: "nonce \<noteq> []"
  shows "\<exists>r c' pk. generate_split_wallet_keypair cv ops draw c nonce = (Ok (Some (cv_to_be cv (cv_random cv draw 0), pk)), c')
    \<and> holds c' k
    \<and> generate_wallet_keypair (with_random cv (\<lambda>i. if i = 0 then k + cv_random cv draw 0 else if i = 1 then r + cv_random cv draw 1
          else cv_random cv draw i)) draw nonce = Some (cv_to_be cv (k + cv_random cv draw 0), pk)"
proof -
  define b where "b = cv_hash_g1 cv nonce"
  define h where "h = cv_random cv draw 0"
  define rh where "rh = cv_random cv draw (Suc 0)"
  obtain r c' where commit: "sc_join_commit ops c (cv_compress1 cv b) = (Some (cv_compress1 cv (cv_mul1 cv b r)), c')"
    and respond: "\<And>ch. \<exists>c''. sc_join_respond ops c' (cv_to_be cv ch) = (Some (cv_to_be cv (r + ch * k)), c'') \<and> holds c'' k"
    using join_commit [OF ok c, of b] by blast
  define ch where "ch = schnorr_hash_member cv (cv_mul1 cv b (r + rh)) b (cv_mul1 cv b (k + h)) nonce"
  obtain c'' where resp: "sc_join_respond ops c' (cv_to_be cv ch) = (Some (cv_to_be cv (r + ch * k)), c'')" and held: "holds c'' k"
    using respond by blast
  have sums: "cv_mul1 cv b k + cv_mul1 cv b h = cv_mul1 cv b (k + h)" "cv_mul1 cv b r + cv_mul1 cv b rh = cv_mul1 cv b (r + rh)"
      "r + ch * k + (rh + ch * h) = r + rh + ch * (k + h)"
    by (simp_all add: curve_laws [OF ok] algebra_simps)
  have "generate_split_wallet_keypair cv ops draw c nonce
      = (Ok (Some (cv_to_be cv h, wallet_public_key cv (cv_mul1 cv b (k + h)) ch (r + rh + ch * (k + h)) (cv_random cv draw 2))), c'')"
    using nonce commit resp public_key_share [OF ok c, of b]
    by (simp add: generate_split_wallet_keypair_def b_def [symmetric] Let_def deserialize_exact [OF ok] h_def [symmetric]
        rh_def [symmetric] sums ch_def [symmetric])
  moreover have "generate_wallet_keypair (with_random cv (\<lambda>i. if i = 0 then k + cv_random cv draw 0
        else if i = 1 then r + cv_random cv draw 1 else cv_random cv draw i)) draw nonce
      = Some (cv_to_be cv (k + h), wallet_public_key cv (cv_mul1 cv b (k + h)) ch (r + rh + ch * (k + h)) (cv_random cv draw 2))"
    using nonce
    by (simp add: generate_wallet_keypair_def schnorr_hash_member_def Let_def ch_def b_def h_def rh_def wallet_public_key_def)
  ultimately show ?thesis using held by (auto simp: h_def)
qed

end

definition mock_holds :: "'f mock_card \<Rightarrow> 'f \<Rightarrow> bool" where
  "mock_holds m k \<longleftrightarrow> mc_card_sk m = k"

interpretation mock: share_card cv "mock_card_ops cv" mock_holds
  for cv :: "('f::field, 'g::ab_group_add, 'h::ab_group_add, 't) curve"
proof
  fix c :: "'f mock_card" and k and B :: 'g
  assume ok: "curve_ok cv" and c: "mock_holds c k"
  note dec = deserialize_exact [OF ok]
  show "sc_public_key_share (mock_card_ops cv) c (cv_compress1 cv B) = Ok (cv_compress1 cv (cv_mul1 cv B k))"
    using c by (simp add: mock_card_ops_def mock_public_key_share_def mock_holds_def dec)
  have respond: "\<exists>c''. mock_respond cv (snd (mock_draw c)) (cv_to_be cv ch)
      = (Some (cv_to_be cv (mc_random c (mc_draws c) + ch * k)), c'') \<and> mock_holds c'' k" for ch
    using c by (simp add: mock_respond_def mock_draw_def Let_def mock_holds_def dec)
  show "\<exists>r c'. sc_join_commit (mock_card_ops cv) c (cv_compress1 cv B) = (Some (cv_compress1 cv (cv_mul1 cv B r)), c')
      \<and> (\<forall>ch. \<exists>c''. sc_join_respond (mock_card_ops cv) c' (cv_to_be cv ch) = (Some (cv_to_be cv (r + ch * k)), c'')
          \<and> mock_holds c'' k)"
    using respond
    by (intro exI [of _ "mc_random c (mc_draws c)"] exI [of _ "snd (mock_draw c)"])
      (simp add: mock_card_ops_def mock_join_commit_def dec mock_draw_def Let_def)
  show "\<exists>r c'. sc_sign_commit (mock_card_ops cv) c (cv_compress1 cv B) (map_option (cv_compress1 cv) base)
        = (Some \<lparr>cs_u_card = cv_compress1 cv (cv_mul1 cv B r),
                 cs_k_card = map_option (\<lambda>B. cv_compress1 cv (cv_mul1 cv B k)) base,
                 cs_k_u_card = map_option (\<lambda>B. cv_compress1 cv (cv_mul1 cv B r)) base\<rparr>, c')
      \<and> (\<forall>ch. \<exists>c''. sc_sign_respond (mock_card_ops cv) c' (cv_to_be cv ch)
            = (Some (cv_to_be cv (r + ch * k)), c'') \<and> mock_holds c'' k)" for base
    using respond c
    by (intro exI [of _ "mc_random c (mc_draws c)"] exI [of _ "snd (mock_draw c)"])
      (cases base; simp add: mock_card_ops_def mock_sign_commit_def dec mock_draw_def Let_def mock_holds_def)
qed

subsection \<open>Properties\<close>

lemma sign_split_ext_eq:
  "sign_split_ext cv ops draw dev host_sk msg cred bsn rand swap_auth =
     map_prod (\<lambda>r. case r of Inl f \<Rightarrow> Inl f | Inr None \<Rightarrow> other_err | Inr (Some sig) \<Rightarrow> Ok (Inr sig)) id
       (sign_split cv ops draw dev host_sk msg cred bsn rand)"
  by (simp add: sign_split_ext_def sign_split_def Let_def split: sum.split option.split prod.split)

lemma credential_points_Inl:
  "credential_points cv cred d k = Inl f \<Longrightarrow> f = Panic \<or> (\<exists>ps. k ps = Inl f)"
  by (auto simp: credential_points_def credential_point_def or_return_def at_offset_def and_then_Inl_iff
      split: if_splits option.splits)

lemma sign_split_ext_values:
  "fst (sign_split_ext cv ops draw dev host_sk msg cred bsn rand auth)
     \<in> {panic, Ok (Inl (Card_Other 0))} \<union> range (\<lambda>sig. Ok (Inr sig))"
proof -
  have "f = Panic" if "fst (sign_split cv ops draw dev host_sk msg cred bsn rand) = Inl f" for f
    using that credential_points_Inl [of cv cred None "\<lambda>ps. Ok (Some ps)" f]
    by (auto simp: sign_split_def Let_def split: if_splits sum.splits option.splits prod.splits)
  then show ?thesis
    by (auto simp: sign_split_ext_eq other_err_def split: sum.split option.split)
qed

text \<open>signing with the smart card is signing with the whole key: for any host share, message, credential and
  basename the signature the host assembles with the card is the one \<open>v1::sign\<close> makes with the sum of
  the two shares, where the commitment's scalar is the sum of the two drawn.\<close>

theorem split_signature_is_signature:
  assumes "curve_ok cv" "deserialize_scalar cv host_sk = Some h"
  shows "\<exists>r. fst (sign_split cv (mock_card_ops cv) draw m host_sk msg cred bsn rand)
    = sign (with_random cv (\<lambda>i. if i = 1 then r + cv_random cv draw 1 else cv_random cv draw i)) draw msg cred
        (cv_to_be cv (mc_card_sk m + h)) bsn rand"
  using mock.sign_split_combined [OF assms(1) _ assms(2), of m "mc_card_sk m" draw msg cred bsn rand]
  by (fastforce simp: mock_holds_def)

definition sample_mock :: "gf3 mock_card" where
  "sample_mock = \<lparr>mc_card_sk = One3, mc_r_card = None, mc_random = (\<lambda>_. One3), mc_draws = 0\<rparr>"

lemma split_signature_is_signature_witness:
  "\<exists>r. fst (sign_split sample_curve (mock_card_ops sample_curve) 0 sample_mock (cv_to_be sample_curve One3) [1]
       (serialize_credential sample_curve One3 One3 Two3 One3) (Some [2]) True)
     = sign (with_random sample_curve (\<lambda>i. if i = 1 then r + cv_random sample_curve 0 1 else cv_random sample_curve 0 i)) 0 [1]
         (serialize_credential sample_curve One3 One3 Two3 One3) (cv_to_be sample_curve (One3 + One3)) (Some [2]) True"
  using split_signature_is_signature [OF sample_curve_ok deserialize_exact(3) [OF sample_curve_ok], of 0 sample_mock One3]
  by (simp add: sample_mock_def)



text \<open>the swap authorisation changes nothing: \<open>sign_split_ext\<close> makes the same call of the card with and
  without one, and it never reports a Bloom filter hit, so a transfer with the card never ends with
  \<open>BloomFilterHit\<close> and the wallet's retry with an authorisation never has a case to handle.\<close>

theorem swap_authorisation_ignored:
  "sign_split_ext cv ops draw dev host_sk msg cred bsn rand auth = sign_split_ext cv ops draw dev host_sk msg cred bsn rand None
   \<and> token_transfer_split e draw tok destination
       (\<lambda>d hsk msg cred bsn rand auth. fst (sign_split_ext cv ops d dev hsk msg cred bsn rand auth)) host_sk auth
     \<noteq> Err BloomFilterHit"
proof
  show "sign_split_ext cv ops draw dev host_sk msg cred bsn rand auth = sign_split_ext cv ops draw dev host_sk msg cred bsn rand None"
    by (simp add: sign_split_ext_eq)
  have basis: "transfer_basis tok \<noteq> Err c" for c
    by (auto simp: transfer_basis_def recipient_credential_def recipient_ticket_def and_then_Inl_iff split: option.split)
  show "token_transfer_split e draw tok destination
       (\<lambda>d hsk msg cred bsn rand auth. fst (sign_split_ext cv ops d dev hsk msg cred bsn rand auth)) host_sk auth
     \<noteq> Err BloomFilterHit"
  proof (cases "transfer_basis tok")
    case (Inl f)
    then show ?thesis using basis by (auto simp: token_transfer_split_def)
  next
    case (Inr b)
    obtain last_sig cred where b: "b = (last_sig, cred)" by fastforce
    show ?thesis
      using sign_split_ext_values [of cv ops draw dev host_sk "enc_transfer e (new_transfer destination last_sig)" cred
            "Some last_sig" False auth]
      by (auto simp: token_transfer_split_def Inr b Let_def)
  qed
qed

text \<open>C18: a swap authorisation made with the server's key pair for a basename is accepted for that basename,
  also after it travelled as its 64 bytes, and nothing of another length is read as one.\<close>

theorem swap_authorisation_accepted:
  assumes ok: "curve_ok cv" and keys: "generate_swap_keypair cv dk = (sk, pk)"
    and created: "swap_auth_create cv draw sk pk bsn_base = Some auth"
  shows "swap_auth_verify cv pk bsn_base auth \<and> swap_auth_from_bytes (swap_auth_to_bytes auth) = Some auth
    \<and> (\<forall>data. swap_auth_from_bytes data \<noteq> None \<longleftrightarrow> length data = 64)"
proof -
  obtain k where k: "sk = cv_to_be cv k" "pk = cv_compress1 cv (cv_mul1 cv (cv_gen1 cv) k)"
    using keys by (auto simp: generate_swap_keypair_def Let_def)
  have "cv_mul1 cv G (r + c * k) + cv_mul1 cv (cv_mul1 cv G k) (- c) = cv_mul1 cv G r" for G r c
    using schnorr_commitment [OF ok, of G r c k] by (simp add: mul1_neg [OF ok])
  then show ?thesis
    using created
    by (auto simp: swap_auth_create_def k swap_auth_verify_def Let_def deserialize_exact [OF ok] swap_auth_to_bytes_def
        swap_auth_from_bytes_def curve_encodings [OF ok] split: option.splits)
qed

lemma swap_authorisation_accepted_witness:
  "\<exists>sk pk auth. generate_swap_keypair sample_curve 0 = (sk, pk)
     \<and> swap_auth_create sample_curve 0 sk pk (cv_compress1 sample_curve Two3) = Some auth
     \<and> swap_auth_verify sample_curve pk (cv_compress1 sample_curve Two3) auth"
proof -
  obtain sk pk where k: "generate_swap_keypair sample_curve 0 = (sk, pk)"
    and s: "sk = cv_to_be sample_curve One3" "pk = cv_compress1 sample_curve (cv_mul1 sample_curve One3 One3)"
    by (simp add: generate_swap_keypair_def sample_curve_def Let_def)
  obtain auth where "swap_auth_create sample_curve 0 sk pk (cv_compress1 sample_curve Two3) = Some auth"
    by (simp add: swap_auth_create_def s deserialize_exact Let_def)
  with swap_authorisation_accepted [OF sample_curve_ok k this] k show ?thesis by blast
qed

end
