(* ===== verification/GroupSignature.thy ===== *)
theory GroupSignature
  imports EcdaaSplit TokenMapReports Mint
begin

section \<open>The services on the group signature scheme\<close>

text \<open>
  The services' proofs use the group signature scheme through the fields \<open>v1_*\<close> of the environment.
  Here these fields are the functions of \<open>v1.rs\<close> (\<open>with_v1\<close>), so that what the services need of the
  scheme (\<open>v1_signs_for\<close>) is proved from the laws of the curve, and the payments of the whole system,
  mint, wallets, verifier and token map, are followed on it. A credential and a key belong together
  when the issuer of the group certified the key (\<open>member\<close>).
\<close>

text \<open>The two fields without a panic are functions that have none: see \<open>credential_in_group_total\<close> and
  \<open>issue_credential_total\<close>.\<close>

definition result_or :: "'a \<Rightarrow> 'a result \<Rightarrow> 'a" where
  "result_or dflt r = (case r of Inl f \<Rightarrow> dflt | Inr x \<Rightarrow> x)"

definition with_v1 :: "('f::field, 'g::ab_group_add, 'h::ab_group_add, 't) curve \<Rightarrow> env \<Rightarrow> env" where
  "with_v1 cv e = e\<lparr>v1_sign := sign cv, v1_verify := verify cv,
     v1_credential_in_group := (\<lambda>cred gpk. result_or False (credential_in_group cv cred gpk)),
     v1_issue_credential := (\<lambda>draw pk isk nonce. result_or None (issue_credential cv draw pk isk nonce)),
     v1_randomize_credential := randomize_credential cv,
     v1_verify_split_key_proof := verify_split_key_proof cv\<rparr>"

lemma with_v1_simps [simp]:
  "v1_sign (with_v1 cv e) = sign cv" "v1_verify (with_v1 cv e) = verify cv"
  "enc_transfer (with_v1 cv e) = enc_transfer e"
  by (simp_all add: with_v1_def)

lemma or_return_total: "(\<exists>y. r = Ok y) \<Longrightarrow> (\<And>x. \<exists>b. k x = Ok b) \<Longrightarrow> \<exists>b. or_return r dflt k = Ok b"
  by (auto simp: or_return_def split: option.split)

lemma credential_points_total:
  "CREDENTIAL_LENGTH \<le> length cred \<Longrightarrow> (\<And>p. \<exists>b. k p = Ok b) \<Longrightarrow> \<exists>b. credential_points cv cred dflt k = Ok b"
  unfolding credential_points_def
  by (intro or_return_total) (simp_all add: credential_point_def at_offset_def length_defs)

lemma credential_in_group_total: "\<exists>b. credential_in_group cv cred gpk = Ok b"
proof (cases "cred = [] \<or> gpk = [] \<or> length cred < CREDENTIAL_LENGTH \<or> length gpk < ISSUER_GROUP_PUBLIC_KEY_LENGTH")
  case False
  then show ?thesis
    unfolding credential_in_group_def
    by (auto simp: gpk_get_x_def gpk_get_y_def at_offset_def length_defs ISSUER_GROUP_PUBLIC_KEY_LENGTH_def
        intro!: credential_points_total or_return_total)
qed (auto simp: credential_in_group_def)

lemma issue_credential_total: "\<exists>r. issue_credential cv draw pk isk nonce = Ok r"
proof (cases "length pk < WALLET_PUBLIC_KEY_LENGTH \<or> length isk < ISSUER_SECRET_KEY_LENGTH")
  case False
  then show ?thesis
    unfolding issue_credential_def
    by (auto simp: at_offset_def length_defs WALLET_PUBLIC_KEY_LENGTH_def ISSUER_SECRET_KEY_LENGTH_def Let_def
        intro!: or_return_total)
qed (auto simp: issue_credential_def)

subsection \<open>Members of a group\<close>

definition member ::
  "('f::field, 'g::ab_group_add, 'h, 't) curve \<Rightarrow> 'f \<Rightarrow> 'f \<Rightarrow> bytes \<Rightarrow> bytes \<Rightarrow> bool" where
  "member cv x y cred sk \<longleftrightarrow>
     (\<exists>k a b c d. sk = cv_to_be cv k \<and> cred = serialize_credential cv a b c d \<and> certifies cv x y k (a, b, c, d)
        \<and> proper (a, b, c, d))"

lemma member_signs:
  assumes ok: "curve_ok cv" and member: "member cv x y cred sk"
  shows "v1_signs_for (with_v1 cv e) (group_key cv x y) cred sk"
    and "msg \<noteq> [] \<Longrightarrow> bsn \<noteq> [] \<Longrightarrow> \<exists>sig. v1_sign (with_v1 cv e) draw msg cred sk (Some bsn) False = Ok (Some sig)
      \<and> deflate_signature sig \<noteq> []"
proof -
  obtain k a b c d where sk: "sk = cv_to_be cv k" and cred: "cred = serialize_credential cv a b c d"
    and cert: "certifies cv x y k (a, b, c, d)" and proper: "proper (a, b, c, d)"
    using member by (auto simp: member_def)
  have made: "credential_from_signature sig = Some cred \<and> SIGNATURE_LENGTH \<le> length sig
      \<and> verify cv (group_key cv x y) (Some bsn) (Some cred) sig msg = Ok True"
    if signed: "sign cv draw msg cred sk (Some bsn) False = Ok (Some sig)" for draw msg bsn sig
  proof -
    from sign_Some [OF signed [unfolded cred]] ok obtain r n sc where msg: "msg \<noteq> []"
      and sc: "sc = signature_challenge cv (cv_mul1 cv b r) b d msg (nym_of cv r k (Some bsn)) n"
      and sig: "sig = assemble_signature cv sc (r + sc * k) (a, b, c, d) n
          (map_option (\<lambda>bs. cv_mul1 cv (cv_hash_g1 cv bs) k) (Some bsn))"
      by (auto simp: sk deserialize_exact [OF ok])
    show ?thesis
      using verify_signed [OF ok cert proper msg sc sig] credential_from_assemble [OF ok] length_assemble_signature [OF ok]
      by (simp add: cred sig length_defs)
  qed
  then show "v1_signs_for (with_v1 cv e) (group_key cv x y) cred sk"
    by (auto simp: v1_signs_for_def)
  assume "msg \<noteq> []" "bsn \<noteq> []"
  then obtain sig where sig: "sign cv draw msg cred sk (Some bsn) False = Ok (Some sig)"
    using sign_returns [OF ok, of sk k msg "Some bsn" draw a b c d False] by (auto simp: sk cred deserialize_exact [OF ok])
  have "deflate_signature sig \<noteq> []"
    using made [OF sig] by (auto simp: deflate_signature_def length_defs)
  with sig show "\<exists>sig. v1_sign (with_v1 cv e) draw msg cred sk (Some bsn) False = Ok (Some sig)
      \<and> deflate_signature sig \<noteq> []" by auto
qed
lemma issued_member:
  assumes ok: "curve_ok cv" and proves: "proves_key cv nonce k pk" and isk: "isk = cv_to_be cv x @ cv_to_be cv y"
    and issued: "v1_issue_credential (with_v1 cv e) draw pk isk nonce = Some (cred, csig)"
    and proper: "credential_points cv cred False (\<lambda>points. Ok (proper points)) = Ok True"
  shows "member cv x y cred (cv_to_be cv k)"
proof -
  have "issue_credential cv draw pk isk nonce = Ok (Some (cred, csig))"
    using issued by (auto simp: with_v1_def result_or_def split: sum.splits)
  with issue_credential_proven [OF ok proves isk, of draw] obtain a b c d where
    "cred = serialize_credential cv a b c d" "certifies cv x y k (a, b, c, d)"
    by (auto split: if_splits)
  moreover from this(1) proper have "proper (a, b, c, d)" by (simp add: credential_points_exact [OF ok])
  ultimately show ?thesis unfolding member_def by blast
qed

subsection \<open>Payments\<close>

text \<open>A token passed along: each payment has its draw, the ticket it goes to and the secret of the one who
  pays. \<open>payers\<close> says that each pays with the key of the credential the token was made out to.\<close>

fun pay_along :: "env \<Rightarrow> token \<Rightarrow> (nat \<times> signed_ticket \<times> bytes) list \<Rightarrow> token result" where
  "pay_along e tok [] = Ok tok"
| "pay_along e tok ((draw, dest, sk) # ps) = and_then (token_transfer e draw tok dest sk) (\<lambda>tok'. pay_along e tok' ps)"

fun payers ::
  "('f::field, 'g::ab_group_add, 'h, 't) curve \<Rightarrow> 'f \<Rightarrow> 'f \<Rightarrow> bytes \<Rightarrow> (nat \<times> signed_ticket \<times> bytes) list \<Rightarrow> bool" where
  "payers cv x y cred [] \<longleftrightarrow> True"
| "payers cv x y cred ((draw, dest, sk) # ps) \<longleftrightarrow>
     member cv x y cred sk \<and> (\<exists>tk. st_ticket dest = Some tk \<and> payers cv x y (tk_credential tk) ps)"

text \<open>The message encoding of a transfer that names a recipient is not empty: prost writes the field.\<close>

definition encodes_transfers :: "env \<Rightarrow> bool" where
  "encodes_transfers e \<longleftrightarrow> (\<forall>t. tf_recipient t \<noteq> None \<longrightarrow> enc_transfer e t \<noteq> [])"

lemma member_transfers:
  assumes ok: "curve_ok cv" and enc: "encodes_transfers e" and member: "member cv x y cred sk"
    and tok: "tok_base tok = Some base" "credential_of (current_entry tok) = Some cred" "hi_signature (current_entry tok) \<noteq> []"
  obtains h where "token_transfer (with_v1 cv e) draw tok dest sk = Ok (tok\<lparr>tok_history := tok_history tok @ [h]\<rparr>)"
    "recipient_of h = Some dest" "transfer_tags h = []" "hi_signature h \<noteq> []"
proof -
  let ?prev = "hi_signature (current_entry tok)"
  have basis: "transfer_basis tok = Ok (?prev, cred)" using transfer_basis_current [OF tok(1)] tok(2) by simp
  have "enc_transfer e (new_transfer dest ?prev) \<noteq> []" using enc by (simp add: encodes_transfers_def new_transfer_def)
  from member_signs(2) [OF ok member this tok(3), of e draw] obtain sig where
    sig: "sign cv draw (enc_transfer e (new_transfer dest ?prev)) cred sk (Some ?prev) False = Ok (Some sig)"
      "deflate_signature sig \<noteq> []" by auto
  let ?h = "\<lparr>hi_transfer = Some ((new_transfer dest ?prev)\<lparr>tf_previous_signature := []\<rparr>), hi_signature = deflate_signature sig\<rparr>"
  show thesis
  proof (rule that [of ?h])
    show "token_transfer (with_v1 cv e) draw tok dest sk = Ok (tok\<lparr>tok_history := tok_history tok @ [?h]\<rparr>)"
      using sig(1) by (simp add: token_transfer_def basis Let_def push_history_def)
    show "recipient_of ?h = Some dest" "transfer_tags ?h = []" "hi_signature ?h \<noteq> []"
      using sig(2) by (simp_all add: recipient_of_def transfer_tags_def new_transfer_def)
  qed
qed

lemma pay_along_verifies:
  assumes ok: "curve_ok cv" and enc: "encodes_transfers e" and clerks: "clerks \<noteq> []"
  shows "\<lbrakk>token_verify (with_v1 cv e) now tok (group_key cv x y) mints clerks = Ok True;
      credential_of (current_entry tok) = Some cred; hi_signature (current_entry tok) \<noteq> [];
      payers cv x y cred ps; list_all (\<lambda>(draw, dest, sk). ticket_verify (with_v1 cv e) now dest clerks None = Ok True) ps\<rbrakk>
    \<Longrightarrow> \<exists>tok' hs. pay_along (with_v1 cv e) tok ps = Ok tok' \<and> tok' = tok\<lparr>tok_history := tok_history tok @ hs\<rparr>
      \<and> length hs = length ps \<and> list_all (\<lambda>h. transfer_tags h = []) hs
      \<and> token_verify (with_v1 cv e) now tok' (group_key cv x y) mints clerks = Ok True"
proof (induction ps arbitrary: tok cred)
  case Nil
  then show ?case by (intro exI [of _ tok] exI [of _ "[]"]) simp
next
  case (Cons p ps)
  obtain draw dest sk where p: "p = (draw, dest, sk)" by (cases p)
  obtain tk where member: "member cv x y cred sk" and tk: "st_ticket dest = Some tk" and rest: "payers cv x y (tk_credential tk) ps"
    using Cons.prems(4) by (auto simp: p)
  have dest: "ticket_verify (with_v1 cv e) now dest clerks None = Ok True" using Cons.prems(5) by (simp add: p)
  obtain base where base: "tok_base tok = Some base" using Cons.prems(1) by (simp only: token_verify_Ok_iff) blast
  obtain h where t: "token_transfer (with_v1 cv e) draw tok dest sk = Ok (tok\<lparr>tok_history := tok_history tok @ [h]\<rparr>)"
    and h: "recipient_of h = Some dest" "transfer_tags h = []" "hi_signature h \<noteq> []"
    using member_transfers [OF ok enc member base Cons.prems(2,3)] by blast
  let ?tok = "tok\<lparr>tok_history := tok_history tok @ [h]\<rparr>"
  have v: "token_verify (with_v1 cv e) now ?tok (group_key cv x y) mints clerks = Ok True"
    by (rule token_transfer_verifies [OF Cons.prems(1) clerks dest Cons.prems(2) member_signs(1) [OF ok member] t])
  have cur: "credential_of (current_entry ?tok) = Some (tk_credential tk)" "hi_signature (current_entry ?tok) \<noteq> []"
    using h tk by (simp_all add: current_entry_def credential_of_def)
  from Cons.IH [OF v cur rest] Cons.prems(5) obtain tok' hs where
    run: "pay_along (with_v1 cv e) ?tok ps = Ok tok'" "tok' = ?tok\<lparr>tok_history := tok_history ?tok @ hs\<rparr>"
      "length hs = length ps" "list_all (\<lambda>h. transfer_tags h = []) hs"
      "token_verify (with_v1 cv e) now tok' (group_key cv x y) mints clerks = Ok True"
    by (auto simp: p)
  show ?case
    by (intro exI [of _ tok'] exI [of _ "h # hs"]) (use run h t in \<open>simp add: p\<close>)
qed

text \<open>C5: a token goes from the mint through any number of wallets and stays good: when the mint released it
  to the credential of a member of the group, and each payer is the member the token was last made out
  to and pays to a ticket in date, every transfer returns and the token at the end verifies under the
  group key, with the signatures of \<open>v1::sign\<close> checked by \<open>v1::verify\<close>.\<close>

theorem minted_token_circulates:
  assumes ok: "curve_ok cv" and enc: "encodes_transfers e"
    and minted: "mint_token (with_v1 cv e) draw m a tags st = Ok tok"
    and ecdsa: "ecdsa_correct (with_v1 cv e) (mi_signing_key m)" and keys: "mi_ticket_signing_keys m \<noteq> []"
    and ticket: "ticket_verify (with_v1 cv e) now st (mi_ticket_signing_keys m) None = Ok True"
    and tags: "\<And>v. Some (ValidUntil v) \<in> set tags \<Longrightarrow> now \<le> v"
    and mints: "ecdsa_public_key e (mi_signing_key m) \<in> set mints"
    and holder: "st_ticket st = Some tk" and payers: "payers cv x y (tk_credential tk) ps"
    and dests: "list_all (\<lambda>(draw, dest, sk).
      ticket_verify (with_v1 cv e) now dest (mi_ticket_signing_keys m) None = Ok True) ps"
  shows "\<exists>tok' hs. pay_along (with_v1 cv e) tok ps = Ok tok' \<and> tok' = tok\<lparr>tok_history := hs\<rparr> \<and> length hs = length ps
    \<and> token_verify (with_v1 cv e) now tok' (group_key cv x y) mints (mi_ticket_signing_keys m) = Ok True"
proof -
  have pk: "ecdsa_public_key (with_v1 cv e) (mi_signing_key m) \<in> set mints" using mints by (simp add: with_v1_def)
  note v = mint_token_verifies [OF minted ecdsa ticket pk keys tags]
  obtain sig where sig: "sign_recoverable (with_v1 cv e) draw (mi_signing_key m) (enc_transfer e (mint_base (with_v1 cv e) a tags st)) = Some sig"
    and t: "tok = \<lparr>tok_descriptor = Some (mint_descriptor a),
        tok_base = Some \<lparr>hi_transfer = Some (mint_base (with_v1 cv e) a tags st), hi_signature = sig\<rparr>, tok_history = []\<rparr>"
    using minted by (auto simp: mint_token_def Let_def split: option.splits)
  have "sig \<noteq> []" using sig by (auto simp: sign_recoverable_def Let_def split: option.splits)
  then have cur: "credential_of (current_entry tok) = Some (tk_credential tk)" "hi_signature (current_entry tok) \<noteq> []"
    using holder by (simp_all add: t current_entry_def credential_of_def recipient_of_def mint_base_def)
  show ?thesis
    using pay_along_verifies [OF ok enc keys v cur payers dests] by (auto simp: t)
qed


subsection \<open>Paying with a card\<close>

text \<open>The draws of the random generator matter only to who draws.\<close>

lemma with_random_getters:
  "deserialize_g2 (with_random cv f) = deserialize_g2 cv" "serialize_credential (with_random cv f) = serialize_credential cv"
  "cv_pairing (with_random cv f) = cv_pairing cv" "cv_gen2 (with_random cv f) = cv_gen2 cv"
  by (simp_all add: with_random_def deserialize_g2_def serialize_credential_def fun_eq_iff)

lemma verify_with_random [simp]: "verify (with_random cv f) = verify cv"
  unfolding fun_eq_iff verify_def gpk_get_x_def gpk_get_y_def sig_get_scalar_def sig_get_point_def sig_get_k_def
    with_random_getters with_random_decode with_random_simps by simp

lemma group_key_with_random [simp]: "group_key (with_random cv f) = group_key cv"
  by (simp add: fun_eq_iff group_key_def with_random_def)

lemma member_with_random [simp]: "member (with_random cv f) = member cv"
  by (simp add: fun_eq_iff member_def with_random_def certifies_def serialize_credential_def)

lemma token_transfer_split_Ok:
  assumes "token_transfer_split e draw tok dest signer host_sk auth = Ok tok'" "transfer_basis tok = Ok (prev, cred)"
  shows "\<exists>sig. signer draw host_sk (enc_transfer e (new_transfer dest prev)) cred (Some prev) False auth = Ok (Inr sig)
    \<and> tok' = push_history tok (new_transfer dest prev) sig"
proof -
  obtain r where r: "signer draw host_sk (enc_transfer e (new_transfer dest prev)) cred (Some prev) False auth = Ok r"
    using assms by (auto simp: token_transfer_split_def and_then_Inr_iff Let_def)
  with assms show ?thesis
    by (cases r) (auto simp: token_transfer_split_def Let_def split: smart_card_error.splits)
qed

text \<open>a payment with the smart card is as good as one with the whole key: when the shares of card and
  host add up to the member's key, the token the split transfer returns verifies, whatever swap
  authorisation is passed along.\<close>

theorem card_payment_verifies:
  assumes ok: "curve_ok cv" and clerks: "clerks \<noteq> []"
    and v: "token_verify (with_v1 cv e) now tok (group_key cv x y) mints clerks = Ok True"
    and dest: "ticket_verify (with_v1 cv e) now dest clerks None = Ok True"
    and holder: "credential_of (current_entry tok) = Some cred" "member cv x y cred (cv_to_be cv (mc_card_sk dev + h))"
    and host: "deserialize_scalar cv host_sk = Some h"
    and paid: "token_transfer_split (with_v1 cv e) draw tok dest
        (\<lambda>d hsk msg cred bsn rand a. fst (sign_split_ext cv (mock_card_ops cv) d dev hsk msg cred bsn rand a)) host_sk auth = Ok tok'"
  shows "token_verify (with_v1 cv e) now tok' (group_key cv x y) mints clerks = Ok True"
proof -
  obtain base where base: "tok_base tok = Some base" using v by (simp only: token_verify_Ok_iff) blast
  let ?prev = "hi_signature (current_entry tok)" let ?msg = "enc_transfer e (new_transfer dest ?prev)"
  have basis: "transfer_basis tok = Ok (?prev, cred)" using transfer_basis_current [OF base] holder(1) by simp
  obtain sig where sig: "fst (sign_split_ext cv (mock_card_ops cv) draw dev host_sk ?msg cred (Some ?prev) False auth) = Ok (Inr sig)"
    and tok': "tok' = push_history tok (new_transfer dest ?prev) sig"
    using token_transfer_split_Ok [OF paid basis] by auto
  have "mock_holds dev (mc_card_sk dev)" by (simp add: mock_holds_def)
  from mock.sign_split_combined [OF ok this host, of draw ?msg cred "Some ?prev" False] sig obtain r where
    "sign (with_random cv (\<lambda>i. if i = 1 then r + cv_random cv draw 1 else cv_random cv draw i)) draw ?msg cred
       (cv_to_be cv (mc_card_sk dev + h)) (Some ?prev) False = Ok (Some sig)"
    by (auto simp: sign_split_ext_eq other_err_def split: sum.splits option.splits)
  moreover define cv' where "cv' = with_random cv (\<lambda>i. if i = 1 then r + cv_random cv draw 1 else cv_random cv draw i)"
  ultimately have made: "sign cv' draw ?msg cred (cv_to_be cv (mc_card_sk dev + h)) (Some ?prev) False = Ok (Some sig)" by simp
  have ok': "curve_ok cv'" "member cv' x y cred (cv_to_be cv (mc_card_sk dev + h))" using ok holder(2) by (simp_all add: cv'_def)
  have "v1_sign (with_v1 cv' e) draw ?msg cred (cv_to_be cv (mc_card_sk dev + h)) (Some ?prev) False = Ok (Some sig)"
    using made by simp
  note signed = v1_signs_forD [OF member_signs(1) [OF ok'] this]
  have "inflate_signature cred (deflate_signature sig) = Ok sig"
    "v1_verify (with_v1 cv e) (group_key cv x y) (Some ?prev) (Some cred) sig ?msg = Ok True"
    using signed by (simp_all add: cv'_def)
  then show ?thesis
    unfolding tok' using push_history_verifies [OF v clerks basis, of sig dest] dest by simp
qed

subsection \<open>A copy that frames\<close>

text \<open>A token like \<open>tok\<close> with bytes appended to its last signature.\<close>

definition forged_copy :: "bytes \<Rightarrow> token \<Rightarrow> token" where
  "forged_copy junk tok = tok\<lparr>tok_history := butlast (tok_history tok)
     @ [(last (tok_history tok))\<lparr>hi_signature := hi_signature (last (tok_history tok)) @ junk\<rparr>]\<rparr>"

lemma entry_ok_longer:
  assumes "entry_ok (with_v1 cv e) gpk keys bound prev h"
  shows "entry_ok (with_v1 cv e) gpk keys bound prev (h\<lparr>hi_signature := hi_signature h @ junk\<rparr>)"
proof -
  from assms obtain t r full where t: "hi_transfer h = Some t" "tf_recipient t = Some r"
      "verify_historical (with_v1 cv e) r keys None = Ok True" "inflate_signature bound (hi_signature h) = Ok full"
      "verify cv gpk (Some prev) (Some bound) full (enc_transfer e (t\<lparr>tf_previous_signature := prev\<rparr>)) = Ok True"
    by (auto simp: entry_ok_def)
  have "inflate_signature bound (hi_signature h @ junk) = Ok (full @ junk)"
    using t(4) by (auto simp: inflate_signature_def split: if_splits)
  with t verify_longer [OF t(5)] show ?thesis by (auto simp: entry_ok_def)
qed

lemma splits_fit_same_tags:
  assumes "splits_fit v (hs @ [h])" "transfer_tags h' = transfer_tags h"
  shows "splits_fit v (hs @ [h'])"
proof -
  have "splits_fit v [h']"
    unfolding splits_fit_def
  proof (intro allI impI)
    fix original k a assume v: "v = Some original" and k: "k \<in> set [h']" and a: "Some (SplitValue a) \<in> set (transfer_tags k)"
    from k a assms(2) have "Some (SplitValue a) \<in> set (transfer_tags h)" by simp
    moreover have "h \<in> set (hs @ [h])" by simp
    ultimately show "am_code a = am_code original \<and> \<not> amount_exceeds a original"
      using assms(1) v unfolding splits_fit_def by blast
  qed
  with assms(1) show ?thesis by (simp only: splits_fit_append)
qed

lemma forged_copy_verifies:
  assumes v: "token_verify (with_v1 cv e) now tok gpk mints clerks = Ok True" and ne: "tok_history tok \<noteq> []"
  shows "token_verify (with_v1 cv e) now (forged_copy junk tok) gpk mints clerks = Ok True"
proof -
  obtain base d where t: "tok_base tok = Some base" "tok_descriptor tok = Some d"
      "verify_base (with_v1 cv e) base d mints clerks = Ok True" "valid_chain (with_v1 cv e) gpk clerks tok"
      "holder_ticket_ok (with_v1 cv e) now clerks tok" "unexpired now base" "splits_fit (ds_value d) (tok_history tok)"
    using v by (simp only: token_verify_Ok_iff) blast
  obtain hs h where hs: "tok_history tok = hs @ [h]" using ne by (metis rev_exhaust)
  let ?h = "h\<lparr>hi_signature := hi_signature h @ junk\<rparr>"
  have same: "tok_base (forged_copy junk tok) = Some base" "tok_descriptor (forged_copy junk tok) = Some d"
    "tok_history (forged_copy junk tok) = hs @ [?h]" "transfer_tags ?h = transfer_tags h" "recipient_of ?h = recipient_of h"
    using t by (simp_all add: forged_copy_def hs transfer_tags_def recipient_of_def)
  have "link_ok (with_v1 cv e) gpk clerks (last (base # hs)) h"
    using t(4) by (simp add: valid_chain_chain_ok [OF t(1)] hs chain_ok_append)
  then have "link_ok (with_v1 cv e) gpk clerks (last (base # hs)) ?h"
    unfolding link_ok_def using entry_ok_longer by blast
  then have chain: "valid_chain (with_v1 cv e) gpk clerks (forged_copy junk tok)"
    using t(4) by (simp add: valid_chain_chain_ok [OF t(1)] valid_chain_chain_ok [OF same(1)] same(3) hs chain_ok_append)
  have "current_entry (forged_copy junk tok) = ?h" "current_entry tok = h"
    by (simp_all add: current_entry_def same hs)
  then have holder: "holder_ticket_ok (with_v1 cv e) now clerks (forged_copy junk tok)"
    using t(5) by (simp add: holder_ticket_ok_def same(5))
  have "splits_fit (ds_value d) (hs @ [?h])"
    by (rule splits_fit_same_tags [OF t(7) [unfolded hs] same(4)])
  then show ?thesis
    unfolding token_verify_Ok_iff same(3)
    by (intro conjI exI [of _ base] exI [of _ d] TrueI) (rule same t chain holder | assumption)+
qed

text \<open>C6: a verified token can be made to look double spent by anyone who has seen it: the copy with bytes
  appended to the last signature still verifies, because \<open>v1::verify\<close> reads a signature from the front
  and bounds its length only from below, and the token map, which compares signatures as bytes and leaves
  verification to its callers, answers the report of the copy as abuse and files a revocation although
  the holder spent the token once.\<close>

theorem appended_bytes_frame_holder:
  assumes v: "token_verify (with_v1 cv e) now tok gpk mints clerks = Ok True" and ne: "tok_history tok \<noteq> []" "junk \<noteq> []"
    and whole: "get_split_amount (hi_transfer (last (tok_history tok))) = None"
    and entry: "tokenmap_inv tm" "tbl_get (tm_tokens tm) i = Some en" "en_tokens en = [tok]" "en_abuses en = []"
    and filed: "double_spend_revocation (with_v1 cv e) now i en 0 (length (tok_history tok) - 1) tm = Ok rd" and clock: "sql_u64 now"
  shows "token_verify (with_v1 cv e) now (forged_copy junk tok) gpk mints clerks = Ok True
    \<and> (\<exists>tm'. update_impl (with_v1 cv e) now i (Some (forged_copy junk tok)) tm
         = (Ok \<lparr>ur_created = False, ur_abuse_detected = True\<rparr>, tm') \<and> tbl_get (tm_revocation tm') i = Some (rd, now))"
proof
  show "token_verify (with_v1 cv e) now (forged_copy junk tok) gpk mints clerks = Ok True"
    by (rule forged_copy_verifies [OF v ne(1)])
  obtain hs h where hs: "tok_history tok = hs @ [h]" using ne(1) by (metis rev_exhaust)
  have fd: "first_diff (sigs tok) (sigs (forged_copy junk tok)) = Some (length hs)"
    using ne(2) by (simp add: sigs_def forged_copy_def hs first_diff_snoc)
  then have fork: "unsplit_fork (forged_copy junk tok) tok"
    using whole by (simp add: unsplit_fork_def hs)
  have ei: "i \<noteq> []" "\<not> tbl_has (tm_revocation tm) i"
    using tokenmap_invD(2) [OF entry(1,2)] entry(4) by (auto simp: entry_inv_def)
  have br: "\<not> token_is_known (forged_copy junk tok) (en_tokens en)" "token_is_extension 0 (forged_copy junk tok) (en_tokens en) = None"
    "token_is_second_split (with_v1 cv e) (forged_copy junk tok) (en_tokens en) = Ok False"
    using unsplit_forks_branches(1-3) [of "en_tokens en" "forged_copy junk tok"] fork by (simp_all add: entry(3))
  have "token_get_fork 0 (forged_copy junk tok) (en_tokens en) = Some (0, length hs)"
    using fd by (simp add: entry(3))
  from update_impl_double_spend [OF ei(1) entry(2) br this, of now] filed clock ei(2)
  show "\<exists>tm'. update_impl (with_v1 cv e) now i (Some (forged_copy junk tok)) tm
         = (Ok \<lparr>ur_created = False, ur_abuse_detected = True\<rparr>, tm') \<and> tbl_get (tm_revocation tm') i = Some (rd, now)"
    by (auto simp: hs Let_def tbl_insert_refused_iff tbl_get_insert split: option.splits)
qed

subsection \<open>A circulating token\<close>

text \<open>The sample environment over the sample curve, a ticket for a member of the sample group and a token
  made out to it.\<close>

definition circ_env :: env where
  "circ_env = sample_env\<lparr>enc_transfer := (\<lambda>t. 1 # tf_previous_signature t)\<rparr>"

definition circ_cred :: bytes where "circ_cred = serialize_credential sample_curve One3 One3 Two3 One3"

definition circ_ticket :: signed_ticket where
  "circ_ticket = \<lparr>st_ticket = Some \<lparr>tk_credential = circ_cred,
     tk_tags = Some \<lparr>td_group_number = 1, td_lifetime = 7, td_created_on = 1000\<rparr>\<rparr>, st_signature = 7 # replicate 64 0\<rparr>"

definition circ_mint :: mint where
  "circ_mint = \<lparr>mi_signing_key = [9], mi_ttc_group_public_key = [], mi_ticket_signing_keys = [[7]], mi_tokenmap_uri = []\<rparr>"

abbreviation "circ_e \<equiv> with_v1 sample_curve circ_env"
abbreviation "circ_sk \<equiv> cv_to_be sample_curve One3"

lemma circ_member: "member sample_curve One3 One3 circ_cred circ_sk"
  unfolding member_def circ_cred_def using sample_certified by blast

lemma circ_encodes: "encodes_transfers circ_env"
  by (simp add: encodes_transfers_def circ_env_def)

lemma circ_ecdsa: "ecdsa_correct circ_e sk"
  by (cases sk) (auto simp: ecdsa_correct_def with_v1_def circ_env_def)

lemma circ_recoverable: "check_recoverable circ_e msg (n # replicate 64 0) keys c1 c2 c3 c4 = (if [n] \<in> set keys then Ok True else Err c2)"
  by (simp add: check_recoverable_def RECOVERABLE_SIG_BYTES_def with_v1_def circ_env_def)

lemma circ_ticket_verify: "ticket_verify circ_e 2000 circ_ticket [[7]] None = Ok True"
  by (simp add: ticket_verify_def verify_signature_and_key_def circ_ticket_def circ_recoverable ticket_tags_def expires_on_def
      expires_on_with_epoch_def DEFAULT_EPOCH_SECONDS_def u32_mul_def u64_add_def arith_def)

lemma circ_minted:
  obtains tok where "mint_token circ_e 0 circ_mint (sample_amount 10) [Some (ValidUntil 1000000)] circ_ticket = Ok tok"
    "tok_history tok = []" "tok_base tok \<noteq> None"
    "token_verify circ_e 2000 tok (group_key sample_curve One3 One3) [[9]] [[7]] = Ok True"
    "credential_of (current_entry tok) = Some circ_cred" "hi_signature (current_entry tok) \<noteq> []"
    "token_expiry_of tok = Ok (Some 1000000)"
proof -
  let ?e = "circ_e"
  have run: "\<exists>tok. mint_token ?e 0 circ_mint (sample_amount 10) [Some (ValidUntil 1000000)] circ_ticket = Ok tok
      \<and> tok_history tok = [] \<and> tok_base tok \<noteq> None \<and> credential_of (current_entry tok) = Some circ_cred
      \<and> hi_signature (current_entry tok) \<noteq> [] \<and> token_expiry_of tok = Ok (Some 1000000)"
    by (simp add: mint_token_def Let_def sign_recoverable_def circ_mint_def with_v1_def circ_env_def current_entry_def
        credential_of_def recipient_of_def mint_base_def circ_ticket_def token_expiry_of_def)
  then obtain tok where tok: "mint_token ?e 0 circ_mint (sample_amount 10) [Some (ValidUntil 1000000)] circ_ticket = Ok tok"
    "tok_history tok = []" "tok_base tok \<noteq> None" "credential_of (current_entry tok) = Some circ_cred"
    "hi_signature (current_entry tok) \<noteq> []" "token_expiry_of tok = Ok (Some 1000000)" by blast
  have "token_verify ?e 2000 tok (group_key sample_curve One3 One3) [[9]] (mi_ticket_signing_keys circ_mint) = Ok True"
  proof (rule mint_token_verifies [OF tok(1) circ_ecdsa])
    show "ticket_verify ?e 2000 circ_ticket (mi_ticket_signing_keys circ_mint) None = Ok True"
      using circ_ticket_verify by (simp add: circ_mint_def)
  qed (simp_all add: circ_mint_def with_v1_def circ_env_def)
  then show thesis using that tok by (simp add: circ_mint_def)
qed

lemma minted_token_circulates_witness:
  "\<exists>tok tok'. mint_token circ_e 0 circ_mint (sample_amount 10) [] circ_ticket = Ok tok
     \<and> pay_along circ_e tok [(0, circ_ticket, circ_sk), (1, circ_ticket, circ_sk)] = Ok tok'
     \<and> token_verify circ_e 2000 tok' (group_key sample_curve One3 One3) [[9]] [[7]] = Ok True"
proof -
  obtain tok where tok: "mint_token circ_e 0 circ_mint (sample_amount 10) [] circ_ticket = Ok tok"
    by (simp add: mint_token_def Let_def sign_recoverable_def circ_mint_def with_v1_def circ_env_def)
  obtain tk where tk: "st_ticket circ_ticket = Some tk" "tk_credential tk = circ_cred" by (simp add: circ_ticket_def)
  have "\<exists>tok' hs. pay_along circ_e tok [(0, circ_ticket, circ_sk), (1, circ_ticket, circ_sk)] = Ok tok'
      \<and> tok' = tok\<lparr>tok_history := hs\<rparr> \<and> length hs = length [(0 :: nat, circ_ticket, circ_sk), (1, circ_ticket, circ_sk)]
      \<and> token_verify circ_e 2000 tok' (group_key sample_curve One3 One3) [[9]] (mi_ticket_signing_keys circ_mint) = Ok True"
  proof (rule minted_token_circulates [OF sample_curve_ok circ_encodes tok circ_ecdsa, where now = 2000 and x = One3 and y = One3
        and mints = "[[9]]" and tk = tk and ps = "[(0, circ_ticket, circ_sk), (1, circ_ticket, circ_sk)]"])
    show "payers sample_curve One3 One3 (tk_credential tk) [(0, circ_ticket, circ_sk), (1, circ_ticket, circ_sk)]"
      using tk circ_member by simp
    show "list_all (\<lambda>(draw, dest, sk). ticket_verify circ_e 2000 dest (mi_ticket_signing_keys circ_mint) None = Ok True)
        [(0 :: nat, circ_ticket, circ_sk), (1, circ_ticket, circ_sk)]"
      using circ_ticket_verify by (simp add: circ_mint_def)
  qed (use tk circ_ticket_verify in \<open>simp_all add: circ_mint_def circ_env_def\<close>)
  with tok show ?thesis by (auto simp: circ_mint_def)
qed

definition circ_card :: "gf3 mock_card" where
  "circ_card = sample_mock\<lparr>mc_card_sk := Zero3\<rparr>"

lemma card_payment_verifies_witness:
  "\<exists>tok tok'. token_transfer_split circ_e 0 tok circ_ticket
       (\<lambda>d hsk msg cred bsn rand a. fst (sign_split_ext sample_curve (mock_card_ops sample_curve) d circ_card hsk msg cred bsn rand a))
       circ_sk None = Ok tok'
     \<and> token_verify circ_e 2000 tok' (group_key sample_curve One3 One3) [[9]] [[7]] = Ok True"
proof -
  let ?signer = "\<lambda>d hsk msg cred bsn rand a. fst (sign_split_ext sample_curve (mock_card_ops sample_curve) d circ_card hsk msg cred bsn rand a)"
  obtain tok where t: "tok_base tok \<noteq> None"
    and v: "token_verify circ_e 2000 tok (group_key sample_curve One3 One3) [[9]] [[7]] = Ok True"
    "credential_of (current_entry tok) = Some circ_cred" "hi_signature (current_entry tok) \<noteq> []"
    using circ_minted by blast
  obtain base where base: "tok_base tok = Some base" using t by blast
  let ?prev = "hi_signature (current_entry tok)" let ?msg = "enc_transfer circ_env (new_transfer circ_ticket ?prev)"
  have basis: "transfer_basis tok = Ok (?prev, circ_cred)" using transfer_basis_current [OF base] v(2) by simp
  have msg: "?msg \<noteq> []" by (simp add: circ_env_def)
  have held: "mock_holds circ_card Zero3" by (simp add: circ_card_def mock_holds_def)
  obtain r c' where split: "sign_split sample_curve (mock_card_ops sample_curve) 0 circ_card circ_sk ?msg circ_cred (Some ?prev) False
      = (sign (with_random sample_curve (\<lambda>i. if i = 1 then r + cv_random sample_curve 0 1 else cv_random sample_curve 0 i)) 0 ?msg
           circ_cred (cv_to_be sample_curve (Zero3 + One3)) (Some ?prev) False, c')"
    using mock.sign_split_combined [OF sample_curve_ok held deserialize_exact(3) [OF sample_curve_ok], of 0 One3 ?msg circ_cred
        "Some ?prev" False] by blast
  obtain sig where "sign (with_random sample_curve (\<lambda>i. if i = 1 then r + cv_random sample_curve 0 1 else cv_random sample_curve 0 i)) 0 ?msg
      circ_cred (cv_to_be sample_curve (Zero3 + One3)) (Some ?prev) False = Ok (Some sig)"
    unfolding circ_cred_def
    using sign_with_random_returns [OF sample_curve_ok deserialize_exact(3) [OF sample_curve_ok] msg] v(3) by blast
  with split have "?signer 0 circ_sk ?msg circ_cred (Some ?prev) False None = Ok (Inr sig)" by (simp add: sign_split_ext_eq)
  then obtain tok' where paid: "token_transfer_split circ_e 0 tok circ_ticket ?signer circ_sk None = Ok tok'"
    by (simp add: token_transfer_split_def basis Let_def)
  have mem: "member sample_curve One3 One3 circ_cred (cv_to_be sample_curve (mc_card_sk circ_card + One3))"
    using circ_member by (simp add: circ_card_def)
  from card_payment_verifies [OF sample_curve_ok _ v(1) circ_ticket_verify v(2) mem deserialize_exact(3) [OF sample_curve_ok] paid] paid
  show ?thesis by blast
qed

definition circ_entry :: "token \<Rightarrow> entry" where
  "circ_entry tok = \<lparr>en_id = [1], en_tokens = [tok], en_abuses = [], en_last_update = 4\<rparr>"

definition circ_map :: "token \<Rightarrow> tokenmap" where
  "circ_map tok = tokenmap_new\<lparr>tm_tokens := [([1], circ_entry tok)],
     tm_tickets := [(circ_cred, \<lparr>stk_ticket = circ_ticket, stk_nac = sample_nac, stk_expires_on = 605800\<rparr>)]\<rparr>"

lemma circ_map_get: "tbl_get (tm_tokens (circ_map tok)) [1] = Some (circ_entry tok)"
  by (simp add: circ_map_def tbl_get_def)

lemma circ_map_inv: "tokenmap_inv (circ_map tok)"
  by (rule tokenmap_invI)
    (auto simp: circ_map_def circ_entry_def tokenmap_new_def tables_wf_def tbl_wf_def entry_inv_def tbl_get_def split: if_splits)


lemma appended_bytes_frame_holder_witness:
  "\<exists>tok tm'. token_verify circ_e 2000 (forged_copy [0] tok) (group_key sample_curve One3 One3) [[9]] [[7]] = Ok True
     \<and> update_impl circ_e 2000 [1] (Some (forged_copy [0] tok)) (circ_map tok)
       = (Ok \<lparr>ur_created = False, ur_abuse_detected = True\<rparr>, tm')"
proof -
  obtain tok where t: "tok_history tok = []" "tok_base tok \<noteq> None" "token_expiry_of tok = Ok (Some 1000000)"
    and v: "token_verify circ_e 2000 tok (group_key sample_curve One3 One3) [[9]] [[7]] = Ok True"
    "credential_of (current_entry tok) = Some circ_cred" "hi_signature (current_entry tok) \<noteq> []"
    using circ_minted by blast
  obtain base where base: "tok_base tok = Some base" using t(2) by blast
  obtain h where paid: "token_transfer circ_e 0 tok circ_ticket circ_sk = Ok (tok\<lparr>tok_history := tok_history tok @ [h]\<rparr>)"
    and h: "recipient_of h = Some circ_ticket" "transfer_tags h = []"
    using member_transfers [OF sample_curve_ok circ_encodes circ_member base v(2,3)] by blast
  let ?tok = "tok\<lparr>tok_history := [h]\<rparr>"
  have v': "token_verify circ_e 2000 ?tok (group_key sample_curve One3 One3) [[9]] [[7]] = Ok True"
    using token_transfer_verifies [OF v(1) _ circ_ticket_verify v(2) member_signs(1) [OF sample_curve_ok circ_member] paid]
    by (simp add: t(1))
  have whole: "get_split_amount (hi_transfer (last (tok_history ?tok))) = None"
    using h(2) by (auto simp: get_split_amount_def transfer_tags_def split: option.splits)
  obtain rd where rd: "double_spend_revocation circ_e 2000 [1] (circ_entry ?tok) 0 (length (tok_history ?tok) - 1) (circ_map ?tok) = Ok rd"
    using h(1) t(3) base
    by (auto simp: double_spend_revocation_def Let_def circ_entry_def circ_map_def token_expiry_of_def recipient_ticket_def
        recipient_of_def get_ticket_signature_def tbl_get_def circ_ticket_def expires_on_def expires_on_with_epoch_def
        ticket_tags_def DEFAULT_EPOCH_SECONDS_def u32_mul_def u64_add_def arith_def and_then_Inr_iff split: option.splits)
  have en: "en_tokens (circ_entry ?tok) = [?tok]" "en_abuses (circ_entry ?tok) = []" by (simp_all add: circ_entry_def)
  show ?thesis
    using appended_bytes_frame_holder [OF v' _ _ whole circ_map_inv circ_map_get en rd, of "[0]"]
    by (auto simp: sql_u64_def)
qed

end
