(* ===== verification/Bloom.thy ===== *)
theory Bloom
  imports Prelude
begin

section \<open>Buffers of fixed capacity and the stick's Bloom filter (\<open>hardware/stick/firmware/src/bloom.rs\<close>)\<close>

text \<open>
  The firmware has no heap: its vectors are \<open>heapless::Vec<T, N>\<close>, whose \<open>extend_from_slice\<close> and \<open>push\<close>
  fail as a whole when the capacity is exceeded and leave the vector as it was. The Bloom filter marks the
  basenames a stick signed for in the current epoch. The firmware's release profile has no overflow checks,
  so counters wrap as words do.
\<close>

unbundle bit_operations_syntax

type_synonym u16 = "16 word"

definition buf_extend :: "nat \<Rightarrow> 'a list \<Rightarrow> 'a list \<Rightarrow> 'a list option" where
  "buf_extend cap xs ys = (if length xs + length ys \<le> cap then Some (xs @ ys) else None)"

text \<open>\<open>.ok()\<close> and \<open>let _ =\<close> ignore the failure.\<close>

definition buf_put :: "nat \<Rightarrow> 'a list \<Rightarrow> 'a list \<Rightarrow> 'a list" where
  "buf_put cap xs ys = (case buf_extend cap xs ys of None \<Rightarrow> xs | Some zs \<Rightarrow> zs)"

lemma buf_put_fits [simp]: "length xs + length ys \<le> cap \<Longrightarrow> buf_put cap xs ys = xs @ ys"
  by (simp add: buf_put_def buf_extend_def)

lemma buf_put_full [simp]: "cap < length xs + length ys \<Longrightarrow> buf_put cap xs ys = xs"
  by (simp add: buf_put_def buf_extend_def)

lemma buf_extend_Some_iff: "buf_extend cap xs ys = Some zs \<longleftrightarrow> length xs + length ys \<le> cap \<and> zs = xs @ ys"
  by (auto simp: buf_extend_def)

lemma length_buf_put: "length xs \<le> cap \<Longrightarrow> length (buf_put cap xs ys) \<le> cap"
  by (simp add: buf_put_def buf_extend_def)

subsection \<open>The filter\<close>

definition BLOOM_SIZE :: nat where "BLOOM_SIZE = 1200"
definition BLOOM_BITS :: nat where "BLOOM_BITS = BLOOM_SIZE * 8"
definition NUM_HASHES :: nat where "NUM_HASHES = 7"

record bloom =
  bl_bits :: bytes
  bl_epoch :: u32
  bl_count :: u32

definition bloom_new :: bloom where
  "bloom_new = \<lparr>bl_bits = replicate BLOOM_SIZE 0, bl_epoch = 0, bl_count = 0\<rparr>"

definition u16_from_be_bytes :: "u8 \<Rightarrow> u8 \<Rightarrow> u16" where
  "u16_from_be_bytes hi lo = of_nat (256 * unat hi + unat lo)"

definition compute_hashes :: "(bytes \<Rightarrow> bytes) \<Rightarrow> bytes \<Rightarrow> u16 list" where
  "compute_hashes sha basename =
     (let hash = sha basename
      in map (\<lambda>i. u16_from_be_bytes (hash ! (i * 2)) (hash ! (i * 2 + 1)) mod of_nat BLOOM_BITS) [0..<NUM_HASHES])"

text \<open>The test and the update both loops make at one index.\<close>

definition bit_unset :: "bytes \<Rightarrow> u16 \<Rightarrow> bool" where
  "bit_unset bits h =
     (let byte_idx = unat (h div 8); bit_idx = unat (h mod 8)
      in byte_idx < BLOOM_SIZE \<and> (bits ! byte_idx) AND push_bit bit_idx 1 = 0)"

definition mark_bit :: "bytes \<Rightarrow> u16 \<Rightarrow> bytes" where
  "mark_bit bits h =
     (let byte_idx = unat (h div 8); bit_idx = unat (h mod 8)
      in if byte_idx < BLOOM_SIZE then bits[byte_idx := (bits ! byte_idx) OR push_bit bit_idx 1] else bits)"

definition bloom_check_and_add :: "(bytes \<Rightarrow> bytes) \<Rightarrow> bytes \<Rightarrow> bloom \<Rightarrow> bool \<times> bloom" where
  "bloom_check_and_add sha basename bl =
     (let hashes = compute_hashes sha basename in
      if list_all (\<lambda>h. \<not> bit_unset (bl_bits bl) h) hashes then (True, bl)
      else (False, bl\<lparr>bl_bits := foldl mark_bit (bl_bits bl) hashes, bl_count := bl_count bl + 1\<rparr>))"

definition bloom_contains :: "(bytes \<Rightarrow> bytes) \<Rightarrow> bytes \<Rightarrow> bloom \<Rightarrow> bool" where
  "bloom_contains sha basename bl = list_all (\<lambda>h. \<not> bit_unset (bl_bits bl) h) (compute_hashes sha basename)"

definition bloom_reset_for_epoch :: "u32 \<Rightarrow> bloom \<Rightarrow> bool \<times> bloom" where
  "bloom_reset_for_epoch new_epoch bl =
     (if new_epoch \<le> bl_epoch bl then (False, bl)
      else (True, bl\<lparr>bl_bits := replicate BLOOM_SIZE 0, bl_epoch := new_epoch, bl_count := 0\<rparr>))"

subsection \<open>The filter as a set of indices\<close>

text \<open>\<open>marked\<close> abstracts the bit array to the set of indices whose bit is set.\<close>

definition bloom_wf :: "bloom \<Rightarrow> bool" where
  "bloom_wf bl \<longleftrightarrow> length (bl_bits bl) = BLOOM_SIZE"

definition marked :: "bytes \<Rightarrow> u16 set" where
  "marked bits = {h. unat h < BLOOM_BITS \<and> \<not> bit_unset bits h}"

lemma index_in_array: "unat (h :: u16) < BLOOM_BITS \<longleftrightarrow> unat (h div 8) < BLOOM_SIZE"
  by (simp add: BLOOM_BITS_def unat_div, linarith)

lemma bit_unset_iff:
  "unat h < BLOOM_BITS \<Longrightarrow> bit_unset bits h \<longleftrightarrow> \<not> bit (bits ! unat (h div 8)) (unat (h mod 8))"
  by (simp add: bit_unset_def index_in_array Let_def and_exp_eq_0_iff_not_bit push_bit_eq_mult)

lemma index_eq_iff: "(h :: u16) = h' \<longleftrightarrow> unat (h div 8) = unat (h' div 8) \<and> unat (h mod 8) = unat (h' mod 8)"
  by (metis (no_types) word_unat_eq_iff div_mult_mod_eq)

lemma bit_mark_bit:
  assumes "length bits = BLOOM_SIZE" "unat h < BLOOM_BITS" "unat h' < BLOOM_BITS"
  shows "bit_unset (mark_bit bits h) h' \<longleftrightarrow> bit_unset bits h' \<and> h' \<noteq> h"
proof -
  have "unat (h' mod 8) < 8" by (simp add: unat_mod)
  moreover have "bit (2 ^ k :: u8) j \<longleftrightarrow> j = k" if "j < 8" for j k using that by (auto simp: bit_exp_iff)
  ultimately show ?thesis
    using assms by (auto simp: bit_unset_iff mark_bit_def Let_def index_in_array nth_list_update index_eq_iff [of h' h]
        bit_or_iff bit_push_bit_iff bit_1_iff)
qed

lemma marked_mark_bit:
  "length bits = BLOOM_SIZE \<Longrightarrow> unat h < BLOOM_BITS \<Longrightarrow> marked (mark_bit bits h) = insert h (marked bits)"
  by (auto simp: marked_def bit_mark_bit)

lemma length_mark_bit [simp]: "length (mark_bit bits h) = length bits"
  by (simp add: mark_bit_def Let_def)

lemma marked_foldl:
  "length bits = BLOOM_SIZE \<Longrightarrow> (\<And>h. h \<in> set hs \<Longrightarrow> unat h < BLOOM_BITS) \<Longrightarrow>
     marked (foldl mark_bit bits hs) = set hs \<union> marked bits \<and> length (foldl mark_bit bits hs) = BLOOM_SIZE"
  by (induction hs arbitrary: bits) (auto simp: marked_mark_bit)

lemma marked_empty: "marked (replicate BLOOM_SIZE 0) = {}"
  by (auto simp: marked_def bit_unset_iff index_in_array)

lemma hashes_in_range: "h \<in> set (compute_hashes sha b) \<Longrightarrow> unat h < BLOOM_BITS"
  by (auto simp: compute_hashes_def Let_def BLOOM_BITS_def BLOOM_SIZE_def unat_mod)

lemma all_marked: "list_all (\<lambda>h. \<not> bit_unset bits h) (compute_hashes sha b) \<longleftrightarrow> set (compute_hashes sha b) \<subseteq> marked bits"
  using hashes_in_range [of _ sha b] by (auto simp: list_all_iff marked_def)

lemma bloom_contains_marked: "bloom_contains sha b bl \<longleftrightarrow> set (compute_hashes sha b) \<subseteq> marked (bl_bits bl)"
  by (simp add: bloom_contains_def all_marked)

lemma bloom_add:
  assumes "bloom_wf bl"
  shows "marked (bl_bits (snd (bloom_check_and_add sha b bl))) = marked (bl_bits bl) \<union> set (compute_hashes sha b)"
    and "bloom_wf (snd (bloom_check_and_add sha b bl))" "bl_epoch (snd (bloom_check_and_add sha b bl)) = bl_epoch bl"
    and "fst (bloom_check_and_add sha b bl) \<longleftrightarrow> bloom_contains sha b bl"
    and "bl_count (snd (bloom_check_and_add sha b bl)) = bl_count bl + (if bloom_contains sha b bl then 0 else 1)"
  using marked_foldl [OF assms [unfolded bloom_wf_def] hashes_in_range [of _ sha b]] assms
  by (auto simp: bloom_contains_marked bloom_check_and_add_def all_marked Let_def bloom_wf_def)

lemma bloom_reset:
  assumes "bloom_wf bl"
  shows "bloom_wf (snd (bloom_reset_for_epoch n bl))" "fst (bloom_reset_for_epoch n bl) \<longleftrightarrow> bl_epoch bl < n"
    and "bl_epoch (snd (bloom_reset_for_epoch n bl)) = max n (bl_epoch bl)"
    and "marked (bl_bits (snd (bloom_reset_for_epoch n bl))) = (if bl_epoch bl < n then {} else marked (bl_bits bl))"
  using assms by (auto simp: bloom_reset_for_epoch_def bloom_wf_def marked_empty max_def)

text \<open>C22: the bit array implements a set of indices: a basename is contained exactly when its seven indices
  are marked; adding it answers that and marks them; a reset is accepted exactly for a later epoch and
  empties the set.\<close>

theorem bloom_implements_set:
  assumes "bloom_wf bl"
  shows "(bloom_contains sha b bl \<longleftrightarrow> set (compute_hashes sha b) \<subseteq> marked (bl_bits bl))
    \<and> (fst (bloom_check_and_add sha b bl) \<longleftrightarrow> bloom_contains sha b bl)
    \<and> marked (bl_bits (snd (bloom_check_and_add sha b bl))) = marked (bl_bits bl) \<union> set (compute_hashes sha b)
    \<and> bl_epoch (snd (bloom_check_and_add sha b bl)) = bl_epoch bl
    \<and> (fst (bloom_reset_for_epoch n bl) \<longleftrightarrow> bl_epoch bl < n)
    \<and> marked (bl_bits (snd (bloom_reset_for_epoch n bl))) = (if bl_epoch bl < n then {} else marked (bl_bits bl))"
  by (simp add: bloom_contains_marked bloom_add [OF assms] bloom_reset [OF assms])

lemma bloom_new_wf: "bloom_wf bloom_new"
  by (simp add: bloom_new_def bloom_wf_def)

lemma bloom_implements_set_witness:
  "marked (bl_bits (snd (bloom_check_and_add (\<lambda>b. b @ replicate 32 0) [1] bloom_new)))
     = marked (bl_bits bloom_new) \<union> set (compute_hashes (\<lambda>b. b @ replicate 32 0) [1])"
  using bloom_implements_set [OF bloom_new_wf] by blast

subsection \<open>Runs of the filter\<close>

datatype bloom_op = Bloom_Add bytes | Bloom_Reset u32

fun bloom_apply :: "(bytes \<Rightarrow> bytes) \<Rightarrow> bloom_op \<Rightarrow> bloom \<Rightarrow> bloom" where
  "bloom_apply sha (Bloom_Add b) bl = snd (bloom_check_and_add sha b bl)"
| "bloom_apply sha (Bloom_Reset n) bl = snd (bloom_reset_for_epoch n bl)"

lemma bloom_apply_step:
  assumes "bloom_wf bl"
  shows "bloom_wf (bloom_apply sha op bl)" "bl_epoch bl \<le> bl_epoch (bloom_apply sha op bl)"
    "bl_epoch (bloom_apply sha op bl) = bl_epoch bl \<Longrightarrow> marked (bl_bits bl) \<subseteq> marked (bl_bits (bloom_apply sha op bl))"
  using bloom_add [OF assms, of sha] bloom_reset [OF assms] by (cases op; auto simp: max_def split: if_splits)+

lemma bloom_run_step:
  assumes "bloom_wf bl"
  shows "bloom_wf (fold (bloom_apply sha) ops bl) \<and> bl_epoch bl \<le> bl_epoch (fold (bloom_apply sha) ops bl)
    \<and> (bl_epoch (fold (bloom_apply sha) ops bl) = bl_epoch bl \<longrightarrow>
        marked (bl_bits bl) \<subseteq> marked (bl_bits (fold (bloom_apply sha) ops bl)))"
  using assms
proof (induction ops arbitrary: bl)
  case (Cons op ops)
  note step = bloom_apply_step [OF Cons.prems, of sha op]
  note rest = Cons.IH [OF step(1)]
  show ?case
  proof (cases "bl_epoch (bloom_apply sha op bl) = bl_epoch bl")
    case True
    then show ?thesis using step rest by auto
  next
    case False
    then show ?thesis using step(2) rest by auto
  qed
qed simp

text \<open>no false negative: within an epoch a basename passes at most once. After it was added, every later
  attempt in the same epoch is answered as present, whatever was added or refused in between.\<close>

theorem bloom_refuses_repeats:
  assumes "bloom_wf bl" and "bl' = fold (bloom_apply sha) ops (snd (bloom_check_and_add sha b bl))"
    and "bl_epoch bl' = bl_epoch bl"
  shows "bloom_check_and_add sha b bl' = (True, bl')"
proof -
  let ?bl = "snd (bloom_check_and_add sha b bl)"
  have first: "set (compute_hashes sha b) \<subseteq> marked (bl_bits ?bl)" "bloom_wf ?bl" "bl_epoch ?bl = bl_epoch bl"
    using bloom_add [OF assms(1), of sha b] by auto
  then have "set (compute_hashes sha b) \<subseteq> marked (bl_bits bl')"
    using bloom_run_step [OF first(2), of sha ops] assms(2,3) by auto
  then show ?thesis by (simp add: bloom_check_and_add_def all_marked Let_def)
qed

lemma bloom_refuses_repeats_witness:
  "\<exists>bl'. bl' = fold (bloom_apply (\<lambda>b. b @ replicate 32 0)) [Bloom_Reset 0] (snd (bloom_check_and_add (\<lambda>b. b @ replicate 32 0) [1] bloom_new))
     \<and> bloom_check_and_add (\<lambda>b. b @ replicate 32 0) [1] bl' = (True, bl')"
  using bloom_refuses_repeats [OF bloom_new_wf refl, of "\<lambda>b. b @ replicate 32 0" "[Bloom_Reset 0]" "[1]"]
  by (simp add: bloom_reset_for_epoch_def bloom_check_and_add_def Let_def bloom_new_def)

text \<open>The counter of an epoch never exceeds the number of indices: each basename let through marks a new one.\<close>

definition bloom_inv :: "bloom \<Rightarrow> bool" where
  "bloom_inv bl \<longleftrightarrow> bloom_wf bl \<and> unat (bl_count bl) \<le> card (marked (bl_bits bl))"

lemma marked_bounded: "finite (marked bits)" "card (marked bits) \<le> BLOOM_BITS"
proof -
  have sub: "marked bits \<subseteq> of_nat ` {..<BLOOM_BITS}"
    by (auto simp: marked_def intro!: image_eqI [of _ _ "unat _"])
  then show "finite (marked bits)" by (rule finite_subset) simp
  show "card (marked bits) \<le> BLOOM_BITS"
    using card_mono [OF _ sub] card_image_le [of "{..<BLOOM_BITS}" "of_nat :: nat \<Rightarrow> u16"] by simp
qed

text \<open>in every run from a new filter the number of basenames counted in the epoch is at most the number of
  bits, so the 32-bit counter never wraps.\<close>

theorem bloom_count_bounded:
  "bloom_inv (fold (bloom_apply sha) ops bloom_new) \<and> unat (bl_count (fold (bloom_apply sha) ops bloom_new)) \<le> 9600"
proof -
  have step: "bloom_inv (bloom_apply sha op bl)" if inv: "bloom_inv bl" for op bl
  proof (cases op)
    case (Bloom_Add b)
    show ?thesis
    proof (cases "fst (bloom_check_and_add sha b bl)")
      case True
      then show ?thesis using inv by (auto simp: Bloom_Add bloom_check_and_add_def Let_def split: if_splits)
    next
      case False
      let ?bl = "snd (bloom_check_and_add sha b bl)"
      have new: "\<not> set (compute_hashes sha b) \<subseteq> marked (bl_bits bl)"
        "marked (bl_bits ?bl) = marked (bl_bits bl) \<union> set (compute_hashes sha b)" "bloom_wf ?bl" "bl_count ?bl = bl_count bl + 1"
        using bloom_add [of bl sha b] False inv by (auto simp: bloom_inv_def bloom_contains_marked)
      have "card (marked (bl_bits bl)) < card (marked (bl_bits ?bl))"
        using new(1,2) by (intro psubset_card_mono marked_bounded) auto
      moreover have "unat (bl_count bl + 1) \<le> Suc (unat (bl_count bl))"
        by (simp add: unat_word_ariths)
      ultimately show ?thesis using inv new(3,4) by (simp add: Bloom_Add bloom_inv_def)
    qed
  next
    case (Bloom_Reset n)
    then show ?thesis using inv by (simp add: bloom_reset_for_epoch_def bloom_inv_def bloom_wf_def)
  qed
  have "bloom_inv bloom_new" by (simp add: bloom_inv_def bloom_new_wf) (simp add: bloom_new_def)
  then have "bloom_inv (fold (bloom_apply sha) ops bl)" if "bloom_inv bl" for bl
    using that step by (induction ops arbitrary: bl) auto
  then have inv: "bloom_inv (fold (bloom_apply sha) ops bloom_new)" using \<open>bloom_inv bloom_new\<close> by blast
  then show ?thesis
    using marked_bounded(2) [of "bl_bits (fold (bloom_apply sha) ops bloom_new)"]
    by (auto simp: bloom_inv_def BLOOM_BITS_def BLOOM_SIZE_def)
qed

end
