(* ===== verification/Stick.thy ===== *)
theory Stick
  imports Bloom Attestation
begin

section \<open>The payment stick (\<open>hardware/stick/firmware/src/{apdu,storage,ecdaa,button,nfc,main}.rs\<close>)\<close>

text \<open>
  A stick answers commands (APDUs) over NFC and keys pressed by its holder. Its state is the storage, the
  Bloom filter, and a transaction that survives between taps. \<open>sha\<close> is SHA-256. Parts of the firmware are
  marked as placeholders by its authors: token selection always proposes zero tokens, curve points and
  random bytes are zeros, and flash is not read or written. They are modelled as they are written.
\<close>

definition be_word :: "bytes \<Rightarrow> u32" where
  "be_word bs = of_nat (be_u32 bs)"

definition u32_bytes :: "u32 \<Rightarrow> bytes" where
  "u32_bytes w = u32_to_be_bytes (unat w)"

lemma length_u32_bytes [simp]: "length (u32_bytes n) = 4"
  by (simp add: u32_bytes_def)

lemma be_word_u32_bytes [simp]: "be_word (u32_bytes n) = n"
  by (simp add: be_word_def u32_bytes_def be_u32_roundtrip [of "unat n"] unsigned_less [where 'a = nat and 'b = 32, simplified])

subsection \<open>Buttons and storage\<close>

datatype pin_symbol = Left (pin_long: bool) | Right (pin_long: bool)

definition pin_to_byte :: "pin_symbol \<Rightarrow> u8" where
  "pin_to_byte s = (case s of Left False \<Rightarrow> 0 | Left True \<Rightarrow> 1 | Right False \<Rightarrow> 2 | Right True \<Rightarrow> 3)"

record storage =
  sg_ecdaa_sk :: bytes
  sg_key_initialized :: bool
  sg_balance :: u32
  sg_signed_ticket :: bytes
  sg_epoch_data :: bytes
  sg_epoch_number :: u32
  sg_pin_hash :: "bytes option"
  sg_received_tokens :: bytes
  sg_received_count :: u32

definition storage_init :: storage where
  "storage_init = \<lparr>sg_ecdaa_sk = replicate 32 0, sg_key_initialized = False, sg_balance = 0, sg_signed_ticket = [],
     sg_epoch_data = [], sg_epoch_number = 0, sg_pin_hash = None, sg_received_tokens = [], sg_received_count = 0\<rparr>"

definition pin_salt :: bytes where
  "pin_salt = map (\<lambda>c. of_nat (of_char c)) ''briolette-credstick-pin-salt''"

text \<open>The comparison in constant time: the exclusive ors of all byte pairs, or-ed together.\<close>

definition storage_verify_pin :: "(bytes \<Rightarrow> bytes) \<Rightarrow> pin_symbol list \<Rightarrow> storage \<Rightarrow> bool" where
  "storage_verify_pin sha pin sg =
     (case sg_pin_hash sg of
        None \<Rightarrow> True
      | Some hash \<Rightarrow>
          let computed = sha (map pin_to_byte pin @ pin_salt)
          in foldl (\<lambda>diff i. diff OR (computed ! i XOR hash ! i)) 0 [0..<32] = 0)"

definition select_tokens :: "u32 \<Rightarrow> storage \<Rightarrow> bytes \<Rightarrow> bytes" where
  "select_tokens amount sg out = buf_put 2048 out (u32_bytes 0)"

definition saturating_sub :: "'a::len word \<Rightarrow> 'a word \<Rightarrow> 'a word" where
  "saturating_sub a b = (if b \<le> a then a - b else 0)"

definition storage_deduct :: "u32 \<Rightarrow> storage \<Rightarrow> storage" where
  "storage_deduct amount sg = sg\<lparr>sg_balance := saturating_sub (sg_balance sg) amount\<rparr>"

definition storage_receive_tokens :: "bytes \<Rightarrow> storage \<Rightarrow> u32 \<times> storage" where
  "storage_receive_tokens token_data sg =
     (let sg' = sg\<lparr>sg_received_tokens := buf_put 4096 (sg_received_tokens sg) token_data,
                  sg_received_count := sg_received_count sg + 1, sg_balance := sg_balance sg + 1\<rparr>
      in (sg_received_count sg', sg'))"

definition storage_sweep_received_tokens :: "storage \<Rightarrow> bytes \<times> storage" where
  "storage_sweep_received_tokens sg = (sg_received_tokens sg, sg\<lparr>sg_received_tokens := [], sg_received_count := 0\<rparr>)"

definition storage_update_epoch :: "bytes \<Rightarrow> storage \<Rightarrow> storage" where
  "storage_update_epoch data sg =
     (let sg' = sg\<lparr>sg_epoch_data := buf_put 512 [] data\<rparr>
      in if 4 \<le> length data then sg'\<lparr>sg_epoch_number := be_word (take 4 data)\<rparr> else sg')"

subsection \<open>The card's share of a signature\<close>

record card_commitment =
  cc_u_card :: bytes
  cc_k_card :: "bytes option"
  cc_k_u_card :: "bytes option"

text \<open>The state is the Bloom filter and the session, the static \<open>SIGN_SESSION\<close>.\<close>

type_synonym signer = "bloom \<times> bytes option"

definition stick_sign_commit :: "(bytes \<Rightarrow> bytes) \<Rightarrow> bytes \<Rightarrow> bytes option \<Rightarrow> signer \<Rightarrow> card_commitment option \<times> signer" where
  "stick_sign_commit sha s_point basename_base st =
     (case st of (bl, session) \<Rightarrow>
        if length s_point < 48 then (None, st)
        else
          (case (case basename_base of None \<Rightarrow> (False, bl) | Some bsn \<Rightarrow> bloom_check_and_add sha bsn bl) of
             (True, bl1) \<Rightarrow> (None, (bl1, session))
           | (False, bl1) \<Rightarrow>
               let r_card = replicate 32 0; zeros = map_option (\<lambda>_. replicate 48 0) basename_base
               in (Some \<lparr>cc_u_card = replicate 48 0, cc_k_card = zeros, cc_k_u_card = zeros\<rparr>, (bl1, Some r_card))))"

definition stick_sign_respond :: "bytes \<Rightarrow> signer \<Rightarrow> bytes option \<times> signer" where
  "stick_sign_respond challenge st =
     (if length challenge < 32 then (None, st)
      else case st of (bl, None) \<Rightarrow> (None, st) | (bl, Some r_card) \<Rightarrow> (Some (replicate 32 0), (bl, None)))"

definition stick_public_key_share :: "bytes \<Rightarrow> bytes option" where
  "stick_public_key_share base = (if length base < 48 then None else Some (replicate 48 0))"

definition stick_join_respond :: "bytes \<Rightarrow> signer \<Rightarrow> bytes option \<times> signer" where
  "stick_join_respond challenge st = stick_sign_respond challenge st"

definition stick_join_commit :: "bytes \<Rightarrow> signer \<Rightarrow> (bytes \<times> bytes) option \<times> signer" where
  "stick_join_commit base st =
     (if length base < 48 then (None, st)
      else (Some (replicate 48 0, replicate 32 0), (fst st, Some (replicate 32 0))))"

definition compute_local_challenge :: "(bytes \<Rightarrow> bytes) \<Rightarrow> card_commitment \<Rightarrow> bytes \<Rightarrow> bytes" where
  "compute_local_challenge sha commitment s_point =
     take 32 (sha (s_point @ cc_u_card commitment
       @ (case cc_k_card commitment of None \<Rightarrow> [] | Some k \<Rightarrow> k)
       @ (case cc_k_u_card commitment of None \<Rightarrow> [] | Some k \<Rightarrow> k)))"

text \<open>The loop over the proposed tokens: \<open>n\<close> rounds to go, \<open>rest\<close> the bytes from the offset. The early
  returns leave the filter as far as it was marked.\<close>

primrec sign_each :: "(bytes \<Rightarrow> bytes) \<Rightarrow> nat \<Rightarrow> bytes \<Rightarrow> bytes \<Rightarrow> signer \<Rightarrow> bytes option \<times> signer" where
  "sign_each sha 0 rest sigs st = (Some sigs, st)"
| "sign_each sha (Suc n) rest sigs st =
     (if length rest < 48 then (None, st)
      else
        let s_point = take 48 rest; rest1 = drop 48 rest;
            basename = (if 48 \<le> length rest1 then Some (take 48 rest1) else None);
            rest2 = (if 48 \<le> length rest1 then drop 48 rest1 else rest1) in
        case stick_sign_commit sha s_point basename st of
          (None, st1) \<Rightarrow> (None, st1)
        | (Some cm, st1) \<Rightarrow>
            let sigs1 = buf_put 2048 sigs (cc_u_card cm);
                sigs2 = (case cc_k_card cm of None \<Rightarrow> sigs1 | Some k \<Rightarrow> buf_put 2048 sigs1 k);
                sigs3 = (case cc_k_u_card cm of None \<Rightarrow> sigs2 | Some k \<Rightarrow> buf_put 2048 sigs2 k) in
            case stick_sign_respond (compute_local_challenge sha cm s_point) st1 of
              (None, st2) \<Rightarrow> (None, st2)
            | (Some s_card, st2) \<Rightarrow> sign_each sha n rest2 (buf_put 2048 sigs3 s_card) st2)"

definition sign_tokens :: "(bytes \<Rightarrow> bytes) \<Rightarrow> bytes \<Rightarrow> bytes \<Rightarrow> signer \<Rightarrow> bytes option \<times> signer" where
  "sign_tokens sha proposed_tokens card_sk st =
     (if length card_sk \<noteq> 32 then (None, st)
      else if length proposed_tokens < 4 then (None, st)
      else sign_each sha (be_u32 (take 4 proposed_tokens)) (drop 4 proposed_tokens) [] st)"

subsection \<open>Commands and status words\<close>

definition CLA_BRIOLETTE :: u8 where "CLA_BRIOLETTE = 0x80"

definition INS_INITIATE :: u8 where "INS_INITIATE = 0x10"
definition INS_READ_TICKET :: u8 where "INS_READ_TICKET = 0x11"
definition INS_GOSSIP :: u8 where "INS_GOSSIP = 0x12"
definition INS_TRANSACT :: u8 where "INS_TRANSACT = 0x20"
definition INS_TRANSFER :: u8 where "INS_TRANSFER = 0x30"
definition INS_RECEIVE :: u8 where "INS_RECEIVE = 0x31"
definition INS_SWEEP :: u8 where "INS_SWEEP = 0x50"
definition INS_GET_BALANCE :: u8 where "INS_GET_BALANCE = 0x51"

lemmas ins_defs = CLA_BRIOLETTE_def INS_INITIATE_def INS_READ_TICKET_def INS_GOSSIP_def INS_TRANSACT_def INS_TRANSFER_def
  INS_RECEIVE_def INS_SWEEP_def INS_GET_BALANCE_def

definition SW_SUCCESS :: bytes where "SW_SUCCESS = [0x90, 0x00]"
definition SW_WRONG_LENGTH :: bytes where "SW_WRONG_LENGTH = [0x67, 0x00]"
definition SW_CONDITIONS_NOT_SATISFIED :: bytes where "SW_CONDITIONS_NOT_SATISFIED = [0x69, 0x85]"
definition SW_WRONG_DATA :: bytes where "SW_WRONG_DATA = [0x6A, 0x80]"
definition SW_INS_NOT_SUPPORTED :: bytes where "SW_INS_NOT_SUPPORTED = [0x6D, 0x00]"
definition SW_CLA_NOT_SUPPORTED :: bytes where "SW_CLA_NOT_SUPPORTED = [0x6E, 0x00]"
definition SW_LOCKED :: bytes where "SW_LOCKED = [0x69, 0x83]"

definition sw_pin_required :: "u8 \<Rightarrow> bytes" where
  "sw_pin_required retries = [0x63, 0xC0 OR (retries AND 0x0F)]"

lemmas sw_defs = SW_SUCCESS_def SW_WRONG_LENGTH_def SW_CONDITIONS_NOT_SATISFIED_def SW_WRONG_DATA_def
  SW_INS_NOT_SUPPORTED_def SW_CLA_NOT_SUPPORTED_def SW_LOCKED_def sw_pin_required_def

subsection \<open>The transaction\<close>

datatype phase = Idle | Proposed u32 bytes | TokensSent | Signed u32 | Rejected | Expired

datatype privacy_mode = Fast | Private

record stick =
  sk_phase :: phase
  sk_privacy_mode :: privacy_mode
  sk_tx_id :: bytes
  sk_proposed_amount :: u32
  sk_proposed_tokens :: bytes
  sk_signed :: bool
  sk_pin_authorized :: bool
  sk_pin_buffer :: "pin_symbol list"
  sk_pin_attempts_failed :: u8
  sk_pin_threshold :: u32
  sk_storage :: storage
  sk_bloom :: bloom
  sk_initiated_at :: "u64 option"
  sk_session :: "bytes option"

text \<open>\<open>sk_session\<close> is the static \<open>SIGN_SESSION\<close> of \<open>ecdaa.rs\<close>.\<close>

definition stick_new :: "storage \<Rightarrow> stick" where
  "stick_new sg = \<lparr>sk_phase = Idle, sk_privacy_mode = Fast, sk_tx_id = replicate 16 0, sk_proposed_amount = 0,
     sk_proposed_tokens = [], sk_signed = False, sk_pin_authorized = False, sk_pin_buffer = [],
     sk_pin_attempts_failed = 0, sk_pin_threshold = 10, sk_storage = sg, sk_bloom = bloom_new,
     sk_initiated_at = None, sk_session = None\<rparr>"

definition is_proposed :: "phase \<Rightarrow> bool" where
  "is_proposed p = (case p of Proposed a d \<Rightarrow> True | _ \<Rightarrow> False)"

definition stick_pin_required :: "stick \<Rightarrow> bool" where
  "stick_pin_required s \<longleftrightarrow> sk_pin_threshold s \<le> sk_proposed_amount s \<and> sg_pin_hash (sk_storage s) \<noteq> None
     \<and> \<not> sk_pin_authorized s"

definition pin_in_progress :: "stick \<Rightarrow> bool" where
  "pin_in_progress s \<longleftrightarrow> stick_pin_required s \<and> sk_pin_buffer s \<noteq> []"

definition pin_attempts_remaining :: "stick \<Rightarrow> u8" where
  "pin_attempts_remaining s = saturating_sub 10 (sk_pin_attempts_failed s)"

definition pin_input :: "pin_symbol \<Rightarrow> stick \<Rightarrow> stick" where
  "pin_input symbol s = s\<lparr>sk_pin_buffer := buf_put 16 (sk_pin_buffer s) [symbol]\<rparr>"

definition stick_verify_pin :: "(bytes \<Rightarrow> bytes) \<Rightarrow> stick \<Rightarrow> bool \<times> stick" where
  "stick_verify_pin sha s =
     (if pin_attempts_remaining s = 0 then (False, s)
      else
        let ok = storage_verify_pin sha (sk_pin_buffer s) (sk_storage s); s1 = s\<lparr>sk_pin_buffer := []\<rparr>
        in if ok then (True, s1\<lparr>sk_pin_authorized := True, sk_pin_attempts_failed := 0\<rparr>)
           else (False, s1\<lparr>sk_pin_attempts_failed := sk_pin_attempts_failed s1 + 1\<rparr>))"

definition stick_cancel :: "stick \<Rightarrow> stick" where
  "stick_cancel s = s\<lparr>sk_phase := Idle, sk_proposed_tokens := [], sk_signed := False, sk_pin_authorized := False,
     sk_pin_buffer := [], sk_initiated_at := None\<rparr>"

text \<open>The id: the amount's four bytes and zeros. The description: the printable bytes of the first 32 after
  the amounts.\<close>

definition generate_tx_id :: "u32 \<Rightarrow> bytes" where
  "generate_tx_id amount = u32_bytes amount @ replicate 12 0"

definition description_of :: "bytes \<Rightarrow> bytes" where
  "description_of data = filter (\<lambda>b. 0x20 \<le> b \<and> b \<le> 0x7E) (take 32 (drop 8 data))"

definition select_tokens_for_proposal :: "u32 \<Rightarrow> stick \<Rightarrow> stick" where
  "select_tokens_for_proposal amount s = s\<lparr>sk_proposed_tokens := select_tokens amount (sk_storage s) []\<rparr>"

abbreviation respond :: "bytes \<Rightarrow> bytes \<Rightarrow> bytes" where
  "respond \<equiv> buf_put 2048"

definition stick_initiate :: "bytes \<Rightarrow> stick \<Rightarrow> bytes \<Rightarrow> bytes \<times> stick" where
  "stick_initiate data s response =
     (if sk_phase s \<noteq> Idle then (respond response SW_CONDITIONS_NOT_SATISFIED, s)
      else if length data < 8 then (respond response SW_WRONG_DATA, s)
      else
        let amount = be_word (take 4 data); tx_id = generate_tx_id amount;
            s1 = s\<lparr>sk_tx_id := tx_id, sk_proposed_amount := amount, sk_initiated_at := Some 0\<rparr>;
            r1 = respond response tx_id;
            (r2, s2) = (if sk_privacy_mode s = Fast
              then let s' = select_tokens_for_proposal amount s1 in (respond r1 (sk_proposed_tokens s'), s') else (r1, s1))
        in (respond r2 SW_SUCCESS, s2\<lparr>sk_phase := Proposed amount (description_of data)\<rparr>))"

definition stick_read_ticket :: "stick \<Rightarrow> bytes \<Rightarrow> bytes" where
  "stick_read_ticket s response = respond (respond response (sg_signed_ticket (sk_storage s))) SW_SUCCESS"

definition stick_gossip :: "bytes \<Rightarrow> stick \<Rightarrow> bytes \<Rightarrow> bytes \<times> stick" where
  "stick_gossip data s response =
     (if length data < 4 then (respond response SW_WRONG_DATA, s)
      else
        let their_epoch = be_word (take 4 data); our_epoch = sg_epoch_number (sk_storage s);
            s1 = (if our_epoch < their_epoch
              then s\<lparr>sk_storage := storage_update_epoch data (sk_storage s),
                     sk_bloom := snd (bloom_reset_for_epoch their_epoch (sk_bloom s))\<rparr> else s)
        in (respond (respond response (sg_epoch_data (sk_storage s1))) SW_SUCCESS, s1))"

definition stick_transact :: "bytes \<Rightarrow> stick \<Rightarrow> bytes \<Rightarrow> bytes \<times> stick" where
  "stick_transact data s response =
     (case sk_phase s of
        Proposed amount desc \<Rightarrow>
          if sk_privacy_mode s = Private \<and> 16 \<le> length data \<and> take 16 data \<noteq> sk_tx_id s
          then (respond response SW_WRONG_DATA, s)
          else
            let s1 = (if sk_privacy_mode s = Private then select_tokens_for_proposal amount s else s)
            in (respond (respond response (sk_proposed_tokens s1)) SW_SUCCESS, s1\<lparr>sk_phase := TokensSent\<rparr>)
      | _ \<Rightarrow> (respond response SW_CONDITIONS_NOT_SATISFIED, s))"

definition stick_transfer :: "(bytes \<Rightarrow> bytes) \<Rightarrow> bytes \<Rightarrow> stick \<Rightarrow> bytes \<Rightarrow> bytes \<times> stick" where
  "stick_transfer sha data s response =
     (if \<not> (sk_phase s = TokensSent \<or> sk_privacy_mode s = Fast \<and> is_proposed (sk_phase s))
      then (respond response SW_CONDITIONS_NOT_SATISFIED, s)
      else if stick_pin_required s then (respond response (sw_pin_required (pin_attempts_remaining s)), s)
      else if pin_attempts_remaining s = 0 then (respond response SW_LOCKED, s)
      else case data of
        [] \<Rightarrow> (respond response SW_WRONG_DATA, s)
      | accept # _ \<Rightarrow>
          if accept \<noteq> 1
          then (respond response SW_SUCCESS, s\<lparr>sk_phase := Rejected, sk_proposed_tokens := [], sk_pin_authorized := False\<rparr>)
          else
            (case sign_tokens sha (sk_proposed_tokens s) (sg_ecdaa_sk (sk_storage s)) (sk_bloom s, sk_session s) of
               (signatures, bl, session) \<Rightarrow>
                 let s1 = s\<lparr>sk_bloom := bl, sk_session := session\<rparr> in
                 (case signatures of
                    Some sigs \<Rightarrow>
                      let sg = storage_deduct (sk_proposed_amount s1) (sk_storage s1)
                      in (respond (respond response sigs) SW_SUCCESS,
                          s1\<lparr>sk_storage := sg, sk_phase := Signed (sg_balance sg), sk_proposed_tokens := [], sk_signed := True,
                             sk_pin_authorized := False, sk_initiated_at := None\<rparr>)
                  | None \<Rightarrow> (respond response SW_CONDITIONS_NOT_SATISFIED, s1\<lparr>sk_phase := Rejected\<rparr>))))"

definition stick_receive :: "bytes \<Rightarrow> stick \<Rightarrow> bytes \<Rightarrow> bytes \<times> stick" where
  "stick_receive data s response =
     (if data = [] then (respond response SW_WRONG_DATA, s)
      else (respond (respond response [1]) SW_SUCCESS, s\<lparr>sk_storage := snd (storage_receive_tokens data (sk_storage s))\<rparr>))"

definition stick_sweep :: "stick \<Rightarrow> bytes \<Rightarrow> bytes \<times> stick" where
  "stick_sweep s response =
     (case storage_sweep_received_tokens (sk_storage s) of
        (tokens, sg) \<Rightarrow> (respond (respond response tokens) SW_SUCCESS, s\<lparr>sk_storage := sg\<rparr>))"

definition stick_get_balance :: "stick \<Rightarrow> bytes \<Rightarrow> bytes" where
  "stick_get_balance s response = respond (respond response (u32_bytes (sg_balance (sk_storage s)))) SW_SUCCESS"

definition handle_apdu :: "(bytes \<Rightarrow> bytes) \<Rightarrow> bytes \<Rightarrow> stick \<Rightarrow> bytes \<Rightarrow> bytes \<times> stick" where
  "handle_apdu sha apdu s response =
     (if length apdu < 4 then (respond response SW_WRONG_LENGTH, s)
      else if apdu ! 0 \<noteq> CLA_BRIOLETTE then (respond response SW_CLA_NOT_SUPPORTED, s)
      else if 4 < length apdu \<and> length apdu < 5 + unat (apdu ! 4) then (respond response SW_WRONG_LENGTH, s)
      else
        let ins = apdu ! 1; data = (if 4 < length apdu then take (unat (apdu ! 4)) (drop 5 apdu) else []) in
        if ins = INS_INITIATE then stick_initiate data s response
        else if ins = INS_READ_TICKET then (stick_read_ticket s response, s)
        else if ins = INS_GOSSIP then stick_gossip data s response
        else if ins = INS_TRANSACT then stick_transact data s response
        else if ins = INS_TRANSFER then stick_transfer sha data s response
        else if ins = INS_RECEIVE then stick_receive data s response
        else if ins = INS_SWEEP then stick_sweep s response
        else if ins = INS_GET_BALANCE then (stick_get_balance s response, s)
        else (respond response SW_INS_NOT_SUPPORTED, s))"

subsection \<open>The frame handler (\<open>nfc.rs\<close>)\<close>

text \<open>\<open>selected\<close> is the driver's state: the applet was selected since the field appeared. The answer to SELECT
  is the first two bytes of the transmit buffer, the status word.\<close>

definition BRIOLETTE_AID :: bytes where "BRIOLETTE_AID = [0xA0, 0, 0, 0, 0x62, 0x03, 0x01]"

definition handle_select :: "bytes \<Rightarrow> bool \<Rightarrow> bytes \<times> bool" where
  "handle_select apdu selected =
     (if length apdu < 5 then ([0x6A, 0x82], selected)
      else if apdu ! 2 \<noteq> 0x04 \<or> length apdu < 5 + unat (apdu ! 4) then ([0x6A, 0x82], selected)
      else if take (unat (apdu ! 4)) (drop 5 apdu) = BRIOLETTE_AID then ([0x90, 0x00], True)
      else ([0x6A, 0x82], False))"

definition handle_frame :: "(bytes \<Rightarrow> bytes) \<Rightarrow> bytes \<Rightarrow> bool \<Rightarrow> stick \<Rightarrow> bytes option \<times> bool \<times> stick" where
  "handle_frame sha apdu selected s =
     (if length apdu < 4 then (None, selected, s)
      else if apdu ! 1 = 0xA4 \<and> apdu ! 0 = 0
      then (case handle_select apdu selected of (r, selected') \<Rightarrow> (Some r, selected', s))
      else if \<not> selected then (Some [0x69, 0x99], selected, s)
      else (case handle_apdu sha apdu s [] of (r, s') \<Rightarrow> (Some (take 2048 r), selected, s')))"

subsection \<open>The event loop\<close>

text \<open>What the loop of \<open>main.rs\<close> does to the state at a button event; the display is left out.\<close>

datatype button = Button_Left bool | Button_Right bool | Button_Both

definition stick_button :: "(bytes \<Rightarrow> bytes) \<Rightarrow> button \<Rightarrow> stick \<Rightarrow> stick" where
  "stick_button sha ev s =
     (case ev of
        Button_Left long \<Rightarrow>
          if is_proposed (sk_phase s)
          then if stick_pin_required s \<and> pin_in_progress s then pin_input (Left long) s else stick_cancel s
          else s
      | Button_Right long \<Rightarrow>
          if is_proposed (sk_phase s) \<and> stick_pin_required s then pin_input (Right long) s else s
      | Button_Both \<Rightarrow> if pin_in_progress s then snd (stick_verify_pin sha s) else s)"

datatype stick_event = Apdu bytes | Pressed button

fun stick_step :: "(bytes \<Rightarrow> bytes) \<Rightarrow> stick_event \<Rightarrow> stick \<Rightarrow> stick" where
  "stick_step sha (Apdu apdu) s = snd (handle_apdu sha apdu s [])"
| "stick_step sha (Pressed b) s = stick_button sha b s"

definition stick_run :: "(bytes \<Rightarrow> bytes) \<Rightarrow> stick_event list \<Rightarrow> stick \<Rightarrow> stick" where
  "stick_run sha evs s = fold (stick_step sha) evs s"

end
