(* ===== verification/Relay.thy ===== *)
theory Relay
  imports Stick
begin

section \<open>The relay (\<open>hardware/relay\<close>)\<close>

text \<open>
  A relay carries a payment from one stick to another: it reads the payee's ticket, proposes the payment to
  the payer, collects the signed tokens and delivers them. \<open>drivers/src/protocol.rs\<close> builds and parses the
  commands, \<open>firmware/src/transaction.rs\<close> keeps the state between taps, \<open>firmware/src/main.rs\<close> is the order of
  the taps, \<open>drivers/src/relay_config.rs\<close> the settings on flash and \<open>drivers/src/keypad.rs\<close> the amount entry.
\<close>

subsection \<open>Commands (\<open>protocol.rs\<close>)\<close>

definition check_sw :: "bytes \<Rightarrow> bool" where
  "check_sw response \<longleftrightarrow> 2 \<le> length response \<and> response ! (length response - 2) = 0x90
     \<and> response ! (length response - 1) = 0"

definition is_pin_required :: "bytes \<Rightarrow> u8 option" where
  "is_pin_required response =
     (if 2 \<le> length response \<and> response ! (length response - 2) = 0x63
      then Some (response ! (length response - 1) AND 0x0F) else None)"

definition extract_sw :: "bytes \<Rightarrow> bytes option" where
  "extract_sw response = (if 2 \<le> length response then Some (drop (length response - 2) response) else None)"

definition build_select_apdu :: bytes where
  "build_select_apdu =
     (let apdu = buf_put 16 [] [0x00, 0xA4, 0x04, 0x00]; apdu = buf_put 16 apdu [of_nat (length BRIOLETTE_AID)]
      in buf_put 16 apdu BRIOLETTE_AID)"

definition build_read_ticket :: bytes where
  "build_read_ticket = buf_put 16 [] [CLA_BRIOLETTE, INS_READ_TICKET, 0, 0, 0]"

definition build_initiate :: "u32 \<Rightarrow> bytes \<Rightarrow> bytes" where
  "build_initiate amount receiver_ticket =
     (let apdu = buf_put 256 [] [CLA_BRIOLETTE, INS_INITIATE, 0, 0];
          apdu = buf_put 256 apdu [of_nat (8 + length receiver_ticket)];
          apdu = buf_put 256 apdu (u32_bytes amount);
          apdu = buf_put 256 apdu [0, 0, 0, 0]
      in buf_put 256 apdu receiver_ticket)"

definition build_transact :: "bytes \<Rightarrow> bytes" where
  "build_transact tx_id =
     (let apdu = buf_put 32 [] [CLA_BRIOLETTE, INS_TRANSACT, 0, 0]
      in if tx_id = [] then apdu else buf_put 32 (buf_put 32 apdu [of_nat (length tx_id)]) tx_id)"

definition build_transfer_accept :: bytes where
  "build_transfer_accept = buf_put 16 [] [CLA_BRIOLETTE, INS_TRANSFER, 0, 0, 1, 1]"

definition build_receive :: "bytes \<Rightarrow> bytes" where
  "build_receive signed_tokens =
     (let apdu = buf_put 2048 [] [CLA_BRIOLETTE, INS_RECEIVE, 0, 0];
          apdu = (if 255 < length signed_tokens
                  then let len = of_nat (length signed_tokens) :: u16
                       in buf_put 2048 (buf_put 2048 (buf_put 2048 apdu [0]) [ucast (drop_bit 8 len)]) [ucast (len AND 0xFF)]
                  else buf_put 2048 apdu [of_nat (length signed_tokens)])
      in buf_put 2048 apdu signed_tokens)"

definition build_gossip :: "bytes \<Rightarrow> bytes" where
  "build_gossip epoch_data =
     (let apdu = buf_put 256 [] [CLA_BRIOLETTE, INS_GOSSIP, 0, 0]
      in if epoch_data = [] then apdu else buf_put 256 (buf_put 256 apdu [of_nat (length epoch_data)]) epoch_data)"

text \<open>\<open>Err(())\<close> is \<open>None\<close>.\<close>

definition parse_initiate_response :: "bytes \<Rightarrow> (bytes \<times> bytes) option" where
  "parse_initiate_response response =
     (if \<not> check_sw response then None
      else let payload = take (length response - 2) response in
        if length payload < 16 then None else Some (take 16 payload, drop 16 payload))"

definition parse_transfer_response :: "bytes \<Rightarrow> bytes option" where
  "parse_transfer_response response = (if \<not> check_sw response then None else Some (take (length response - 2) response))"

definition parse_receive_response :: "bytes \<Rightarrow> bool option" where
  "parse_receive_response response =
     (if \<not> check_sw response then None
      else let payload = take (length response - 2) response in Some (payload \<noteq> [] \<and> payload ! 0 = 1))"

subsection \<open>Frames to the reader chip (\<open>pn7150.rs\<close>)\<close>

text \<open>The pure part of \<open>transceive_apdu\<close>: the packet written to the chip, and how the packet read back, \<open>len\<close>
  bytes in the receive buffer, is taken apart. What happens between the two is the chip's.\<close>

datatype nci_error = NciError | TagLost

definition nci_data_frame :: "u8 \<Rightarrow> bytes \<Rightarrow> bytes" where
  "nci_data_frame conn_id apdu = buf_put 264 (buf_put 264 (buf_put 264 (buf_put 264 [] [conn_id]) [0]) [of_nat (length apdu)]) apdu"

definition parse_nci_data :: "bytes \<Rightarrow> nat \<Rightarrow> nci_error + bytes" where
  "parse_nci_data rx_buf len =
     (if len < 3 then Inl NciError
      else if rx_buf ! 0 AND 0xE0 \<noteq> 0
      then Inl (if rx_buf ! 0 AND 0xE0 = 0x60 then TagLost else NciError)
      else let payload_len = unat (rx_buf ! 2) in
        if len < 3 + payload_len then Inl NciError else Inr (take payload_len (drop 3 rx_buf)))"

subsection \<open>The transaction engine (\<open>transaction.rs\<close>)\<close>

datatype relay_phase = Relay_Idle | ReceiverReady | SenderProposed | TokensSigned | Relay_Complete | Relay_Failed

record transaction_result =
  tr_amount :: u32
  tr_success :: bool

record engine =
  re_phase :: relay_phase
  re_amount :: u32
  re_receiver_ticket :: bytes
  re_tx_id :: bytes
  re_unsigned_tokens :: bytes
  re_signed_tokens :: bytes
  re_epoch_data :: bytes
  re_tx_count :: u32
  re_last_result :: "transaction_result option"

definition engine_new :: engine where
  "engine_new = \<lparr>re_phase = Relay_Idle, re_amount = 0, re_receiver_ticket = [], re_tx_id = [], re_unsigned_tokens = [],
     re_signed_tokens = [], re_epoch_data = [], re_tx_count = 0, re_last_result = None\<rparr>"

definition set_cached_receiver_ticket :: "bytes \<Rightarrow> engine \<Rightarrow> engine" where
  "set_cached_receiver_ticket ticket re =
     (let re' = re\<lparr>re_receiver_ticket := buf_put 512 [] ticket\<rparr>
      in if ticket \<noteq> [] then re'\<lparr>re_phase := ReceiverReady\<rparr> else re')"

definition has_cached_receiver :: "engine \<Rightarrow> bool" where
  "has_cached_receiver re \<longleftrightarrow> re_receiver_ticket re \<noteq> []"

definition engine_start :: "u32 \<Rightarrow> engine \<Rightarrow> engine" where
  "engine_start amount re =
     re\<lparr>re_amount := amount, re_tx_id := [], re_unsigned_tokens := [], re_signed_tokens := [],
        re_phase := (if has_cached_receiver re then ReceiverReady else Relay_Idle), re_last_result := None\<rparr>"

definition engine_reset :: "engine \<Rightarrow> engine" where
  "engine_reset re = re\<lparr>re_phase := Relay_Idle, re_amount := 0, re_receiver_ticket := [], re_tx_id := [],
     re_unsigned_tokens := [], re_signed_tokens := [], re_last_result := None\<rparr>"

text \<open>The engine builds its commands itself, from its state.\<close>

definition engine_build_initiate :: "engine \<Rightarrow> bytes" where
  "engine_build_initiate re =
     (let apdu = buf_put 256 [] [CLA_BRIOLETTE, INS_INITIATE, 0, 0];
          apdu = buf_put 256 apdu [of_nat (8 + length (re_receiver_ticket re))];
          apdu = buf_put 256 apdu (u32_bytes (re_amount re));
          apdu = buf_put 256 apdu [0, 0, 0, 0]
      in buf_put 256 apdu (re_receiver_ticket re))"

definition engine_build_transact :: "engine \<Rightarrow> bytes" where
  "engine_build_transact re =
     (let apdu = buf_put 32 [] [CLA_BRIOLETTE, INS_TRANSACT, 0, 0]
      in if re_tx_id re = [] then apdu else buf_put 32 (buf_put 32 apdu [of_nat (length (re_tx_id re))]) (re_tx_id re))"

definition engine_build_receive :: "engine \<Rightarrow> bytes" where
  "engine_build_receive re =
     (let apdu = buf_put 2048 [] [CLA_BRIOLETTE, INS_RECEIVE, 0, 0];
          apdu = (if 255 < length (re_signed_tokens re)
                  then let len = of_nat (length (re_signed_tokens re)) :: u16
                       in buf_put 2048 (buf_put 2048 (buf_put 2048 apdu [0]) [ucast (drop_bit 8 len)]) [ucast (len AND 0xFF)]
                  else buf_put 2048 apdu [of_nat (length (re_signed_tokens re))])
      in buf_put 2048 apdu (re_signed_tokens re))"

definition engine_build_gossip :: "engine \<Rightarrow> bytes" where
  "engine_build_gossip re =
     (let apdu = buf_put 256 [] [CLA_BRIOLETTE, INS_GOSSIP, 0, 0]
      in if re_epoch_data re = [] then apdu
         else buf_put 256 (buf_put 256 apdu [of_nat (length (re_epoch_data re))]) (re_epoch_data re))"

text \<open>The handlers return whether they returned \<open>Ok\<close>. A payload that exceeds its buffer is an error after
  the buffer was cleared.\<close>

definition handle_read_ticket_response :: "bytes \<Rightarrow> engine \<Rightarrow> bool \<times> engine" where
  "handle_read_ticket_response response re =
     (if \<not> check_sw response then (False, re\<lparr>re_phase := Relay_Failed\<rparr>)
      else case buf_extend 512 [] (take (length response - 2) response) of
        None \<Rightarrow> (False, re\<lparr>re_receiver_ticket := []\<rparr>)
      | Some t \<Rightarrow> (True, re\<lparr>re_receiver_ticket := t, re_phase := ReceiverReady\<rparr>))"

definition handle_initiate_response :: "bytes \<Rightarrow> engine \<Rightarrow> bool \<times> engine" where
  "handle_initiate_response response re =
     (if \<not> check_sw response then (False, re\<lparr>re_phase := Relay_Failed\<rparr>)
      else let payload = take (length response - 2) response in
        if length payload < 16 then (False, re\<lparr>re_phase := Relay_Failed\<rparr>)
        else let re1 = re\<lparr>re_tx_id := take 16 payload\<rparr> in
          if 16 < length payload
          then (case buf_extend 2048 [] (drop 16 payload) of
                  None \<Rightarrow> (False, re1\<lparr>re_unsigned_tokens := []\<rparr>)
                | Some t \<Rightarrow> (True, re1\<lparr>re_unsigned_tokens := t, re_phase := SenderProposed\<rparr>))
          else (True, re1\<lparr>re_phase := SenderProposed\<rparr>))"

definition handle_transfer_response :: "bytes \<Rightarrow> engine \<Rightarrow> bool \<times> engine" where
  "handle_transfer_response response re =
     (if \<not> check_sw response
      then if 2 \<le> length response \<and> response ! (length response - 2) = 0x63 then (False, re)
           else (False, re\<lparr>re_phase := Relay_Failed\<rparr>)
      else case buf_extend 2048 [] (take (length response - 2) response) of
        None \<Rightarrow> (False, re\<lparr>re_signed_tokens := []\<rparr>)
      | Some t \<Rightarrow> (True, re\<lparr>re_signed_tokens := t, re_phase := TokensSigned\<rparr>))"

definition handle_receive_response :: "bytes \<Rightarrow> engine \<Rightarrow> bool \<times> engine" where
  "handle_receive_response response re =
     (let failed = re\<lparr>re_phase := Relay_Failed, re_last_result := Some \<lparr>tr_amount = re_amount re, tr_success = False\<rparr>\<rparr> in
      if \<not> check_sw response then (False, failed)
      else let payload = take (length response - 2) response in
        if payload \<noteq> [] \<and> payload ! 0 = 1
        then (True, re\<lparr>re_tx_count := re_tx_count re + 1, re_phase := Relay_Complete,
               re_last_result := Some \<lparr>tr_amount = re_amount re, tr_success = True\<rparr>\<rparr>)
        else (True, failed))"

definition update_epoch :: "bytes \<Rightarrow> engine \<Rightarrow> engine" where
  "update_epoch data re = re\<lparr>re_epoch_data := buf_put 256 [] data\<rparr>"

subsection \<open>One payment (\<open>main.rs\<close>)\<close>

text \<open>
  A tap is a function from the command to the answer of the stick held to the reader, \<open>None\<close> when no stick
  came in time, it did not select the applet, or the exchange failed; \<open>'w\<close> is the world of sticks. The body
  of the loop returns the engine and the world; every \<open>continue\<close> ends the round.
\<close>

type_synonym 'w tap = "bytes \<Rightarrow> 'w \<Rightarrow> bytes option \<times> 'w"

definition exchange ::
  "'w tap \<Rightarrow> bytes \<Rightarrow> (bytes \<Rightarrow> engine \<Rightarrow> bool \<times> engine) \<Rightarrow> engine \<Rightarrow> 'w \<Rightarrow> (engine \<Rightarrow> 'w \<Rightarrow> engine \<times> 'w) \<Rightarrow> engine \<times> 'w" where
  "exchange tap apdu handler re w continue =
     (case tap apdu w of
        (None, w') \<Rightarrow> (re, w')
      | (Some resp, w') \<Rightarrow> (case handler resp re of (False, re') \<Rightarrow> (re', w') | (True, re') \<Rightarrow> continue re' w'))"

definition relay_round :: "u32 \<Rightarrow> 'w tap \<Rightarrow> 'w tap \<Rightarrow> engine \<Rightarrow> 'w \<Rightarrow> engine \<times> 'w" where
  "relay_round amount receiver sender re w =
     (if amount = 0 then (re, w)
      else
        let re1 = engine_start amount re;
            pay = (\<lambda>re2 w2.
              exchange sender (engine_build_initiate re2) handle_initiate_response re2 w2 (\<lambda>re3 w3.
              exchange sender build_transfer_accept handle_transfer_response re3 w3 (\<lambda>re4 w4.
              exchange receiver (engine_build_receive re4) handle_receive_response re4 w4 (\<lambda>re5 w5. (re5, w5)))))
        in if has_cached_receiver re1 then pay re1 w
           else exchange receiver build_read_ticket handle_read_ticket_response re1 w pay)"

end
