(* ===== verification/StickProps.thy ===== *)
theory StickProps
  imports Stick
begin

section \<open>Properties of the stick\<close>

text \<open>
  The invariant of every state a stick reaches from power-up under any commands and key presses, and what it
  means for the holder: the PIN, the lock, the double-spend filter, and the end of a transaction.
\<close>

subsection \<open>The invariant\<close>

lemma stick_sign_commit_bloom:
  assumes keep: "\<And>b bl. P bl \<Longrightarrow> P (snd (bloom_check_and_add sha b bl))" and P: "P (fst st)"
  shows "P (fst (snd (stick_sign_commit sha sp b st)))"
proof -
  obtain bl session where st: "st = (bl, session)" by (cases st)
  show ?thesis
  proof (cases b)
    case None
    then show ?thesis using P by (simp add: st stick_sign_commit_def Let_def)
  next
    case (Some bsn)
    obtain x bl1 where add: "bloom_check_and_add sha bsn bl = (x, bl1)" by fastforce
    have "P bl1" using keep [of bl bsn] P by (simp add: st add)
    then show ?thesis using P by (cases x) (simp_all add: st Some add stick_sign_commit_def Let_def)
  qed
qed

lemma stick_sign_respond_bloom [simp]: "fst (snd (stick_sign_respond c st)) = fst st"
  by (simp add: stick_sign_respond_def split: prod.split option.split)

lemma sign_each_bloom:
  assumes keep: "\<And>b bl. P bl \<Longrightarrow> P (snd (bloom_check_and_add sha b bl))"
  shows "P (fst st) \<Longrightarrow> P (fst (snd (sign_each sha n rest sigs st)))"
proof (induction n arbitrary: rest sigs st)
  case (Suc n)
  define rest1 where "rest1 = drop 48 rest"
  define base where "base = (if 48 \<le> length rest1 then Some (take 48 rest1) else None)"
  obtain r1 st1 where commit: "stick_sign_commit sha (take 48 rest) base st = (r1, st1)" using prod.exhaust by blast
  have P1: "P (fst st1)" using stick_sign_commit_bloom [OF keep Suc.prems, of "take 48 rest" base] by (simp add: commit)
  show ?case
  proof (cases r1)
    case (Some cm)
    obtain r2 st2 where resp: "stick_sign_respond (compute_local_challenge sha cm (take 48 rest)) st1 = (r2, st2)" using prod.exhaust by blast
    have P2: "P (fst st2)" using stick_sign_respond_bloom [of "compute_local_challenge sha cm (take 48 rest)" st1] P1 by (simp add: resp)
    show ?thesis
      using Suc.prems Suc.IH [OF P2] P2
      by (cases r2) (simp_all add: Let_def rest1_def [symmetric] base_def [symmetric] commit Some resp)
  qed (use Suc.prems P1 in \<open>simp add: Let_def rest1_def [symmetric] base_def [symmetric] commit\<close>)
qed simp

definition stick_inv :: "stick \<Rightarrow> bool" where
  "stick_inv s \<longleftrightarrow> bloom_wf (sk_bloom s) \<and> bl_epoch (sk_bloom s) \<le> sg_epoch_number (sk_storage s)
     \<and> sk_pin_attempts_failed s \<le> 10
     \<and> (sk_pin_buffer s = [] \<or> (\<exists>long rest. sk_pin_buffer s = Right long # rest))
     \<and> sk_proposed_tokens s \<in> {[], [0, 0, 0, 0]}"

lemma sign_tokens_bloom:
  assumes "\<And>b bl. P bl \<Longrightarrow> P (snd (bloom_check_and_add sha b bl))" "P (fst st)"
  shows "P (fst (snd (sign_tokens sha toks key st)))"
  using sign_each_bloom [of P sha st, OF assms] assms(2) by (simp add: sign_tokens_def)

lemma stick_inv_new: "stick_inv (stick_new sg)"
  by (simp add: stick_inv_def stick_new_def bloom_new_wf) (simp add: bloom_new_def)

lemma u32_bytes_0: "u32_bytes 0 = [0, 0, 0, 0]"
  by (simp add: u32_bytes_def u32_to_be_bytes_def)

lemma select_tokens_value [simp]: "sk_proposed_tokens (select_tokens_for_proposal a s) = [0, 0, 0, 0]"
  by (simp add: select_tokens_for_proposal_def select_tokens_def u32_bytes_0)

lemma select_tokens_frame [simp]:
  "sk_bloom (select_tokens_for_proposal a s) = sk_bloom s" "sk_storage (select_tokens_for_proposal a s) = sk_storage s"
  "sk_pin_attempts_failed (select_tokens_for_proposal a s) = sk_pin_attempts_failed s"
  "sk_pin_buffer (select_tokens_for_proposal a s) = sk_pin_buffer s" "sk_phase (select_tokens_for_proposal a s) = sk_phase s"
  "sk_privacy_mode (select_tokens_for_proposal a s) = sk_privacy_mode s"
  "sk_pin_authorized (select_tokens_for_proposal a s) = sk_pin_authorized s"
  "sk_proposed_amount (select_tokens_for_proposal a s) = sk_proposed_amount s"
  "sk_pin_threshold (select_tokens_for_proposal a s) = sk_pin_threshold s"
  by (simp_all add: select_tokens_for_proposal_def)

lemma initiate_inv: "stick_inv s \<Longrightarrow> stick_inv (snd (stick_initiate data s r))"
  by (simp add: stick_inv_def stick_initiate_def Let_def)

lemma gossip_inv:
  assumes "stick_inv s" shows "stick_inv (snd (stick_gossip data s r))"
  using assms bloom_reset [of "sk_bloom s" "be_word (take 4 data)"]
  by (auto simp: stick_inv_def stick_gossip_def Let_def storage_update_epoch_def max_def)

lemma transact_inv: "stick_inv s \<Longrightarrow> stick_inv (snd (stick_transact data s r))"
  by (auto simp: stick_inv_def stick_transact_def Let_def split: phase.split)

lemma transfer_inv:
  assumes inv: "stick_inv s" shows "stick_inv (snd (stick_transfer sha data s r))"
proof -
  obtain sigs bl session where sign: "sign_tokens sha (sk_proposed_tokens s) (sg_ecdaa_sk (sk_storage s)) (sk_bloom s, sk_session s)
      = (sigs, bl, session)" by (metis surj_pair)
  have "bloom_wf bl \<and> bl_epoch bl = bl_epoch (sk_bloom s)"
    using sign_tokens_bloom [of "\<lambda>b. bloom_wf b \<and> bl_epoch b = bl_epoch (sk_bloom s)" sha "(sk_bloom s, sk_session s)"
        "sk_proposed_tokens s" "sg_ecdaa_sk (sk_storage s)"] bloom_add [of _ sha] inv by (simp add: stick_inv_def sign)
  then show ?thesis
    using inv by (auto simp: stick_inv_def stick_transfer_def sign Let_def storage_deduct_def split: list.split option.split)
qed

lemma receive_inv: "stick_inv s \<Longrightarrow> stick_inv (snd (stick_receive data s r))"
  by (simp add: stick_inv_def stick_receive_def storage_receive_tokens_def Let_def)

lemma sweep_inv: "stick_inv s \<Longrightarrow> stick_inv (snd (stick_sweep s r))"
  by (simp add: stick_inv_def stick_sweep_def storage_sweep_received_tokens_def)

lemma handle_apdu_state:
  assumes "P s" "\<And>data. P (snd (stick_initiate data s r))" "\<And>data. P (snd (stick_gossip data s r))"
    "\<And>data. P (snd (stick_transact data s r))" "\<And>data. P (snd (stick_transfer sha data s r))"
    "\<And>data. P (snd (stick_receive data s r))" "P (snd (stick_sweep s r))"
  shows "P (snd (handle_apdu sha apdu s r))"
  using assms by (simp add: handle_apdu_def Let_def)

lemma apdu_inv: "stick_inv s \<Longrightarrow> stick_inv (snd (handle_apdu sha apdu s r))"
  by (rule handle_apdu_state)
    (simp_all add: initiate_inv gossip_inv transact_inv transfer_inv receive_inv sweep_inv)

lemma attempts_le:
  fixes n :: u8
  assumes "n \<le> 10" "saturating_sub 10 n \<noteq> 0"
  shows "n + 1 \<le> 10"
proof -
  have "unat n < 10" using assms by (auto simp: saturating_sub_def word_le_nat_alt unat_eq_0 [symmetric] unat_sub split: if_splits)
  then show ?thesis by (simp add: word_le_nat_alt unat_word_ariths)
qed

lemma button_inv: "stick_inv s \<Longrightarrow> stick_inv (stick_button sha ev s)"
  using attempts_le [of "sk_pin_attempts_failed s"]
  by (cases ev) (auto simp: stick_inv_def stick_button_def stick_cancel_def pin_input_def stick_verify_pin_def Let_def
      pin_in_progress_def pin_attempts_remaining_def buf_put_def buf_extend_def)

lemma step_inv: "stick_inv s \<Longrightarrow> stick_inv (stick_step sha ev s)"
  by (cases ev) (simp_all add: apdu_inv button_inv)

lemma run_inv: "stick_inv s \<Longrightarrow> stick_inv (stick_run sha evs s)"
  unfolding stick_run_def by (induction evs arbitrary: s) (simp_all add: step_inv)


text \<open>in every state a stick reaches from power-up with any storage, by any commands and key presses, at
  most ten wrong PINs are counted, whatever is in the PIN buffer starts with the right button (a left press
  first cancels the proposal, so a PIN that starts with left can never be entered), the filter's epoch is
  not ahead of the stored one, and no proposal names a token.\<close>

theorem stick_reachable_inv:
  "let s = stick_run sha evs (stick_new sg) in
     sk_pin_attempts_failed s \<le> 10
     \<and> (sk_pin_buffer s = [] \<or> (\<exists>long rest. sk_pin_buffer s = Right long # rest))
     \<and> bloom_wf (sk_bloom s) \<and> bl_epoch (sk_bloom s) \<le> sg_epoch_number (sk_storage s)
     \<and> sk_proposed_tokens s \<in> {[], [0, 0, 0, 0]}"
  using run_inv [OF stick_inv_new, of sha evs sg] by (simp add: stick_inv_def Let_def)

subsection \<open>The end of a transaction\<close>

definition finished :: "phase \<Rightarrow> bool" where
  "finished p = (case p of Signed r \<Rightarrow> True | Rejected \<Rightarrow> True | Expired \<Rightarrow> True | _ \<Rightarrow> False)"

lemma finished_commands:
  assumes "finished (sk_phase s)"
  shows "stick_initiate data s r = (respond r SW_CONDITIONS_NOT_SATISFIED, s)"
    "stick_transact data s r = (respond r SW_CONDITIONS_NOT_SATISFIED, s)"
    "stick_transfer sha data s r = (respond r SW_CONDITIONS_NOT_SATISFIED, s)"
    "sk_phase (snd (stick_gossip data s r)) = sk_phase s" "sk_phase (snd (stick_receive data s r)) = sk_phase s"
    "sk_phase (snd (stick_sweep s r)) = sk_phase s" "sk_phase (stick_button sha ev s) = sk_phase s"
  using assms
  by (auto simp: finished_def stick_initiate_def stick_transact_def stick_transfer_def is_proposed_def stick_gossip_def
      stick_receive_def stick_sweep_def storage_sweep_received_tokens_def stick_button_def stick_verify_pin_def Let_def
      split: phase.splits button.split)

lemma finished_step: "finished (sk_phase s) \<Longrightarrow> sk_phase (stick_step sha ev s) = sk_phase s"
  using handle_apdu_state [of "\<lambda>s'. sk_phase s' = sk_phase s" s "[]" sha] finished_commands [of s]
  by (cases ev) simp_all

lemma finished_run: "finished (sk_phase s) \<Longrightarrow> sk_phase (stick_run sha evs s) = sk_phase s"
  unfolding stick_run_def by (induction evs arbitrary: s) (simp_all add: finished_step)

text \<open>a stick makes one payment per power-up: once a transfer was signed or rejected, no command and no key
  brings it back to idle, so every later proposal and transfer is answered with 6985.\<close>

theorem finished_stick_stays:
  assumes "finished (sk_phase s)"
  shows "sk_phase (stick_run sha evs s) = sk_phase s
    \<and> fst (stick_initiate data (stick_run sha evs s) []) = SW_CONDITIONS_NOT_SATISFIED
    \<and> fst (stick_transfer sha data (stick_run sha evs s) []) = SW_CONDITIONS_NOT_SATISFIED"
  using finished_run [OF assms] finished_commands(1,3) [of "stick_run sha evs s"] assms
  by (simp add: sw_defs)

lemma finished_stick_stays_witness:
  "sk_phase (stick_run (\<lambda>b. b) [Apdu [0x80, 0x10, 0, 0, 8, 0, 0, 0, 5, 0, 0, 0, 0]] (stick_new storage_init\<lparr>sk_phase := Rejected\<rparr>)) = Rejected"
  using finished_stick_stays [of "stick_new storage_init\<lparr>sk_phase := Rejected\<rparr>"] by (simp add: finished_def)

subsection \<open>The PIN\<close>

lemma locked_step:
  assumes "sk_pin_attempts_failed s = 10" "\<And>r. sk_phase s \<noteq> Signed r"
  shows "sk_pin_attempts_failed (stick_step sha ev s) = 10 \<and> (\<forall>r. sk_phase (stick_step sha ev s) \<noteq> Signed r)"
proof (cases ev)
  case (Apdu apdu)
  have locked: "pin_attempts_remaining s = 0" using assms(1) by (simp add: pin_attempts_remaining_def saturating_sub_def)
  have "snd (stick_transfer sha data s r) = s" for data r using locked by (simp add: stick_transfer_def)
  then show ?thesis
    unfolding Apdu stick_step.simps using assms
    by (intro handle_apdu_state [of "\<lambda>s'. sk_pin_attempts_failed s' = 10 \<and> (\<forall>r. sk_phase s' \<noteq> Signed r)"])
      (auto simp: stick_initiate_def stick_gossip_def stick_transact_def stick_receive_def stick_sweep_def Let_def
        storage_sweep_received_tokens_def split: phase.splits)
next
  case (Pressed b)
  then show ?thesis
    using assms by (cases b) (auto simp: stick_button_def pin_input_def stick_cancel_def stick_verify_pin_def
        pin_attempts_remaining_def saturating_sub_def)
qed

lemma locked_run:
  "sk_pin_attempts_failed s = 10 \<Longrightarrow> (\<And>r. sk_phase s \<noteq> Signed r) \<Longrightarrow>
     sk_pin_attempts_failed (stick_run sha evs s) = 10 \<and> (\<forall>r. sk_phase (stick_run sha evs s) \<noteq> Signed r)"
  unfolding stick_run_def by (induction evs arbitrary: s) (simp_all add: locked_step)

text \<open>after ten wrong PINs the stick is locked for good: whatever is pressed or sent, no PIN is accepted any
  more and no transfer is signed, not even one below the threshold that needs no PIN.\<close>

theorem locked_stick_never_signs:
  assumes "sk_pin_attempts_failed s = 10" "\<And>r. sk_phase s \<noteq> Signed r"
  shows "(\<forall>r. sk_phase (stick_run sha evs s) \<noteq> Signed r) \<and> \<not> fst (stick_verify_pin sha (stick_run sha evs s))"
  using locked_run [OF assms, of sha evs]
  by (simp add: stick_verify_pin_def pin_attempts_remaining_def saturating_sub_def)

lemma locked_stick_never_signs_witness:
  "\<not> fst (stick_verify_pin (\<lambda>b. b) (stick_run (\<lambda>b. b) [Pressed Button_Both] (stick_new storage_init\<lparr>sk_pin_attempts_failed := 10\<rparr>)))"
  using locked_stick_never_signs [of "stick_new storage_init\<lparr>sk_pin_attempts_failed := 10\<rparr>" "\<lambda>b. b" "[Pressed Button_Both]"]
  by (simp add: stick_new_def)



subsection \<open>Buffers\<close>

definition buffers_ok :: "stick \<Rightarrow> bool" where
  "buffers_ok s \<longleftrightarrow> length (sk_pin_buffer s) \<le> 16 \<and> length (sk_proposed_tokens s) \<le> 2048 \<and> length (sk_tx_id s) = 16
     \<and> length (sg_received_tokens (sk_storage s)) \<le> 4096 \<and> length (sg_epoch_data (sk_storage s)) \<le> 512
     \<and> length (sg_ecdaa_sk (sk_storage s)) = 32 \<and> length (bl_bits (sk_bloom s)) = BLOOM_SIZE"

lemma apdu_buffers:
  assumes "stick_inv s" "buffers_ok s"
  shows "buffers_ok (snd (handle_apdu sha apdu s r))"
proof (rule handle_apdu_state)
  have bl: "stick_inv s' \<Longrightarrow> length (bl_bits (sk_bloom s')) = BLOOM_SIZE" for s' by (simp add: stick_inv_def bloom_wf_def)
  show "buffers_ok s" by fact
  show "buffers_ok (snd (stick_initiate data s r))" for data
    using assms(2) by (simp add: buffers_ok_def stick_initiate_def Let_def generate_tx_id_def u32_bytes_def select_tokens_for_proposal_def select_tokens_def length_buf_put)
  show "buffers_ok (snd (stick_gossip data s r))" for data
    using assms(2) bl [OF gossip_inv [OF assms(1), of data r]]
    by (simp add: buffers_ok_def stick_gossip_def Let_def storage_update_epoch_def length_buf_put)
  show "buffers_ok (snd (stick_transact data s r))" for data
    using assms(2) by (simp add: buffers_ok_def stick_transact_def Let_def select_tokens_for_proposal_def select_tokens_def u32_bytes_def length_buf_put split: phase.split)
  show "buffers_ok (snd (stick_transfer sha data s r))" for data
    using assms(2) bl [OF transfer_inv [OF assms(1), of sha data r]]
    by (simp add: buffers_ok_def stick_transfer_def Let_def storage_deduct_def split: list.splits option.splits prod.splits)
  show "buffers_ok (snd (stick_receive data s r))" for data
    using assms(2) by (simp add: buffers_ok_def stick_receive_def storage_receive_tokens_def Let_def length_buf_put)
  show "buffers_ok (snd (stick_sweep s r))"
    using assms(2) by (simp add: buffers_ok_def stick_sweep_def storage_sweep_received_tokens_def)
qed

lemma button_buffers: "buffers_ok s \<Longrightarrow> buffers_ok (stick_button sha b s)"
  by (cases b) (simp_all add: buffers_ok_def stick_button_def pin_input_def stick_cancel_def stick_verify_pin_def length_buf_put Let_def)

lemma run_buffers: "stick_inv s \<Longrightarrow> buffers_ok s \<Longrightarrow> buffers_ok (stick_run sha evs s)"
  unfolding stick_run_def
proof (induction evs arbitrary: s)
  case (Cons ev evs)
  have "buffers_ok (stick_step sha ev s)" using Cons.prems apdu_buffers button_buffers by (cases ev) simp_all
  with Cons step_inv show ?case by simp
qed simp


subsection \<open>Handing received tokens on\<close>

text \<open>the sweep of a stick asks for no authorisation and loses what does not fit: when more than 2048 bytes
  were received, the answer carries the success status alone, and the tokens are gone from the stick.\<close>

theorem sweep_outcome:
  "handle_apdu sha [CLA_BRIOLETTE, INS_SWEEP, 0, 0] s [] =
     (let tokens = sg_received_tokens (sk_storage s)
      in (if length tokens \<le> 2046 then tokens @ SW_SUCCESS else if length tokens \<le> 2048 then tokens else SW_SUCCESS,
          s\<lparr>sk_storage := (sk_storage s)\<lparr>sg_received_tokens := [], sg_received_count := 0\<rparr>\<rparr>))"
proof -
  let ?t = "sg_received_tokens (sk_storage s)"
  have "respond (respond [] ?t) SW_SUCCESS
      = (if length ?t \<le> 2046 then ?t @ SW_SUCCESS else if length ?t \<le> 2048 then ?t else SW_SUCCESS)"
    by (simp add: buf_put_def buf_extend_def sw_defs)
  then show ?thesis
    by (simp add: handle_apdu_def ins_defs stick_sweep_def storage_sweep_received_tokens_def Let_def)
qed

subsection \<open>Gossip\<close>

text \<open>the double-spend filter does not bind the holder: an unauthenticated GOSSIP command with any epoch
  above the stored one is accepted and empties the filter, after which every basename passes again.\<close>

theorem gossip_empties_filter:
  assumes "sg_epoch_number (sk_storage (stick_run sha evs (stick_new sg))) < n"
  shows "\<exists>resp s'. handle_apdu sha ([CLA_BRIOLETTE, INS_GOSSIP, 0, 0, 4] @ u32_bytes n) (stick_run sha evs (stick_new sg)) [] = (resp, s')
    \<and> drop (length resp - 2) resp = SW_SUCCESS \<and> sg_epoch_number (sk_storage s') = n
    \<and> marked (bl_bits (sk_bloom s')) = {} \<and> \<not> fst (bloom_check_and_add sha b (sk_bloom s'))"
proof -
  let ?s = "stick_run sha evs (stick_new sg)"
  have inv: "stick_inv ?s" by (rule run_inv [OF stick_inv_new])
  have len: "length (u32_bytes n) = 4" by (simp add: u32_bytes_def)
  have n: "be_word (u32_bytes n) = n" by (simp add: be_word_def u32_bytes_def be_u32_roundtrip [of "unat n"] unsigned_less [where 'a = nat and 'b = 32, simplified])
  have "bloom_wf (sk_bloom ?s)" "bl_epoch (sk_bloom ?s) < n" using inv assms by (auto simp: stick_inv_def)
  note reset = bloom_reset [OF this(1), of n] this(2)
  have gossip: "handle_apdu sha ([CLA_BRIOLETTE, INS_GOSSIP, 0, 0, 4] @ u32_bytes n) ?s [] = stick_gossip (u32_bytes n) ?s []"
    using len by (simp add: handle_apdu_def ins_defs)
  have s': "sk_storage (snd (stick_gossip (u32_bytes n) ?s [])) = storage_update_epoch (u32_bytes n) (sk_storage ?s)"
    "sk_bloom (snd (stick_gossip (u32_bytes n) ?s [])) = snd (bloom_reset_for_epoch n (sk_bloom ?s))"
    "fst (stick_gossip (u32_bytes n) ?s []) = u32_bytes n @ SW_SUCCESS"
    using assms len n by (simp_all add: stick_gossip_def storage_update_epoch_def Let_def sw_defs)
  have "compute_hashes sha b \<noteq> []" by (simp add: compute_hashes_def NUM_HASHES_def Let_def)
  then have "\<not> bloom_contains sha b (snd (bloom_reset_for_epoch n (sk_bloom ?s)))"
    using reset by (simp add: bloom_contains_marked)
  then have "\<not> fst (bloom_check_and_add sha b (snd (bloom_reset_for_epoch n (sk_bloom ?s))))"
    using bloom_add(4) [OF reset(1)] by simp
  with reset s' gossip n len show ?thesis
    by (cases "stick_gossip (u32_bytes n) ?s []") (simp add: storage_update_epoch_def sw_defs Let_def)
qed

lemma gossip_empties_filter_witness:
  "\<exists>resp s'. handle_apdu (\<lambda>b. b) ([CLA_BRIOLETTE, INS_GOSSIP, 0, 0, 4] @ u32_bytes 7) (stick_run (\<lambda>b. b) [] (stick_new storage_init)) [] = (resp, s')
     \<and> marked (bl_bits (sk_bloom s')) = {}"
  using gossip_empties_filter [of "\<lambda>b. b" "[]" storage_init 7 "[]"]
  by (auto simp: stick_run_def stick_new_def storage_init_def)

end
