(* ===== verification/RelayProps.thy ===== *)
theory RelayProps
  imports Relay StickProps
begin

section \<open>Properties of the relay and of payments between two sticks\<close>

text \<open>
  What the relay's commands do at a stick (the two programs were written against each other's byte formats),
  the order of a payment for arbitrary answers, and whole payments between two sticks running the firmware.
\<close>

subsection \<open>Commands at a stick\<close>

lemma unat_byte_of_nat: "unat (of_nat n :: u8) = n mod 256"
  by (simp add: unsigned_of_nat take_bit_eq_mod)

lemma initiate_bytes:
  "build_initiate amount ticket = [CLA_BRIOLETTE, INS_INITIATE, 0, 0, of_nat (8 + length ticket)] @ u32_bytes amount @ [0, 0, 0, 0]
     @ (if length ticket \<le> 243 then ticket else [])"
  by (simp add: build_initiate_def Let_def)

lemma engine_builders:
  "engine_build_initiate re = build_initiate (re_amount re) (re_receiver_ticket re)"
  "engine_build_transact re = build_transact (re_tx_id re)" "engine_build_receive re = build_receive (re_signed_tokens re)"
  "engine_build_gossip re = build_gossip (re_epoch_data re)"
  by (simp_all add: engine_build_initiate_def build_initiate_def engine_build_transact_def build_transact_def
      engine_build_receive_def build_receive_def engine_build_gossip_def build_gossip_def)

text \<open>What an idle stick receives of the relay's INITIATE.\<close>

lemma initiate_dispatch:
  assumes "length ticket \<le> 512"
  shows "handle_apdu sha (build_initiate amount ticket) s [] =
    (if length ticket \<le> 243 then stick_initiate (u32_bytes amount @ [0, 0, 0, 0] @ ticket) s []
     else if (8 + length ticket) mod 256 \<le> 8
     then stick_initiate (take ((8 + length ticket) mod 256) (u32_bytes amount @ [0, 0, 0, 0])) s []
     else (SW_WRONG_LENGTH, s))"
proof -
  let ?n = "(8 + length ticket) mod 256"
  have lc: "unat ((of_nat (8 + length ticket)) :: u8) = ?n" by (rule unat_byte_of_nat)
  show ?thesis
  proof (cases "length ticket \<le> 243")
    case True
    then have "?n = 8 + length ticket" by simp
    with True lc show ?thesis by (simp add: initiate_bytes handle_apdu_def ins_defs Let_def del: of_nat_add)
  next
    case False
    with lc show ?thesis by (simp add: initiate_bytes handle_apdu_def ins_defs Let_def sw_defs del: of_nat_add)
  qed
qed

text \<open>tickets of up to 243 bytes: the relay's INITIATE makes an idle stick propose the amount the relay
  asked for, and the relay parses the answer back into the stick's transaction id and its tokens.\<close>

theorem initiate_reaches_stick:
  assumes "length ticket \<le> 243" "sk_phase s = Idle"
  shows "\<exists>resp s'. handle_apdu sha (build_initiate amount ticket) s [] = (resp, s')
    \<and> sk_phase s' = Proposed amount (description_of (u32_bytes amount @ [0, 0, 0, 0] @ ticket)) \<and> sk_proposed_amount s' = amount
    \<and> parse_initiate_response resp
        = Some (generate_tx_id amount, if sk_privacy_mode s = Fast then sk_proposed_tokens s' else [])
    \<and> sk_tx_id s' = generate_tx_id amount"
  using assms
  by (simp add: initiate_dispatch stick_initiate_def Let_def parse_initiate_response_def check_sw_def sw_defs
      generate_tx_id_def nth_append select_tokens_for_proposal_def select_tokens_def)

lemma initiate_reaches_stick_witness:
  "\<exists>resp s'. handle_apdu (\<lambda>b. b) (build_initiate 5 [65, 66]) (stick_new storage_init) [] = (resp, s')
     \<and> sk_phase s' = Proposed 5 [65, 66]"
  using initiate_reaches_stick [of "[65, 66]" "stick_new storage_init" "\<lambda>b. b" 5]
  by (auto simp: stick_new_def description_of_def)

text \<open>longer tickets never reach the payer. The command's buffer has no room for them and the length byte
  wraps: the stick answers an error, except for tickets of exactly 256 or 512 bytes, where it proposes the
  payment without a ticket.\<close>

theorem long_tickets_are_dropped:
  assumes "243 < length ticket" "length ticket \<le> 512" "sk_phase s = Idle"
  shows "\<exists>resp s'. handle_apdu sha (build_initiate amount ticket) s [] = (resp, s')
    \<and> (if length ticket \<in> {256, 512} then check_sw resp \<and> sk_phase s' = Proposed amount []
       else \<not> check_sw resp \<and> s' = s)"
proof -
  let ?n = "(8 + length ticket) mod 256"
  have n: "?n = 8 \<longleftrightarrow> length ticket \<in> {256, 512}" "?n < 8 \<or> ?n = 8 \<or> 8 < ?n" using assms by (auto simp: mod_if)
  consider "8 < ?n" | "?n = 8" | "?n < 8" using n(2) by blast
  then show ?thesis
  proof cases
    case 1
    then have "length ticket \<notin> {256, 512}" using n(1) by linarith
    with 1 assms show ?thesis by (simp add: initiate_dispatch check_sw_def sw_defs)
  next
    case 2
    then have "length ticket \<in> {256, 512}" using n(1) by blast
    with 2 assms show ?thesis
      by (simp add: initiate_dispatch stick_initiate_def Let_def check_sw_def sw_defs generate_tx_id_def nth_append description_of_def)
  next
    case 3
    then have "length ticket \<notin> {256, 512}" using n(1) by linarith
    with 3 assms show ?thesis by (simp add: initiate_dispatch stick_initiate_def check_sw_def sw_defs min_def)
  qed
qed

lemma long_tickets_are_dropped_witness:
  "\<exists>resp s'. handle_apdu (\<lambda>b. b) (build_initiate 5 (replicate 300 7)) (stick_new storage_init) [] = (resp, s') \<and> \<not> check_sw resp"
  using long_tickets_are_dropped [of "replicate 300 7" "stick_new storage_init" "\<lambda>b. b" 5] by (auto simp: stick_new_def)

lemma receive_bytes:
  "\<exists>more. build_receive tokens = [CLA_BRIOLETTE, INS_RECEIVE, 0, 0, if 255 < length tokens then 0 else of_nat (length tokens)] @ more
     \<and> (length tokens \<le> 255 \<longrightarrow> more = tokens)"
proof (cases "255 < length tokens")
  case True
  then show ?thesis
    by (cases "length tokens \<le> 2041") (simp_all add: build_receive_def Let_def)
next
  case False
  then show ?thesis by (simp add: build_receive_def Let_def)
qed

text \<open>a delivery reaches the payee when the tokens are 1 to 255 bytes. Otherwise the stick takes the
  extended length for an empty command and refuses it; its state does not change.\<close>

theorem delivery_up_to_255_bytes:
  "handle_apdu sha (build_receive tokens) s [] =
     (if tokens = [] \<or> 255 < length tokens then (SW_WRONG_DATA, s)
      else ([1] @ SW_SUCCESS, s\<lparr>sk_storage := snd (storage_receive_tokens tokens (sk_storage s))\<rparr>))"
proof -
  obtain more where b: "build_receive tokens = [CLA_BRIOLETTE, INS_RECEIVE, 0, 0, if 255 < length tokens then 0 else of_nat (length tokens)] @ more"
    and more: "length tokens \<le> 255 \<longrightarrow> more = tokens" using receive_bytes by blast
  show ?thesis
  proof (cases "255 < length tokens")
    case True
    then show ?thesis by (simp add: handle_apdu_def b ins_defs stick_receive_def sw_defs)
  next
    case False
    then have "unat (of_nat (length tokens) :: u8) = length tokens" by (simp add: unat_byte_of_nat)
    with False more show ?thesis by (auto simp: handle_apdu_def b ins_defs stick_receive_def sw_defs)
  qed
qed

subsection \<open>The order of a payment\<close>

text \<open>A world that records every command and answers from a script; no more answers is no stick.\<close>

datatype party = Payer | Payee

type_synonym script = "bytes option list \<times> (party \<times> bytes) list"

definition script_tap :: "party \<Rightarrow> script tap" where
  "script_tap who apdu w = (case w of (answers, log) \<Rightarrow>
     (case answers of [] \<Rightarrow> None | a # _ \<Rightarrow> a, tl answers, log @ [(who, apdu)]))"

lemma exchange_script:
  "exchange (script_tap who) apdu handler re (answers, log) continue =
     (case (case answers of [] \<Rightarrow> None | a # _ \<Rightarrow> a) of
        None \<Rightarrow> (re, tl answers, log @ [(who, apdu)])
      | Some resp \<Rightarrow> (case handler resp re of (ok, re') \<Rightarrow>
          if ok then continue re' (tl answers, log @ [(who, apdu)]) else (re', tl answers, log @ [(who, apdu)])))"
  by (simp add: exchange_def script_tap_def split: option.split prod.split bool.split)

text \<open>What the handlers keep, and what success gives.\<close>

lemma handlers_keep_count [simp]:
  "re_tx_count (snd (handle_read_ticket_response r re)) = re_tx_count re"
  "re_tx_count (snd (handle_initiate_response r re)) = re_tx_count re"
  "re_tx_count (snd (handle_transfer_response r re)) = re_tx_count re"
  by (simp_all add: handle_read_ticket_response_def handle_initiate_response_def handle_transfer_response_def Let_def split: option.split)

lemma handlers_keep_ticket [simp]:
  "re_receiver_ticket (snd (handle_initiate_response r re)) = re_receiver_ticket re"
  "re_receiver_ticket (snd (handle_transfer_response r re)) = re_receiver_ticket re"
  "re_receiver_ticket (snd (handle_receive_response r re)) = re_receiver_ticket re"
  by (simp_all add: handle_initiate_response_def handle_transfer_response_def handle_receive_response_def Let_def split: option.split)

lemma handlers_keep_amount [simp]:
  "re_amount (snd (handle_read_ticket_response r re)) = re_amount re"
  "re_amount (snd (handle_initiate_response r re)) = re_amount re"
  "re_amount (snd (handle_transfer_response r re)) = re_amount re"
  by (simp_all add: handle_read_ticket_response_def handle_initiate_response_def handle_transfer_response_def Let_def split: option.split)

lemma transfer_signed:
  "fst (handle_transfer_response r re) \<Longrightarrow> check_sw r \<and> re_signed_tokens (snd (handle_transfer_response r re)) = take (length r - 2) r"
  by (auto simp: handle_transfer_response_def buf_extend_def split: if_splits option.splits)

lemma receive_counted:
  "re_tx_count (snd (handle_receive_response r re)) \<noteq> re_tx_count re \<Longrightarrow>
     re_phase (snd (handle_receive_response r re)) = Relay_Complete \<and> re_tx_count (snd (handle_receive_response r re)) = re_tx_count re + 1
     \<and> parse_receive_response r = Some True"
  by (auto simp: handle_receive_response_def parse_receive_response_def Let_def split: if_splits)

lemma start_keeps [simp]:
  "re_tx_count (engine_start a re) = re_tx_count re" "re_receiver_ticket (engine_start a re) = re_receiver_ticket re"
  "re_amount (engine_start a re) = a"
  by (simp_all add: engine_start_def)

text \<open>The last three taps, split into the ways they can end.\<close>

lemma exchange_cases:
  assumes "exchange tap apdu handler re w continue = res"
  obtains w' where "tap apdu w = (None, w')" "res = (re, w')"
  | r w' where "tap apdu w = (Some r, w')" "\<not> fst (handler r re)" "res = (snd (handler r re), w')"
  | r w' where "tap apdu w = (Some r, w')" "fst (handler r re)" "continue (snd (handler r re)) w' = res"
proof -
  obtain a w' where t: "tap apdu w = (a, w')" by fastforce
  show thesis
  proof (cases a)
    case None
    with t assms that(1) show thesis by (simp add: exchange_def)
  next
    case (Some r)
    obtain ok re' where h: "handler r re = (ok, re')" by fastforce
    show thesis
      using t Some h assms that(2,3) [of r w'] by (cases ok) (simp_all add: exchange_def)
  qed
qed

lemma script_tap_Some:
  "script_tap who apdu (answers, log) = (Some r, w') \<longleftrightarrow>
     (\<exists>more. answers = Some r # more \<and> w' = (more, log @ [(who, apdu)]))"
  by (cases answers) (auto simp: script_tap_def)

lemma read_ticket_ok:
  "fst (handle_read_ticket_response r re) \<Longrightarrow>
     check_sw r \<and> re_receiver_ticket (snd (handle_read_ticket_response r re)) = take (length r - 2) r"
  by (auto simp: handle_read_ticket_response_def buf_extend_def split: if_splits option.splits)

definition pay_steps :: "'w tap \<Rightarrow> 'w tap \<Rightarrow> engine \<Rightarrow> 'w \<Rightarrow> engine \<times> 'w" where
  "pay_steps receiver sender re2 w2 =
     exchange sender (engine_build_initiate re2) handle_initiate_response re2 w2 (\<lambda>re3 w3.
     exchange sender build_transfer_accept handle_transfer_response re3 w3 (\<lambda>re4 w4.
     exchange receiver (engine_build_receive re4) handle_receive_response re4 w4 (\<lambda>re5 w5. (re5, w5))))"

lemma relay_round_steps:
  "relay_round amount receiver sender re w =
     (if amount = 0 then (re, w)
      else if has_cached_receiver re then pay_steps receiver sender (engine_start amount re) w
      else exchange receiver build_read_ticket handle_read_ticket_response (engine_start amount re) w (pay_steps receiver sender))"
  by (simp add: relay_round_def pay_steps_def [abs_def] has_cached_receiver_def Let_def)

lemma pay_steps_counted:
  assumes "pay_steps (script_tap Payee) (script_tap Payer) re (answers, log) = (re', rest, log')"
    and "re_tx_count re' \<noteq> re_tx_count re"
  shows "\<exists>i sig r. answers = Some i # Some sig # Some r # rest \<and> check_sw sig \<and> parse_receive_response r = Some True
    \<and> log' = log @ [(Payer, build_initiate (re_amount re) (re_receiver_ticket re)), (Payer, build_transfer_accept),
                   (Payee, build_receive (take (length sig - 2) sig))]
    \<and> re_phase re' = Relay_Complete \<and> re_tx_count re' = re_tx_count re + 1 \<and> re_receiver_ticket re' = re_receiver_ticket re"
  using assms(1) unfolding pay_steps_def
proof (cases rule: exchange_cases)
  case (3 i w1)
  define re3 where "re3 = snd (handle_initiate_response i re)"
  from 3(3) show ?thesis unfolding re3_def [symmetric]
  proof (cases rule: exchange_cases)
    case (3 sig w2)
    note sig = this
    define re4 where "re4 = snd (handle_transfer_response sig re3)"
    have keep: "re_tx_count re4 = re_tx_count re" "re_receiver_ticket re4 = re_receiver_ticket re" by (simp_all add: re4_def re3_def)
    have tokens: "check_sw sig" "re_signed_tokens re4 = take (length sig - 2) sig"
      using transfer_signed sig(2) by (simp_all add: re4_def)
    from sig(3) show ?thesis unfolding re4_def [symmetric]
    proof (cases rule: exchange_cases)
      case (1 w3)
      with assms(2) keep show ?thesis by simp
    next
      case (2 r w3)
      then have re': "re' = snd (handle_receive_response r re4)" by simp
      have "re_tx_count re' = re_tx_count re4" using 2(2) unfolding re' by (auto simp: handle_receive_response_def Let_def split: if_splits)
      with assms(2) keep show ?thesis by simp
    next
      case (3 r w3)
      then have re': "re' = snd (handle_receive_response r re4)" and w3: "w3 = (rest, log')" by simp_all
      have "re_tx_count (snd (handle_receive_response r re4)) \<noteq> re_tx_count re4" using assms(2) keep by (simp add: re')
      note counted = receive_counted [OF this]
      show ?thesis
        using \<open>script_tap Payer (engine_build_initiate re) (answers, log) = (Some i, w1)\<close> sig(1) 3(1) tokens counted keep
        by (auto simp: script_tap_Some engine_builders re' w3)
    qed
  qed (use assms(2) in \<open>auto simp: re3_def\<close>)
qed (use assms(2) in auto)



text \<open>C21: when the sticks answer, the payment completes: for any ticket, transaction id, proposal and signed tokens
  that fit the engine's buffers, a round in which every tap succeeds and the payee accepts ends complete, is
  counted, and is reported.\<close>

theorem answered_round_completes:
  assumes "amount \<noteq> 0" "\<not> has_cached_receiver re" "length ticket \<le> 512" "length txid = 16" "length unsig \<le> 2048" "length sig \<le> 2048"
  shows "\<exists>re' log. relay_round amount (script_tap Payee) (script_tap Payer) re
       ([Some (ticket @ SW_SUCCESS), Some (txid @ unsig @ SW_SUCCESS), Some (sig @ SW_SUCCESS), Some (1 # SW_SUCCESS)], []) = (re', [], log)
    \<and> re_phase re' = Relay_Complete \<and> re_tx_count re' = re_tx_count re + 1
    \<and> re_last_result re' = Some \<lparr>tr_amount = amount, tr_success = True\<rparr> \<and> re_receiver_ticket re' = ticket"
proof -
  have sw: "check_sw (xs @ SW_SUCCESS)" "take (length (xs @ SW_SUCCESS) - 2) (xs @ SW_SUCCESS) = xs" for xs
    by (simp_all add: check_sw_def sw_defs nth_append)
  define re1 where "re1 = snd (handle_read_ticket_response (ticket @ SW_SUCCESS) (engine_start amount re))"
  have h1: "handle_read_ticket_response (ticket @ SW_SUCCESS) (engine_start amount re) = (True, re1)"
    using assms(3) unfolding re1_def handle_read_ticket_response_def sw by (simp add: buf_extend_def sw)
  define re2 where "re2 = snd (handle_initiate_response ((txid @ unsig) @ SW_SUCCESS) re1)"
  have h2: "handle_initiate_response (txid @ unsig @ SW_SUCCESS) re1 = (True, re2)"
    using assms(4,5) sw [of "txid @ unsig"] by (simp add: re2_def handle_initiate_response_def buf_extend_def Let_def)
  define re3 where "re3 = snd (handle_transfer_response (sig @ SW_SUCCESS) re2)"
  have h3: "handle_transfer_response (sig @ SW_SUCCESS) re2 = (True, re3)"
    using assms(6) sw [of sig] by (simp add: re3_def handle_transfer_response_def buf_extend_def)
  have keep: "re_amount re3 = amount" "re_tx_count re3 = re_tx_count re" "re_receiver_ticket re3 = ticket"
  proof -
    have "fst (handle_read_ticket_response (ticket @ SW_SUCCESS) (engine_start amount re))" unfolding h1 by simp
    from read_ticket_ok [OF this] have "re_receiver_ticket re1 = ticket" unfolding re1_def sw(2) by blast
    then show "re_receiver_ticket re3 = ticket" by (simp add: re3_def re2_def)
  qed (simp_all add: re3_def re2_def re1_def)
  have h4: "handle_receive_response (1 # SW_SUCCESS) re3 = (True, re3\<lparr>re_tx_count := re_tx_count re + 1,
      re_phase := Relay_Complete, re_last_result := Some \<lparr>tr_amount = amount, tr_success = True\<rparr>\<rparr>)"
    using keep by (simp add: handle_receive_response_def sw_defs Let_def check_sw_def)
  show ?thesis
    using assms(1,2) keep by (simp add: relay_round_steps pay_steps_def exchange_script h1 h2 h3 h4)
qed

lemma answered_round_completes_witness:
  "\<exists>re' log. relay_round 5 (script_tap Payee) (script_tap Payer) engine_new
       ([Some ([7] @ SW_SUCCESS), Some (replicate 16 1 @ [] @ SW_SUCCESS), Some ([9] @ SW_SUCCESS), Some (1 # SW_SUCCESS)], []) = (re', [], log)
     \<and> re_phase re' = Relay_Complete"
proof -
  have "(5 :: u32) \<noteq> 0" "\<not> has_cached_receiver engine_new" "length [7 :: u8] \<le> 512" "length (replicate 16 (1 :: u8)) = 16"
    "length ([] :: bytes) \<le> 2048" "length [9 :: u8] \<le> 2048"
    by (simp_all add: has_cached_receiver_def engine_new_def)
  from answered_round_completes [OF this] show ?thesis by blast
qed

subsection \<open>The payee between rounds\<close>

definition relay_rounds :: "u32 list \<Rightarrow> 'w tap \<Rightarrow> 'w tap \<Rightarrow> engine \<times> 'w \<Rightarrow> engine \<times> 'w" where
  "relay_rounds amounts receiver sender st = fold (\<lambda>amount (re, w). relay_round amount receiver sender re w) amounts st"

lemma exchange_keeps:
  assumes "P re" "\<And>r. P (snd (handler r re))" "\<And>r w. P (fst (continue (snd (handler r re)) w))"
  shows "P (fst (exchange tap apdu handler re w continue))"
proof -
  obtain re' w' where r: "exchange tap apdu handler re w continue = (re', w')" by fastforce
  then have "P re'" by (cases rule: exchange_cases) (use assms in \<open>auto\<close>, metis assms(3) fst_conv)
  then show ?thesis by (simp add: r)
qed

lemma pay_steps_ticket:
  "re_receiver_ticket (fst (pay_steps receiver sender re w)) = re_receiver_ticket re"
  unfolding pay_steps_def
  by (intro exchange_keeps [where P = "\<lambda>e. re_receiver_ticket e = re_receiver_ticket re"]) simp_all

lemma relay_round_ticket:
  "has_cached_receiver re \<Longrightarrow> re_receiver_ticket (fst (relay_round amount receiver sender re w)) = re_receiver_ticket re"
  by (simp add: relay_round_steps pay_steps_ticket)

text \<open>once the relay holds a payee's ticket it keeps it, in every mode and whatever happens in the rounds:
  all later payments are proposed to that payee, and no payee is asked for a ticket again.\<close>

theorem payee_is_kept:
  assumes "has_cached_receiver re"
  shows "re_receiver_ticket (fst (relay_rounds amounts receiver sender (re, w))) = re_receiver_ticket re
    \<and> relay_rounds amounts receiver sender (re, w)
        = fold (\<lambda>amount (re, w). if amount = 0 then (re, w) else pay_steps receiver sender (engine_start amount re) w) amounts (re, w)"
  using assms
proof (induction amounts arbitrary: re w)
  case (Cons a amounts)
  obtain re1 w1 where r: "relay_round a receiver sender re w = (re1, w1)" by fastforce
  have t: "re_receiver_ticket re1 = re_receiver_ticket re" using relay_round_ticket [OF Cons.prems, of a receiver sender w] by (simp add: r)
  with Cons.prems have c: "has_cached_receiver re1" by (simp add: has_cached_receiver_def)
  let ?F = "\<lambda>amount (re, w). if amount = 0 then (re, w) else pay_steps receiver sender (engine_start amount re) w"
  have "?F a (re, w) = (re1, w1)"
    using r Cons.prems by (cases "a = 0") (simp_all add: relay_round_steps)
  then have f: "fold ?F (a # amounts) (re, w) = fold ?F amounts (re1, w1)" by (simp only: fold_Cons comp_apply)
  have r1: "relay_rounds (a # amounts) receiver sender (re, w) = relay_rounds amounts receiver sender (re1, w1)"
    by (simp add: relay_rounds_def r)
  show ?case unfolding r1 f using Cons.IH [OF c, of w1] unfolding t .
qed (simp add: relay_rounds_def)

lemma payee_is_kept_witness:
  "re_receiver_ticket (fst (relay_rounds [5, 6] (script_tap Payee) (script_tap Payer) (set_cached_receiver_ticket [7] engine_new, [], []))) = [7]"
proof -
  let ?e = "set_cached_receiver_ticket [7] engine_new"
  have c: "has_cached_receiver ?e" "re_receiver_ticket ?e = [7]"
    by (simp_all add: set_cached_receiver_ticket_def has_cached_receiver_def Let_def)
  show ?thesis using conjunct1 [OF payee_is_kept [OF c(1)]] unfolding c(2) .
qed

subsection \<open>Payments between two sticks\<close>

text \<open>A tap as \<open>main.rs\<close> makes it: the field appears, SELECT, the command, the field goes.\<close>

definition stick_tap :: "(bytes \<Rightarrow> bytes) \<Rightarrow> bytes \<Rightarrow> stick \<Rightarrow> bytes option \<times> stick" where
  "stick_tap sha apdu s =
     (case handle_frame sha build_select_apdu False s of
        (None, _, s1) \<Rightarrow> (None, s1)
      | (Some r, selected, s1) \<Rightarrow>
          if check_sw r then (case handle_frame sha apdu selected s1 of (a, _, s2) \<Rightarrow> (a, s2)) else (None, s1))"

text \<open>The world: the payer's stick, the payee's, and what the payer presses before each of the next taps.\<close>

type_synonym sticks = "stick \<times> stick \<times> button list list"

definition payer_tap :: "(bytes \<Rightarrow> bytes) \<Rightarrow> sticks tap" where
  "payer_tap sha apdu w = (case w of (p, q, keys) \<Rightarrow>
     (case stick_tap sha apdu (fold (stick_button sha) (concat (take 1 keys)) p) of (a, p') \<Rightarrow> (a, p', q, tl keys)))"

definition payee_tap :: "(bytes \<Rightarrow> bytes) \<Rightarrow> sticks tap" where
  "payee_tap sha apdu w = (case w of (p, q, keys) \<Rightarrow> (case stick_tap sha apdu q of (a, q') \<Rightarrow> (a, p, q', keys)))"

lemma stick_tap_command:
  assumes "4 \<le> length apdu" "apdu ! 0 \<noteq> 0"
  shows "stick_tap sha apdu s = (Some (take 2048 (fst (handle_apdu sha apdu s []))), snd (handle_apdu sha apdu s []))"
  using assms
  by (simp add: stick_tap_def build_select_apdu_def BRIOLETTE_AID_def handle_frame_def handle_select_def check_sw_def Let_def split: prod.split)

text \<open>The amounts a stick can propose carry no tokens (the selection is a placeholder), so what it signs is empty.\<close>

lemma length_answers [simp]:
  assumes "length r \<le> 2048"
  shows "length (fst (stick_initiate data s r)) \<le> 2048" "length (stick_read_ticket s r) \<le> 2048"
    "length (fst (stick_gossip data s r)) \<le> 2048" "length (fst (stick_transact data s r)) \<le> 2048"
    "length (fst (stick_transfer sha data s r)) \<le> 2048" "length (fst (stick_receive data s r)) \<le> 2048"
    "length (fst (stick_sweep s r)) \<le> 2048" "length (stick_get_balance s r) \<le> 2048"
  using assms
  by (simp_all add: length_buf_put stick_initiate_def stick_read_ticket_def stick_gossip_def stick_transact_def stick_transfer_def
      stick_receive_def stick_sweep_def stick_get_balance_def Let_def split: phase.split prod.split list.split option.split)

lemma length_response: "length r \<le> 2048 \<Longrightarrow> length (fst (handle_apdu sha apdu s r)) \<le> 2048"
  by (simp add: handle_apdu_def Let_def length_buf_put)

lemma signs_nothing:
  assumes "toks \<in> {[], [0, 0, 0, 0]}"
  shows "sign_tokens sha toks key st = (if length key = 32 \<and> toks \<noteq> [] then Some [] else None, st)"
  using assms by (auto simp: sign_tokens_def be_u32_def)

lemma transfer_bytes: "build_transfer_accept = [CLA_BRIOLETTE, INS_TRANSFER, 0, 0, 1, 1]"
  by (simp add: build_transfer_accept_def)

lemma transfer_answer:
  assumes "stick_inv s"
  shows "\<exists>sw. fst (handle_apdu sha build_transfer_accept s []) = sw \<and> length sw = 2"
  using assms
  by (auto simp: transfer_bytes handle_apdu_def ins_defs stick_transfer_def stick_inv_def signs_nothing Let_def sw_defs)

lemma payer_tap_eq:
  "4 \<le> length apdu \<Longrightarrow> apdu ! 0 \<noteq> 0 \<Longrightarrow> payer_tap sha apdu (p, q, keys) =
     (let p1 = fold (stick_button sha) (concat (take 1 keys)) p
      in (Some (fst (handle_apdu sha apdu p1 [])), snd (handle_apdu sha apdu p1 []), q, tl keys))"
  using length_response [of "[]"] by (simp add: payer_tap_def stick_tap_command Let_def)

lemma payee_tap_eq:
  "4 \<le> length apdu \<Longrightarrow> apdu ! 0 \<noteq> 0 \<Longrightarrow> payee_tap sha apdu (p, q, keys) =
     (Some (fst (handle_apdu sha apdu q [])), p, snd (handle_apdu sha apdu q []), keys)"
  using length_response [of "[]"] by (simp add: payee_tap_def stick_tap_command)

lemma buttons_inv: "stick_inv s \<Longrightarrow> stick_inv (fold (stick_button sha) ks s)"
  by (induction ks arbitrary: s) (simp_all add: button_inv)

lemma initiate_header: "4 \<le> length (build_initiate a t)" "build_initiate a t ! 0 \<noteq> 0"
  by (simp_all add: initiate_bytes ins_defs)

lemma transfer_header: "4 \<le> length build_transfer_accept" "build_transfer_accept ! 0 \<noteq> 0"
  by (simp_all add: transfer_bytes ins_defs)

lemma receive_header: "4 \<le> length (build_receive t)" "build_receive t ! 0 \<noteq> 0"
  using receive_bytes [of t] by (auto simp: ins_defs)

lemma read_ticket_payee [simp]: "payee_tap sha build_read_ticket (p, q, keys) = (Some (stick_read_ticket q []), p, q, keys)"
  by (simp add: payee_tap_eq build_read_ticket_def ins_defs handle_apdu_def)

lemma deliver_nothing:
  "payee_tap sha (build_receive []) (p, q, keys) = (Some SW_WRONG_DATA, p, q, keys)"
  by (simp add: payee_tap_eq receive_header delivery_up_to_255_bytes)

lemma receive_refused:
  "handle_receive_response SW_WRONG_DATA re =
     (False, re\<lparr>re_phase := Relay_Failed, re_last_result := Some \<lparr>tr_amount = re_amount re, tr_success = False\<rparr>\<rparr>)"
  by (simp add: handle_receive_response_def check_sw_def sw_defs Let_def)

lemma deliver_step:
  "re_signed_tokens re = [] \<Longrightarrow>
   exchange (payee_tap sha) (engine_build_receive re) handle_receive_response re (p, q, keys) (\<lambda>re5 w5. (re5, w5)) =
     (re\<lparr>re_phase := Relay_Failed, re_last_result := Some \<lparr>tr_amount = re_amount re, tr_success = False\<rparr>\<rparr>, p, q, keys)"
  by (simp add: exchange_def engine_builders deliver_nothing receive_refused)

lemma transfer_payer:
  assumes "stick_inv p" "payer_tap sha build_transfer_accept (p, q, keys) = (a, w)"
  shows "\<exists>p' keys'. w = (p', q, keys') \<and> (\<exists>sw. a = Some sw \<and> length sw = 2)"
  using assms(2) transfer_answer [OF buttons_inv [OF assms(1)], of sha sha "concat (take 1 keys)"]
  by (auto simp: payer_tap_eq transfer_header Let_def)

lemma pay_steps_firmware:
  assumes inv: "stick_inv p"
  shows "\<exists>re' p' keys'. pay_steps (payee_tap sha) (payer_tap sha) re (p, q, keys) = (re', p', q, keys') \<and> re_tx_count re' = re_tx_count re"
proof -
  obtain re' w' where r: "pay_steps (payee_tap sha) (payer_tap sha) re (p, q, keys) = (re', w')" using prod.exhaust by blast
  let ?p1 = "fold (stick_button sha) (concat (take 1 keys)) p"
  let ?a = "engine_build_initiate re"
  have tap1: "payer_tap sha ?a (p, q, keys) = (Some (fst (handle_apdu sha ?a ?p1 [])), snd (handle_apdu sha ?a ?p1 []), q, tl keys)"
    by (simp add: payer_tap_eq initiate_header engine_builders Let_def)
  have inv2: "stick_inv (snd (handle_apdu sha ?a ?p1 []))" by (rule apdu_inv [OF buttons_inv [OF inv]])
  from r have "\<exists>p' keys'. w' = (p', q, keys') \<and> re_tx_count re' = re_tx_count re" unfolding pay_steps_def
  proof (cases rule: exchange_cases)
    case (3 i w1)
    define re3 where "re3 = snd (handle_initiate_response i re)"
    have w1: "w1 = (snd (handle_apdu sha ?a ?p1 []), q, tl keys)" using 3(1) tap1 by simp
    note next_tap = transfer_payer [OF inv2, of sha q "tl keys"]
    from 3(3) show ?thesis unfolding re3_def [symmetric] w1
    proof (cases rule: exchange_cases)
      case (3 sig w2)
      obtain p' keys' where w2: "w2 = (p', q, keys')" and "length sig = 2" using next_tap [OF 3(1)] by auto
      then have none: "re_signed_tokens (snd (handle_transfer_response sig re3)) = []" using transfer_signed [OF 3(2)] by simp
      from 3(3) show ?thesis unfolding w2 deliver_step [OF none] by (auto simp: re3_def)
    next
      case (1 w2)
      with next_tap [OF 1(1)] show ?thesis by (auto simp: re3_def)
    next
      case (2 sig w2)
      with next_tap [OF 2(1)] show ?thesis by (auto simp: re3_def)
    qed
  qed (auto simp: tap1)
  with r show ?thesis by auto
qed

text \<open>a payment between two sticks that run this firmware never completes, whatever the payer has done
  before and presses during the round: the payee is left as it was and the relay does not count it.\<close>

theorem firmware_payment_never_arrives:
  "\<exists>re' p' keys'. relay_round amount (payee_tap sha) (payer_tap sha) re (stick_run sha evs (stick_new sg), q, keys) = (re', p', q, keys')
     \<and> re_tx_count re' = re_tx_count re"
proof -
  let ?p = "stick_run sha evs (stick_new sg)"
  have inv: "stick_inv ?p" by (rule run_inv [OF stick_inv_new])
  note fw = pay_steps_firmware [OF inv, of sha]
  consider "amount = 0" | "amount \<noteq> 0" "has_cached_receiver re" | "amount \<noteq> 0" "\<not> has_cached_receiver re" by blast
  then show ?thesis
  proof cases
    case 2
    then show ?thesis using fw [of "engine_start amount re" q keys] by (simp add: relay_round_steps)
  next
    case 3
    obtain ok re2 where h: "handle_read_ticket_response (stick_read_ticket q []) (engine_start amount re) = (ok, re2)" by fastforce
    then have "re_tx_count re2 = re_tx_count re"
      using handlers_keep_count(1) [of "stick_read_ticket q []" "engine_start amount re"] by simp
    with 3 h fw [of re2 q keys] show ?thesis
      by (cases ok) (simp_all add: relay_round_steps exchange_def)
  qed (simp add: relay_round_steps)
qed

text \<open>The first two steps of a round with an idle payer.\<close>

lemma propose_step:
  assumes "amount \<noteq> 0" "has_cached_receiver re" "length (re_receiver_ticket re) \<le> 243" "sk_phase p = Idle" "sk_privacy_mode p = Fast"
  obtains p1 re3 d where
    "relay_round amount (payee_tap sha) (payer_tap sha) re (p, q, []) =
       exchange (payer_tap sha) build_transfer_accept handle_transfer_response re3 (p1, q, []) (\<lambda>re4 w4.
         exchange (payee_tap sha) (engine_build_receive re4) handle_receive_response re4 w4 (\<lambda>re5 w5. (re5, w5)))"
    "re_phase re3 = SenderProposed" "re_amount re3 = amount" "re_receiver_ticket re3 = re_receiver_ticket re"
    "sk_phase p1 = Proposed amount d" "sk_privacy_mode p1 = Fast" "sk_proposed_amount p1 = amount"
    "sk_storage p1 = sk_storage p" "sk_proposed_tokens p1 = [0, 0, 0, 0]" "sk_pin_threshold p1 = sk_pin_threshold p"
    "sk_pin_authorized p1 = sk_pin_authorized p" "sk_pin_attempts_failed p1 = sk_pin_attempts_failed p"
proof -
  let ?d = "u32_bytes amount @ [0, 0, 0, 0] @ re_receiver_ticket re"
  define p1 where "p1 = snd (stick_initiate ?d p [])"
  define r where "r = generate_tx_id amount @ [0, 0, 0, 0] @ SW_SUCCESS"
  define re3 where "re3 = snd (handle_initiate_response r (engine_start amount re))"
  have i: "stick_initiate ?d p [] = (r, p1)"
    using assms(4,5) by (simp add: p1_def r_def stick_initiate_def Let_def generate_tx_id_def sw_defs)
  have tap: "payer_tap sha (build_initiate amount (re_receiver_ticket re)) (p, q, []) = (Some r, p1, q, [])"
    using i assms(3) by (simp add: payer_tap_eq initiate_header initiate_dispatch)
  have h: "handle_initiate_response r (engine_start amount re) = (True, re3)" "re_phase re3 = SenderProposed"
    by (simp_all add: re3_def r_def handle_initiate_response_def check_sw_def sw_defs generate_tx_id_def nth_append buf_extend_def Let_def)
  have "relay_round amount (payee_tap sha) (payer_tap sha) re (p, q, []) =
       exchange (payer_tap sha) build_transfer_accept handle_transfer_response re3 (p1, q, []) (\<lambda>re4 w4.
         exchange (payee_tap sha) (engine_build_receive re4) handle_receive_response re4 w4 (\<lambda>re5 w5. (re5, w5)))"
    using assms(1,2) by (simp add: relay_round_steps pay_steps_def exchange_def [of _ "build_initiate amount (re_receiver_ticket re)"] engine_builders tap h(1))
  from this h(2) show thesis
    by (rule that) (use assms(4,5) in \<open>simp_all add: re3_def p1_def stick_initiate_def Let_def select_tokens_for_proposal_def
        select_tokens_def u32_bytes_0\<close>)
qed

text \<open>the payer pays nevertheless. With an idle stick, no PIN needed and a ticket that fits, the round ends
  as failed at the relay, the payer's stick shows the payment as sent and its balance is reduced.\<close>

theorem firmware_payment_debits_payer:
  assumes "amount \<noteq> 0" "has_cached_receiver re" "length (re_receiver_ticket re) \<le> 243"
    and "sk_phase p = Idle" "sk_privacy_mode p = Fast" "length (sg_ecdaa_sk (sk_storage p)) = 32" "pin_attempts_remaining p \<noteq> 0"
    and "amount < sk_pin_threshold p \<or> sg_pin_hash (sk_storage p) = None \<or> sk_pin_authorized p"
  shows "\<exists>re' p'. relay_round amount (payee_tap sha) (payer_tap sha) re (p, q, []) = (re', p', q, [])
    \<and> re_phase re' = Relay_Failed \<and> re_last_result re' = Some \<lparr>tr_amount = amount, tr_success = False\<rparr>
    \<and> sg_balance (sk_storage p') = saturating_sub (sg_balance (sk_storage p)) amount
    \<and> sk_phase p' = Signed (saturating_sub (sg_balance (sk_storage p)) amount)"
proof -
  obtain p1 re3 d where r: "relay_round amount (payee_tap sha) (payer_tap sha) re (p, q, []) =
       exchange (payer_tap sha) build_transfer_accept handle_transfer_response re3 (p1, q, []) (\<lambda>re4 w4.
         exchange (payee_tap sha) (engine_build_receive re4) handle_receive_response re4 w4 (\<lambda>re5 w5. (re5, w5)))"
    and re3: "re_amount re3 = amount"
    and p1: "sk_phase p1 = Proposed amount d" "sk_privacy_mode p1 = Fast" "sk_proposed_amount p1 = amount"
      "sk_storage p1 = sk_storage p" "sk_proposed_tokens p1 = [0, 0, 0, 0]" "sk_pin_threshold p1 = sk_pin_threshold p"
      "sk_pin_authorized p1 = sk_pin_authorized p" "sk_pin_attempts_failed p1 = sk_pin_attempts_failed p"
    by (rule propose_step [OF assms(1-5)])
  define p2 where "p2 = snd (stick_transfer sha [1] p1 [])"
  have "stick_pin_required p1 = False" "pin_attempts_remaining p1 \<noteq> 0"
    using assms(7,8) by (auto simp: stick_pin_required_def p1 pin_attempts_remaining_def)
  then have t: "stick_transfer sha [1] p1 [] = (SW_SUCCESS, p2)"
    "sg_balance (sk_storage p2) = saturating_sub (sg_balance (sk_storage p)) amount"
    "sk_phase p2 = Signed (saturating_sub (sg_balance (sk_storage p)) amount)"
    using assms(6) by (simp_all add: p2_def stick_transfer_def p1 is_proposed_def signs_nothing Let_def storage_deduct_def sw_defs)
  have tap: "payer_tap sha build_transfer_accept (p1, q, []) = (Some SW_SUCCESS, p2, q, [])"
    using t(1) by (simp add: payer_tap_eq transfer_bytes ins_defs handle_apdu_def)
  have h: "handle_transfer_response SW_SUCCESS re3 = (True, re3\<lparr>re_signed_tokens := [], re_phase := TokensSigned\<rparr>)"
    by (simp add: handle_transfer_response_def check_sw_def sw_defs buf_extend_def)
  show ?thesis
    using t(2,3) re3 unfolding r by (simp add: exchange_def engine_builders tap h deliver_nothing receive_refused)
qed

lemma firmware_payment_debits_payer_witness:
  "\<exists>re' p'. relay_round 5 (payee_tap (\<lambda>b. b)) (payer_tap (\<lambda>b. b)) (set_cached_receiver_ticket [7] engine_new)
       (stick_new (storage_init\<lparr>sg_balance := 20\<rparr>), stick_new storage_init, []) = (re', p', stick_new storage_init, [])
     \<and> re_phase re' = Relay_Failed \<and> sg_balance (sk_storage p') = 15"
proof -
  let ?e = "set_cached_receiver_ticket [7] engine_new" and ?p = "stick_new (storage_init\<lparr>sg_balance := 20\<rparr>)"
  have e: "has_cached_receiver ?e" "length (re_receiver_ticket ?e) \<le> 243"
    by (simp_all add: set_cached_receiver_ticket_def has_cached_receiver_def Let_def)
  have p: "sk_phase ?p = Idle" "sk_privacy_mode ?p = Fast" "length (sg_ecdaa_sk (sk_storage ?p)) = 32" "pin_attempts_remaining ?p \<noteq> 0"
    "sg_pin_hash (sk_storage ?p) = None" "saturating_sub (sg_balance (sk_storage ?p)) 5 = 15"
    by (simp_all add: stick_new_def storage_init_def pin_attempts_remaining_def saturating_sub_def)
  show ?thesis
    using firmware_payment_debits_payer [OF _ e p(1-4), of 5 "\<lambda>b. b" "stick_new storage_init"] p(5,6) by auto
qed

subsection \<open>The PIN and the relay\<close>

lemma busy_initiate:
  assumes "sk_phase p \<noteq> Idle"
  shows "snd (handle_apdu sha (build_initiate amount t) p []) = p \<and> \<not> check_sw (fst (handle_apdu sha (build_initiate amount t) p []))"
  using assms by (auto simp: initiate_bytes handle_apdu_def ins_defs stick_initiate_def sw_defs check_sw_def)

lemma busy_payer:
  assumes "sk_phase p1 \<noteq> Idle" "p1 = fold (stick_button sha) (concat (take 1 keys)) p"
  shows "payer_tap sha (build_initiate amount t) (p, q, keys) =
    (Some (fst (handle_apdu sha (build_initiate amount t) p1 [])), p1, q, tl keys)
     \<and> \<not> check_sw (fst (handle_apdu sha (build_initiate amount t) p1 []))"
  using busy_initiate [OF assms(1)]
  by (simp only: payer_tap_eq initiate_header Let_def assms(2) [symmetric] simp_thms)

text \<open>a payer who needs a PIN and enters it when the relay's PIN-required pattern asks for it, after the
  second tap, does not pay: the relay has begun a new round, whose proposal the stick, still busy with the
  first, refuses. Only cancelling on the stick gets it out of this.\<close>

theorem pin_after_second_tap_fails:
  assumes "amount \<noteq> 0" "has_cached_receiver re" "length (re_receiver_ticket re) \<le> 243"
    and "sk_phase p = Idle" "sk_privacy_mode p = Fast"
    and "sk_pin_threshold p \<le> amount" "sg_pin_hash (sk_storage p) \<noteq> None" "\<not> sk_pin_authorized p"
  shows "\<exists>re' p' d. relay_round amount (payee_tap sha) (payer_tap sha) re (p, q, []) = (re', p', q, [])
    \<and> re_phase re' = SenderProposed \<and> sk_phase p' = Proposed amount d \<and> sk_storage p' = sk_storage p
    \<and> (\<forall>keys again. sk_phase (fold (stick_button sha) keys p') = Idle \<or> again = 0
         \<or> (\<exists>re''. relay_round again (payee_tap sha) (payer_tap sha) re' (p', q, [keys])
                 = (re'', fold (stick_button sha) keys p', q, []) \<and> re_phase re'' = Relay_Failed))"
proof -
  obtain p1 re3 d where r: "relay_round amount (payee_tap sha) (payer_tap sha) re (p, q, []) =
       exchange (payer_tap sha) build_transfer_accept handle_transfer_response re3 (p1, q, []) (\<lambda>re4 w4.
         exchange (payee_tap sha) (engine_build_receive re4) handle_receive_response re4 w4 (\<lambda>re5 w5. (re5, w5)))"
    and re3: "re_phase re3 = SenderProposed" "re_receiver_ticket re3 = re_receiver_ticket re"
    and p1: "sk_phase p1 = Proposed amount d" "sk_privacy_mode p1 = Fast" "sk_proposed_amount p1 = amount"
      "sk_storage p1 = sk_storage p" "sk_pin_threshold p1 = sk_pin_threshold p" "sk_pin_authorized p1 = sk_pin_authorized p"
    by (rule propose_step [OF assms(1-5)])
  define sw where "sw = sw_pin_required (pin_attempts_remaining p1)"
  have t: "stick_transfer sha [1] p1 [] = (sw, p1)"
    using assms(6-8) by (simp add: stick_transfer_def p1 is_proposed_def stick_pin_required_def sw_def sw_defs)
  have tap: "payer_tap sha build_transfer_accept (p1, q, []) = (Some sw, p1, q, [])"
    using t by (simp add: payer_tap_eq transfer_bytes ins_defs handle_apdu_def)
  have h: "handle_transfer_response sw re3 = (False, re3)"
    by (simp add: handle_transfer_response_def check_sw_def sw_def sw_defs)
  have round1: "relay_round amount (payee_tap sha) (payer_tap sha) re (p, q, []) = (re3, p1, q, [])"
    unfolding r by (simp add: exchange_def tap h)
  have cached: "has_cached_receiver re3" using assms(2) re3 by (simp add: has_cached_receiver_def)
  have round2: "\<exists>re''. relay_round again (payee_tap sha) (payer_tap sha) re3 (p1, q, [keys])
      = (re'', fold (stick_button sha) keys p1, q, []) \<and> re_phase re'' = Relay_Failed"
    if busy: "sk_phase (fold (stick_button sha) keys p1) \<noteq> Idle" and "again \<noteq> 0" for keys again
    using busy_payer [OF busy, of sha "[keys]" p1 again "re_receiver_ticket re3" q] cached \<open>again \<noteq> 0\<close>
    by (auto simp: relay_round_steps pay_steps_def exchange_def engine_builders handle_initiate_response_def)
  show ?thesis using round1 re3(1) p1(1,4) round2 by blast
qed

lemma pin_after_second_tap_fails_witness:
  "re_phase (fst (relay_round 50 (payee_tap (\<lambda>b. b)) (payer_tap (\<lambda>b. b)) (set_cached_receiver_ticket [7] engine_new)
       (stick_new (storage_init\<lparr>sg_pin_hash := Some (replicate 32 0)\<rparr>), stick_new storage_init, []))) = SenderProposed"
proof -
  let ?e = "set_cached_receiver_ticket [7] engine_new" and ?p = "stick_new (storage_init\<lparr>sg_pin_hash := Some (replicate 32 0)\<rparr>)"
  have e: "has_cached_receiver ?e" "length (re_receiver_ticket ?e) \<le> 243"
    by (simp_all add: set_cached_receiver_ticket_def has_cached_receiver_def Let_def)
  have p: "sk_phase ?p = Idle" "sk_privacy_mode ?p = Fast" "sk_pin_threshold ?p \<le> 50" "sg_pin_hash (sk_storage ?p) \<noteq> None"
    "\<not> sk_pin_authorized ?p"
    by (simp_all add: stick_new_def)
  show ?thesis using pin_after_second_tap_fails [OF _ e p, of "\<lambda>b. b" "stick_new storage_init"] by force
qed

end
