(* ===== verification/RelayConfig.thy ===== *)
theory RelayConfig
  imports Relay
begin

section \<open>The relay's settings (\<open>hardware/relay/drivers/src/relay_config.rs\<close>, \<open>firmware/src/config.rs\<close>)\<close>

text \<open>The operating mode, the fixed amount and the saved payee, kept in one flash page.\<close>

datatype relay_mode = Variable | MerchantPos | EventMode

definition mode_to_byte :: "relay_mode \<Rightarrow> u8" where
  "mode_to_byte m = (case m of Variable \<Rightarrow> 0 | MerchantPos \<Rightarrow> 1 | EventMode \<Rightarrow> 2)"

definition mode_from_byte :: "u8 \<Rightarrow> relay_mode option" where
  "mode_from_byte b = (if b = 0 then Some Variable else if b = 1 then Some MerchantPos else if b = 2 then Some EventMode else None)"

record relay_config =
  rc_mode :: relay_mode
  rc_fixed_amount :: u32
  rc_receiver_ticket :: bytes

definition config_default :: relay_config where
  "config_default = \<lparr>rc_mode = Variable, rc_fixed_amount = 0, rc_receiver_ticket = []\<rparr>"

definition CONFIG_MAGIC :: bytes where "CONFIG_MAGIC = [0x42, 0x52, 0x43, 0x46]"
definition CONFIG_VERSION :: u8 where "CONFIG_VERSION = 1"
definition MAX_TICKET_SIZE :: nat where "MAX_TICKET_SIZE = 512"
definition CONFIG_PAGE_SIZE :: nat where "CONFIG_PAGE_SIZE = 4096"

lemmas config_consts = CONFIG_MAGIC_def CONFIG_VERSION_def MAX_TICKET_SIZE_def CONFIG_PAGE_SIZE_def

text \<open>\<open>page[at..at + bs.len()].copy_from_slice(bs)\<close> for a slice within the page.\<close>

definition copy_at :: "nat \<Rightarrow> bytes \<Rightarrow> bytes \<Rightarrow> bytes" where
  "copy_at at bs page = take at page @ bs @ drop (at + length bs) page"

definition u16_bytes :: "u16 \<Rightarrow> bytes" where
  "u16_bytes w = [of_nat (unat w div 256), of_nat (unat w)]"

definition to_flash_bytes :: "relay_config \<Rightarrow> bytes" where
  "to_flash_bytes c =
     (let page = replicate CONFIG_PAGE_SIZE 0xFF;
          page = copy_at 0 CONFIG_MAGIC page;
          page = page[4 := CONFIG_VERSION];
          page = page[5 := mode_to_byte (rc_mode c)];
          page = copy_at 6 (u32_bytes (rc_fixed_amount c)) page;
          page = copy_at 10 (u16_bytes (of_nat (length (rc_receiver_ticket c)))) page
      in if rc_receiver_ticket c \<noteq> [] then copy_at 12 (rc_receiver_ticket c) page else page)"

definition from_flash_bytes :: "bytes \<Rightarrow> relay_config" where
  "from_flash_bytes data =
     (if length data < 12 \<or> take 4 data \<noteq> CONFIG_MAGIC then config_default
      else if data ! 4 \<noteq> CONFIG_VERSION then config_default
      else case mode_from_byte (data ! 5) of
        None \<Rightarrow> config_default
      | Some mode \<Rightarrow>
          let fixed_amount = be_word (take 4 (drop 6 data));
              ticket_len = unat (u16_from_be_bytes (data ! 10) (data ! 11));
              receiver_ticket = (if 0 < ticket_len \<and> ticket_len \<le> MAX_TICKET_SIZE \<and> 12 + ticket_len \<le> length data
                                    \<and> (mode = MerchantPos \<or> mode = EventMode)
                                 then buf_put 512 [] (take ticket_len (drop 12 data)) else [])
          in \<lparr>rc_mode = mode, rc_fixed_amount = fixed_amount, rc_receiver_ticket = receiver_ticket\<rparr>)"

text \<open>The firmware's own loader reads the page in place; it is 4096 bytes long.\<close>

definition load_from_flash :: "bytes \<Rightarrow> relay_config" where
  "load_from_flash flash_data =
     (if take 4 flash_data \<noteq> CONFIG_MAGIC then config_default
      else if flash_data ! 4 \<noteq> CONFIG_VERSION then config_default
      else case mode_from_byte (flash_data ! 5) of
        None \<Rightarrow> config_default
      | Some mode \<Rightarrow>
          let fixed_amount = be_word (take 4 (drop 6 flash_data));
              ticket_len = unat (u16_from_be_bytes (flash_data ! 10) (flash_data ! 11));
              receiver_ticket = (if 0 < ticket_len \<and> ticket_len \<le> MAX_TICKET_SIZE \<and> (mode = MerchantPos \<or> mode = EventMode)
                                 then buf_put 512 [] (take ticket_len (drop 12 flash_data)) else [])
          in \<lparr>rc_mode = mode, rc_fixed_amount = fixed_amount, rc_receiver_ticket = receiver_ticket\<rparr>)"

definition set_merchant_pos :: "bytes \<Rightarrow> relay_config \<Rightarrow> relay_config" where
  "set_merchant_pos ticket c = c\<lparr>rc_receiver_ticket := buf_put 512 [] ticket, rc_fixed_amount := 0, rc_mode := MerchantPos\<rparr>"

definition set_event_mode :: "u32 \<Rightarrow> bytes \<Rightarrow> relay_config \<Rightarrow> relay_config" where
  "set_event_mode amount ticket c = c\<lparr>rc_fixed_amount := amount, rc_receiver_ticket := buf_put 512 [] ticket, rc_mode := EventMode\<rparr>"

definition config_clear :: "relay_config \<Rightarrow> relay_config" where
  "config_clear c = c\<lparr>rc_mode := Variable, rc_fixed_amount := 0, rc_receiver_ticket := []\<rparr>"

definition has_saved_receiver :: "relay_config \<Rightarrow> bool" where
  "has_saved_receiver c \<longleftrightarrow> rc_receiver_ticket c \<noteq> []"

definition has_fixed_amount :: "relay_config \<Rightarrow> bool" where
  "has_fixed_amount c \<longleftrightarrow> rc_mode c = EventMode \<and> 0 < rc_fixed_amount c"

subsection \<open>The page as a whole\<close>

lemma length_u16_bytes [simp]: "length (u16_bytes n) = 2"
  by (simp add: u16_bytes_def)

lemma u16_roundtrip: "n < 65536 \<Longrightarrow> unat (u16_from_be_bytes (of_nat (n div 256)) (of_nat n)) = n"
  by (simp add: u16_from_be_bytes_def unsigned_of_nat take_bit_eq_mod)

lemma mode_roundtrip [simp]: "mode_from_byte (mode_to_byte m) = Some m"
  by (cases m) (simp_all add: mode_from_byte_def mode_to_byte_def)

lemma copy_at_append: "length h = at \<Longrightarrow> copy_at at bs (h @ r) = h @ bs @ drop (length bs) r"
  by (simp add: copy_at_def)

lemma flash_layout:
  assumes "length (rc_receiver_ticket c) \<le> 512"
  shows "to_flash_bytes c = CONFIG_MAGIC @ [CONFIG_VERSION, mode_to_byte (rc_mode c)] @ u32_bytes (rc_fixed_amount c)
     @ u16_bytes (of_nat (length (rc_receiver_ticket c))) @ rc_receiver_ticket c
     @ replicate (4084 - length (rc_receiver_ticket c)) 0xFF"
proof -
  have four: "replicate CONFIG_PAGE_SIZE 0xFF = [0xFF, 0xFF, 0xFF, 0xFF, 0xFF, 0xFF] @ replicate 4090 (0xFF :: u8)"
    unfolding CONFIG_PAGE_SIZE_def by (simp flip: replicate_add [of 6 4090] add: eval_nat_numeral(2,3))
  have split: "to_flash_bytes c = (let page = CONFIG_MAGIC @ [CONFIG_VERSION, mode_to_byte (rc_mode c)] @ u32_bytes (rc_fixed_amount c)
     @ u16_bytes (of_nat (length (rc_receiver_ticket c))) @ replicate 4084 0xFF
     in if rc_receiver_ticket c \<noteq> [] then copy_at 12 (rc_receiver_ticket c) page else page)"
    unfolding to_flash_bytes_def Let_def four by (simp add: copy_at_def CONFIG_MAGIC_def)
  let ?h = "CONFIG_MAGIC @ [CONFIG_VERSION, mode_to_byte (rc_mode c)] @ u32_bytes (rc_fixed_amount c)
     @ u16_bytes (of_nat (length (rc_receiver_ticket c)))"
  have "length ?h = 12" by (simp add: CONFIG_MAGIC_def)
  from copy_at_append [OF this, of "rc_receiver_ticket c" "replicate 4084 0xFF"]
  show ?thesis unfolding split Let_def by simp
qed

lemma from_flash_page:
  assumes "length ticket \<le> 512"
  shows "from_flash_bytes (CONFIG_MAGIC @ [CONFIG_VERSION, mode_to_byte m] @ u32_bytes a @ u16_bytes (of_nat (length ticket)) @ ticket @ rest)
    = \<lparr>rc_mode = m, rc_fixed_amount = a, rc_receiver_ticket = (if m = Variable then [] else ticket)\<rparr>"
proof -
  have n: "unat (of_nat (length ticket) :: u16) = length ticket" using assms by (simp add: unsigned_of_nat take_bit_eq_mod)
  obtain hi lo where b: "u16_bytes (of_nat (length ticket)) = [hi, lo]" and len: "unat (u16_from_be_bytes hi lo) = length ticket"
    using u16_roundtrip [of "length ticket"] assms unfolding u16_bytes_def n by auto
  show ?thesis
    unfolding b using assms len
    by (cases m) (auto simp: from_flash_bytes_def config_consts nth_append Let_def)
qed

lemma from_flash_to_flash:
  assumes "length (rc_receiver_ticket c) \<le> 512"
  shows "from_flash_bytes (to_flash_bytes c)
    = \<lparr>rc_mode = rc_mode c, rc_fixed_amount = rc_fixed_amount c, rc_receiver_ticket = (if rc_mode c = Variable then [] else rc_receiver_ticket c)\<rparr>"
  unfolding flash_layout [OF assms] by (rule from_flash_page [OF assms])

lemma loaders_agree: "12 \<le> length page \<Longrightarrow> CONFIG_PAGE_SIZE \<le> length page \<Longrightarrow> load_from_flash page = from_flash_bytes page"
  by (auto simp: load_from_flash_def from_flash_bytes_def config_consts Let_def split: option.split)

text \<open>the settings survive a power cycle exactly when a payee is saved only in the modes that use it, as it
  is in all settings the operations make, and the firmware's loader agrees with the library's.\<close>

theorem config_survives_flash:
  assumes "length (rc_receiver_ticket c) \<le> 512"
  shows "(from_flash_bytes (to_flash_bytes c) = c \<longleftrightarrow> (rc_mode c = Variable \<longrightarrow> \<not> has_saved_receiver c))
    \<and> load_from_flash (to_flash_bytes c) = from_flash_bytes (to_flash_bytes c)"
proof -
  have "length (to_flash_bytes c) = CONFIG_PAGE_SIZE" using assms by (simp add: flash_layout config_consts)
  then have "load_from_flash (to_flash_bytes c) = from_flash_bytes (to_flash_bytes c)"
    by (intro loaders_agree) (simp_all add: config_consts)
  then show ?thesis
    unfolding from_flash_to_flash [OF assms] by (cases c) (auto simp: has_saved_receiver_def)
qed

lemma config_survives_flash_witness:
  "from_flash_bytes (to_flash_bytes (set_event_mode 500 [0xDE, 0xAD] config_default)) = set_event_mode 500 [0xDE, 0xAD] config_default"
  using config_survives_flash [of "set_event_mode 500 [0xDE, 0xAD] config_default"]
  by (simp add: set_event_mode_def config_default_def)

lemma operations_keep_config:
  "length (rc_receiver_ticket (set_merchant_pos t c)) \<le> 512" "length (rc_receiver_ticket (set_event_mode a t c)) \<le> 512"
  "length (rc_receiver_ticket (config_clear c)) \<le> 512"
  "rc_mode (set_merchant_pos t c) \<noteq> Variable" "rc_mode (set_event_mode a t c) \<noteq> Variable" "\<not> has_saved_receiver (config_clear c)"
  by (simp_all add: set_merchant_pos_def set_event_mode_def config_clear_def has_saved_receiver_def length_buf_put)

text \<open>nothing on the page guards the settings: any other amount written over the amount's four bytes is
  loaded like the original, although the page layout documents a checksum over them.\<close>

theorem flash_amount_unguarded:
  assumes "length (rc_receiver_ticket c) \<le> 512" "rc_mode c \<noteq> Variable"
  shows "from_flash_bytes (copy_at 6 (u32_bytes a) (to_flash_bytes c)) = c\<lparr>rc_fixed_amount := a\<rparr>"
proof -
  have "copy_at 6 (u32_bytes a) (to_flash_bytes c) = to_flash_bytes (c\<lparr>rc_fixed_amount := a\<rparr>)"
    using assms(1) by (simp add: flash_layout copy_at_def CONFIG_MAGIC_def)
  then show ?thesis using assms from_flash_to_flash [of "c\<lparr>rc_fixed_amount := a\<rparr>"] by simp
qed

lemma flash_amount_unguarded_witness:
  "from_flash_bytes (copy_at 6 (u32_bytes 1) (to_flash_bytes (set_event_mode 500 [7] config_default)))
     = set_event_mode 500 [7] config_default\<lparr>rc_fixed_amount := 1\<rparr>"
  using flash_amount_unguarded [of "set_event_mode 500 [7] config_default" 1] by (simp add: set_event_mode_def)

end
