(* ===== verification/Keypad.thy ===== *)
theory Keypad
  imports RelayConfig
begin

section \<open>The keypad and the amount of a payment (\<open>hardware/relay/drivers/src/keypad.rs\<close>)\<close>

text \<open>
  The keypad controller reports key codes, \<open>AmountEntry\<close> turns the keys into an amount in cents, and the first
  part of the relay's loop (\<open>firmware/src/main.rs\<close>) waits for the amount of the next payment.
\<close>

datatype key = Digit u8 | Dot | Ok | Clear

datatype key_event = Press key | Release key

definition matrix_to_key :: "u8 \<Rightarrow> u8 \<Rightarrow> key option" where
  "matrix_to_key row col =
     (if (row, col) = (0, 0) then Some (Digit 1) else if (row, col) = (0, 1) then Some (Digit 2)
      else if (row, col) = (0, 2) then Some (Digit 3) else if (row, col) = (0, 3) then Some Clear
      else if (row, col) = (1, 0) then Some (Digit 4) else if (row, col) = (1, 1) then Some (Digit 5)
      else if (row, col) = (1, 2) then Some (Digit 6) else if (row, col) = (2, 0) then Some (Digit 7)
      else if (row, col) = (2, 1) then Some (Digit 8) else if (row, col) = (2, 2) then Some (Digit 9)
      else if (row, col) = (3, 0) then Some Dot else if (row, col) = (3, 1) then Some (Digit 0)
      else if (row, col) = (3, 2) then Some Ok else None)"

datatype 'e keypad_error = I2c 'e | InvalidEvent

text \<open>\<open>read\<close> is a register read on the bus.\<close>

definition read_event :: "(u8 \<Rightarrow> 'w \<Rightarrow> ('e + u8) \<times> 'w) \<Rightarrow> 'w \<Rightarrow> ('e keypad_error + key_event option) \<times> 'w" where
  "read_event read w =
     (case read 0x03 w of
        (Inl e, w1) \<Rightarrow> (Inl (I2c e), w1)
      | (Inr ec, w1) \<Rightarrow>
          if ec AND 0x0F = 0 then (Inr None, w1)
          else (case read 0x04 w1 of
              (Inl e, w2) \<Rightarrow> (Inl (I2c e), w2)
            | (Inr event, w2) \<Rightarrow>
                if event = 0 then (Inr None, w2)
                else
                  let pressed = event AND 0x80 \<noteq> 0; key_code = event AND 0x7F in
                  if key_code = 0 \<or> 80 < key_code then (Inl InvalidEvent, w2)
                  else
                    let code = key_code - 1 in
                    (case matrix_to_key (code div 10) (code mod 10) of
                       Some key \<Rightarrow> (Inr (Some (if pressed then Press key else Release key)), w2)
                     | None \<Rightarrow> (Inr None, w2))))"

text \<open>\<open>drain_events\<close> empties the controller's queue; a controller that keeps reporting events keeps it from
  returning (\<open>None\<close>). \<open>write\<close> is a register write, for \<open>clear_interrupt\<close>.\<close>

partial_function (option) drain_loop :: "(u8 \<Rightarrow> 'w \<Rightarrow> ('e + u8) \<times> 'w) \<Rightarrow> 'w \<Rightarrow> ('e keypad_error option \<times> 'w) option" where
  "drain_loop read w =
     (case read 0x03 w of
        (Inl e, w1) \<Rightarrow> Some (Some (I2c e), w1)
      | (Inr ec, w1) \<Rightarrow>
          if ec AND 0x0F = 0 then Some (None, w1)
          else (case read 0x04 w1 of (Inl e, w2) \<Rightarrow> Some (Some (I2c e), w2) | (Inr event, w2) \<Rightarrow> drain_loop read w2))"

definition drain_events ::
  "(u8 \<Rightarrow> 'w \<Rightarrow> ('e + u8) \<times> 'w) \<Rightarrow> (u8 \<Rightarrow> u8 \<Rightarrow> 'w \<Rightarrow> 'e option \<times> 'w) \<Rightarrow> 'w \<Rightarrow> ('e keypad_error option \<times> 'w) option" where
  "drain_events read write w =
     (case drain_loop read w of
        None \<Rightarrow> None
      | Some (Some e, w1) \<Rightarrow> Some (Some e, w1)
      | Some (None, w1) \<Rightarrow> (case write 0x02 0x01 w1 of (r, w2) \<Rightarrow> Some (map_option I2c r, w2)))"

subsection \<open>Entering an amount\<close>

record amount_entry =
  ae_digits :: "u8 list"
  ae_len :: nat
  ae_dot_pos :: "nat option"

definition amount_new :: amount_entry where
  "amount_new = \<lparr>ae_digits = replicate 12 0, ae_len = 0, ae_dot_pos = None\<rparr>"

definition amount_cents :: "amount_entry \<Rightarrow> u64" where
  "amount_cents ae =
     (let dp = (case ae_dot_pos ae of Some dp \<Rightarrow> dp | None \<Rightarrow> ae_len ae);
          whole = foldl (\<lambda>whole i. whole * 10 + ucast (ae_digits ae ! i)) 0 [0..<dp];
          frac_digits = (if ae_dot_pos ae \<noteq> None then ae_len ae - dp else 0);
          frac = foldl (\<lambda>frac i. frac * 10 + ucast (ae_digits ae ! (dp + i))) 0 [0..<frac_digits];
          frac = (if frac_digits = 0 then 0 else if frac_digits = 1 then frac * 10 else frac)
      in whole * 100 + frac)"

fun amount_process :: "key \<Rightarrow> amount_entry \<Rightarrow> u64 option \<times> amount_entry" where
  "amount_process (Digit d) ae =
     (if ae_len ae < 12
      then if (case ae_dot_pos ae of Some dp \<Rightarrow> 2 < ae_len ae - dp | None \<Rightarrow> False) then (None, ae)
           else (None, ae\<lparr>ae_digits := (ae_digits ae)[ae_len ae := d], ae_len := ae_len ae + 1\<rparr>)
      else (None, ae))"
| "amount_process Dot ae =
     (if ae_dot_pos ae = None \<and> ae_len ae < 11 then (None, ae\<lparr>ae_dot_pos := Some (ae_len ae)\<rparr>) else (None, ae))"
| "amount_process Clear ae = (None, ae\<lparr>ae_len := 0, ae_dot_pos := None\<rparr>)"
| "amount_process Ok ae =
     (if ae_len ae = 0 then (None, ae) else (Some (amount_cents ae), ae\<lparr>ae_len := 0, ae_dot_pos := None\<rparr>))"

text \<open>The display: what is written of the text into a buffer of \<open>cap\<close> bytes.\<close>

definition amount_display :: "nat \<Rightarrow> amount_entry \<Rightarrow> bytes" where
  "amount_display cap ae =
     (let put = (\<lambda>buf b. if length buf < cap then buf @ [b] else buf) in
      if ae_len ae = 0 then put [] 48
      else foldl (\<lambda>buf i. put (if ae_dot_pos ae = Some i then put buf 46 else buf) (48 + ae_digits ae ! i)) [] [0..<ae_len ae])"

subsection \<open>Waiting for the amount\<close>

datatype relay_event = KeyPress key | StartTransaction u32 | TagDetected | TagLost | PowerChanged | EnterConfig | Cancel

text \<open>The amount the loop breaks with, the entry afterwards and the events left; \<open>None\<close> while it waits.\<close>

primrec wait_amount :: "relay_config \<Rightarrow> relay_event list \<Rightarrow> amount_entry \<Rightarrow> u32 option \<times> amount_entry \<times> relay_event list" where
  "wait_amount c [] ae = (None, ae, [])"
| "wait_amount c (ev # evs) ae =
     (if rc_mode c = EventMode
      then (case ev of
          KeyPress k \<Rightarrow> if k = Ok then (Some (rc_fixed_amount c), ae, evs) else wait_amount c evs ae
        | StartTransaction a \<Rightarrow> (Some (rc_fixed_amount c), ae, evs)
        | _ \<Rightarrow> wait_amount c evs ae)
      else (case ev of
          KeyPress k \<Rightarrow> (case amount_process k ae of
              (Some cents, ae') \<Rightarrow> (Some (ucast cents), ae', evs)
            | (None, ae') \<Rightarrow> wait_amount c evs ae')
        | Cancel \<Rightarrow> wait_amount c evs (snd (amount_process Clear ae))
        | _ \<Rightarrow> wait_amount c evs ae))"

subsection \<open>The specification of the entry\<close>

text \<open>What is typed, as numbers: the digits before the dot, and those after it once there is one. \<open>limit\<close> is
  the number of decimals the entry stops at.\<close>

type_synonym typed = "nat list \<times> nat list option"

definition number :: "nat list \<Rightarrow> nat" where
  "number ds = foldl (\<lambda>n d. n * 10 + d) 0 ds"

definition typed_cents :: "typed \<Rightarrow> nat" where
  "typed_cents t = (case t of (w, f) \<Rightarrow> 100 * number w
     + (case f of None \<Rightarrow> 0 | Some [] \<Rightarrow> 0 | Some [d] \<Rightarrow> 10 * d | Some f \<Rightarrow> number f))"

fun typed_key :: "nat \<Rightarrow> key \<Rightarrow> typed \<Rightarrow> nat option \<times> typed" where
  "typed_key limit (Digit d) (w, None) = (None, if length w < 12 then w @ [unat d] else w, None)"
| "typed_key limit (Digit d) (w, Some f) =
     (None, w, Some (if length w + length f < 12 \<and> length f < limit then f @ [unat d] else f))"
| "typed_key limit Dot (w, None) = (None, w, if length w < 11 then Some [] else None)"
| "typed_key limit Dot (w, Some f) = (None, w, Some f)"
| "typed_key limit Clear t = (None, [], None)"
| "typed_key limit Ok (w, f) =
     (if w = [] \<and> (f = None \<or> f = Some []) then (None, w, f) else (Some (typed_cents (w, f)), [], None))"

definition typed_of :: "amount_entry \<Rightarrow> typed" where
  "typed_of ae = (let ds = map unat (take (ae_len ae) (ae_digits ae)) in
     case ae_dot_pos ae of None \<Rightarrow> (ds, None) | Some dp \<Rightarrow> (take dp ds, Some (drop dp ds)))"

definition entry_wf :: "amount_entry \<Rightarrow> bool" where
  "entry_wf ae \<longleftrightarrow> length (ae_digits ae) = 12 \<and> ae_len ae \<le> 12 \<and> (\<forall>d \<in> set (take (ae_len ae) (ae_digits ae)). d < 10)
     \<and> (case ae_dot_pos ae of None \<Rightarrow> True | Some dp \<Rightarrow> dp \<le> ae_len ae \<and> dp < 11 \<and> ae_len ae \<le> dp + 3)"

definition key_ok :: "key \<Rightarrow> bool" where
  "key_ok k = (case k of Digit d \<Rightarrow> d < 10 | _ \<Rightarrow> True)"

lemma matrix_keys_ok: "matrix_to_key r c = Some k \<Longrightarrow> key_ok k"
  by (auto simp: matrix_to_key_def key_ok_def split: if_splits)

lemma entry_new: "entry_wf amount_new" "typed_of amount_new = ([], None)"
  by (simp_all add: entry_wf_def amount_new_def typed_of_def)

lemma process_wf: "entry_wf ae \<Longrightarrow> key_ok k \<Longrightarrow> entry_wf (snd (amount_process k ae))"
  by (cases k) (auto simp: entry_wf_def key_ok_def take_Suc_conv_app_nth Let_def split: option.splits)

lemma number_append: "number (xs @ [d]) = number xs * 10 + d"
  by (simp add: number_def)

lemma number_bound: "\<forall>d \<in> set ds. d < 10 \<Longrightarrow> number ds < 10 ^ length ds"
  by (induction ds rule: rev_induct) (auto simp: number_append number_def)

lemma number_below: "\<forall>d \<in> set ds. d < 10 \<Longrightarrow> length ds \<le> n \<Longrightarrow> number ds < 10 ^ n"
  by (rule order_less_le_trans [OF number_bound power_increasing]) simp_all

lemma foldl_digits:
  "dp + n \<le> length ds \<Longrightarrow> foldl (\<lambda>acc i. acc * 10 + ucast (ds ! (dp + i))) 0 [0..<n]
     = (of_nat (number (map unat (take n (drop dp (ds :: u8 list))))) :: u64)"
proof (induction n)
  case (Suc n)
  then show ?case
    by (simp add: take_Suc_conv_app_nth number_append)
qed (simp add: number_def)

lemma digits_below:
  "\<forall>d \<in> set (take n ds). (d :: u8) < 10 \<Longrightarrow> \<forall>d \<in> set (map unat (take n ds)). d < 10"
  by (auto simp: word_less_nat_alt)

lemma typed_cents_frac: "typed_cents (w, Some f) = 100 * number w + (if f = [] then 0 else if length f = 1 then number f * 10 else number f)"
  by (auto simp: typed_cents_def number_def split: list.split)

lemma unat_u64: "n < 2 ^ 64 \<Longrightarrow> unat (of_nat n :: u64) = n"
  by (simp add: unsigned_of_nat take_bit_eq_mod)

lemma cents_value:
  assumes "entry_wf ae"
  shows "unat (amount_cents ae) = typed_cents (typed_of ae)"
proof -
  define ds where "ds = map unat (take (ae_len ae) (ae_digits ae))"
  define dp where "dp = (case ae_dot_pos ae of Some dp \<Rightarrow> dp | None \<Rightarrow> ae_len ae)"
  define n where "n = ae_len ae - dp"
  have wf: "length (ae_digits ae) = 12" "ae_len ae \<le> 12" "dp \<le> ae_len ae" "n \<le> 3" "\<forall>d \<in> set ds. d < 10" "length ds = ae_len ae"
    using assms digits_below by (auto simp: entry_wf_def dp_def n_def ds_def split: option.splits)
  have whole: "foldl (\<lambda>acc i. acc * 10 + ucast (ae_digits ae ! i)) 0 [0..<dp] = (of_nat (number (take dp ds)) :: u64)"
    using foldl_digits [of 0 dp "ae_digits ae"] wf(1-3) by (simp add: ds_def take_map min_def)
  have frac: "foldl (\<lambda>acc i. acc * 10 + ucast (ae_digits ae ! (dp + i))) 0 [0..<n] = (of_nat (number (drop dp ds)) :: u64)"
    using foldl_digits [of dp n "ae_digits ae"] wf(1-3) by (simp add: ds_def n_def drop_map drop_take)
  have len: "length (take dp ds) \<le> 12" "length (drop dp ds) = n" using wf by (simp_all add: n_def)
  have "\<forall>d \<in> set (take dp ds). d < 10" "\<forall>d \<in> set (drop dp ds). d < 10"
    using wf(5) by (auto dest: in_set_takeD in_set_dropD)
  then have "number (take dp ds) < 10 ^ 12" "number (drop dp ds) < 10 ^ 3"
    using len wf(4) number_below [of "take dp ds" 12] number_below [of "drop dp ds" 3] by (simp_all only: simp_thms)
  then have small: "100 * number (take dp ds) + 10 * number (drop dp ds) < 2 ^ 64" by simp
  show ?thesis
  proof (cases "ae_dot_pos ae")
    case None
    then have "dp = ae_len ae" by (simp add: dp_def)
    then have "amount_cents ae = of_nat (100 * number ds)"
      using whole None wf(6) by (simp add: amount_cents_def mult.commute)
    moreover have "100 * number ds < 2 ^ 64" using small \<open>dp = ae_len ae\<close> wf(6) by simp
    ultimately have "unat (amount_cents ae) = 100 * number ds" by (simp only: unat_u64)
    then show ?thesis using None by (simp add: typed_of_def ds_def typed_cents_def)
  next
    case (Some x)
    then have dp: "dp = x" by (simp add: dp_def)
    let ?v = "100 * number (take dp ds) + (if n = 0 then 0 else if n = 1 then number (drop dp ds) * 10 else number (drop dp ds))"
    have n: "ae_len ae - x = n" by (simp add: n_def dp)
    have "amount_cents ae = of_nat (number (take dp ds)) * 100
        + (if n = 0 then 0 else if n = 1 then of_nat (number (drop dp ds)) * 10 else of_nat (number (drop dp ds)))"
      unfolding frac [unfolded dp, symmetric] whole [unfolded dp, symmetric] dp
      by (simp only: amount_cents_def Let_def Some option.case n option.distinct not_False_eq_True if_True)
    then have "amount_cents ae = of_nat ?v" by simp
    moreover have "?v < 2 ^ 64" using small by simp
    ultimately have "unat (amount_cents ae) = ?v" by (simp only: unat_u64)
    moreover have "drop dp ds = [] \<longleftrightarrow> n = 0" using len(2) by auto
    ultimately show ?thesis using Some dp len(2) by (simp add: typed_of_def ds_def [symmetric] typed_cents_frac)
  qed
qed

lemma process_refines:
  assumes wf: "entry_wf ae" and k: "key_ok k"
  shows "typed_key 3 k (typed_of ae) = (map_option unat (fst (amount_process k ae)), typed_of (snd (amount_process k ae)))"
proof -
  have len: "length (ae_digits ae) = 12" "ae_len ae \<le> 12" using wf by (simp_all add: entry_wf_def)
  show ?thesis
  proof (cases k)
    case (Digit d)
    show ?thesis
    proof (cases "ae_dot_pos ae")
      case None
      then show ?thesis using len by (simp add: Digit typed_of_def Let_def take_Suc_conv_app_nth)
    next
      case (Some dp)
      then have "dp \<le> ae_len ae" "ae_len ae \<le> dp + 3" using wf by (simp_all add: entry_wf_def)
      then show ?thesis using len Some by (simp add: Digit typed_of_def Let_def take_Suc_conv_app_nth)
    qed
  next
    case Dot
    then show ?thesis using len by (cases "ae_dot_pos ae") (simp_all add: typed_of_def Let_def)
  next
    case Ok
    have "typed_of ae = (fst (typed_of ae), snd (typed_of ae))" by simp
    moreover have "ae_len ae = 0 \<longleftrightarrow> fst (typed_of ae) = [] \<and> snd (typed_of ae) \<in> {None, Some []}"
      using wf len by (cases "ae_dot_pos ae") (auto simp: typed_of_def Let_def entry_wf_def)
    moreover have "typed_of (ae\<lparr>ae_len := 0, ae_dot_pos := None\<rparr>) = ([], None)" by (simp add: typed_of_def)
    ultimately show ?thesis
      using cents_value [OF wf] by (cases "typed_of ae"; cases "ae_len ae = 0") (auto simp: Ok)
  next
    case Clear
    then show ?thesis by (simp add: typed_of_def Let_def)
  qed
qed

subsection \<open>Whole entries\<close>

primrec amount_run :: "key list \<Rightarrow> amount_entry \<Rightarrow> u64 option list \<times> amount_entry" where
  "amount_run [] ae = ([], ae)"
| "amount_run (k # ks) ae = (case amount_process k ae of (out, ae1) \<Rightarrow>
     (case amount_run ks ae1 of (outs, ae2) \<Rightarrow> (out # outs, ae2)))"

primrec typed_run :: "nat \<Rightarrow> key list \<Rightarrow> typed \<Rightarrow> nat option list \<times> typed" where
  "typed_run limit [] t = ([], t)"
| "typed_run limit (k # ks) t = (case typed_key limit k t of (out, t1) \<Rightarrow>
     (case typed_run limit ks t1 of (outs, t2) \<Rightarrow> (out # outs, t2)))"

lemma run_refines:
  assumes "entry_wf ae" "list_all key_ok ks"
  shows "entry_wf (snd (amount_run ks ae)) \<and>
    typed_run 3 ks (typed_of ae) = (map (map_option unat) (fst (amount_run ks ae)), typed_of (snd (amount_run ks ae)))"
  using assms
proof (induction ks arbitrary: ae)
  case (Cons k ks)
  obtain out ae1 where p: "amount_process k ae = (out, ae1)" by fastforce
  have "entry_wf ae1" "typed_key 3 k (typed_of ae) = (map_option unat out, typed_of ae1)"
    using process_wf [of ae k] process_refines [of ae k] Cons.prems by (simp_all add: p)
  with Cons.IH [of ae1] Cons.prems show ?case by (simp add: p case_prod_beta)
qed simp



lemma typed_digits:
  "length w + length ds \<le> 12 \<Longrightarrow> snd (typed_run l (map Digit ds) (w, None)) = (w @ map unat ds, None)"
  by (induction ds arbitrary: w) (simp_all add: case_prod_beta)

lemma typed_run_append: "snd (typed_run l (ks @ ks') t) = snd (typed_run l ks' (snd (typed_run l ks t)))"
  by (induction ks arbitrary: t) (simp_all add: case_prod_beta)

lemma wait_keys:
  assumes "rc_mode c \<noteq> EventMode" "Ok \<notin> set ks"
  shows "wait_amount c (map KeyPress ks @ evs) ae = wait_amount c evs (snd (amount_run ks ae))"
  using assms(2)
proof (induction ks arbitrary: ae)
  case (Cons k ks)
  then have "fst (amount_process k ae) = None" by (cases k) (simp_all split: option.split)
  then obtain ae1 where "amount_process k ae = (None, ae1)" by (cases "amount_process k ae") simp
  with Cons assms(1) show ?case by (simp add: case_prod_beta)
qed simp

lemma wait_ok:
  assumes "rc_mode c \<noteq> EventMode" "list_all key_ok ks" "Ok \<notin> set ks" "fst (typed_of (snd (amount_run ks amount_new))) \<noteq> []"
  shows "fst (wait_amount c (map KeyPress ks @ KeyPress Ok # evs) amount_new)
    = Some (of_nat (typed_cents (snd (typed_run 3 ks ([], None)))))"
proof -
  let ?ae = "snd (amount_run ks amount_new)"
  have wf: "entry_wf ?ae" and t: "snd (typed_run 3 ks ([], None)) = typed_of ?ae"
    using run_refines [OF entry_new(1) assms(2)] by (simp_all add: entry_new)
  have "ae_len ?ae \<noteq> 0" using assms(4) by (auto simp: typed_of_def Let_def split: option.splits)
  moreover have "ucast (amount_cents ?ae) = (of_nat (typed_cents (typed_of ?ae)) :: u32)"
    by (simp only: cents_value [OF wf, symmetric] of_nat_unat)
  ultimately show ?thesis using assms(1) unfolding wait_keys [OF assms(1,3)] t by simp
qed

text \<open>a third decimal is not dropped: it makes the fraction count ten times. 12.505 is charged as 17.05.\<close>

theorem third_decimal_is_charged:
  assumes "rc_mode c \<noteq> EventMode" "w \<noteq> []" "length w \<le> 9" "\<forall>d \<in> set (w @ [a, b, d3]). d < 10"
  shows "fst (wait_amount c (map KeyPress (map Digit w @ [Dot, Digit a, Digit b, Digit d3]) @ KeyPress Ok # evs) amount_new)
    = Some (of_nat (100 * number (map unat w) + (100 * unat a + 10 * unat b + unat d3)))"
proof -
  let ?ks = "map Digit w @ [Dot, Digit a, Digit b, Digit d3]"
  have ks: "list_all key_ok ?ks" "Ok \<notin> set ?ks" using assms(4) by (auto simp: list_all_iff key_ok_def)
  have t: "snd (typed_run 3 ?ks ([], None)) = (map unat w, Some [unat a, unat b, unat d3])"
    using assms(3) by (simp add: typed_run_append typed_digits)
  have "typed_of (snd (amount_run ?ks amount_new)) = (map unat w, Some [unat a, unat b, unat d3])"
    using run_refines [OF entry_new(1) ks(1)] t by (simp add: entry_new)
  then show ?thesis
    using wait_ok [OF assms(1) ks, of evs] assms(2) t by (simp add: typed_cents_def number_def)
qed

lemma third_decimal_is_charged_witness:
  "fst (wait_amount config_default (map KeyPress [Digit 1, Digit 2, Dot, Digit 5, Digit 0, Digit 5] @ [KeyPress Ok]) amount_new) = Some 1705"
  using third_decimal_is_charged [of config_default "[1, 2]" 5 0 5 "[]"] by (simp add: config_default_def number_def)

text \<open>the amount charged is the amount typed only below 2^32 cents; the conversion drops the rest. Typing
  42949673.96 charges one unit.\<close>

theorem charge_is_typed_amount:
  assumes "rc_mode c \<noteq> EventMode" "w \<noteq> []" "length w \<le> 10" "\<forall>d \<in> set (w @ [a, b]). d < 10"
  shows "map_option unat (fst (wait_amount c (map KeyPress (map Digit w @ [Dot, Digit a, Digit b]) @ KeyPress Ok # evs) amount_new))
    = Some ((100 * number (map unat w) + 10 * unat a + unat b) mod 2 ^ 32)"
proof -
  let ?ks = "map Digit w @ [Dot, Digit a, Digit b]"
  have ks: "list_all key_ok ?ks" "Ok \<notin> set ?ks" using assms(4) by (auto simp: list_all_iff key_ok_def)
  have t: "snd (typed_run 3 ?ks ([], None)) = (map unat w, Some [unat a, unat b])"
    using assms(3) by (simp add: typed_run_append typed_digits)
  have "typed_of (snd (amount_run ?ks amount_new)) = (map unat w, Some [unat a, unat b])"
    using run_refines [OF entry_new(1) ks(1)] t by (simp add: entry_new)
  moreover have "typed_cents (map unat w, Some [unat a, unat b]) = 100 * number (map unat w) + 10 * unat a + unat b"
    by (simp add: typed_cents_def number_def)
  ultimately have "fst (wait_amount c (map KeyPress ?ks @ KeyPress Ok # evs) amount_new)
      = Some (of_nat (100 * number (map unat w) + 10 * unat a + unat b))"
    using wait_ok [OF assms(1) ks, of evs] assms(2) unfolding t by simp
  then show ?thesis by (simp only: option.map unsigned_of_nat take_bit_eq_mod len_num1 len_num0 len_bit0) simp
qed

lemma charge_is_typed_amount_witness:
  "map_option unat (fst (wait_amount config_default
      (map KeyPress [Digit 4, Digit 2, Digit 9, Digit 4, Digit 9, Digit 6, Digit 7, Digit 3, Dot, Digit 9, Digit 6] @ [KeyPress Ok]) amount_new)) = Some 100"
  using charge_is_typed_amount [of config_default "[4, 2, 9, 4, 9, 6, 7, 3]" 9 6 "[]"] by (simp add: config_default_def number_def)

subsection \<open>Draining the controller\<close>

lemma event_count_nonzero:
  assumes "0 < n" "n \<le> 10"
  shows "(of_nat n :: u8) AND 0x0F \<noteq> 0"
proof -
  have "n \<in> {1, 2, 3, 4, 5, 6, 7, 8, 9, 10}" using assms unfolding insert_iff empty_iff by arith
  then show ?thesis by auto
qed

text \<open>C25: draining ends. For a controller that reports its queue length, at most the ten events it can hold, and
  hands out one event per read, the loop returns with the queue empty.\<close>

theorem drain_terminates:
  assumes count: "\<And>w. read 0x03 w = (Inr (of_nat (pending w)), w)" and depth: "\<And>w. pending w \<le> 10"
    and pop: "\<And>w. 0 < pending w \<Longrightarrow> \<exists>event. \<exists>w'. read 0x04 w = (Inr event, w') \<and> pending w' = pending w - 1"
  shows "\<exists>w'. pending w' = 0 \<and> drain_events read write w = Some (map_prod (map_option I2c) id (write 0x02 0x01 w'))"
proof -
  have "\<exists>w'. pending w' = 0 \<and> drain_loop read w = Some (None, w')"
  proof (induction "pending w" arbitrary: w)
    case 0
    then show ?case by (subst drain_loop.simps) (simp add: count)
  next
    case (Suc n)
    from Suc.hyps(2) have "0 < pending w" by simp
    with pop obtain event w1 where r: "read 0x04 w = (Inr event, w1)" "pending w1 = n"
      using Suc.hyps(2) by (metis diff_Suc_1)
    from Suc.hyps(1) [of w1] r(2) obtain w' where "pending w' = 0" "drain_loop read w1 = Some (None, w')" by auto
    then show ?case
      using event_count_nonzero [OF \<open>0 < pending w\<close> depth] by (subst drain_loop.simps) (simp add: count r(1))
  qed
  then show ?thesis by (auto simp: drain_events_def split: prod.split)
qed

definition chip_read :: "u8 \<Rightarrow> nat \<Rightarrow> (unit + u8) \<times> nat" where
  "chip_read reg n = (if reg = 3 then (Inr (of_nat (min n 10)), n) else (Inr 0x81, min n 10 - 1))"

lemma drain_terminates_witness:
  "\<exists>w'. min w' 10 = (0 :: nat) \<and> drain_events chip_read (\<lambda>_ _ n. (None, n)) 4 = Some (None, w')"
  using drain_terminates [of chip_read "\<lambda>n. min n 10" "\<lambda>_ _ n. (None, n)" 4] by (simp add: chip_read_def)

end
