(* ===== verification/ServiceAuth.thy ===== *)
theory ServiceAuth
  imports GroupSignature Registrar
begin

section \<open>Service authentication (\<open>src/service_auth/src/lib.rs\<close>)\<close>

text \<open>
  A service registers with the registrar for a network credential, signs its requests with it, and a
  receiving service checks the header. The message of a signature is the hash of the request followed
  by the time; it does not contain the group the caller names. The functions use the group signatures
  of \<open>v1.rs\<close> directly. The clock is an argument in nanoseconds, \<open>None\<close> before 1970; a header is absent
  (\<open>None\<close>), not base64 (\<open>Some None\<close>), or bytes, which the parameter \<open>dec\<close> (prost) decodes.
\<close>

datatype service_group =
    ServiceUnknown | ServiceClerk | ServiceMint | ServiceTokenmap | ServiceValidate | ServiceReceiver | ServiceBridge

primrec service_group_to_i32 :: "service_group \<Rightarrow> i32" where
  "service_group_to_i32 ServiceUnknown = 0"
| "service_group_to_i32 ServiceClerk = 240"
| "service_group_to_i32 ServiceMint = 241"
| "service_group_to_i32 ServiceTokenmap = 242"
| "service_group_to_i32 ServiceValidate = 243"
| "service_group_to_i32 ServiceReceiver = 244"
| "service_group_to_i32 ServiceBridge = 245"

definition service_group_from_i32 :: "i32 \<Rightarrow> service_group option" where
  "service_group_from_i32 n =
     List.find (\<lambda>g. service_group_to_i32 g = n)
       [ServiceUnknown, ServiceClerk, ServiceMint, ServiceTokenmap, ServiceValidate, ServiceReceiver, ServiceBridge]"

primrec service_group_as_str_name :: "service_group \<Rightarrow> string" where
  "service_group_as_str_name ServiceUnknown = ''SERVICE_UNKNOWN''"
| "service_group_as_str_name ServiceClerk = ''SERVICE_CLERK''"
| "service_group_as_str_name ServiceMint = ''SERVICE_MINT''"
| "service_group_as_str_name ServiceTokenmap = ''SERVICE_TOKENMAP''"
| "service_group_as_str_name ServiceValidate = ''SERVICE_VALIDATE''"
| "service_group_as_str_name ServiceReceiver = ''SERVICE_RECEIVER''"
| "service_group_as_str_name ServiceBridge = ''SERVICE_BRIDGE''"

record service_auth_metadata =
  sa_signature :: bytes
  sa_timestamp_nanos :: u64
  sa_caller_group :: i32
  sa_credential :: bytes

record service_identity =
  si_group :: service_group
  si_secret_key :: bytes
  si_public_key :: bytes
  si_credential :: bytes
  si_credential_signature :: bytes
  si_group_public_key :: bytes

datatype status_code = Unauthenticated | InvalidArgument | PermissionDenied

text \<open>Failures: a status for the caller, an error text of the signing side, or a panic.\<close>

datatype service_error = Status status_code | Text string | Service_Panic

type_synonym 'a answer = "service_error + 'a"

definition call_v1 :: "'a result \<Rightarrow> 'a answer" where
  "call_v1 r = (case r of Inl f \<Rightarrow> Inl Service_Panic | Inr x \<Rightarrow> Inr x)"

subsection \<open>The persisted state and registration\<close>

record persisted_state =
  ps_hw_id :: bytes
  ps_nonce :: bytes

definition state_path :: "string \<Rightarrow> service_group \<Rightarrow> string" where
  "state_path state_dir grp = state_dir @ ''/service_'' @ service_group_as_str_name grp @ ''.json''"

text \<open>\<open>parse\<close> and \<open>print\<close> are serde's; \<open>fresh\<close> is the pair of random strings of 32 bytes.\<close>

definition load_or_create_state ::
  "(bytes \<Rightarrow> persisted_state option) \<Rightarrow> (persisted_state \<Rightarrow> bytes) \<Rightarrow> (string \<Rightarrow> bool) \<Rightarrow> bytes \<times> bytes
    \<Rightarrow> string \<Rightarrow> service_group \<Rightarrow> files \<Rightarrow> persisted_state answer \<times> files" where
  "load_or_create_state parse print writable fresh state_dir grp fs =
     (let path = state_path state_dir grp in
      case fs path of
        Some data \<Rightarrow> ((case parse data of None \<Rightarrow> Inl (Text ''json'') | Some st \<Rightarrow> Inr st), fs)
      | None \<Rightarrow>
          let st = \<lparr>ps_hw_id = fst fresh, ps_nonce = snd fresh\<rparr>
          in if writable path then (Inr st, fs(path \<mapsto> print st)) else (Inl (Text ''io''), fs))"

definition service_register_request :: "service_group \<Rightarrow> bytes \<Rightarrow> bytes \<Rightarrow> register_request" where
  "service_register_request grp hw_id public_key =
     \<lparr>rr_version = 0,
      rr_hwid = Some \<lparr>hd_vendor_id = 0, hd_software_id = 0, hd_hardware_id = scast (service_group_to_i32 grp),
                      hd_hw_id = hw_id, hd_security = 0\<rparr>,
      rr_hwid_signature = Some \<lparr>sg_algorithm = 0, sg_signature = [], sg_public_key = []\<rparr>,
      rr_network_public_key = Some public_key, rr_transfer_public_key = Some public_key,
      rr_split_key_proof = None, rr_card_attestation = None\<rparr>"

text \<open>\<open>call\<close> is the registrar: the network credential of its reply, which a message may lack.\<close>

definition register_with_state_dir ::
  "('f::field, 'g::ab_group_add, 'h, 't) curve \<Rightarrow> nat \<Rightarrow> (register_request \<Rightarrow> issued_credential option option)
    \<Rightarrow> service_group \<Rightarrow> persisted_state answer \<times> files \<Rightarrow> service_identity answer \<times> files" where
  "register_with_state_dir cv draw call grp loaded =
     (case loaded of (Inl err, fs) \<Rightarrow> (Inl err, fs)
      | (Inr st, fs) \<Rightarrow>
         (case generate_wallet_keypair cv draw (ps_nonce st) of
            None \<Rightarrow> (Inl (Text ''failed to generate service keypair''), fs)
          | Some (secret_key, public_key) \<Rightarrow>
              (case call (service_register_request grp (ps_hw_id st) public_key) of
                 None \<Rightarrow> (Inl (Text ''status''), fs)
               | Some None \<Rightarrow> (Inl (Text ''no network credential in reply''), fs)
               | Some (Some nac) \<Rightarrow>
                   (Inr \<lparr>si_group = grp, si_secret_key = secret_key, si_public_key = public_key,
                         si_credential = ic_credential nac, si_credential_signature = ic_credential_signature nac,
                         si_group_public_key = ic_group_public_key nac\<rparr>, fs))))"

subsection \<open>Signing and verifying a request\<close>

definition signed_message :: "(bytes \<Rightarrow> bytes) \<Rightarrow> bytes \<Rightarrow> u64 \<Rightarrow> bytes" where
  "signed_message sha request_bytes timestamp = sha request_bytes @ u64_to_le_bytes timestamp"

definition sign_request ::
  "('f::field, 'g::ab_group_add, 'h, 't) curve \<Rightarrow> (bytes \<Rightarrow> bytes) \<Rightarrow> nat \<Rightarrow> nat option \<Rightarrow> service_identity \<Rightarrow> bytes
    \<Rightarrow> service_auth_metadata answer" where
  "sign_request cv sha draw clock si request_bytes =
     (case clock of
        None \<Rightarrow> Inl (Text ''time error'')
      | Some nanos \<Rightarrow>
          let timestamp = of_nat nanos in
          and_then (call_v1 (sign cv draw (signed_message sha request_bytes timestamp) (si_credential si) (si_secret_key si) None True))
            (\<lambda>signature. case signature of
               None \<Rightarrow> Inl (Text ''failed to sign request'')
             | Some s \<Rightarrow> Inr \<lparr>sa_signature = s, sa_timestamp_nanos = timestamp,
                              sa_caller_group = service_group_to_i32 (si_group si), sa_credential = si_credential si\<rparr>))"

definition verify_service_auth ::
  "('f::field, 'g::ab_group_add, 'h::ab_group_add, 't) curve \<Rightarrow> (bytes \<Rightarrow> bytes) \<Rightarrow> bool
    \<Rightarrow> (bytes \<Rightarrow> service_auth_metadata option) \<Rightarrow> nat option \<Rightarrow> bytes option option \<Rightarrow> bytes \<Rightarrow> bytes
    \<Rightarrow> service_group answer" where
  "verify_service_auth cv sha checked dec clock header request_bytes nac_group_public_key =
     (case header of
        None \<Rightarrow> Inl (Status Unauthenticated)
      | Some None \<Rightarrow> Inl (Status InvalidArgument)
      | Some (Some auth_bytes) \<Rightarrow>
          (case dec auth_bytes of
             None \<Rightarrow> Inl (Status InvalidArgument)
           | Some auth \<Rightarrow>
               let now = (of_nat (case clock of None \<Rightarrow> 0 | Some nanos \<Rightarrow> nanos) :: u64);
                   age = (if sa_timestamp_nanos auth \<le> now then now - sa_timestamp_nanos auth else 0)
               in if 30 * 1000000000 < age then Inl (Status Unauthenticated)
               else and_then (call_v1 (u64_add checked now 5000000000)) (\<lambda>limit.
                 if limit < sa_timestamp_nanos auth then Inl (Status Unauthenticated)
                 else and_then (call_v1 (verify cv nac_group_public_key None None (sa_signature auth)
                          (signed_message sha request_bytes (sa_timestamp_nanos auth)))) (\<lambda>valid.
                   if \<not> valid then Inl (Status Unauthenticated)
                   else
                     let caller_group = (case service_group_from_i32 (sa_caller_group auth) of None \<Rightarrow> ServiceUnknown | Some g \<Rightarrow> g)
                     in if caller_group = ServiceUnknown then Inl (Status Unauthenticated) else Inr caller_group))))"

definition authorize_caller :: "service_group \<Rightarrow> service_group list \<Rightarrow> unit answer" where
  "authorize_caller caller allowed = (if caller \<in> set allowed then Inr () else Inl (Status PermissionDenied))"

subsection \<open>What is accepted\<close>

lemma service_group_from_to [simp]: "service_group_from_i32 (service_group_to_i32 g) = Some g"
  by (cases g) (simp_all add: service_group_from_i32_def)

lemma call_v1_simps [simp]: "call_v1 (Inr x) = Inr x" "call_v1 (Inl f) = Inl Service_Panic"
  by (simp_all add: call_v1_def)

lemma call_v1_Inr_iff [simp]: "call_v1 r = Inr x \<longleftrightarrow> r = Inr x"
  by (cases r) simp_all

text \<open>The window of a timestamp: at most 30 s old, at most 5 s ahead, in nanoseconds.\<close>

definition fresh_timestamp :: "u64 \<Rightarrow> nat \<Rightarrow> bool" where
  "fresh_timestamp timestamp now \<longleftrightarrow> now \<le> unat timestamp + 30000000000 \<and> unat timestamp \<le> now + 5000000000"

lemma window_words:
  assumes "now + 5000000000 < 2 ^ 64"
  shows "30 * 1000000000 < (if t \<le> (of_nat now :: u64) then of_nat now - t else 0) \<longleftrightarrow> unat t + 30000000000 < now"
    and "u64_add checked (of_nat now) 5000000000 = Ok (of_nat now + 5000000000)"
    and "of_nat now + 5000000000 < t \<longleftrightarrow> now + 5000000000 < unat t"
proof -
  have n: "unat (of_nat now :: u64) = now" using assms by (simp add: unat_of_nat)
  have s: "unat (of_nat now + 5000000000 :: u64) = now + 5000000000"
    using assms by (simp add: unat_word_ariths n)
  show "30 * 1000000000 < (if t \<le> (of_nat now :: u64) then of_nat now - t else 0) \<longleftrightarrow> unat t + 30000000000 < now"
    by (auto simp: word_less_nat_alt word_le_nat_alt unat_sub n)
  show "u64_add checked (of_nat now) 5000000000 = Ok (of_nat now + 5000000000)"
    using assms by (simp add: u64_add_def n)
  show "of_nat now + 5000000000 < t \<longleftrightarrow> now + 5000000000 < unat t"
    by (simp add: word_less_nat_alt s)
qed

text \<open>C27: a header is accepted for a caller group exactly when it decodes, its time is at most 30 seconds old and
  at most 5 seconds ahead, its signature verifies for the network group over the request and the time, and
  the group it names is a known one. Nothing relates that group to the signature or the key.\<close>

theorem service_auth_accepts_iff:
  assumes "now + 5000000000 < 2 ^ 64"
  shows "verify_service_auth cv sha checked dec (Some now) header request_bytes gpk = Inr g \<longleftrightarrow>
    g \<noteq> ServiceUnknown \<and> (\<exists>bs auth. header = Some (Some bs) \<and> dec bs = Some auth
      \<and> fresh_timestamp (sa_timestamp_nanos auth) now
      \<and> verify cv gpk None None (sa_signature auth) (signed_message sha request_bytes (sa_timestamp_nanos auth)) = Ok True
      \<and> service_group_from_i32 (sa_caller_group auth) = Some g)"
  using window_words [OF assms]
  by (auto simp: verify_service_auth_def Let_def and_then_Inr_iff fresh_timestamp_def split: option.splits if_splits)

lemma service_auth_accepts_iff_witness:
  "verify_service_auth sample_curve (\<lambda>b. b) True (\<lambda>_. None) (Some 7) (Some (Some [1])) [2] [3] \<noteq> Inr ServiceMint"
  using service_auth_accepts_iff [of 7 sample_curve "\<lambda>b. b" True "\<lambda>_. None" "Some (Some [1])" "[2]" "[3]" ServiceMint] by simp

lemma member_signs_unlinkably:
  assumes ok: "curve_ok cv" and member: "member cv x y cred sk" and msg: "msg \<noteq> []" and l: "cv_random cv draw 0 \<noteq> 0"
  shows "\<exists>sig. sign cv draw msg cred sk None True = Ok (Some sig) \<and> verify cv (group_key cv x y) None None sig msg = Ok True"
proof -
  obtain k pa pb pc pd where sk: "sk = cv_to_be cv k" and cred: "cred = serialize_credential cv pa pb pc pd"
    and cert: "certifies cv x y k (pa, pb, pc, pd)" and proper: "proper (pa, pb, pc, pd)"
    using member by (auto simp: member_def)
  obtain sig where signed: "sign cv draw msg (serialize_credential cv pa pb pc pd) sk None True = Ok (Some sig)"
    using sign_returns [OF ok, of sk k msg None draw pa pb pc pd True] msg by (auto simp: sk deserialize_exact [OF ok])
  from sign_Some [OF this ok] obtain a b c d r n sc
    where pts: "(a, b, c, d) = scale_credential cv (cv_random cv draw 0) (pa, pb, pc, pd)"
    and sc: "sc = signature_challenge cv (cv_mul1 cv b r) b d msg (nym_of cv r k None) n"
    and sig: "sig = assemble_signature cv sc (r + sc * k) (a, b, c, d) n (map_option (\<lambda>bs. cv_mul1 cv (cv_hash_g1 cv bs) k) None)"
    by (auto simp: sk deserialize_exact [OF ok])
  have "certifies cv x y k (a, b, c, d)" "proper (a, b, c, d)"
    using certifies_scale [OF ok cert, of "cv_random cv draw 0"] proper l by (simp_all add: pts)
  from verify_signed [OF ok this msg sc sig] signed show ?thesis by (auto simp: cred)
qed

lemma signed_message_ne: "signed_message sha rq t \<noteq> []"
  by (simp add: signed_message_def u64_to_le_bytes_def)

text \<open>whoever holds a credential of the network group, a wallet as well as a service, signs requests as any
  service it likes to name: the signing succeeds, and the request is accepted under that name for the 30
  seconds after and the 5 seconds before its time, however often it is sent.\<close>

theorem any_member_calls_as_any_service:
  assumes ok: "curve_ok cv" and member: "member cv x y (si_credential si) (si_secret_key si)" and l: "cv_random cv draw 0 \<noteq> 0"
    and named: "si_group si \<noteq> ServiceUnknown"
  shows "\<exists>auth. sign_request cv sha draw (Some sent) si request_bytes = Inr auth
    \<and> (\<forall>dec bs now checked. dec bs = Some auth \<longrightarrow> now + 5000000000 < 2 ^ 64 \<longrightarrow> fresh_timestamp (of_nat sent) now \<longrightarrow>
        verify_service_auth cv sha checked dec (Some now) (Some (Some bs)) request_bytes (group_key cv x y) = Inr (si_group si))"
proof -
  obtain sig where sig: "sign cv draw (signed_message sha request_bytes (of_nat sent)) (si_credential si) (si_secret_key si) None True = Ok (Some sig)"
    and ver: "verify cv (group_key cv x y) None None sig (signed_message sha request_bytes (of_nat sent)) = Ok True"
    using member_signs_unlinkably [OF ok member signed_message_ne l] by blast
  define auth where "auth = \<lparr>sa_signature = sig, sa_timestamp_nanos = of_nat sent,
    sa_caller_group = service_group_to_i32 (si_group si), sa_credential = si_credential si\<rparr>"
  have accepts: "verify_service_auth cv sha checked dec (Some now) (Some (Some bs)) request_bytes (group_key cv x y) = Inr (si_group si)"
    if "dec bs = Some auth" "now + 5000000000 < 2 ^ 64" "fresh_timestamp (of_nat sent) now" for dec bs now checked
    unfolding verify_service_auth_def
    using window_words [OF that(2)] that(3) ver named
    by (simp add: that(1) Let_def fresh_timestamp_def not_less) (simp add: auth_def)
  have "sign_request cv sha draw (Some sent) si request_bytes = Inr auth"
    by (simp add: sign_request_def Let_def sig auth_def)
  with accepts show ?thesis by (intro exI [of _ auth]) blast
qed

definition sample_identity :: service_identity where
  "sample_identity = \<lparr>si_group = ServiceMint, si_secret_key = cv_to_be sample_curve One3, si_public_key = [],
     si_credential = serialize_credential sample_curve One3 One3 Two3 One3, si_credential_signature = [], si_group_public_key = []\<rparr>"

lemma any_member_calls_as_any_service_witness:
  "\<exists>auth. sign_request sample_curve (\<lambda>b. b) 0 (Some 10) sample_identity [1] = Inr auth
    \<and> verify_service_auth sample_curve (\<lambda>b. b) True (\<lambda>_. Some auth) (Some 12) (Some (Some [])) [1] (group_key sample_curve One3 One3)
       = Inr ServiceMint"
proof -
  have "member sample_curve One3 One3 (si_credential sample_identity) (si_secret_key sample_identity)"
    using circ_member by (simp add: sample_identity_def circ_cred_def)
  moreover have "cv_random sample_curve 0 0 \<noteq> 0" "si_group sample_identity \<noteq> ServiceUnknown"
    by (simp_all add: sample_curve_def zero_gf3_def sample_identity_def)
  ultimately obtain auth where a: "sign_request sample_curve (\<lambda>b. b) 0 (Some 10) sample_identity [1] = Inr auth"
    and acc: "\<And>dec bs now checked. dec bs = Some auth \<Longrightarrow> now + 5000000000 < 2 ^ 64 \<Longrightarrow> fresh_timestamp (of_nat 10) now \<Longrightarrow>
      verify_service_auth sample_curve (\<lambda>b. b) checked dec (Some now) (Some (Some bs)) [1] (group_key sample_curve One3 One3)
        = Inr (si_group sample_identity)"
    using any_member_calls_as_any_service [OF sample_curve_ok, of One3 One3 sample_identity 0 "\<lambda>b. b" 10 "[1]"] by blast
  from acc [of "\<lambda>_. Some auth" "[]" 12 True] a show ?thesis by (simp add: fresh_timestamp_def sample_identity_def)
qed

subsection \<open>Registration\<close>

lemma state_is_stable:
  assumes "load_or_create_state parse print writable fresh dir grp fs = (Inr st, fs')" "\<And>st. parse (print st) = Some st"
  shows "load_or_create_state parse print writable fresh' dir grp fs' = (Inr st, fs')"
  using assms by (auto simp: load_or_create_state_def Let_def split: option.splits if_splits)

text \<open>A credential is issued for a public key with a proof only if the proof's challenge is the hash under the
  issuer's nonce.\<close>

lemma issued_challenge:
  assumes ok: "curve_ok cv" and pk: "pk = cv_compress1 cv q @ cv_to_be cv c @ cv_to_be cv s @ cv_to_be cv n"
    and issued: "issue_credential cv draw pk isk nonce = Ok (Some r)"
  shows "c = schnorr_hash_member cv (cv_mul1 cv (cv_hash_g1 cv nonce) s - cv_mul1 cv q c) (cv_hash_g1 cv nonce) q nonce"
proof -
  note enc = curve_encodings [OF ok] and dec = deserialize_exact [OF ok]
  have "at_offset (deserialize_g1 cv) 0 48 pk = Ok (Some q)"
      "at_offset (deserialize_scalar cv) 48 32 pk = Ok (Some c)" "at_offset (deserialize_scalar cv) 80 32 pk = Ok (Some s)"
    using at_offset_front [of "cv_compress1 cv q" 48 "deserialize_g1 cv"]
      at_offset_append [of "cv_compress1 cv q" 48 "cv_to_be cv c" 32 "deserialize_scalar cv"]
      at_offset_append [of "cv_compress1 cv q @ cv_to_be cv c" 80 "cv_to_be cv s" 32 "deserialize_scalar cv"]
    by (simp_all add: pk enc dec)
  with issued show ?thesis
    by (auto simp: issue_credential_def Let_def length_defs split: if_splits)
qed

lemma issue_with_v1:
  "v1_issue_credential (with_v1 cv e) draw pk isk nonce = Some r \<longleftrightarrow> issue_credential cv draw pk isk nonce = Ok (Some r)"
  by (simp add: with_v1_def result_or_def split: sum.split)

text \<open>The registrar as the service calls it: the network credential of the reply.\<close>

definition registrar_call ::
  "('f::field, 'g::ab_group_add, 'h::ab_group_add, 't) curve \<Rightarrow> env \<Rightarrow> x509 \<Rightarrow> nat \<Rightarrow> registrar \<Rightarrow> register_request
    \<Rightarrow> issued_credential option option" where
  "registrar_call cv e x draw rg rq =
     (case register_call_impl (with_v1 cv e) x draw rg rq of Inl f \<Rightarrow> None | Inr (nac, ttc) \<Rightarrow> Some (Some nac))"

text \<open>a service that registers gets a credential only by a collision of the scheme's hash. The service proves
  its key under its own random nonce and offers the key twice; the registrar checks the proof under the
  transfer key and under the hardware id. So the challenge under the nonce, of 32 bytes, must equal the
  one recomputed with the 144 bytes of the public key, and the one recomputed with the hardware id.\<close>

theorem service_registration_collides:
  assumes ok: "curve_ok cv"
    and reg: "register_with_state_dir cv draw (registrar_call cv e x draw' rg) grp (Inr st, fs) = (Inr si, fs')"
  shows "\<exists>k r. let b = cv_hash_g1 cv (ps_nonce st); q = cv_mul1 cv b k;
      c = schnorr_hash_member cv (cv_mul1 cv b r) b q (ps_nonce st); s = r + c * k;
      recomputed = (\<lambda>nonce. schnorr_hash_member cv (cv_mul1 cv (cv_hash_g1 cv nonce) s - cv_mul1 cv q c) (cv_hash_g1 cv nonce) q nonce)
    in si_secret_key si = cv_to_be cv k \<and> length (si_public_key si) = 144
       \<and> recomputed (si_public_key si) = c \<and> recomputed (ps_hw_id st) = c"
proof -
  obtain sk pk where keys: "generate_wallet_keypair cv draw (ps_nonce st) = Some (sk, pk)"
    and si: "si_secret_key si = sk" "si_public_key si = pk"
    and called: "registrar_call cv e x draw' rg (service_register_request grp (ps_hw_id st) pk) \<noteq> None"
    using reg by (auto simp: register_with_state_dir_def split: option.splits prod.splits)
  obtain k r n where k: "sk = cv_to_be cv k" and pk: "pk = cv_compress1 cv (cv_mul1 cv (cv_hash_g1 cv (ps_nonce st)) k)
      @ cv_to_be cv (schnorr_hash_member cv (cv_mul1 cv (cv_hash_g1 cv (ps_nonce st)) r) (cv_hash_g1 cv (ps_nonce st))
          (cv_mul1 cv (cv_hash_g1 cv (ps_nonce st)) k) (ps_nonce st))
      @ cv_to_be cv (r + schnorr_hash_member cv (cv_mul1 cv (cv_hash_g1 cv (ps_nonce st)) r) (cv_hash_g1 cv (ps_nonce st))
          (cv_mul1 cv (cv_hash_g1 cv (ps_nonce st)) k) (ps_nonce st) * k) @ cv_to_be cv n"
    using wallet_keypair_proves [OF keys] by (auto simp: proves_key_def Let_def)
  have "\<exists>isk u isk' u'. issue_credential cv draw' pk isk pk = Ok (Some u) \<and> issue_credential cv (Suc draw') pk isk' (ps_hw_id st) = Ok (Some u')"
  proof -
    obtain nac ttc where "register_call_impl (with_v1 cv e) x draw' rg (service_register_request grp (ps_hw_id st) pk) = Ok (nac, ttc)"
      using called by (auto simp: registrar_call_def split: sum.splits)
    then show ?thesis
      unfolding register_call_impl_Ok
      by (auto simp: service_register_request_def Let_def issue_with_v1 verify_attestation_def algorithm_of_def split: if_splits)
  qed
  then obtain isk u isk' u' where "issue_credential cv draw' pk isk pk = Ok (Some u)"
      "issue_credential cv (Suc draw') pk isk' (ps_hw_id st) = Ok (Some u')" by blast
  note this [THEN issued_challenge [OF ok pk]]
  moreover have "length pk = 144" using curve_encodings [OF ok] by (simp add: pk)
  ultimately show ?thesis unfolding si Let_def k by (intro exI [of _ k] exI [of _ r]) simp
qed

definition open_registrar :: registrar where
  "open_registrar = sample_registrar\<lparr>rg_require_attestation := False, rg_nac_issuers := [],
     rg_network_secret_key := circ_sk @ circ_sk, rg_transfer_secret_key := circ_sk @ circ_sk\<rparr>"

lemma service_registration_collides_witness:
  "\<exists>si k. register_with_state_dir sample_curve 0 (registrar_call sample_curve sample_env sample_x509 0 open_registrar) ServiceMint
      (Inr \<lparr>ps_hw_id = [5], ps_nonce = [6]\<rparr>, Map.empty) = (Inr si, Map.empty) \<and> si_secret_key si = cv_to_be sample_curve k"
proof -
  obtain pk where keys: "generate_wallet_keypair sample_curve 0 [6] = Some (circ_sk, pk)"
    by (simp add: generate_wallet_keypair_def sample_curve_def Let_def)
  have pk: "pk = cv_compress1 sample_curve One3 @ cv_to_be sample_curve One3 @ cv_to_be sample_curve (One3 + One3) @ circ_sk"
    using keys by (auto simp: generate_wallet_keypair_def sample_curve_def Let_def schnorr_hash_member_def)
  have proves: "proves_key sample_curve n One3 pk" if "last n \<noteq> 2" "n \<noteq> []" for n
    unfolding proves_key_def using that
    by (intro exI [of _ One3] exI [of _ One3]) (simp add: pk sample_curve_def schnorr_hash_member_def Let_def)
  have last: "last pk \<noteq> 2" "pk \<noteq> []" by (simp_all add: pk sample_curve_def gf3_encode_def)
  have "(One3 :: gf3) \<noteq> 0" by (simp add: zero_gf3_def)
  then have issue: "\<exists>r. v1_issue_credential (with_v1 sample_curve sample_env) d pk (circ_sk @ circ_sk) n = Some r" if "last n \<noteq> 2" "n \<noteq> []" for d n
    using issue_credential_proven [OF sample_curve_ok proves [OF that] refl, of One3 d One3] unfolding issue_with_v1 by auto
  obtain nc ncs tc tcs where "v1_issue_credential (with_v1 sample_curve sample_env) 0 pk (circ_sk @ circ_sk) pk = Some (nc, ncs)"
      "v1_issue_credential (with_v1 sample_curve sample_env) (Suc 0) pk (circ_sk @ circ_sk) [5] = Some (tc, tcs)"
    using issue [OF last, of 0] issue [of "[5]" "Suc 0"] by auto
  then have "registrar_call sample_curve sample_env sample_x509 0 open_registrar (service_register_request ServiceMint [5] pk) \<noteq> None"
    by (simp add: registrar_call_def register_call_impl_def service_register_request_def verify_attestation_def algorithm_of_def
        open_registrar_def effective_level_def nac_keys_for_level_def Let_def less_eq_security_level_def split: option.split)
  then obtain nac where "registrar_call sample_curve sample_env sample_x509 0 open_registrar (service_register_request ServiceMint [5] pk)
      = Some (Some nac)" by (auto simp: registrar_call_def split: sum.splits)
  then obtain si where r: "register_with_state_dir sample_curve 0 (registrar_call sample_curve sample_env sample_x509 0 open_registrar)
      ServiceMint (Inr \<lparr>ps_hw_id = [5], ps_nonce = [6]\<rparr>, Map.empty) = (Inr si, Map.empty)"
    by (simp add: register_with_state_dir_def keys)
  from service_registration_collides [OF sample_curve_ok r] r show ?thesis by (auto simp: Let_def)
qed

end
