(* ===== verification/RateLimit.thy ===== *)
theory RateLimit
  imports Complex_Main Prelude
begin

section \<open>Rate limiting (\<open>src/proto/src/rate_limit.rs\<close>)\<close>

text \<open>
  A token bucket per address, and a table of at most \<open>max_entries\<close> addresses from which the one used
  longest ago is evicted. The \<open>f64\<close> numbers are rationals here, so rounding is left out. A \<open>HashMap\<close> is a
  map together with the order in which its keys are visited, an argument \<open>order\<close> of each check, as the
  order is unspecified and can change. An \<open>Instant\<close> is a number of nanoseconds; \<open>duration_since\<close> of a later
  one is zero. The lock, held during a check, makes checks a sequence.
\<close>

datatype ip_addr = V4 "32 word" | V6 "128 word"

record rate_limit_config =
  rl_burst :: u32
  rl_per_second :: rat
  rl_max_entries :: nat

definition rate_limit_default :: rate_limit_config where
  "rate_limit_default = \<lparr>rl_burst = 20, rl_per_second = 5, rl_max_entries = 10000\<rparr>"

record bucket =
  bu_tokens :: rat
  bu_last_refill :: nat

definition bucket_new :: "u32 \<Rightarrow> nat \<Rightarrow> bucket" where
  "bucket_new burst now = \<lparr>bu_tokens = of_nat (unat burst), bu_last_refill = now\<rparr>"

definition try_consume :: "rat \<Rightarrow> u32 \<Rightarrow> nat \<Rightarrow> bucket \<Rightarrow> bool \<times> bucket" where
  "try_consume per_second burst now b =
     (let elapsed = of_nat (now - bu_last_refill b) / 1000000000;
          tokens = min (bu_tokens b + elapsed * per_second) (of_nat (unat burst))
      in if 1 \<le> tokens then (True, b\<lparr>bu_last_refill := now, bu_tokens := tokens - 1\<rparr>)
         else (False, b\<lparr>bu_last_refill := now, bu_tokens := tokens\<rparr>))"

type_synonym buckets = "ip_addr \<rightharpoonup> bucket"

definition limiter_new :: buckets where
  "limiter_new = Map.empty"

definition last_used :: "buckets \<Rightarrow> ip_addr \<Rightarrow> nat" where
  "last_used m ip = (case m ip of None \<Rightarrow> 0 | Some b \<Rightarrow> bu_last_refill b)"

definition evict_oldest :: "ip_addr list \<Rightarrow> buckets \<Rightarrow> buckets" where
  "evict_oldest order m = (if order = [] then m else m(arg_min_list (last_used m) order := None))"

text \<open>\<open>created\<close> is the time a new bucket gets, \<open>now\<close> the time of the request, read just after.\<close>

definition check_ip ::
  "rate_limit_config \<Rightarrow> ip_addr list \<Rightarrow> nat \<Rightarrow> nat \<Rightarrow> ip_addr \<Rightarrow> buckets \<Rightarrow> bool \<times> buckets" where
  "check_ip cfg order created now ip m =
     (let m1 = (if rl_max_entries cfg \<le> length order \<and> m ip = None then evict_oldest order m else m);
          b = (case m1 ip of None \<Rightarrow> bucket_new (rl_burst cfg) created | Some b \<Rightarrow> b);
          (allowed, b') = try_consume (rl_per_second cfg) (rl_burst cfg) now b
      in (allowed, m1(ip \<mapsto> b')))"

subsection \<open>Runs\<close>

text \<open>A request has the visiting order, the two times and the address. \<open>visits\<close>: the order lists each key of
  the table once.\<close>

type_synonym request = "ip_addr list \<times> nat \<times> nat \<times> ip_addr"

fun check_all :: "rate_limit_config \<Rightarrow> request list \<Rightarrow> buckets \<Rightarrow> bool list \<times> buckets" where
  "check_all cfg [] m = ([], m)"
| "check_all cfg ((order, created, now, ip) # rs) m =
     (let (ok, m') = check_ip cfg order created now ip m; (oks, m'') = check_all cfg rs m' in (ok # oks, m''))"

fun visits :: "rate_limit_config \<Rightarrow> request list \<Rightarrow> buckets \<Rightarrow> bool" where
  "visits cfg [] m \<longleftrightarrow> True"
| "visits cfg ((order, created, now, ip) # rs) m \<longleftrightarrow>
     set order = dom m \<and> distinct order \<and> visits cfg rs (snd (check_ip cfg order created now ip m))"

text \<open>The times are read in order: \<open>chronological t rs\<close> after \<open>t\<close>, with strictly later requests.\<close>

fun chronological :: "nat \<Rightarrow> request list \<Rightarrow> bool" where
  "chronological t [] \<longleftrightarrow> True"
| "chronological t ((order, created, now, ip) # rs) \<longleftrightarrow> t < created \<and> created \<le> now \<and> chronological now rs"

definition allowed_for :: "ip_addr \<Rightarrow> request list \<Rightarrow> bool list \<Rightarrow> nat" where
  "allowed_for ip rs oks = length (filter (\<lambda>(r, ok). ok \<and> snd (snd (snd r)) = ip) (zip rs oks))"

text \<open>The time after a run that started at \<open>t\<close>.\<close>

fun end_time :: "nat \<Rightarrow> request list \<Rightarrow> nat" where
  "end_time t [] = t"
| "end_time t ((order, created, now, ip) # rs) = end_time now rs"

lemma end_time_mono: "chronological t rs \<Longrightarrow> t \<le> end_time t rs"
  by (induction t rs rule: end_time.induct) auto

lemma allowed_for_Cons [simp]:
  "allowed_for ip ((order, created, now, ip') # rs) (ok # oks) = (if ok \<and> ip' = ip then 1 else 0) + allowed_for ip rs oks"
  by (simp add: allowed_for_def)

lemma allowed_for_Nil [simp]: "allowed_for ip [] oks = 0"
  by (simp add: allowed_for_def)

text \<open>What one check leaves in the table, when nothing is evicted.\<close>

lemma check_ip_room:
  assumes "m ip = None \<longrightarrow> length order < rl_max_entries cfg"
  shows "check_ip cfg order created now ip m =
    (let r = try_consume (rl_per_second cfg) (rl_burst cfg) now
         (case m ip of None \<Rightarrow> bucket_new (rl_burst cfg) created | Some b \<Rightarrow> b) in (fst r, m(ip \<mapsto> snd r)))"
  using assms by (auto simp: check_ip_def Let_def case_prod_beta)

text \<open>What the rate adds in a number of nanoseconds, and the credit of an address at the time \<open>t\<close>.\<close>

definition refill :: "rate_limit_config \<Rightarrow> nat \<Rightarrow> rat" where
  "refill cfg nanos = of_nat nanos / 1000000000 * rl_per_second cfg"

definition credit :: "rate_limit_config \<Rightarrow> nat \<Rightarrow> bucket option \<Rightarrow> rat" where
  "credit cfg t b = (case b of None \<Rightarrow> of_nat (unat (rl_burst cfg))
     | Some b \<Rightarrow> bu_tokens b + refill cfg (t - bu_last_refill b))"

lemma refill_add: "refill cfg (a + b) = refill cfg a + refill cfg b" and refill_0 [simp]: "refill cfg 0 = 0"
  by (simp_all add: refill_def algebra_simps add_divide_distrib)

lemma refill_nonneg [simp]: "0 \<le> rl_per_second cfg \<Longrightarrow> 0 \<le> refill cfg n"
  by (simp add: refill_def)

lemma unsigned_nonneg [simp]: "0 \<le> (unsigned (w :: u32) :: rat)"
  using of_nat_0_le_iff [of "unat w"] by simp

lemma consume_credit:
  assumes "try_consume (rl_per_second cfg) (rl_burst cfg) now b = (ok, b')"
  shows "(if ok then 1 else 0) + bu_tokens b' \<le> bu_tokens b + refill cfg (now - bu_last_refill b)"
    and "(if ok then 1 else 0) + bu_tokens b' \<le> of_nat (unat (rl_burst cfg))"
    and "bu_last_refill b' = now" and "0 \<le> bu_tokens b \<Longrightarrow> 0 \<le> rl_per_second cfg \<Longrightarrow> 0 \<le> bu_tokens b'"
  using assms by (auto simp: try_consume_def Let_def refill_def split: if_splits)

lemma credit_later:
  assumes "t \<le> t'" "0 \<le> rl_per_second cfg" "case b of None \<Rightarrow> True | Some b \<Rightarrow> bu_last_refill b \<le> t"
  shows "credit cfg t' b \<le> credit cfg t b + refill cfg (t' - t)"
proof (cases b)
  case (Some bk)
  with assms have "t' - bu_last_refill bk = (t - bu_last_refill bk) + (t' - t)" by simp
  then show ?thesis by (simp add: Some credit_def refill_add)
qed (use assms in \<open>simp add: credit_def\<close>)

definition addresses :: "request list \<Rightarrow> ip_addr set" where
  "addresses rs = (\<lambda>(order, created, now, ip). ip) ` set rs"

lemma allowed_within_credit:
  assumes "visits cfg rs m" "chronological t rs" "0 \<le> rl_per_second cfg"
    and "card (dom m \<union> addresses rs) \<le> rl_max_entries cfg" "finite (dom m)"
    and "case m ip of None \<Rightarrow> True | Some b \<Rightarrow> bu_last_refill b \<le> t \<and> 0 \<le> bu_tokens b"
  shows "of_nat (allowed_for ip rs (fst (check_all cfg rs m))) \<le> credit cfg t (m ip) + refill cfg (end_time t rs - t)"
  using assms
proof (induction rs arbitrary: t m)
  case Nil
  then show ?case by (auto simp: credit_def split: option.split)
next
  case (Cons r rs)
  obtain order created now ip' where r: "r = (order, created, now, ip')" by (cases r)
  define b where "b = (case m ip' of None \<Rightarrow> bucket_new (rl_burst cfg) created | Some b \<Rightarrow> b)"
  obtain ok b' where c: "try_consume (rl_per_second cfg) (rl_burst cfg) now b = (ok, b')" by fastforce
  have "length order < rl_max_entries cfg" if "m ip' = None"
  proof -
    have "length order = card (dom m)" using Cons.prems(1) by (auto simp: r distinct_card [symmetric])
    moreover have "card (dom m \<union> {ip'}) \<le> card (dom m \<union> addresses (r # rs))"
      using Cons.prems(5) by (intro card_mono) (auto simp: addresses_def r)
    moreover have "ip' \<notin> dom m" using that by auto
    ultimately show ?thesis using Cons.prems(4,5) by simp
  qed
  then have step: "check_ip cfg order created now ip' m = (ok, m(ip' \<mapsto> b'))"
    by (simp add: check_ip_room b_def [symmetric] c)
  note bounds = consume_credit [OF c]
  have times: "t \<le> now" "created \<le> now" "t < created" "chronological now rs" using Cons.prems(2) by (simp_all add: r)
  have addr: "card (dom (m(ip' \<mapsto> b')) \<union> addresses rs) \<le> rl_max_entries cfg"
    using Cons.prems(4) by (simp add: addresses_def r insert_commute)
  have "visits cfg rs (m(ip' \<mapsto> b'))" using Cons.prems(1) by (simp add: r step)
  moreover have "finite (dom (m(ip' \<mapsto> b')))" using Cons.prems(5) unfolding dom_fun_upd by simp
  ultimately have IH: "(case (m(ip' \<mapsto> b')) ip of None \<Rightarrow> True | Some b \<Rightarrow> bu_last_refill b \<le> now \<and> 0 \<le> bu_tokens b) \<Longrightarrow>
      of_nat (allowed_for ip rs (fst (check_all cfg rs (m(ip' \<mapsto> b'))))) \<le> credit cfg now ((m(ip' \<mapsto> b')) ip) + refill cfg (end_time now rs - now)"
    using Cons.IH [OF _ times(4) Cons.prems(3) addr] by blast
  have fin: "refill cfg (end_time now rs - t) = refill cfg (now - t) + refill cfg (end_time now rs - now)"
    using end_time_mono [OF times(4)] times(1) by (simp flip: refill_add)
  show ?case
  proof (cases "ip' = ip")
    case True
    have b: "0 \<le> bu_tokens b" "bu_last_refill b \<le> now"
      using Cons.prems(6) times by (auto simp: b_def True bucket_new_def split: option.splits)
    have "of_nat (allowed_for ip rs (fst (check_all cfg rs (m(ip \<mapsto> b'))))) \<le> bu_tokens b' + refill cfg (end_time now rs - now)"
      using IH bounds(3) bounds(4) [OF b(1) Cons.prems(3)] unfolding True by (simp add: credit_def)
    moreover have "(if ok then 1 else 0) + bu_tokens b' \<le> credit cfg t (m ip) + refill cfg (now - t)"
    proof (cases "m ip")
      case None
      have "0 \<le> refill cfg (now - t)" using Cons.prems(3) by simp
      then show ?thesis using bounds(2) None by (simp add: credit_def)
    next
      case (Some bk)
      then have "now - bu_last_refill b = (t - bu_last_refill b) + (now - t)" "m ip = Some b"
        using Cons.prems(6) times(1) by (simp_all add: b_def True)
      then show ?thesis using bounds(1) by (simp add: credit_def refill_add)
    qed
    ultimately show ?thesis by (simp add: r step [unfolded True] True fin case_prod_beta Let_def split: if_splits)
  next
    case False
    have "credit cfg now (m ip) \<le> credit cfg t (m ip) + refill cfg (now - t)"
      using Cons.prems(3,6) times(1) by (intro credit_later) (auto split: option.splits)
    moreover have "case m ip of None \<Rightarrow> True | Some b \<Rightarrow> bu_last_refill b \<le> now \<and> 0 \<le> bu_tokens b"
      using Cons.prems(6) times(1) by (auto split: option.splits)
    ultimately show ?thesis using IH False by (simp add: r step fin case_prod_beta)
  qed
qed



subsection \<open>More addresses than the table holds\<close>

text \<open>\<open>turns\<close>: the addresses \<open>q\<close> in turn, one more than the table holds.\<close>

fun turns :: "nat \<Rightarrow> ip_addr list \<Rightarrow> ip_addr list" where
  "turns 0 q = []"
| "turns (Suc k) q = hd q # turns k (rotate1 q)"

definition held :: "ip_addr list \<Rightarrow> buckets \<Rightarrow> nat \<Rightarrow> bool" where
  "held p m t \<longleftrightarrow> set p = dom m \<and> sorted_wrt (<) (map (last_used m) p) \<and> (\<forall>ip \<in> set p. last_used m ip \<le> t)"

lemma first_is_oldest:
  assumes "held (ip # p) m t" "set order = dom m"
  shows "arg_min_list (last_used m) order = ip"
proof -
  let ?o = "arg_min_list (last_used m) order"
  have o: "order \<noteq> []" "set order = set (ip # p)" using assms by (auto simp: held_def)
  then have "?o \<in> set (ip # p)" using arg_min_list_in by metis
  moreover have "last_used m ?o \<le> last_used m ip"
    unfolding f_arg_min_list_f [OF o(1)] using o by (intro Min_le) auto
  ultimately show ?thesis using assms(1) by (auto simp: held_def)
qed

lemma held_distinct: "held p m t \<Longrightarrow> distinct p"
  unfolding held_def by (metis distinct_map strict_sorted_iff)

lemma last_used_upd [simp]: "last_used (m(ip := b)) ip' = (if ip' = ip then case b of None \<Rightarrow> 0 | Some b \<Rightarrow> bu_last_refill b else last_used m ip')"
  by (simp add: last_used_def)

lemma held_drop:
  assumes "held (ip # p) m t"
  shows "held p (m(ip := None)) t"
proof -
  have ip: "ip \<notin> set p" using held_distinct [OF assms] by simp
  then have eq: "map (last_used (m(ip := None))) p = map (last_used m) p" by auto
  have "set p = dom m - {ip}" "sorted_wrt (<) (map (last_used m) p)" "\<forall>x \<in> set p. last_used m x \<le> t"
    using assms ip by (auto simp: held_def)
  with ip show ?thesis unfolding held_def eq by auto
qed

lemma held_add:
  assumes "held p m t" "m ip = None" "t < now" "bu_last_refill b = now"
  shows "held (p @ [ip]) (m(ip \<mapsto> b)) now"
proof -
  have ip: "ip \<notin> set p" using assms(1,2) by (auto simp: held_def)
  then have eq: "map (last_used (m(ip \<mapsto> b))) (p @ [ip]) = map (last_used m) p @ [now]" using assms(4) by auto
  have "dom m = set p" "sorted_wrt (<) (map (last_used m) p)" "\<forall>x \<in> set p. last_used m x < now"
    using assms(1,3) by (force simp: held_def)+
  with ip assms(4) show ?thesis unfolding held_def eq by (auto simp: sorted_wrt_append)
qed

lemma new_bucket_allows:
  assumes "1 \<le> unat burst" "0 \<le> rate"
  shows "\<exists>b. try_consume rate burst now (bucket_new burst created) = (True, b) \<and> bu_last_refill b = now"
proof -
  have "(1 :: rat) \<le> unsigned burst" using assms(1) by (metis of_nat_1 of_nat_le_iff of_nat_unat)
  moreover have "0 \<le> of_nat (now - created) / 1000000000 * rate" using assms(2) by simp
  ultimately show ?thesis by (simp add: try_consume_def bucket_new_def Let_def)
qed

lemma new_address_allowed:
  assumes new: "m ip = None" and cfg: "1 \<le> unat (rl_burst cfg)" "0 \<le> rl_per_second cfg" "0 < rl_max_entries cfg"
    and held: "held p m t" "length p \<le> rl_max_entries cfg" and order: "set order = dom m" "distinct order" and now: "t < now"
  shows "\<exists>m'. check_ip cfg order created now ip m = (True, m')
    \<and> held ((if length p = rl_max_entries cfg then tl p else p) @ [ip]) m' now"
proof -
  have len: "length order = length p"
    using order held(1) held_distinct [OF held(1)] by (metis distinct_card held_def)
  obtain b where b: "try_consume (rl_per_second cfg) (rl_burst cfg) now (bucket_new (rl_burst cfg) created) = (True, b)"
    "bu_last_refill b = now" using new_bucket_allows [OF cfg(1,2)] by blast
  show ?thesis
  proof (cases "length p = rl_max_entries cfg")
    case True
    then obtain x p' where p: "p = x # p'" using cfg(3) by (cases p) auto
    have "order \<noteq> []" using len p by auto
    then have "evict_oldest order m = m(x := None)"
      using first_is_oldest [OF held(1) [unfolded p] order(1)] by (simp add: evict_oldest_def)
    then have "check_ip cfg order created now ip m = (True, (m(x := None))(ip \<mapsto> b))"
      using True new by (simp add: check_ip_def len b(1))
    moreover have "(m(x := None)) ip = None" using new by simp
    ultimately show ?thesis using held_add [OF held_drop [OF held(1) [unfolded p]] _ now b(2)] True by (simp add: p)
  next
    case False
    then show ?thesis using held_add [OF held(1) new now b(2)] held(2) new by (simp add: check_ip_def len b(1))
  qed
qed

text \<open>A client with one address more than the table holds, that uses them in turn, finds a new bucket every time.\<close>

lemma turns_allowed:
  assumes cfg: "1 \<le> unat (rl_burst cfg)" "0 \<le> rl_per_second cfg" "0 < rl_max_entries cfg"
    and "distinct q" "length q = Suc (rl_max_entries cfg)" "held (drop n q) m t" "0 < n \<and> n \<le> length q"
    and "map (\<lambda>(order, created, now, ip). ip) rs = turns (length rs) q" "visits cfg rs m" "chronological t rs"
  shows "fst (check_all cfg rs m) = replicate (length rs) True"
  using assms(4-)
proof (induction rs arbitrary: q n m t)
  case (Cons r rs)
  obtain order created now ip where r: "r = (order, created, now, ip)" by (cases r)
  obtain q' where q: "q = ip # q'" using Cons.prems(2,5) by (cases q) (auto simp: r)
  obtain k where n: "n = Suc k" using Cons.prems(4) by (cases n) auto
  have new: "m ip = None" using Cons.prems(1,3) by (auto simp: held_def q n dest!: in_set_dropD)
  have prems: "set order = dom m" "distinct order" "t < now" using Cons.prems(6,7) by (simp_all add: r)
  have held: "held (drop k q') m t" "length (drop k q') \<le> rl_max_entries cfg" using Cons.prems(2,3) by (simp_all add: q n)
  obtain m' where c: "check_ip cfg order created now ip m = (True, m')"
    and h: "held ((if length (drop k q') = rl_max_entries cfg then tl (drop k q') else drop k q') @ [ip]) m' now"
    using new_address_allowed [OF new cfg held prems(1,2,3)] by blast
  have "held (drop (if k = 0 then 1 else k) (q' @ [ip])) m' now"
  proof (cases "k = 0")
    case True
    with h Cons.prems(2) cfg(3) show ?thesis by (cases q') (auto simp: q)
  next
    case False
    then have "drop k (q' @ [ip]) = drop k q' @ [ip]" using Cons.prems(4) by (simp add: q n)
    with h False Cons.prems(2) show ?thesis by (auto simp: q split: if_splits)
  qed
  then have "fst (check_all cfg rs m') = replicate (length rs) True"
    using Cons.prems by (intro Cons.IH [of "q' @ [ip]" "if k = 0 then 1 else k"]) (auto simp: q r c n)
  then show ?case by (simp add: r c case_prod_beta)
qed simp

text \<open>eviction defeats the limit. Whoever uses one address more than the table holds in turn, as anyone with a
  block of IPv6 addresses can, is allowed every request, whatever the burst and the rate.\<close>

theorem rotating_addresses_unlimited:
  assumes "1 \<le> unat (rl_burst cfg)" "0 \<le> rl_per_second cfg" "0 < rl_max_entries cfg"
    and "distinct q" "length q = Suc (rl_max_entries cfg)" "map (\<lambda>(order, created, now, ip). ip) rs = turns (length rs) q"
    and "visits cfg rs limiter_new" "chronological t rs"
  shows "fst (check_all cfg rs limiter_new) = replicate (length rs) True"
  using turns_allowed [OF assms(1-5) _ _ assms(6-8), of "length q"] assms(5) by (simp add: held_def limiter_new_def)

lemma rotating_addresses_unlimited_witness:
  "fst (check_all \<lparr>rl_burst = 1, rl_per_second = 0, rl_max_entries = 1\<rparr>
      [([], 1, 1, V4 1), ([V4 1], 2, 2, V4 2), ([V4 2], 3, 3, V4 1), ([V4 1], 4, 4, V4 2)] limiter_new) = [True, True, True, True]"
proof -
  let ?c = "\<lparr>rl_burst = 1, rl_per_second = 0, rl_max_entries = 1\<rparr>"
  let ?rs = "[([], 1, 1, V4 1), ([V4 1], 2, 2, V4 2), ([V4 2], 3, 3, V4 1), ([V4 1], 4, 4, V4 2)]"
  have "visits ?c ?rs limiter_new"
    by (simp add: limiter_new_def check_ip_def evict_oldest_def try_consume_def bucket_new_def Let_def)
  from rotating_addresses_unlimited [OF _ _ _ _ _ _ this, of "[V4 1, V4 2]" 0] show ?thesis by (simp add: numeral_eq_Suc)
qed

end
