(* ===== verification/BridgeContract.thy ===== *)
theory BridgeContract
  imports GroupSignature
begin

section \<open>The bridge contract and its client (\<open>contracts/src\<close>, \<open>src/bridge/src/alloy_client.rs\<close>)\<close>

text \<open>
  The state of \<open>BrioletteBridge.sol\<close> and its functions, and the Rust client that calls them. A function
  gets the sender and the block's time and returns the new state, or \<open>None\<close> when it reverts; arithmetic
  is checked, as Solidity's is. Sums of ether and the counters stay far below \<open>2^256\<close>, so additions are
  plain. The payment at the end of a withdrawal is atomic: what the recipient's code does is left out.
\<close>

record deposit_entry =
  dp_depositor :: bytes
  dp_amount :: nat
  dp_ticket_hash :: bytes
  dp_timestamp :: nat
  dp_processed :: bool

record withdrawal_entry =
  wd_recipient :: bytes
  wd_amount :: nat
  wd_initiated_at :: nat
  wd_completed :: bool
  wd_challenged :: bool

record epoch_commitment =
  ec_data_hash :: bytes
  ec_timestamp :: nat
  ec_challenged :: bool

record contract =
  cn_operator :: bytes
  cn_balance :: nat
  cn_total_deposited :: nat
  cn_total_minted :: nat
  cn_epochs :: "nat \<rightharpoonup> epoch_commitment"
  cn_latest_epoch :: nat
  cn_withdrawals :: "nat \<rightharpoonup> withdrawal_entry"
  cn_next_withdrawal_id :: nat
  cn_deposits :: "nat \<rightharpoonup> deposit_entry"
  cn_next_deposit_id :: nat
  cn_mint_keys :: "bytes list"
  cn_ticket_keys :: "bytes list"
  cn_ttc_group_public_key :: bytes
  cn_key_registry_version :: nat

definition zero_bytes :: "nat \<Rightarrow> bytes" where
  "zero_bytes n = replicate n 0"

lemma zero_bytes_Cons [simp]: "x # xs = zero_bytes n \<longleftrightarrow> n = Suc (length xs) \<and> x = 0 \<and> xs = zero_bytes (length xs)"
  by (cases n) (auto simp: zero_bytes_def)

definition CHALLENGE_PERIOD :: nat where "CHALLENGE_PERIOD = 7 * 24 * 60 * 60"

definition contract_new :: "bytes \<Rightarrow> contract option" where
  "contract_new operator =
     (if operator = zero_bytes 20 then None
      else Some \<lparr>cn_operator = operator, cn_balance = 0, cn_total_deposited = 0, cn_total_minted = 0, cn_epochs = Map.empty,
        cn_latest_epoch = 0, cn_withdrawals = Map.empty, cn_next_withdrawal_id = 0, cn_deposits = Map.empty,
        cn_next_deposit_id = 0, cn_mint_keys = [], cn_ticket_keys = [], cn_ttc_group_public_key = [],
        cn_key_registry_version = 0\<rparr>)"

subsection \<open>Deposits and withdrawals\<close>

definition contract_deposit :: "bytes \<Rightarrow> nat \<Rightarrow> nat \<Rightarrow> bytes \<Rightarrow> contract \<Rightarrow> contract option" where
  "contract_deposit sender now sent ticket_hash cn =
     (if sent = 0 \<or> ticket_hash = zero_bytes 32 then None
      else Some (cn\<lparr>cn_balance := cn_balance cn + sent,
        cn_deposits := (cn_deposits cn)(cn_next_deposit_id cn \<mapsto>
          \<lparr>dp_depositor = sender, dp_amount = sent, dp_ticket_hash = ticket_hash, dp_timestamp = now, dp_processed = False\<rparr>),
        cn_next_deposit_id := cn_next_deposit_id cn + 1,
        cn_total_deposited := cn_total_deposited cn + sent\<rparr>))"

definition contract_mark_processed :: "bytes \<Rightarrow> nat \<Rightarrow> contract \<Rightarrow> contract option" where
  "contract_mark_processed sender deposit_id cn =
     (if sender \<noteq> cn_operator cn then None
      else case cn_deposits cn deposit_id of
        None \<Rightarrow> None
      | Some dep \<Rightarrow>
          if dp_amount dep = 0 \<or> dp_processed dep then None
          else Some (cn\<lparr>cn_deposits := (cn_deposits cn)(deposit_id \<mapsto> dep\<lparr>dp_processed := True\<rparr>),
                        cn_total_minted := cn_total_minted cn + dp_amount dep\<rparr>))"

definition contract_initiate_withdrawal :: "bytes \<Rightarrow> nat \<Rightarrow> bytes \<Rightarrow> nat \<Rightarrow> contract \<Rightarrow> (nat \<times> contract) option" where
  "contract_initiate_withdrawal sender now recipient amount cn =
     (if sender \<noteq> cn_operator cn \<or> recipient = zero_bytes 20 \<or> amount = 0 \<or> cn_balance cn < amount then None
      else if cn_total_minted cn < amount then None
      else Some (cn_next_withdrawal_id cn, cn\<lparr>
        cn_withdrawals := (cn_withdrawals cn)(cn_next_withdrawal_id cn \<mapsto>
          \<lparr>wd_recipient = recipient, wd_amount = amount, wd_initiated_at = now, wd_completed = False, wd_challenged = False\<rparr>),
        cn_next_withdrawal_id := cn_next_withdrawal_id cn + 1,
        cn_total_minted := cn_total_minted cn - amount\<rparr>))"

text \<open>\<open>sent\<close>: the recipient takes the payment.\<close>

definition contract_complete_withdrawal :: "bool \<Rightarrow> nat \<Rightarrow> nat \<Rightarrow> contract \<Rightarrow> contract option" where
  "contract_complete_withdrawal sent now withdrawal_id cn =
     (case cn_withdrawals cn withdrawal_id of
        None \<Rightarrow> None
      | Some w \<Rightarrow>
          if wd_amount w = 0 \<or> wd_completed w \<or> wd_challenged w \<or> now < wd_initiated_at w + CHALLENGE_PERIOD then None
          else if cn_total_deposited cn < wd_amount w \<or> cn_balance cn < wd_amount w \<or> \<not> sent then None
          else Some (cn\<lparr>cn_withdrawals := (cn_withdrawals cn)(withdrawal_id \<mapsto> w\<lparr>wd_completed := True\<rparr>),
                        cn_total_deposited := cn_total_deposited cn - wd_amount w,
                        cn_balance := cn_balance cn - wd_amount w\<rparr>))"

text \<open>The pairing equations of \<open>EcdaaVerifier.sol\<close>, over the parameter for a curve. The challenger names the
  group key as well as the credential.\<close>

definition verify_credential_pairings :: "('f, 'g::plus, 'h, 't) curve \<Rightarrow> 'g \<times> 'g \<times> 'g \<times> 'g \<Rightarrow> 'h \<times> 'h \<Rightarrow> bool" where
  "verify_credential_pairings cv points gpk =
     (case (points, gpk) of ((a, b, c, d), (x, y)) \<Rightarrow>
        cv_pairing cv a y = cv_pairing cv b (cv_gen2 cv) \<and> cv_pairing cv c (cv_gen2 cv) = cv_pairing cv (a + d) x)"

definition contract_challenge_withdrawal ::
  "('f, 'g::plus, 'h, 't) curve \<Rightarrow> nat \<Rightarrow> nat \<Rightarrow> 'g \<times> 'g \<times> 'g \<times> 'g \<Rightarrow> 'h \<times> 'h \<Rightarrow> contract \<Rightarrow> contract option" where
  "contract_challenge_withdrawal cv now withdrawal_id points gpk cn =
     (case cn_withdrawals cn withdrawal_id of
        None \<Rightarrow> None
      | Some w \<Rightarrow>
          if wd_amount w = 0 \<or> wd_completed w \<or> wd_challenged w \<or> \<not> now < wd_initiated_at w + CHALLENGE_PERIOD
             \<or> \<not> verify_credential_pairings cv points gpk then None
          else Some (cn\<lparr>cn_withdrawals := (cn_withdrawals cn)(withdrawal_id \<mapsto> w\<lparr>wd_challenged := True\<rparr>),
                        cn_total_minted := cn_total_minted cn + wd_amount w\<rparr>))"

definition contract_receive :: "nat \<Rightarrow> contract \<Rightarrow> contract" where
  "contract_receive sent cn = cn\<lparr>cn_balance := cn_balance cn + sent, cn_total_deposited := cn_total_deposited cn + sent\<rparr>"

subsection \<open>Epochs, keys, the operator\<close>

definition contract_publish_epoch :: "bytes \<Rightarrow> nat \<Rightarrow> nat \<Rightarrow> bytes \<Rightarrow> contract \<Rightarrow> contract option" where
  "contract_publish_epoch sender now epoch data_hash cn =
     (if sender \<noteq> cn_operator cn \<or> data_hash = zero_bytes 32 \<or> \<not> (cn_latest_epoch cn < epoch \<or> cn_latest_epoch cn = 0)
         \<or> (case cn_epochs cn epoch of None \<Rightarrow> False | Some ec \<Rightarrow> ec_timestamp ec \<noteq> 0) then None
      else Some (cn\<lparr>cn_epochs := (cn_epochs cn)(epoch \<mapsto> \<lparr>ec_data_hash = data_hash, ec_timestamp = now, ec_challenged = False\<rparr>),
                    cn_latest_epoch := epoch\<rparr>))"

definition contract_challenge_epoch :: "nat \<Rightarrow> contract \<Rightarrow> contract option" where
  "contract_challenge_epoch epoch cn =
     (case cn_epochs cn epoch of
        None \<Rightarrow> None
      | Some ec \<Rightarrow> if ec_timestamp ec = 0 \<or> ec_challenged ec then None
                   else Some (cn\<lparr>cn_epochs := (cn_epochs cn)(epoch \<mapsto> ec\<lparr>ec_challenged := True\<rparr>)\<rparr>))"

text \<open>Swap and pop.\<close>

definition remove_key :: "nat \<Rightarrow> bytes list \<Rightarrow> bytes list option" where
  "remove_key i keys = (if i < length keys then Some (butlast (keys[i := last keys])) else None)"

definition contract_add_mint_key :: "bytes \<Rightarrow> bytes \<Rightarrow> contract \<Rightarrow> contract option" where
  "contract_add_mint_key sender key cn =
     (if sender \<noteq> cn_operator cn \<or> length key \<noteq> 33 then None
      else Some (cn\<lparr>cn_mint_keys := cn_mint_keys cn @ [key], cn_key_registry_version := cn_key_registry_version cn + 1\<rparr>))"

definition contract_remove_mint_key :: "bytes \<Rightarrow> nat \<Rightarrow> contract \<Rightarrow> contract option" where
  "contract_remove_mint_key sender i cn =
     (if sender \<noteq> cn_operator cn then None
      else case remove_key i (cn_mint_keys cn) of None \<Rightarrow> None
      | Some keys \<Rightarrow> Some (cn\<lparr>cn_mint_keys := keys, cn_key_registry_version := cn_key_registry_version cn + 1\<rparr>))"

definition contract_add_ticket_key :: "bytes \<Rightarrow> bytes \<Rightarrow> contract \<Rightarrow> contract option" where
  "contract_add_ticket_key sender key cn =
     (if sender \<noteq> cn_operator cn \<or> length key \<noteq> 33 then None
      else Some (cn\<lparr>cn_ticket_keys := cn_ticket_keys cn @ [key], cn_key_registry_version := cn_key_registry_version cn + 1\<rparr>))"

definition contract_remove_ticket_key :: "bytes \<Rightarrow> nat \<Rightarrow> contract \<Rightarrow> contract option" where
  "contract_remove_ticket_key sender i cn =
     (if sender \<noteq> cn_operator cn then None
      else case remove_key i (cn_ticket_keys cn) of None \<Rightarrow> None
      | Some keys \<Rightarrow> Some (cn\<lparr>cn_ticket_keys := keys, cn_key_registry_version := cn_key_registry_version cn + 1\<rparr>))"

definition contract_set_ttc_group_key :: "bytes \<Rightarrow> bytes \<Rightarrow> contract \<Rightarrow> contract option" where
  "contract_set_ttc_group_key sender key cn =
     (if sender \<noteq> cn_operator cn \<or> key = [] then None
      else Some (cn\<lparr>cn_ttc_group_public_key := key, cn_key_registry_version := cn_key_registry_version cn + 1\<rparr>))"

definition contract_transfer_operator :: "bytes \<Rightarrow> bytes \<Rightarrow> contract \<Rightarrow> contract option" where
  "contract_transfer_operator sender new_operator cn =
     (if sender \<noteq> cn_operator cn \<or> new_operator = zero_bytes 20 then None else Some (cn\<lparr>cn_operator := new_operator\<rparr>))"

lemmas contract_defs = contract_deposit_def contract_mark_processed_def contract_initiate_withdrawal_def
  contract_complete_withdrawal_def contract_challenge_withdrawal_def contract_receive_def contract_publish_epoch_def
  contract_challenge_epoch_def contract_add_mint_key_def contract_remove_mint_key_def contract_add_ticket_key_def
  contract_remove_ticket_key_def contract_set_ttc_group_key_def contract_transfer_operator_def

inductive contract_step :: "('f, 'g::plus, 'h, 't) curve \<Rightarrow> contract \<Rightarrow> contract \<Rightarrow> bool" for cv where
  "contract_deposit sender now sent hash cn = Some cn' \<Longrightarrow> contract_step cv cn cn'"
| "contract_receive sent cn = cn' \<Longrightarrow> contract_step cv cn cn'"
| "contract_mark_processed sender i cn = Some cn' \<Longrightarrow> contract_step cv cn cn'"
| "contract_initiate_withdrawal sender now recipient amount cn = Some (i, cn') \<Longrightarrow> contract_step cv cn cn'"
| "contract_complete_withdrawal paid now i cn = Some cn' \<Longrightarrow> contract_step cv cn cn'"
| "contract_challenge_withdrawal cv now i points gpk cn = Some cn' \<Longrightarrow> contract_step cv cn cn'"
| "contract_publish_epoch sender now epoch hash cn = Some cn' \<Longrightarrow> contract_step cv cn cn'"
| "contract_challenge_epoch epoch cn = Some cn' \<Longrightarrow> contract_step cv cn cn'"
| "contract_add_mint_key sender key cn = Some cn' \<Longrightarrow> contract_step cv cn cn'"
| "contract_remove_mint_key sender i cn = Some cn' \<Longrightarrow> contract_step cv cn cn'"
| "contract_add_ticket_key sender key cn = Some cn' \<Longrightarrow> contract_step cv cn cn'"
| "contract_remove_ticket_key sender i cn = Some cn' \<Longrightarrow> contract_step cv cn cn'"
| "contract_set_ttc_group_key sender key cn = Some cn' \<Longrightarrow> contract_step cv cn cn'"
| "contract_transfer_operator sender new cn = Some cn' \<Longrightarrow> contract_step cv cn cn'"

inductive contract_reachable :: "('f, 'g::plus, 'h, 't) curve \<Rightarrow> contract \<Rightarrow> bool" for cv where
  "contract_new operator = Some cn \<Longrightarrow> contract_reachable cv cn"
| "contract_reachable cv cn \<Longrightarrow> contract_step cv cn cn' \<Longrightarrow> contract_reachable cv cn'"

subsection \<open>The contract is solvent\<close>

text \<open>The sum of a quantity over the first \<open>n\<close> entries of a table.\<close>

definition ledger_sum :: "('a \<Rightarrow> nat) \<Rightarrow> (nat \<rightharpoonup> 'a) \<Rightarrow> nat \<Rightarrow> nat" where
  "ledger_sum f m n = (\<Sum>i<n. case m i of None \<Rightarrow> 0 | Some x \<Rightarrow> f x)"

lemma ledger_sum_upd:
  assumes "i < n" "m i = Some x"
  shows "ledger_sum f (m(i \<mapsto> y)) n + f x = ledger_sum f m n + f y"
proof -
  have "ledger_sum f (m(i \<mapsto> y)) n = f y + (\<Sum>j\<in>{..<n} - {i}. case m j of None \<Rightarrow> 0 | Some x \<Rightarrow> f x)"
    unfolding ledger_sum_def using assms(1) by (subst sum.remove [of _ i]) (auto intro: sum.cong)
  moreover have "ledger_sum f m n = f x + (\<Sum>j\<in>{..<n} - {i}. case m j of None \<Rightarrow> 0 | Some x \<Rightarrow> f x)"
    unfolding ledger_sum_def using assms by (subst sum.remove [of _ i]) auto
  ultimately show ?thesis by simp
qed

lemma ledger_sum_new [simp]: "ledger_sum f (m(n \<mapsto> y)) (Suc n) = ledger_sum f m n + f y"
proof -
  have "(\<Sum>i<n. case (m(n \<mapsto> y)) i of None \<Rightarrow> 0 | Some x \<Rightarrow> f x) = (\<Sum>i<n. case m i of None \<Rightarrow> 0 | Some x \<Rightarrow> f x)"
    by (intro sum.cong) auto
  then show ?thesis by (simp add: ledger_sum_def)
qed

lemma ledger_sum_0 [simp]: "ledger_sum f m 0 = 0"
  by (simp add: ledger_sum_def)

text \<open>Deposits not marked yet, withdrawals that wait for their period, and those still on their way or paid.\<close>

definition unprocessed :: "contract \<Rightarrow> nat" where
  "unprocessed cn = ledger_sum (\<lambda>d. if dp_processed d then 0 else dp_amount d) (cn_deposits cn) (cn_next_deposit_id cn)"

definition pending_withdrawals :: "contract \<Rightarrow> nat" where
  "pending_withdrawals cn =
     ledger_sum (\<lambda>w. if wd_completed w \<or> wd_challenged w then 0 else wd_amount w) (cn_withdrawals cn) (cn_next_withdrawal_id cn)"

definition contract_inv :: "contract \<Rightarrow> bool" where
  "contract_inv cn \<longleftrightarrow> (\<forall>i. cn_deposits cn i \<noteq> None \<longrightarrow> i < cn_next_deposit_id cn)
     \<and> (\<forall>i. cn_withdrawals cn i \<noteq> None \<longrightarrow> i < cn_next_withdrawal_id cn)
     \<and> (\<forall>i w. cn_withdrawals cn i = Some w \<longrightarrow> \<not> (wd_completed w \<and> wd_challenged w))
     \<and> cn_balance cn = cn_total_deposited cn
     \<and> unprocessed cn + cn_total_minted cn + pending_withdrawals cn \<le> cn_balance cn"

lemma contract_step_inv:
  assumes "contract_step cv cn cn'" "contract_inv cn"
  shows "contract_inv cn'"
  using assms
proof cases
  case (1 sender now sent hash)
  with assms(2) show ?thesis
    by (auto simp: contract_defs contract_inv_def unprocessed_def pending_withdrawals_def less_Suc_eq split: if_splits)
next
  case (2 sent)
  with assms(2) show ?thesis by (auto simp: contract_defs contract_inv_def unprocessed_def pending_withdrawals_def)
next
  case (3 sender i)
  then obtain d where d: "cn_deposits cn i = Some d" "\<not> dp_processed d"
    and cn': "cn' = cn\<lparr>cn_deposits := (cn_deposits cn)(i \<mapsto> d\<lparr>dp_processed := True\<rparr>), cn_total_minted := cn_total_minted cn + dp_amount d\<rparr>"
    by (auto simp: contract_defs split: if_splits option.splits)
  have "i < cn_next_deposit_id cn" using assms(2) d by (auto simp: contract_inv_def)
  from ledger_sum_upd [of i "cn_next_deposit_id cn" "cn_deposits cn" d "\<lambda>d. if dp_processed d then 0 else dp_amount d" "d\<lparr>dp_processed := True\<rparr>", OF this d(1)] d assms(2)
  show ?thesis by (auto simp: cn' contract_inv_def unprocessed_def pending_withdrawals_def)
next
  case (4 sender now recipient amount i)
  with assms(2) show ?thesis
    by (auto simp: contract_defs contract_inv_def unprocessed_def pending_withdrawals_def less_Suc_eq split: if_splits)
next
  case (5 paid now i)
  then obtain w where w: "cn_withdrawals cn i = Some w" "\<not> wd_completed w" "\<not> wd_challenged w"
      "wd_amount w \<le> cn_total_deposited cn" "wd_amount w \<le> cn_balance cn"
    and cn': "cn' = cn\<lparr>cn_withdrawals := (cn_withdrawals cn)(i \<mapsto> w\<lparr>wd_completed := True\<rparr>),
                        cn_total_deposited := cn_total_deposited cn - wd_amount w, cn_balance := cn_balance cn - wd_amount w\<rparr>"
    by (auto simp: contract_defs not_less split: if_splits option.splits)
  have "i < cn_next_withdrawal_id cn" using assms(2) w(1) by (auto simp: contract_inv_def)
  from ledger_sum_upd [of i "cn_next_withdrawal_id cn" "cn_withdrawals cn" w "\<lambda>w. if wd_completed w \<or> wd_challenged w then 0 else wd_amount w" "w\<lparr>wd_completed := True\<rparr>", OF this w(1)] w assms(2)
  show ?thesis by (auto simp: cn' contract_inv_def unprocessed_def pending_withdrawals_def)
next
  case (6 now i points gpk)
  then obtain w where w: "cn_withdrawals cn i = Some w" "\<not> wd_completed w" "\<not> wd_challenged w"
    and cn': "cn' = cn\<lparr>cn_withdrawals := (cn_withdrawals cn)(i \<mapsto> w\<lparr>wd_challenged := True\<rparr>), cn_total_minted := cn_total_minted cn + wd_amount w\<rparr>"
    by (auto simp: contract_defs split: if_splits option.splits)
  have "i < cn_next_withdrawal_id cn" using assms(2) w(1) by (auto simp: contract_inv_def)
  from ledger_sum_upd [of i "cn_next_withdrawal_id cn" "cn_withdrawals cn" w "\<lambda>w. if wd_completed w \<or> wd_challenged w then 0 else wd_amount w" "w\<lparr>wd_challenged := True\<rparr>", OF this w(1)] w assms(2)
  show ?thesis by (auto simp: cn' contract_inv_def unprocessed_def pending_withdrawals_def)
qed (auto simp: contract_defs contract_inv_def unprocessed_def pending_withdrawals_def split: if_splits option.splits)

lemma contract_reachable_inv: "contract_reachable cv cn \<Longrightarrow> contract_inv cn"
proof (induction rule: contract_reachable.induct)
  case (1 operator cn)
  then show ?case
    by (auto simp: contract_new_def contract_inv_def unprocessed_def pending_withdrawals_def split: if_splits)
qed (rule contract_step_inv)

text \<open>C26: the bridge contract is solvent: in every state it reaches, whatever the operator and the challengers do,
  its balance covers the deposits not yet turned into tokens, the tokens counted as minted and all
  withdrawals that wait; so every pending withdrawal is paid when its period is over and it is asked for.\<close>

theorem contract_solvent:
  assumes "contract_reachable cv cn"
  shows "unprocessed cn + cn_total_minted cn + pending_withdrawals cn \<le> cn_balance cn
    \<and> (\<forall>i w now. cn_withdrawals cn i = Some w \<longrightarrow> wd_amount w \<noteq> 0 \<longrightarrow> \<not> wd_completed w \<longrightarrow> \<not> wd_challenged w \<longrightarrow>
         wd_initiated_at w + CHALLENGE_PERIOD \<le> now \<longrightarrow> contract_complete_withdrawal True now i cn \<noteq> None)"
proof -
  note inv = contract_reachable_inv [OF assms]
  have "wd_amount w \<le> pending_withdrawals cn"
    if w: "cn_withdrawals cn i = Some w" "\<not> wd_completed w" "\<not> wd_challenged w" for i w
  proof -
    have "i < cn_next_withdrawal_id cn" using inv w(1) by (auto simp: contract_inv_def)
    from ledger_sum_upd [of i "cn_next_withdrawal_id cn" "cn_withdrawals cn" w "\<lambda>w. if wd_completed w \<or> wd_challenged w then 0 else wd_amount w" "w\<lparr>wd_completed := True\<rparr>", OF this w(1)] w
    show ?thesis by (simp add: pending_withdrawals_def)
  qed
  with inv show ?thesis by (fastforce simp: contract_inv_def contract_complete_withdrawal_def)
qed

lemma contract_solvent_witness:
  "\<exists>cn. contract_reachable sample_curve cn \<and> pending_withdrawals cn = 4 \<and> cn_total_minted cn = 6
     \<and> contract_complete_withdrawal True (CHALLENGE_PERIOD + 3) 0 cn \<noteq> None"
proof -
  obtain c0 where c0: "contract_new [1] = Some c0" by (simp add: contract_new_def)
  note c0' = c0 [symmetric, unfolded contract_new_def, simplified]
  obtain c1 where c1: "contract_deposit [2] 1 10 [3] c0 = Some c1" by (simp add: contract_deposit_def)
  note c1' = c1 [symmetric, unfolded contract_deposit_def c0', simplified]
  obtain c2 where c2: "contract_mark_processed [1] 0 c1 = Some c2" by (simp add: contract_mark_processed_def c1')
  note c2' = c2 [symmetric, unfolded contract_mark_processed_def c1', simplified]
  obtain c3 where c3: "contract_initiate_withdrawal [1] 2 [5] 4 c2 = Some (0, c3)"
    by (simp add: contract_initiate_withdrawal_def c2')
  note c3' = c3 [symmetric, unfolded contract_initiate_withdrawal_def c2', simplified]
  have r: "contract_reachable sample_curve c3"
    using c0 c1 c2 c3 by (meson contract_reachable.intros contract_step.intros)
  have "pending_withdrawals c3 = 4 \<and> cn_total_minted c3 = 6 \<and> cn_withdrawals c3 0 = Some \<lparr>wd_recipient = [5], wd_amount = 4,
      wd_initiated_at = 2, wd_completed = False, wd_challenged = False\<rparr>"
    by (simp add: c3' pending_withdrawals_def ledger_sum_def)
  with contract_solvent [OF r] r show ?thesis by (intro exI [of _ c3]) auto
qed

text \<open>a challenge proves no fraud. The pairing equations are checked against a group key the challenger
  names, and no point has to come from the withdrawal: for any point \<open>a\<close>, \<open>(a, a, a + a, a)\<close> with the
  generator as both halves of the key passes, so anyone cancels any withdrawal within its period.\<close>

theorem anyone_cancels_a_withdrawal:
  assumes "cn_withdrawals cn i = Some w" "wd_amount w \<noteq> 0" "\<not> wd_completed w" "\<not> wd_challenged w"
    and "now < wd_initiated_at w + CHALLENGE_PERIOD"
  shows "\<exists>cn'. contract_challenge_withdrawal cv now i (a, a, a + a, a) (cv_gen2 cv, cv_gen2 cv) cn = Some cn'
    \<and> (\<forall>later paid. contract_complete_withdrawal paid later i cn' = None)"
  using assms by (simp add: contract_challenge_withdrawal_def contract_complete_withdrawal_def verify_credential_pairings_def)

lemma anyone_cancels_a_withdrawal_witness:
  "\<exists>cn'. contract_challenge_withdrawal sample_curve 5 0 (Two3, Two3, Two3 + Two3, Two3) (cv_gen2 sample_curve, cv_gen2 sample_curve)
      (the (contract_new [1])\<lparr>cn_withdrawals := [0 \<mapsto> \<lparr>wd_recipient = [5], wd_amount = 4, wd_initiated_at = 2, wd_completed = False,
        wd_challenged = False\<rparr>]\<rparr>) = Some cn' \<and> contract_complete_withdrawal True 1000000 0 cn' = None"
  using anyone_cancels_a_withdrawal [of "the (contract_new [1])\<lparr>cn_withdrawals := [0 \<mapsto> \<lparr>wd_recipient = [5], wd_amount = 4,
      wd_initiated_at = 2, wd_completed = False, wd_challenged = False\<rparr>]\<rparr>" 0 _ 5 sample_curve Two3]
  by (auto simp: CHALLENGE_PERIOD_def)

subsection \<open>The client (\<open>alloy_client.rs\<close>, \<open>ethereum.rs\<close>)\<close>

text \<open>A transaction may be lost before it runs, or run while its receipt is lost. A read fails when the node
  does not answer (\<open>alive\<close>).\<close>

datatype tx_fate = Tx_Lost | Tx_Unconfirmed | Tx_Confirmed

datatype ethereum_error = ConnectionFailed | TransactionFailed | EventQueryFailed | ContractError

record l1_deposit_event =
  de_deposit_id :: u64
  de_depositor :: bytes
  de_amount_wei :: u64
  de_ticket_hash :: bytes
  de_block_number :: u64

datatype l1_withdrawal_state = Pending | Challenged | Completed

definition send_transaction :: "tx_fate \<Rightarrow> ('r \<times> contract) option \<Rightarrow> contract \<Rightarrow> (ethereum_error + 'r) \<times> contract" where
  "send_transaction fate outcome cn =
     (case fate of
        Tx_Lost \<Rightarrow> (Inl TransactionFailed, cn)
      | Tx_Unconfirmed \<Rightarrow> (Inl TransactionFailed, case outcome of None \<Rightarrow> cn | Some (r, cn') \<Rightarrow> cn')
      | Tx_Confirmed \<Rightarrow> (case outcome of None \<Rightarrow> (Inl TransactionFailed, cn) | Some (r, cn') \<Rightarrow> (Inr r, cn')))"

text \<open>An id that the contract does not know reads as an entry of zeros.\<close>

definition deposit_at :: "nat \<Rightarrow> contract \<Rightarrow> deposit_entry" where
  "deposit_at i cn = (case cn_deposits cn i of Some d \<Rightarrow> d
     | None \<Rightarrow> \<lparr>dp_depositor = zero_bytes 20, dp_amount = 0, dp_ticket_hash = zero_bytes 32, dp_timestamp = 0, dp_processed = False\<rparr>)"

definition withdrawal_at :: "nat \<Rightarrow> contract \<Rightarrow> withdrawal_entry" where
  "withdrawal_at i cn = (case cn_withdrawals cn i of Some w \<Rightarrow> w
     | None \<Rightarrow> \<lparr>wd_recipient = zero_bytes 20, wd_amount = 0, wd_initiated_at = 0, wd_completed = False, wd_challenged = False\<rparr>)"

fun scan_deposits :: "contract \<Rightarrow> nat list \<Rightarrow> ethereum_error + l1_deposit_event list" where
  "scan_deposits cn [] = Inr []"
| "scan_deposits cn (i # is) =
     (let d = deposit_at i cn in
      if dp_processed d then scan_deposits cn is
      else if 2 ^ 64 \<le> dp_amount d then Inl ContractError
      else and_then (scan_deposits cn is) (\<lambda>events.
        Inr (\<lparr>de_deposit_id = of_nat i, de_depositor = dp_depositor d, de_amount_wei = of_nat (dp_amount d),
              de_ticket_hash = dp_ticket_hash d, de_block_number = 0\<rparr> # events)))"

definition alloy_get_deposits :: "bool \<Rightarrow> u64 \<Rightarrow> contract \<Rightarrow> ethereum_error + l1_deposit_event list" where
  "alloy_get_deposits alive from_block cn =
     (if \<not> alive then Inl ContractError
      else if 2 ^ 64 \<le> cn_next_deposit_id cn then Inl ContractError
      else scan_deposits cn [unat from_block..<cn_next_deposit_id cn])"

definition alloy_mark_deposit_processed :: "tx_fate \<Rightarrow> bytes \<Rightarrow> u64 \<Rightarrow> contract \<Rightarrow> (ethereum_error + unit) \<times> contract" where
  "alloy_mark_deposit_processed fate signer deposit_id cn =
     send_transaction fate (map_option (Pair ()) (contract_mark_processed signer (unat deposit_id) cn)) cn"

definition alloy_initiate_withdrawal ::
  "tx_fate \<Rightarrow> nat \<Rightarrow> bytes \<Rightarrow> bytes \<Rightarrow> u64 \<Rightarrow> contract \<Rightarrow> (ethereum_error + u64) \<times> contract" where
  "alloy_initiate_withdrawal fate now signer recipient amount_wei cn =
     send_transaction fate
       (map_option (map_prod (\<lambda>i. if i < 2 ^ 64 then of_nat i else 0) id)
          (contract_initiate_withdrawal signer now recipient (unat amount_wei) cn)) cn"

definition alloy_get_withdrawal_state :: "bool \<Rightarrow> u64 \<Rightarrow> contract \<Rightarrow> ethereum_error + l1_withdrawal_state" where
  "alloy_get_withdrawal_state alive withdrawal_id cn =
     (if \<not> alive then Inl ContractError
      else let w = withdrawal_at (unat withdrawal_id) cn in
        Inr (if wd_challenged w then Challenged else if wd_completed w then Completed else Pending))"

definition alloy_publish_epoch :: "tx_fate \<Rightarrow> nat \<Rightarrow> bytes \<Rightarrow> u64 \<Rightarrow> bytes \<Rightarrow> contract \<Rightarrow> (ethereum_error + unit) \<times> contract" where
  "alloy_publish_epoch fate now signer epoch data_hash cn =
     send_transaction fate (map_option (Pair ()) (contract_publish_epoch signer now (unat epoch) data_hash cn)) cn"

definition alloy_get_key_registry_version :: "bool \<Rightarrow> contract \<Rightarrow> ethereum_error + u64" where
  "alloy_get_key_registry_version alive cn =
     (if \<not> alive then Inl ContractError
      else Inr (if cn_key_registry_version cn < 2 ^ 64 then of_nat (cn_key_registry_version cn) else - 1))"

text \<open>one deposit of \<open>2^64\<close> wei, about 18.45 ether, stops the bridge: while it is not marked as processed,
  every scan that reaches it fails, and no other deposit is reported either.\<close>

theorem large_deposit_blocks_scan:
  assumes "cn_deposits cn i = Some d" "\<not> dp_processed d" "2 ^ 64 \<le> dp_amount d" "unat from_block \<le> i" "i < cn_next_deposit_id cn"
  shows "alloy_get_deposits alive from_block cn = Inl ContractError"
proof -
  have "scan_deposits cn is = Inl ContractError" if "i \<in> set is" for "is"
    using that assms(1-3)
    by (induction "is") (auto simp: Let_def deposit_at_def and_then_Inl_iff)
  then show ?thesis using assms(4,5) by (simp add: alloy_get_deposits_def)
qed

lemma large_deposit_blocks_scan_witness:
  "alloy_get_deposits True 0 (the (contract_deposit [2] 1 (20 * 10 ^ 18) [3] (the (contract_new [1])))) = Inl ContractError"
  using large_deposit_blocks_scan [of "the (contract_deposit [2] 1 (20 * 10 ^ 18) [3] (the (contract_new [1])))" 0
      "\<lparr>dp_depositor = [2], dp_amount = 20 * 10 ^ 18, dp_ticket_hash = [3], dp_timestamp = 1, dp_processed = False\<rparr>" 0 True]
  by (simp add: contract_deposit_def contract_new_def)

end
