(* ===== verification/Bridge.thy ===== *)
theory Bridge
  imports BridgeContract Receiver
begin

section \<open>The bridge service (\<open>src/bridge/src/server.rs\<close>)\<close>

text \<open>
  The service checks tokens and asks its Ethereum client to pay. The client is an argument: a function
  of the recipient, the amount and the chain's state \<open>'s\<close>, which is the contract of \<open>BridgeContract\<close> for
  the client of that theory. The bridge keeps no state of its own.
\<close>

definition WEI_PER_WHOLE :: u64 where "WEI_PER_WHOLE = 1000000000000000000"
definition WEI_PER_MICRO :: u64 where "WEI_PER_MICRO = 1000000000000"

record bridge =
  br_ttc_group_public_key :: bytes
  br_mint_signing_keys :: "bytes list"
  br_ticket_signing_keys :: "bytes list"
  br_validate_uri :: string
  br_last_scanned_block :: u64

definition bridge_new :: "bytes \<Rightarrow> bytes list \<Rightarrow> bytes list \<Rightarrow> string \<Rightarrow> bridge" where
  "bridge_new gpk mint_keys ticket_keys validate_uri =
     \<lparr>br_ttc_group_public_key = gpk, br_mint_signing_keys = mint_keys, br_ticket_signing_keys = ticket_keys,
      br_validate_uri = validate_uri, br_last_scanned_block = 0\<rparr>"

record withdraw_request =
  wr_version :: i32
  wr_tokens :: "token list"
  wr_recipient_address :: bytes

record withdraw_reply =
  wy_accepted :: bool
  wy_withdrawal_id :: u64
  wy_error :: "error_code option"

type_synonym 's initiate_call = "bytes \<Rightarrow> u64 \<Rightarrow> 's \<Rightarrow> (ethereum_error + u64) \<times> 's"

definition u64_mul :: "bool \<Rightarrow> u64 \<Rightarrow> u64 \<Rightarrow> u64 result" where
  "u64_mul checked a b = arith checked (2 ^ 64 \<le> unat a * unat b) (a * b)"

fun withdraw_total :: "env \<Rightarrow> u64 \<Rightarrow> bridge \<Rightarrow> amount \<Rightarrow> token list \<Rightarrow> amount result" where
  "withdraw_total e now br acc [] = Ok acc"
| "withdraw_total e now br acc (tok # toks) =
     and_then (token_verify e now tok (br_ttc_group_public_key br) (br_mint_signing_keys br) (br_ticket_signing_keys br)) (\<lambda>_.
     and_then (unwrap (tok_descriptor tok)) (\<lambda>d.
     and_then (unwrap (ds_value d)) (\<lambda>v.
     and_then (amount_add e acc v) (\<lambda>acc'. withdraw_total e now br acc' toks))))"

definition amount_to_wei :: "env \<Rightarrow> amount \<Rightarrow> u64 result" where
  "amount_to_wei e a =
     and_then (u64_mul (overflow_checks e) (scast (am_whole a)) WEI_PER_WHOLE) (\<lambda>whole_wei.
     and_then (u64_mul (overflow_checks e) (scast (am_fractional a)) WEI_PER_MICRO) (\<lambda>frac_wei.
     u64_add (overflow_checks e) whole_wei frac_wei))"

definition withdraw_to_l1_impl ::
  "env \<Rightarrow> u64 \<Rightarrow> bridge \<Rightarrow> 's initiate_call \<Rightarrow> withdraw_request \<Rightarrow> 's \<Rightarrow> withdraw_reply result \<times> 's" where
  "withdraw_to_l1_impl e now br initiate rq s =
     (if wr_version rq \<noteq> VERSION_CURRENT then (Err InvalidVersion, s)
      else if wr_tokens rq = [] \<or> length (wr_recipient_address rq) \<noteq> 20 then (Err InvalidMissingFields, s)
      else
        (case and_then (withdraw_total e now br amount_default (wr_tokens rq)) (amount_to_wei e) of
           Inl f \<Rightarrow> (Inl f, s)
         | Inr total_wei \<Rightarrow>
             if total_wei = 0
             then (Ok \<lparr>wy_accepted = False, wy_withdrawal_id = 0, wy_error = Some InvalidAmountType\<rparr>, s)
             else (case initiate (wr_recipient_address rq) total_wei s of
                 (Inr wid, s') \<Rightarrow> (Ok \<lparr>wy_accepted = True, wy_withdrawal_id = wid, wy_error = None\<rparr>, s')
               | (Inl err, s') \<Rightarrow> (Ok \<lparr>wy_accepted = False, wy_withdrawal_id = 0, wy_error = Some InvalidServerState\<rparr>, s'))))"

subsection \<open>Queries and epochs\<close>

record l1_deposit =
  ld_deposit_id :: u64
  ld_depositor_address :: bytes
  ld_amount_wei :: u64
  ld_ticket_hash :: bytes
  ld_block_number :: u64
  ld_timestamp :: u64

record deposit_status_reply =
  dr_deposit :: "l1_deposit option"
  dr_processed :: bool

definition get_deposit_status_impl ::
  "(u64 \<Rightarrow> 's \<Rightarrow> ethereum_error + l1_deposit_event list) \<Rightarrow> u64 \<Rightarrow> 's \<Rightarrow> deposit_status_reply result" where
  "get_deposit_status_impl get_deposits deposit_id s =
     (case get_deposits 0 s of
        Inl err \<Rightarrow> Err InvalidServerState
      | Inr deposits \<Rightarrow>
          (case List.find (\<lambda>dep. de_deposit_id dep = deposit_id) deposits of
             Some dep \<Rightarrow> Ok \<lparr>dr_deposit = Some \<lparr>ld_deposit_id = de_deposit_id dep, ld_depositor_address = de_depositor dep,
                 ld_amount_wei = de_amount_wei dep, ld_ticket_hash = de_ticket_hash dep, ld_block_number = de_block_number dep,
                 ld_timestamp = 0\<rparr>, dr_processed = False\<rparr>
           | None \<Rightarrow> Err InvalidMissingFields))"

record withdrawal_status_reply =
  ws_withdrawal_id :: u64
  ws_state :: i32
  ws_amount_wei :: u64
  ws_recipient_address :: bytes
  ws_initiated_at :: u64

primrec withdrawal_state_to_i32 :: "l1_withdrawal_state \<Rightarrow> i32" where
  "withdrawal_state_to_i32 Pending = 0"
| "withdrawal_state_to_i32 Challenged = 1"
| "withdrawal_state_to_i32 Completed = 2"

definition get_withdrawal_status_impl ::
  "(u64 \<Rightarrow> 's \<Rightarrow> ethereum_error + l1_withdrawal_state) \<Rightarrow> u64 \<Rightarrow> 's \<Rightarrow> withdrawal_status_reply result" where
  "get_withdrawal_status_impl get_state wid s =
     (case get_state wid s of
        Inl err \<Rightarrow> Err InvalidServerState
      | Inr st \<Rightarrow> Ok \<lparr>ws_withdrawal_id = wid, ws_state = withdrawal_state_to_i32 st, ws_amount_wei = 0,
                        ws_recipient_address = [], ws_initiated_at = 0\<rparr>)"

definition publish_epoch_to_l1 ::
  "env \<Rightarrow> (u64 \<Rightarrow> bytes \<Rightarrow> 's \<Rightarrow> (ethereum_error + unit) \<times> 's) \<Rightarrow> u64 \<Rightarrow> bytes \<Rightarrow> 's \<Rightarrow> (ethereum_error + unit) \<times> 's" where
  "publish_epoch_to_l1 e publish epoch_num epoch_data_bytes s = publish epoch_num (sha256 e epoch_data_bytes) s"

subsection \<open>What a withdrawal pays\<close>

lemma uint_scast_u64:
  assumes "0 \<le> sint (w :: i32)"
  shows "uint (scast w :: u64) = sint w"
proof -
  have "scast w = (word_of_int (sint w) :: u64)" by (rule scast_eq)
  moreover have "sint w mod 2 ^ 64 = sint w"
    using assms sint_less [of w] by (intro mod_pos_pos_trivial) simp_all
  ultimately show ?thesis using uint_word_of_int [of "sint w", where 'a = 64] by simp
qed

lemma u64_mul_uint: "u64_mul checked a b = arith checked (2 ^ 64 \<le> uint a * uint b) (word_of_int (uint a * uint b))"
proof -
  have "(2 ^ 64 \<le> unat a * unat b) = (int (2 ^ 64) \<le> int (unat a * unat b))" by (rule of_nat_le_iff [symmetric])
  also have "\<dots> = (2 ^ 64 \<le> uint a * uint b)" by simp
  finally have "(2 ^ 64 \<le> unat a * unat b) = (2 ^ 64 \<le> uint a * uint b)" .
  moreover have "word_of_int (uint a * uint b) = a * b" by (metis word_of_int_uint wi_hom_mult)
  ultimately show ?thesis by (simp add: u64_mul_def)
qed
lemma u64_add_uint: "u64_add checked a b = arith checked (2 ^ 64 \<le> uint a + uint b) (word_of_int (uint a + uint b))"
proof -
  have "(2 ^ 64 \<le> unat a + unat b) = (int (2 ^ 64) \<le> int (unat a + unat b))" by (rule of_nat_le_iff [symmetric])
  also have "\<dots> = (2 ^ 64 \<le> uint a + uint b)" by simp
  finally have "(2 ^ 64 \<le> unat a + unat b) = (2 ^ 64 \<le> uint a + uint b)" .
  moreover have "word_of_int (uint a + uint b) = a + b" by (metis word_of_int_uint wi_hom_add)
  ultimately show ?thesis by (simp add: u64_add_def)
qed
lemma uint_in_range: "0 \<le> x \<Longrightarrow> x < 2 ^ 64 \<Longrightarrow> uint (word_of_int x :: u64) = x"
  by (simp add: uint_word_of_int)

lemma wei_arithmetic:
  fixes W F :: int
  assumes "0 \<le> W" "0 \<le> F" "F < 1000000" "uint w = W" "uint f = F" "uint (c18 :: u64) = 10 ^ 18" "uint (c12 :: u64) = 10 ^ 12"
  shows "and_then (u64_mul checked w c18) (\<lambda>a. and_then (u64_mul checked f c12) (\<lambda>b. u64_add checked a b))
    = (if checked \<and> 2 ^ 64 \<le> W * 10 ^ 18 + F * 10 ^ 12 then panic else Ok (word_of_int (W * 10 ^ 18 + F * 10 ^ 12)))"
proof -
  have f: "F * 10 ^ 12 < 2 ^ 64" "0 \<le> F * 10 ^ 12" using assms by simp_all
  have hom: "word_of_int (uint (word_of_int a :: u64) + uint (word_of_int b :: u64)) = (word_of_int (a + b) :: u64)" for a b
    by (metis wi_hom_add word_of_int_uint)
  show ?thesis
  proof (cases "2 ^ 64 \<le> W * 10 ^ 18")
    case True
    then have "2 ^ 64 \<le> W * 10 ^ 18 + F * 10 ^ 12" using f by arith
    with True f show ?thesis by (auto simp: u64_mul_uint u64_add_uint assms arith_def hom)
  next
    case False
    then have "uint (word_of_int (W * 10 ^ 18) :: u64) = W * 10 ^ 18" "uint (word_of_int (F * 10 ^ 12) :: u64) = F * 10 ^ 12"
      using f assms(1) by (intro uint_in_range; simp)+
    then show ?thesis using False f by (simp add: u64_mul_uint u64_add_uint assms arith_def)
  qed
qed
lemma wei_of_amount:
  assumes "amount_ok a"
  shows "amount_to_wei e a =
    (if overflow_checks e \<and> 2 ^ 64 \<le> micros a * 10 ^ 12 then panic else Ok (word_of_int (micros a * 10 ^ 12)))"
proof -
  have "micros a * 10 ^ 12 = sint (am_whole a) * 10 ^ 18 + sint (am_fractional a) * 10 ^ 12" by (simp add: micros_def)
  then show ?thesis
    unfolding amount_to_wei_def
    using assms by (simp only: amount_ok_def) (intro wei_arithmetic; simp add: uint_scast_u64 WEI_PER_WHOLE_def WEI_PER_MICRO_def)
qed

text \<open>the conversion to wei is exact below \<open>2^64\<close> wei. From there on, so from an amount of 18.446745 on, it
  panics with overflow checks, and without them the bridge pays the amount modulo \<open>2^64\<close>.\<close>

theorem amount_to_wei_outcome:
  assumes "amount_ok a"
  shows "amount_to_wei e a =
    (if overflow_checks e \<and> 2 ^ 64 \<le> micros a * 10 ^ 12 then panic else Ok (word_of_int (micros a * 10 ^ 12)))"
  by (rule wei_of_amount [OF assms])

lemma amount_to_wei_outcome_witness:
  "amount_to_wei (sample_env\<lparr>overflow_checks := False\<rparr>) \<lparr>am_whole = 19, am_fractional = 0, am_code = 0\<rparr> = Ok (word_of_int (19 * 10 ^ 18 - 2 ^ 64))"
  using amount_to_wei_outcome [of "\<lparr>am_whole = 19, am_fractional = 0, am_code = 0\<rparr>" "sample_env\<lparr>overflow_checks := False\<rparr>"]
  by (simp add: amount_ok_def micros_def)

lemma amount_to_wei_exact:
  "amount_ok a \<Longrightarrow> micros a * 10 ^ 12 < 2 ^ 64 \<Longrightarrow> amount_to_wei e a = Ok w \<Longrightarrow> w = word_of_int (micros a * 10 ^ 12)"
  using wei_of_amount [of a e] by (simp split: if_splits)

lemma withdraw_total_Ok:
  assumes "withdraw_total e now br acc toks = Ok a"
  shows "add_values e acc toks = Ok (Some a)
    \<and> (\<forall>tok \<in> set toks. \<exists>b v. token_verify e now tok (br_ttc_group_public_key br) (br_mint_signing_keys br) (br_ticket_signing_keys br) = Ok b
         \<and> token_value tok = Some v \<and> am_code v = am_code acc)"
  using assms
proof (induction toks arbitrary: acc)
  case (Cons tok toks)
  from Cons.prems obtain b d v c where h: "token_verify e now tok (br_ttc_group_public_key br) (br_mint_signing_keys br)
      (br_ticket_signing_keys br) = Ok b" "tok_descriptor tok = Some d" "ds_value d = Some v" "amount_add e acc v = Ok c"
    and rest: "withdraw_total e now br c toks = Ok a"
    by (auto simp: and_then_Inr_iff)
  have v: "token_value tok = Some v" using h by (simp add: token_value_def)
  then have "add_value e acc tok = Ok (Some c)" using h(4) by (auto simp: add_value_Some_iff)
  moreover have "am_code v = am_code acc" "am_code c = am_code acc"
    using h(4) by (auto simp: amount_add_def and_then_Inr_iff split: if_splits)
  ultimately show ?case using Cons.IH [OF rest] v h(1) by simp
qed simp

text \<open>an accepted withdrawal pays, in one transaction to the address asked for, the sum of the face values of
  the tokens, one whole unit as one ether. Every token verifies, and every one is a test token: tokens of
  any other type are refused. The face value is paid for a piece of a split token as well.\<close>

theorem withdrawal_pays_face_values:
  assumes "withdraw_to_l1_impl e now br initiate rq s = (Ok reply, s')" "wy_accepted reply"
    and "\<forall>tok \<in> set (wr_tokens rq). plain_value tok" "(\<Sum>tok\<leftarrow>wr_tokens rq. whole_of tok + 1) < 2 ^ 31"
    and "(\<Sum>tok\<leftarrow>wr_tokens rq. micros_of tok) * 10 ^ 12 < 2 ^ 64"
  shows "initiate (wr_recipient_address rq) (word_of_int ((\<Sum>tok\<leftarrow>wr_tokens rq. micros_of tok) * 10 ^ 12)) s
      = (Inr (wy_withdrawal_id reply), s')
    \<and> length (wr_recipient_address rq) = 20
    \<and> (\<forall>tok \<in> set (wr_tokens rq). \<exists>b v. token_verify e now tok (br_ttc_group_public_key br) (br_mint_signing_keys br)
         (br_ticket_signing_keys br) = Ok b \<and> token_value tok = Some v \<and> am_code v = TEST_TOKEN)"
proof -
  obtain a w where a: "withdraw_total e now br amount_default (wr_tokens rq) = Ok a" "amount_to_wei e a = Ok w"
    and len: "length (wr_recipient_address rq) = 20"
    and i: "initiate (wr_recipient_address rq) w s = (Inr (wy_withdrawal_id reply), s')"
    using assms(1,2) by (auto simp: withdraw_to_l1_impl_def and_then_Inr_iff split: if_splits sum.splits prod.splits)
  note t = withdraw_total_Ok [OF a(1)]
  have "amount_ok a \<and> micros a = (\<Sum>tok\<leftarrow>wr_tokens rq. micros_of tok)"
    using add_values_micros [OF conjunct1 [OF t] _ assms(3)] assms(4) by (simp add: amount_default_def amount_ok_def micros_def)
  with a(2) assms(5) have "w = word_of_int ((\<Sum>tok\<leftarrow>wr_tokens rq. micros_of tok) * 10 ^ 12)"
    using amount_to_wei_exact by metis
  with i len conjunct2 [OF t] show ?thesis by (auto simp: amount_default_def TEST_TOKEN_def)
qed

lemma sample_withdraw_total:
  "withdraw_total sample_env 2000 (bridge_new [] [[9]] [[7]] []) amount_default [sample_test_token] = Ok \<lparr>am_whole = 10, am_fractional = 0, am_code = 0\<rparr>"
  using sample_test_token_verified [of "[]"]
  by (simp add: bridge_new_def amount_default_def amount_add_def i32_add_def signed_divide_int_def signed_modulo_int_def)

definition sample_withdrawal :: withdraw_request where
  "sample_withdrawal = \<lparr>wr_version = 0, wr_tokens = [sample_test_token], wr_recipient_address = replicate 20 5\<rparr>"

lemma sample_withdrawal_accepted:
  assumes "initiate (replicate 20 5) (word_of_int (10 * 10 ^ 18)) s = (Inr wid, s')"
  shows "withdraw_to_l1_impl sample_env 2000 (bridge_new [] [[9]] [[7]] []) initiate sample_withdrawal s
    = (Ok \<lparr>wy_accepted = True, wy_withdrawal_id = wid, wy_error = None\<rparr>, s')"
proof -
  have "amount_to_wei sample_env \<lparr>am_whole = 10, am_fractional = 0, am_code = 0\<rparr> = Ok (word_of_int (10 * 10 ^ 18))"
    using wei_of_amount [of "\<lparr>am_whole = 10, am_fractional = 0, am_code = 0\<rparr>" sample_env] by (simp add: amount_ok_def micros_def)
  then show ?thesis
    using sample_withdraw_total assms by (simp add: withdraw_to_l1_impl_def sample_withdrawal_def VERSION_CURRENT_def)
qed

lemma sample_withdrawal_values:
  "(\<Sum>tok\<leftarrow>wr_tokens sample_withdrawal. micros_of tok) = 10000000" "(\<Sum>tok\<leftarrow>wr_tokens sample_withdrawal. whole_of tok + 1) < 2 ^ 31"
  "\<forall>tok \<in> set (wr_tokens sample_withdrawal). plain_value tok" "wr_recipient_address sample_withdrawal = replicate 20 5"
  by (simp_all add: sample_withdrawal_def micros_of_def whole_of_def plain_value_def token_value_def micros_def amount_ok_def)

lemma withdrawal_pays_face_values_witness:
  "\<exists>reply. withdraw_to_l1_impl sample_env 2000 (bridge_new [] [[9]] [[7]] []) (\<lambda>r w s. (Inr 7, w # s)) sample_withdrawal [] = (Ok reply, [10 * 10 ^ 18])
    \<and> (\<lambda>r w s. (Inr 7, w # s)) (replicate 20 5 :: bytes) (word_of_int (10000000 * 10 ^ 12)) [] = (Inr (wy_withdrawal_id reply) :: ethereum_error + u64, [10 * 10 ^ 18])"
proof -
  have run: "withdraw_to_l1_impl sample_env 2000 (bridge_new [] [[9]] [[7]] []) (\<lambda>r w s. (Inr 7, w # s)) sample_withdrawal []
      = (Ok \<lparr>wy_accepted = True, wy_withdrawal_id = 7, wy_error = None\<rparr>, [10 * 10 ^ 18])"
    by (rule sample_withdrawal_accepted) simp
  from withdrawal_pays_face_values [OF run] sample_withdrawal_values run show ?thesis by simp
qed

subsection \<open>Nothing marks a token as withdrawn\<close>

text \<open>A chain that pays while it has the funds, as the client sees it.\<close>

locale payout =
  fixes initiate :: "'s initiate_call" and funded :: "nat \<Rightarrow> 's \<Rightarrow> bool" and owed :: "bytes \<Rightarrow> 's \<Rightarrow> nat"
  assumes initiates: "funded (unat w + n) s \<Longrightarrow> w \<noteq> 0 \<Longrightarrow> r \<noteq> zero_bytes 20 \<Longrightarrow>
    \<exists>wid s'. initiate r w s = (Inr wid, s') \<and> funded n s' \<and> owed r s' = owed r s + unat w"

primrec withdraw_repeatedly ::
  "nat \<Rightarrow> env \<Rightarrow> u64 \<Rightarrow> bridge \<Rightarrow> 's initiate_call \<Rightarrow> withdraw_request \<Rightarrow> 's \<Rightarrow> withdraw_reply result list \<times> 's" where
  "withdraw_repeatedly 0 e now br initiate rq s = ([], s)"
| "withdraw_repeatedly (Suc n) e now br initiate rq s =
     (let (r, s1) = withdraw_to_l1_impl e now br initiate rq s; (rs, s2) = withdraw_repeatedly n e now br initiate rq s1 in (r # rs, s2))"

text \<open>What the bridge decides before it asks the chain.\<close>

definition withdrawable :: "env \<Rightarrow> u64 \<Rightarrow> bridge \<Rightarrow> withdraw_request \<Rightarrow> u64 \<Rightarrow> bool" where
  "withdrawable e now br rq w \<longleftrightarrow> wr_version rq = VERSION_CURRENT \<and> wr_tokens rq \<noteq> [] \<and> length (wr_recipient_address rq) = 20
     \<and> and_then (withdraw_total e now br amount_default (wr_tokens rq)) (amount_to_wei e) = Ok w \<and> w \<noteq> 0"

context payout
begin

lemma withdrawn_again:
  assumes "withdrawable e now br rq w" "wr_recipient_address rq \<noteq> zero_bytes 20" "funded (n * unat w) s"
  shows "\<exists>rs s'. withdraw_repeatedly n e now br initiate rq s = (rs, s') \<and> length rs = n
    \<and> (\<forall>r \<in> set rs. \<exists>y. r = Ok y \<and> wy_accepted y)
    \<and> owed (wr_recipient_address rq) s' = owed (wr_recipient_address rq) s + n * unat w"
  using assms(3)
proof (induction n arbitrary: s)
  case (Suc n)
  have w: "w \<noteq> 0" using assms(1) by (simp add: withdrawable_def)
  have "funded (unat w + n * unat w) s" using Suc.prems by simp
  from initiates [OF this w assms(2)] obtain wid s1 where
    i: "initiate (wr_recipient_address rq) w s = (Inr wid, s1)" "funded (n * unat w) s1"
      "owed (wr_recipient_address rq) s1 = owed (wr_recipient_address rq) s + unat w" by blast
  have "withdraw_to_l1_impl e now br initiate rq s = (Ok \<lparr>wy_accepted = True, wy_withdrawal_id = wid, wy_error = None\<rparr>, s1)"
    using assms(1) i(1) by (simp add: withdraw_to_l1_impl_def withdrawable_def)
  with Suc.IH [OF i(2)] i(3) show ?case by auto
qed simp

end

text \<open>What the contract owes an address: its withdrawals that are neither paid nor cancelled.\<close>

definition contract_owes :: "bytes \<Rightarrow> contract \<Rightarrow> nat" where
  "contract_owes r cn = ledger_sum (\<lambda>w. if wd_completed w \<or> wd_challenged w \<or> wd_recipient w \<noteq> r then 0 else wd_amount w)
     (cn_withdrawals cn) (cn_next_withdrawal_id cn)"

definition contract_funded :: "bytes \<Rightarrow> nat \<Rightarrow> contract \<Rightarrow> bool" where
  "contract_funded signer n cn \<longleftrightarrow> cn_operator cn = signer \<and> n \<le> cn_total_minted cn \<and> n \<le> cn_balance cn"

interpretation chain: payout "alloy_initiate_withdrawal Tx_Confirmed time signer" "contract_funded signer" contract_owes for time signer
proof unfold_locales
  fix w :: u64 and n cn r
  assume "contract_funded signer (unat w + n) cn" "w \<noteq> 0" "r \<noteq> zero_bytes 20"
  then show "\<exists>wid s'. alloy_initiate_withdrawal Tx_Confirmed time signer r w cn = (Inr wid, s') \<and> contract_funded signer n s'
      \<and> contract_owes r s' = contract_owes r cn + unat w"
    by (auto simp: alloy_initiate_withdrawal_def send_transaction_def contract_initiate_withdrawal_def contract_funded_def
        contract_owes_def unat_eq_zero)
qed

lemma accepted_withdrawable:
  assumes "withdraw_to_l1_impl e now br initiate rq s = (Ok reply, s')" "wy_accepted reply"
  shows "\<exists>w. withdrawable e now br rq w"
  using assms by (auto simp: withdraw_to_l1_impl_def withdrawable_def split: if_splits sum.splits prod.splits)

text \<open>the same tokens are withdrawn as often as they are sent. Neither the bridge nor its client remembers
  them or asks the validation service: a request that was accepted once is accepted again every time, and
  the contract owes its recipient the face values each time, as long as others' deposits last.\<close>

theorem tokens_withdrawn_again:
  assumes "withdraw_to_l1_impl e now br (alloy_initiate_withdrawal Tx_Confirmed t signer) rq cn0 = (Ok reply, cn1)" "wy_accepted reply"
  shows "\<exists>w. 0 < w \<and> contract_owes (wr_recipient_address rq) cn1 = contract_owes (wr_recipient_address rq) cn0 + w
    \<and> (\<forall>n cn. cn_operator cn = signer \<longrightarrow> n * w \<le> cn_total_minted cn \<longrightarrow> n * w \<le> cn_balance cn \<longrightarrow>
      (\<exists>rs cn'. withdraw_repeatedly n e now br (alloy_initiate_withdrawal Tx_Confirmed t signer) rq cn = (rs, cn')
         \<and> length rs = n \<and> (\<forall>r \<in> set rs. \<exists>y. r = Ok y \<and> wy_accepted y)
         \<and> contract_owes (wr_recipient_address rq) cn' = contract_owes (wr_recipient_address rq) cn + n * w))"
proof -
  obtain w where w: "withdrawable e now br rq w" using accepted_withdrawable [OF assms] by blast
  have "alloy_initiate_withdrawal Tx_Confirmed t signer (wr_recipient_address rq) w cn0 = (Inr (wy_withdrawal_id reply), cn1)"
    using assms w by (auto simp: withdraw_to_l1_impl_def withdrawable_def split: sum.splits prod.splits)
  then have r: "wr_recipient_address rq \<noteq> zero_bytes 20"
    and owed: "contract_owes (wr_recipient_address rq) cn1 = contract_owes (wr_recipient_address rq) cn0 + unat w"
    by (auto simp: alloy_initiate_withdrawal_def send_transaction_def contract_initiate_withdrawal_def contract_owes_def
        split: option.splits if_splits)
  have "0 < unat w" using w by (simp add: withdrawable_def unat_gt_0)
  with chain.withdrawn_again [OF w r, of signer] owed show ?thesis by (intro exI [of _ "unat w"]) (auto simp: contract_funded_def)
qed

definition rich_contract :: contract where
  "rich_contract = (the (contract_new [1]))\<lparr>cn_balance := 10 ^ 20, cn_total_minted := 10 ^ 20\<rparr>"

lemma tokens_withdrawn_again_witness:
  "\<exists>rs cn'. withdraw_repeatedly 3 sample_env 2000 (bridge_new [] [[9]] [[7]] []) (alloy_initiate_withdrawal Tx_Confirmed 0 [1]) sample_withdrawal
      rich_contract = (rs, cn') \<and> contract_owes (replicate 20 5) cn' = 3 * 10 ^ 19"
proof -
  let ?i = "alloy_initiate_withdrawal Tx_Confirmed 0 [1]"
  have ne: "replicate 20 (5 :: u8) \<noteq> zero_bytes 20" by (simp add: zero_bytes_def)
  obtain cn1 where c: "?i (replicate 20 5) (word_of_int (10 * 10 ^ 18)) rich_contract = (Inr 0, cn1)"
      "contract_owes (replicate 20 5) cn1 = 10 ^ 19"
    using ne by (simp add: rich_contract_def contract_new_def alloy_initiate_withdrawal_def send_transaction_def
        contract_initiate_withdrawal_def contract_owes_def ledger_sum_def)
  have "contract_owes (replicate 20 5) rich_contract = 0" by (simp add: rich_contract_def contract_new_def contract_owes_def)
  moreover note tokens_withdrawn_again [OF sample_withdrawal_accepted [of ?i, OF c(1)]]
  ultimately have "\<forall>n cn. cn_operator cn = [1] \<longrightarrow> n * 10 ^ 19 \<le> cn_total_minted cn \<longrightarrow> n * 10 ^ 19 \<le> cn_balance cn \<longrightarrow>
      (\<exists>rs cn'. withdraw_repeatedly n sample_env 2000 (bridge_new [] [[9]] [[7]] []) ?i sample_withdrawal cn = (rs, cn')
         \<and> contract_owes (replicate 20 5) cn' = contract_owes (replicate 20 5) cn + n * 10 ^ 19)"
    using c(2) sample_withdrawal_values(4) by fastforce
  moreover have "cn_operator rich_contract = [1]" "3 * 10 ^ 19 \<le> cn_total_minted rich_contract" "3 * 10 ^ 19 \<le> cn_balance rich_contract"
      "contract_owes (replicate 20 5) rich_contract = 0"
    by (simp_all add: rich_contract_def contract_new_def contract_owes_def)
  ultimately show ?thesis by fastforce
qed

end
