(* ===== verification/Deposits.thy ===== *)
theory Deposits
  imports Bridge
begin

section \<open>Deposits become tokens (\<open>src/bridge/src/deposit_processor.rs\<close>, \<open>key_registry.rs\<close>)\<close>

text \<open>
  The processor polls its client for deposits, asks the mint for tokens and marks each deposit. The
  calls are functions on the state \<open>'w\<close> of the world outside: the mint's, the token map's, the
  chain's. A call of the mint that gives no tokens is \<open>None\<close>, whatever the reason.
\<close>

subsection \<open>The ticket registry\<close>

type_synonym ticket_registry = "bytes \<rightharpoonup> signed_ticket"

definition ticket_hash_of :: "env \<Rightarrow> signed_ticket \<Rightarrow> bytes" where
  "ticket_hash_of e st = sha256 e (enc_signed_ticket e st)"

definition registry_register :: "env \<Rightarrow> signed_ticket \<Rightarrow> ticket_registry \<Rightarrow> bytes \<times> ticket_registry" where
  "registry_register e st reg = (ticket_hash_of e st, reg(ticket_hash_of e st \<mapsto> st))"

definition registry_get :: "bytes \<Rightarrow> ticket_registry \<Rightarrow> signed_ticket option" where
  "registry_get hash reg = reg hash"

definition registry_remove :: "bytes \<Rightarrow> ticket_registry \<Rightarrow> signed_ticket option \<times> ticket_registry" where
  "registry_remove hash reg = (reg hash, reg(hash := None))"

subsection \<open>Amounts\<close>

definition AMOUNT_ETH :: i32 where "AMOUNT_ETH = 8888"

definition wei_to_briolette_amount :: "u64 \<Rightarrow> amount" where
  "wei_to_briolette_amount wei =
     (let whole = ucast (wei div WEI_PER_WHOLE); remainder = wei mod WEI_PER_WHOLE;
          fractional = ucast (remainder div WEI_PER_MICRO)
      in \<lparr>am_whole = whole, am_fractional = fractional, am_code = AMOUNT_ETH\<rparr>)"

subsection \<open>The processor\<close>

record deposit_processor =
  dc_tokens_per_deposit :: u32
  dc_last_processed_id :: u64

definition deposit_processor_new :: "u32 \<Rightarrow> deposit_processor" where
  "deposit_processor_new tokens_per_deposit = \<lparr>dc_tokens_per_deposit = tokens_per_deposit, dc_last_processed_id = 0\<rparr>"

type_synonym 'w mint_call = "get_tokens_request \<Rightarrow> 'w \<Rightarrow> token list option \<times> 'w"
type_synonym 'w mark_call = "u64 \<Rightarrow> 'w \<Rightarrow> (ethereum_error + unit) \<times> 'w"

definition process_single_deposit ::
  "'w mint_call \<Rightarrow> 'w mark_call \<Rightarrow> u32 \<Rightarrow> l1_deposit_event \<Rightarrow> ticket_registry \<times> 'w \<Rightarrow> bool \<times> ticket_registry \<times> 'w" where
  "process_single_deposit mint_call mark tokens_per_deposit dep rw =
     (case rw of (reg, w) \<Rightarrow>
        (case registry_get (de_ticket_hash dep) reg of
           None \<Rightarrow> (False, reg, w)
         | Some st \<Rightarrow>
             (case mint_call \<lparr>gtr_version = VERSION_CURRENT, gtr_amount = Some (wei_to_briolette_amount (de_amount_wei dep)),
                              gtr_tags = [], gtr_count = tokens_per_deposit, gtr_ticket = Some st\<rparr> w of
                (None, w1) \<Rightarrow> (False, reg, w1)
              | (Some toks, w1) \<Rightarrow>
                  if toks = [] then (False, reg, w1)
                  else (case mark (de_deposit_id dep) w1 of
                      (Inl err, w2) \<Rightarrow> (False, reg, w2)
                    | (Inr _, w2) \<Rightarrow> (True, snd (registry_remove (de_ticket_hash dep) reg), w2)))))"

text \<open>The loop over the deposits of one poll. Ids stay below \<open>2^64 - 1\<close>: the client refuses more deposits.\<close>

fun process_deposits ::
  "'w mint_call \<Rightarrow> 'w mark_call \<Rightarrow> l1_deposit_event list \<Rightarrow> deposit_processor \<times> ticket_registry \<times> 'w
    \<Rightarrow> deposit_processor \<times> ticket_registry \<times> 'w" where
  "process_deposits mint_call mark [] s = s"
| "process_deposits mint_call mark (dep # deps) (dc, rw) =
     (let (ok, rw') = process_single_deposit mint_call mark (dc_tokens_per_deposit dc) dep rw;
          dc' = (if ok \<and> dc_last_processed_id dc \<le> de_deposit_id dep then dc\<lparr>dc_last_processed_id := de_deposit_id dep + 1\<rparr> else dc)
      in process_deposits mint_call mark deps (dc', rw'))"

definition process_pending_deposits ::
  "(u64 \<Rightarrow> 'w \<Rightarrow> ethereum_error + l1_deposit_event list) \<Rightarrow> 'w mint_call \<Rightarrow> 'w mark_call
    \<Rightarrow> deposit_processor \<times> ticket_registry \<times> 'w \<Rightarrow> deposit_processor \<times> ticket_registry \<times> 'w" where
  "process_pending_deposits get_deposits mint_call mark s =
     (case s of (dc, reg, w) \<Rightarrow>
        (case get_deposits (dc_last_processed_id dc) w of
           Inl err \<Rightarrow> s
         | Inr deposits \<Rightarrow> process_deposits mint_call mark deposits s))"

subsection \<open>What a deposit is worth\<close>

lemma sint_ucast_small:
  assumes "uint (v :: u64) < 2 ^ 31"
  shows "sint (ucast v :: i32) = uint v"
proof -
  have "(ucast v :: i32) = word_of_int (uint v)" by (rule ucast_eq)
  moreover have "sint (word_of_int (uint v) :: i32) = uint v"
    using assms signed_take_bit_int_eq_self [of 31 "uint v"] order_trans [OF _ uint_ge_0 [of v], of "- (2 ^ 31)"]
    by (simp add: signed_of_int del: of_int_uint)
  ultimately show ?thesis by (simp only:)
qed

lemma uint_wei_parts:
  "uint (wei div WEI_PER_WHOLE) = uint wei div 10 ^ 18"
  "uint (wei mod WEI_PER_WHOLE div WEI_PER_MICRO) = uint wei mod 10 ^ 18 div 10 ^ 12"
  by (simp_all add: uint_div uint_mod WEI_PER_WHOLE_def WEI_PER_MICRO_def)

lemma micros_parts: "(x :: int) div 10 ^ 18 * 1000000 + x mod 10 ^ 18 div 10 ^ 12 = x div 10 ^ 12"
proof -
  have "x div 10 ^ 12 = (x div 10 ^ 18 * 10 ^ 18 + x mod 10 ^ 18) div 10 ^ 12" by (simp only: div_mult_mod_eq)
  also have "\<dots> = (x mod 10 ^ 18 + x div 10 ^ 18 * 1000000 * 10 ^ 12) div 10 ^ 12" by (simp add: mult.assoc add.commute)
  also have "\<dots> = x div 10 ^ 18 * 1000000 + x mod 10 ^ 18 div 10 ^ 12" by (subst div_mult_self1) simp_all
  finally show ?thesis by simp
qed

lemma wei_bounds:
  "0 \<le> uint (wei :: u64) div 10 ^ 18" "uint wei div 10 ^ 18 < 2 ^ 31"
  "0 \<le> uint wei mod 10 ^ 18 div 10 ^ 12" "uint wei mod 10 ^ 18 div 10 ^ 12 < 1000000"
proof -
  have x: "0 \<le> uint wei" "uint wei < 2 ^ 64" using uint_bounded [of wei] by simp_all
  then have "uint wei div 10 ^ 18 \<le> 2 ^ 64 div 10 ^ 18" by (intro zdiv_mono1) simp_all
  then show "0 \<le> uint wei div 10 ^ 18" "uint wei div 10 ^ 18 < 2 ^ 31" using x by (simp_all add: pos_imp_zdiv_nonneg_iff)
  have "uint wei mod 10 ^ 18 \<le> 10 ^ 18 - 1" "0 \<le> uint wei mod 10 ^ 18"
    using pos_mod_bound [of "10 ^ 18" "uint wei"] pos_mod_sign [of "10 ^ 18" "uint wei"] by simp_all
  then have "uint wei mod 10 ^ 18 div 10 ^ 12 \<le> (10 ^ 18 - 1) div 10 ^ 12" by (intro zdiv_mono1) simp_all
  then show "0 \<le> uint wei mod 10 ^ 18 div 10 ^ 12" "uint wei mod 10 ^ 18 div 10 ^ 12 < 1000000" by (simp_all add: pos_imp_zdiv_nonneg_iff)
qed

lemma wei_amount_parts:
  "sint (am_whole (wei_to_briolette_amount wei)) = uint wei div 10 ^ 18"
  "sint (am_fractional (wei_to_briolette_amount wei)) = uint wei mod 10 ^ 18 div 10 ^ 12"
  using wei_bounds [of wei] by (simp_all add: wei_to_briolette_amount_def Let_def sint_ucast_small uint_wei_parts)

text \<open>the amount asked for a deposit is its wei in millionths of an ether, rounded down, in ether, in range;
  withdrawn again it is worth the deposit less the rest below a millionth.\<close>

theorem deposit_amount_exact:
  "amount_ok (wei_to_briolette_amount wei) \<and> am_code (wei_to_briolette_amount wei) = AMOUNT_ETH
    \<and> micros (wei_to_briolette_amount wei) = uint wei div 10 ^ 12
    \<and> amount_to_wei e (wei_to_briolette_amount wei) = Ok (wei - wei mod WEI_PER_MICRO)"
proof -
  let ?a = "wei_to_briolette_amount wei"
  have ok: "amount_ok ?a" and m: "micros ?a = uint wei div 10 ^ 12"
    using micros_parts [of "uint wei"] wei_bounds [of wei] by (simp_all only: amount_ok_def micros_def wei_amount_parts)
  have le: "uint wei div 10 ^ 12 * 10 ^ 12 < 2 ^ 64"
    using uint_bounded [of wei] by (simp add: minus_mod_eq_div_mult [symmetric] minus_less_iff add_strict_increasing2)
  have "word_of_int (uint wei div 10 ^ 12 * 10 ^ 12) = wei - wei mod WEI_PER_MICRO"
  proof -
    have "wei - wei mod WEI_PER_MICRO = wei div WEI_PER_MICRO * WEI_PER_MICRO"
      by (rule minus_mod_eq_div_mult)
    also have "\<dots> = word_of_int (uint (wei div WEI_PER_MICRO) * uint (WEI_PER_MICRO))" by (metis wi_hom_mult word_of_int_uint)
    also have "\<dots> = word_of_int (uint wei div 10 ^ 12 * 10 ^ 12)" by (simp add: uint_div WEI_PER_MICRO_def del: of_int_mult)
    finally show ?thesis by (rule sym)
  qed
  with wei_of_amount [OF ok, of e] le m show ?thesis
    using ok by (simp add: wei_to_briolette_amount_def Let_def)
qed

subsection \<open>With the mint of the repository\<close>

text \<open>The mint's service as the processor sees it, and calls on the world: the mint's side and the contract.\<close>

definition mint_service :: "env \<Rightarrow> u64 \<Rightarrow> (string \<Rightarrow> bool) \<Rightarrow> 's registry_call \<Rightarrow> mint \<Rightarrow> 's mint_call" where
  "mint_service e now uri_ok call m rq s =
     (case get_tokens_impl e now uri_ok call m rq s of (Inl f, s') \<Rightarrow> (None, s') | (Inr toks, s') \<Rightarrow> (Some toks, s'))"

definition mint_in_world :: "'s mint_call \<Rightarrow> ('s \<times> contract) mint_call" where
  "mint_in_world call rq w = (case call rq (fst w) of (r, s) \<Rightarrow> (r, s, snd w))"

definition mark_in_world :: "tx_fate \<Rightarrow> bytes \<Rightarrow> ('s \<times> contract) mark_call" where
  "mark_in_world fate signer i w = (case alloy_mark_deposit_processed fate signer i (snd w) of (r, cn) \<Rightarrow> (r, fst w, cn))"

definition poll_deposits ::
  "bool \<Rightarrow> tx_fate \<Rightarrow> bytes \<Rightarrow> 's mint_call \<Rightarrow> deposit_processor \<times> ticket_registry \<times> 's \<times> contract
    \<Rightarrow> deposit_processor \<times> ticket_registry \<times> 's \<times> contract" where
  "poll_deposits alive fate signer call =
     process_pending_deposits (\<lambda>from w. alloy_get_deposits alive from (snd w)) (mint_in_world call) (mark_in_world fate signer)"

lemma mint_refuses_ether:
  "mint_service e now uri_ok call m \<lparr>gtr_version = VERSION_CURRENT, gtr_amount = Some (wei_to_briolette_amount wei), gtr_tags = [],
      gtr_count = n, gtr_ticket = Some st\<rparr> s = (None, s)"
  by (simp add: mint_service_def get_tokens_impl_def wei_to_briolette_amount_def Let_def AMOUNT_ETH_def TEST_TOKEN_def)

lemma single_deposit_refused:
  "process_single_deposit (mint_in_world (mint_service e now uri_ok call m)) mark n dep (reg, w) = (False, reg, w)"
  by (cases w) (simp add: process_single_deposit_def mint_in_world_def mint_refuses_ether split: option.split)

text \<open>no deposit ever becomes a token. The processor asks for ether, the mint issues test tokens only, so with
  the mint of this repository a poll changes nothing at all: not the token map, not the contract, not the
  registry, not the cursor; the deposits stay in the contract.\<close>

theorem deposits_never_minted:
  "poll_deposits alive fate signer (mint_service e now uri_ok call m) (dc, reg, s, cn) = (dc, reg, s, cn)"
proof -
  have "process_deposits (mint_in_world (mint_service e now uri_ok call m)) mark deps (dc, reg, s, cn) = (dc, reg, s, cn)" for mark deps
    by (induction deps) (simp_all add: single_deposit_refused)
  then show ?thesis by (simp add: poll_deposits_def process_pending_deposits_def split: sum.split)
qed

subsection \<open>With a mint that issues ether\<close>

lemma scanned:
  assumes "scan_deposits cn is = Inr evs" "ev \<in> set evs"
  shows "\<exists>i \<in> set is. de_deposit_id ev = of_nat i \<and> \<not> dp_processed (deposit_at i cn) \<and> dp_amount (deposit_at i cn) < 2 ^ 64
    \<and> de_amount_wei ev = of_nat (dp_amount (deposit_at i cn))"
  using assms
proof (induction "is" arbitrary: evs)
  case (Cons i "is")
  then show ?case
    by (fastforce simp: Let_def and_then_Inr_iff not_le split: if_splits)
qed simp

lemma got_deposit:
  assumes "alloy_get_deposits alive from cn = Inr evs" "ev \<in> set evs"
  shows "unat from \<le> unat (de_deposit_id ev) \<and> \<not> dp_processed (deposit_at (unat (de_deposit_id ev)) cn)
    \<and> dp_amount (deposit_at (unat (de_deposit_id ev)) cn) = unat (de_amount_wei ev)"
proof -
  have scan: "scan_deposits cn [unat from..<cn_next_deposit_id cn] = Inr evs" and next_id: "cn_next_deposit_id cn < 2 ^ 64"
    using assms(1) by (auto simp: alloy_get_deposits_def split: if_splits)
  obtain i where i: "unat from \<le> i" "i < cn_next_deposit_id cn" "de_deposit_id ev = of_nat i" "\<not> dp_processed (deposit_at i cn)"
      "dp_amount (deposit_at i cn) < 2 ^ 64" "de_amount_wei ev = of_nat (dp_amount (deposit_at i cn))"
    using scanned [OF scan assms(2)] by auto
  have "unat (of_nat i :: u64) = i" "unat (of_nat (dp_amount (deposit_at i cn)) :: u64) = dp_amount (deposit_at i cn)"
    using i(2,5) next_id by (simp_all add: unat_of_nat)
  with i show ?thesis by simp
qed

text \<open>a deposit that fails is not tried again once a later one of the same poll succeeds: the cursor moves past
  it, and no later scan reports it, whether or not its ticket is registered by then.\<close>

theorem failed_deposit_is_skipped:
  assumes "get_deposits (dc_last_processed_id dc) w = Inr [d1, d2]" "registry_get (de_ticket_hash d1) reg = None"
    and "process_single_deposit mint_call mark (dc_tokens_per_deposit dc) d2 (reg, w) = (True, reg', w')"
    and "de_deposit_id d1 < de_deposit_id d2" "dc_last_processed_id dc \<le> de_deposit_id d1" "de_deposit_id d2 \<noteq> - 1"
  shows "\<exists>dc'. process_pending_deposits get_deposits mint_call mark (dc, reg, w) = (dc', reg', w')
    \<and> (\<forall>alive cn evs. alloy_get_deposits alive (dc_last_processed_id dc') cn = Inr evs \<longrightarrow> de_deposit_id d1 \<notin> de_deposit_id ` set evs)"
proof -
  let ?dc = "dc\<lparr>dc_last_processed_id := de_deposit_id d2 + 1\<rparr>"
  have "process_single_deposit mint_call mark n d1 (reg, w) = (False, reg, w)" for n
    using assms(2) by (simp add: process_single_deposit_def)
  moreover have "dc_last_processed_id dc \<le> de_deposit_id d2" using assms(4,5) by simp
  ultimately have run: "process_pending_deposits get_deposits mint_call mark (dc, reg, w) = (?dc, reg', w')"
    using assms(1,3) by (simp add: process_pending_deposits_def)
  have "unat (de_deposit_id d2 + 1) = unat (de_deposit_id d2) + 1"
    using assms(6) by (metis Suc_eq_plus1 add.commute add_diff_cancel_right' diff_0 unatSuc)
  then have "unat (de_deposit_id d1) < unat (de_deposit_id d2 + 1)" using assms(4) by (simp add: word_less_nat_alt)
  then have "de_deposit_id d1 \<notin> de_deposit_id ` set evs"
    if "alloy_get_deposits alive (dc_last_processed_id ?dc) cn = Inr evs" for alive cn evs
    using got_deposit [OF that] by fastforce
  with run show ?thesis by blast
qed

definition sample_event :: "nat \<Rightarrow> l1_deposit_event" where
  "sample_event i = \<lparr>de_deposit_id = of_nat i, de_depositor = [], de_amount_wei = 5, de_ticket_hash = [of_nat i], de_block_number = 0\<rparr>"

lemma sample_event_simps [simp]:
  "de_deposit_id (sample_event i) = of_nat i" "de_ticket_hash (sample_event i) = [of_nat i]" "de_amount_wei (sample_event i) = 5"
  by (simp_all add: sample_event_def)

lemma failed_deposit_is_skipped_witness:
  "\<exists>dc' log. process_pending_deposits (\<lambda>_ _. Inr [sample_event 1, sample_event 2])
      (\<lambda>rq log. (Some [sample_test_token], log @ [rq])) (\<lambda>_ w. (Inr (), w)) (deposit_processor_new 1, [[2] \<mapsto> sample_ticket 2 1000], [])
    = (dc', Map.empty, log)
    \<and> (\<forall>alive cn evs. alloy_get_deposits alive (dc_last_processed_id dc') cn = Inr evs \<longrightarrow> 1 \<notin> de_deposit_id ` set evs)"
proof -
  let ?mint = "\<lambda>rq log. (Some [sample_test_token], log @ [rq])" and ?mark = "\<lambda>(_ :: u64) w. (Inr () :: ethereum_error + unit, w)"
  let ?reg = "[[2] \<mapsto> sample_ticket 2 1000] :: ticket_registry" and ?dc = "deposit_processor_new 1"
  obtain log where d2: "process_single_deposit ?mint ?mark (dc_tokens_per_deposit ?dc) (sample_event 2) (?reg, []) = (True, Map.empty, log)"
    by (simp add: process_single_deposit_def registry_get_def registry_remove_def deposit_processor_new_def)
  have "registry_get (de_ticket_hash (sample_event 1)) ?reg = None" by (simp add: registry_get_def)
  from failed_deposit_is_skipped [of "\<lambda>_ _. Inr [sample_event 1, sample_event 2]" ?dc "[]", OF refl this d2]
  show ?thesis by (auto simp: deposit_processor_new_def)
qed

text \<open>tokens are minted before the deposit is marked. When the marking is lost, the next poll mints for the
  same deposit again, while the contract counts the deposit once.\<close>

theorem lost_marking_mints_again:
  assumes dep: "alloy_get_deposits True (dc_last_processed_id dc) cn = Inr [dep]" "de_amount_wei dep \<noteq> 0" "cn_operator cn = signer"
    and st: "registry_get (de_ticket_hash dep) reg = Some st" "toks \<noteq> []"
  shows "\<exists>rq dc' reg' cn'. poll_deposits True Tx_Lost signer (\<lambda>rq log. (Some toks, log @ [rq])) (dc, reg, [], cn) = (dc, reg, [rq], cn)
    \<and> poll_deposits True Tx_Confirmed signer (\<lambda>rq log. (Some toks, log @ [rq])) (dc, reg, [rq], cn) = (dc', reg', [rq, rq], cn')
    \<and> cn_total_minted cn' = cn_total_minted cn + unat (de_amount_wei dep)"
proof -
  let ?i = "unat (de_deposit_id dep)"
  have d: "\<not> dp_processed (deposit_at ?i cn)" "dp_amount (deposit_at ?i cn) = unat (de_amount_wei dep)"
    using got_deposit [OF dep(1)] by simp_all
  then obtain d where "cn_deposits cn ?i = Some d" "dp_amount d = unat (de_amount_wei dep)" "\<not> dp_processed d"
    using dep(2) by (auto simp: deposit_at_def unat_eq_zero split: option.splits)
  then show ?thesis
    using dep st
    by (simp add: poll_deposits_def process_pending_deposits_def process_single_deposit_def mint_in_world_def mark_in_world_def
        alloy_mark_deposit_processed_def send_transaction_def contract_mark_processed_def unat_eq_zero)
qed

lemma lost_marking_mints_again_witness:
  "\<exists>rq dc' reg' cn'. poll_deposits True Tx_Confirmed [1] (\<lambda>rq log. (Some [sample_test_token], log @ [rq])) (deposit_processor_new 1,
      [[3] \<mapsto> sample_ticket 2 1000], [rq], the (contract_deposit [2] 1 5 [3] (the (contract_new [1])))) = (dc', reg', [rq, rq], cn')
    \<and> cn_total_minted cn' = 5"
proof -
  let ?cn = "the (contract_deposit [2] 1 5 [3] (the (contract_new [1])))"
  have "alloy_get_deposits True (dc_last_processed_id (deposit_processor_new 1)) ?cn
      = Inr [\<lparr>de_deposit_id = 0, de_depositor = [2], de_amount_wei = 5, de_ticket_hash = [3], de_block_number = 0\<rparr>]"
    by (simp add: alloy_get_deposits_def contract_deposit_def contract_new_def deposit_processor_new_def deposit_at_def)
  moreover have "cn_operator ?cn = [1]" "cn_total_minted ?cn = 0" by (simp_all add: contract_deposit_def contract_new_def)
  ultimately show ?thesis
    using lost_marking_mints_again [of "deposit_processor_new 1" ?cn _ "[1]" "[[3] \<mapsto> sample_ticket 2 1000]" "sample_ticket 2 1000" "[sample_test_token]"]
    by (fastforce simp: registry_get_def)
qed

subsection \<open>The registry of keys (\<open>key_registry.rs\<close>)\<close>

record key_material =
  km_ttc_group_public_key :: bytes
  km_mint_signing_keys :: "bytes list"
  km_ticket_signing_keys :: "bytes list"
  km_version :: u64

definition key_material_is_valid :: "key_material \<Rightarrow> bool" where
  "key_material_is_valid km \<longleftrightarrow> km_ttc_group_public_key km \<noteq> [] \<and> km_mint_signing_keys km \<noteq> [] \<and> km_ticket_signing_keys km \<noteq> []"

record file_key_registry =
  fr_ttc_gpk_path :: string
  fr_mint_pk_paths :: "string list"
  fr_ticket_pk_paths :: "string list"

text \<open>\<open>collect\<close> of the results of reading the files: the first that fails.\<close>

fun read_keys :: "string \<Rightarrow> (string \<rightharpoonup> bytes) \<Rightarrow> string list \<Rightarrow> string + bytes list" where
  "read_keys what fs [] = Inr []"
| "read_keys what fs (p # ps) =
     (case fs p of None \<Rightarrow> Inl (what @ p) | Some key \<Rightarrow> and_then (read_keys what fs ps) (\<lambda>keys. Inr (key # keys)))"

definition file_load_keys :: "(string \<rightharpoonup> bytes) \<Rightarrow> file_key_registry \<Rightarrow> string + key_material" where
  "file_load_keys fs fr =
     (case fs (fr_ttc_gpk_path fr) of
        None \<Rightarrow> Inl ''read ttc_gpk''
      | Some gpk \<Rightarrow>
          and_then (read_keys ''read mint_pk '' fs (fr_mint_pk_paths fr)) (\<lambda>mint_keys.
          and_then (read_keys ''read ticket_pk '' fs (fr_ticket_pk_paths fr)) (\<lambda>ticket_keys.
          Inr \<lparr>km_ttc_group_public_key = gpk, km_mint_signing_keys = mint_keys, km_ticket_signing_keys = ticket_keys, km_version = 0\<rparr>)))"

definition file_has_changed :: "u64 \<Rightarrow> string + bool" where
  "file_has_changed since = Inr False"

text \<open>The four reads of a load see the contract at four moments, or fail (\<open>None\<close>).\<close>

definition chain_load_keys :: "contract option \<Rightarrow> contract option \<Rightarrow> contract option \<Rightarrow> contract option \<Rightarrow> string + key_material" where
  "chain_load_keys c1 c2 c3 c4 =
     (case c1 of None \<Rightarrow> Inl ''fetch ttc_gpk'' | Some c1 \<Rightarrow>
     (case c2 of None \<Rightarrow> Inl ''fetch mint_keys'' | Some c2 \<Rightarrow>
     (case c3 of None \<Rightarrow> Inl ''fetch ticket_keys'' | Some c3 \<Rightarrow>
     (case c4 of None \<Rightarrow> Inl ''fetch version'' | Some c4 \<Rightarrow>
     (case alloy_get_key_registry_version True c4 of Inl err \<Rightarrow> Inl ''fetch version'' | Inr version \<Rightarrow>
        Inr \<lparr>km_ttc_group_public_key = cn_ttc_group_public_key c1, km_mint_signing_keys = cn_mint_keys c2,
             km_ticket_signing_keys = cn_ticket_keys c3, km_version = version\<rparr>)))))"

definition chain_has_changed :: "contract option \<Rightarrow> u64 \<Rightarrow> string + bool" where
  "chain_has_changed c since =
     (case c of None \<Rightarrow> Inl ''check version''
      | Some c \<Rightarrow> (case alloy_get_key_registry_version True c of Inl err \<Rightarrow> Inl ''check version'' | Inr version \<Rightarrow> Inr (since < version)))"

text \<open>One turn of \<open>key_refresh_loop\<close>: its last version and the shared keys.\<close>

definition key_refresh :: "(u64 \<Rightarrow> string + bool) \<Rightarrow> string + key_material \<Rightarrow> u64 \<times> key_material \<Rightarrow> u64 \<times> key_material" where
  "key_refresh has_changed loaded s =
     (case has_changed (fst s) of
        Inr True \<Rightarrow> (case loaded of Inr material \<Rightarrow> (km_version material, material) | Inl err \<Rightarrow> s)
      | Inr False \<Rightarrow> s
      | Inl err \<Rightarrow> s)"

subsection \<open>The keys follow the contract\<close>

definition keys_of :: "contract \<Rightarrow> key_material" where
  "keys_of cn = \<lparr>km_ttc_group_public_key = cn_ttc_group_public_key cn, km_mint_signing_keys = cn_mint_keys cn,
     km_ticket_signing_keys = cn_ticket_keys cn, km_version = of_nat (cn_key_registry_version cn)\<rparr>"

lemma contract_step_version:
  assumes "contract_step cv cn cn'"
  shows "cn_key_registry_version cn \<le> cn_key_registry_version cn'
    \<and> (cn_key_registry_version cn' = cn_key_registry_version cn \<longrightarrow> keys_of cn' = keys_of cn)"
  using assms by cases (auto simp: contract_defs keys_of_def split: if_splits option.splits)

lemma contract_steps_version:
  assumes "(contract_step cv)\<^sup>*\<^sup>* cn cn'"
  shows "cn_key_registry_version cn \<le> cn_key_registry_version cn'
    \<and> (cn_key_registry_version cn' = cn_key_registry_version cn \<longrightarrow> keys_of cn' = keys_of cn)"
  using assms
proof (induction rule: rtranclp_induct)
  case (step y z)
  from contract_step_version [OF step.hyps(2)] step.IH show ?case by auto
qed simp

lemma version_of_contract:
  assumes "cn_key_registry_version cn < 2 ^ 64"
  shows "alloy_get_key_registry_version True cn = Inr (of_nat (cn_key_registry_version cn))"
    and "unat (of_nat (cn_key_registry_version cn) :: u64) = cn_key_registry_version cn"
  using assms by (simp_all add: alloy_get_key_registry_version_def unat_of_nat)

text \<open>keys that were current stay current: whatever happens to the contract between two turns, a turn whose reads
  succeed and see one state of the contract leaves the keys of that state.\<close>

theorem quiet_refresh_is_current:
  assumes "(contract_step cv)\<^sup>*\<^sup>* cn cn'" "cn_key_registry_version cn' < 2 ^ 64"
  shows "key_refresh (chain_has_changed (Some cn')) (chain_load_keys (Some cn') (Some cn') (Some cn') (Some cn'))
      (km_version (keys_of cn), keys_of cn) = (km_version (keys_of cn'), keys_of cn')"
proof -
  note v = contract_steps_version [OF assms(1)] and w = version_of_contract [OF assms(2)]
  have "cn_key_registry_version cn < 2 ^ 64" using v assms(2) by simp
  note w0 = version_of_contract [OF this]
  show ?thesis
  proof (cases "cn_key_registry_version cn' = cn_key_registry_version cn")
    case True
    then have "keys_of cn' = keys_of cn" using v by simp
    with True show ?thesis by (simp add: key_refresh_def chain_has_changed_def w(1) keys_of_def)
  next
    case False
    then have "(of_nat (cn_key_registry_version cn) :: u64) < of_nat (cn_key_registry_version cn')"
      using v by (simp add: word_less_nat_alt w(2) w0(2))
    then show ?thesis by (simp add: key_refresh_def chain_has_changed_def chain_load_keys_def w(1) keys_of_def)
  qed
qed

lemma quiet_refresh_is_current_witness:
  "\<exists>cn'. contract_add_mint_key [1] (replicate 33 2) (the (contract_new [1])) = Some cn'
    \<and> snd (key_refresh (chain_has_changed (Some cn')) (chain_load_keys (Some cn') (Some cn') (Some cn') (Some cn'))
        (0, keys_of (the (contract_new [1])))) = keys_of cn'"
proof -
  obtain cn' where c: "contract_add_mint_key [1] (replicate 33 2) (the (contract_new [1])) = Some cn'"
    by (simp add: contract_add_mint_key_def contract_new_def)
  have "(contract_step sample_curve)\<^sup>*\<^sup>* (the (contract_new [1])) cn'"
    using c by (intro r_into_rtranclp) (rule contract_step.intros)
  moreover have "cn_key_registry_version cn' < 2 ^ 64" "km_version (keys_of (the (contract_new [1]))) = 0"
    using c by (auto simp: contract_add_mint_key_def contract_new_def keys_of_def)
  ultimately show ?thesis using quiet_refresh_is_current [of sample_curve "the (contract_new [1])" cn'] c by simp
qed

text \<open>a load that overlaps a change of the keys may keep the old keys with the new version. Then no later turn
  repairs it until the contract's keys change once more: here a mint key is removed between the reads.\<close>

theorem torn_refresh_stays_stale:
  assumes "contract_remove_mint_key signer i cn = Some cn'" "cn_key_registry_version cn' < 2 ^ 64" "seen < km_version (keys_of cn')"
    and "cn_key_registry_version later = cn_key_registry_version cn'"
  shows "\<exists>s. key_refresh (chain_has_changed (Some cn')) (chain_load_keys (Some cn) (Some cn) (Some cn') (Some cn')) (seen, km) = s
    \<and> km_mint_signing_keys (snd s) = cn_mint_keys cn \<and> cn_mint_keys cn' \<noteq> cn_mint_keys cn
    \<and> key_refresh (chain_has_changed (Some later)) loaded s = s"
proof -
  note w = version_of_contract [OF assms(2)]
  have "length (cn_mint_keys cn') < length (cn_mint_keys cn)"
    using assms(1) by (auto simp: contract_remove_mint_key_def remove_key_def split: if_splits option.splits)
  then have "cn_mint_keys cn' \<noteq> cn_mint_keys cn" by auto
  moreover have "alloy_get_key_registry_version True later = Inr (of_nat (cn_key_registry_version cn'))"
    using version_of_contract(1) [of later] assms(2,4) by simp
  ultimately show ?thesis using assms(3) w(1)
    by (simp add: key_refresh_def chain_has_changed_def chain_load_keys_def keys_of_def)
qed

lemma torn_refresh_stays_stale_witness:
  "\<exists>cn'. contract_remove_mint_key [1] 0 ((the (contract_new [1]))\<lparr>cn_mint_keys := [[7]]\<rparr>) = Some cn'
    \<and> km_mint_signing_keys (snd (key_refresh (chain_has_changed (Some cn')) (chain_load_keys (Some ((the (contract_new [1]))\<lparr>cn_mint_keys := [[7]]\<rparr>))
        (Some ((the (contract_new [1]))\<lparr>cn_mint_keys := [[7]]\<rparr>)) (Some cn') (Some cn')) (0, keys_of cn'))) = [[7]]"
proof -
  let ?cn = "(the (contract_new [1]))\<lparr>cn_mint_keys := [[7]]\<rparr>"
  obtain cn' where c: "contract_remove_mint_key [1] 0 ?cn = Some cn'" "cn_key_registry_version cn' = 1"
    by (simp add: contract_remove_mint_key_def remove_key_def contract_new_def)
  then have "cn_key_registry_version cn' < 2 ^ 64" "0 < km_version (keys_of cn')" by (simp_all add: keys_of_def)
  from torn_refresh_stays_stale [OF c(1) this refl, of "keys_of cn'" "Inl []"] c(1) show ?thesis by auto
qed

end
