(* ===== verification/Bitcoin.thy ===== *)
theory Bitcoin
  imports Deposits
begin

section \<open>The Bitcoin side of the bridge (\<open>src/bridge/src/bitcoin.rs\<close>, \<open>bitcoin_deposit_processor.rs\<close>, \<open>l1.rs\<close>)\<close>

text \<open>
  The client keeps its withdrawals and processed deposits in memory; the deposits it reports are those a
  node found (in the reference code a list that tests fill). The locks never fail. Heights stay far
  below \<open>2^64\<close>.
\<close>

datatype l1_error = L1_ConnectionFailed | L1_TransactionFailed | L1_EventQueryFailed | L1_ContractError

record l1_chain_deposit =
  cd_deposit_id :: u64
  cd_depositor :: bytes
  cd_amount :: u64
  cd_ticket_hash :: bytes
  cd_block_height :: u64

subsection \<open>Payloads\<close>

definition u64_to_be_bytes :: "u64 \<Rightarrow> bytes" where
  "u64_to_be_bytes w = rev (u64_to_le_bytes w)"

definition u64_from_be_bytes :: "bytes \<Rightarrow> u64" where
  "u64_from_be_bytes bs = of_nat (le_bytes_to_nat (rev bs))"

definition OP_RETURN_PREFIX :: bytes where "OP_RETURN_PREFIX = [0x42, 0x52, 0x49, 1]"

definition encode_epoch_op_return :: "u64 \<Rightarrow> bytes \<Rightarrow> bytes" where
  "encode_epoch_op_return epoch_num data_hash = OP_RETURN_PREFIX @ u64_to_be_bytes epoch_num @ data_hash"

definition decode_epoch_op_return :: "bytes \<Rightarrow> (u64 \<times> bytes) option" where
  "decode_epoch_op_return payload =
     (if length payload \<noteq> 44 then None
      else if take 4 payload \<noteq> OP_RETURN_PREFIX then None
      else Some (u64_from_be_bytes (take 8 (drop 4 payload)), take 32 (drop 12 payload)))"

definition encode_deposit_op_return :: "bytes \<Rightarrow> bytes" where
  "encode_deposit_op_return ticket_hash = [0x42, 0x52, 0x49, 2] @ ticket_hash"

definition decode_deposit_op_return :: "bytes \<Rightarrow> bytes option" where
  "decode_deposit_op_return payload =
     (if length payload \<noteq> 36 then None
      else if take 4 payload \<noteq> [0x42, 0x52, 0x49, 2] then None
      else Some (take 32 (drop 4 payload)))"

definition u32_to_le_bytes :: "u32 \<Rightarrow> bytes" where
  "u32_to_le_bytes w = map (\<lambda>i. ucast (drop_bit (8 * i) w)) [0..<4]"

definition build_deposit_script :: "bytes \<Rightarrow> bytes list \<Rightarrow> u32 \<Rightarrow> bytes" where
  "build_deposit_script operator_pubkey federation_pubkeys threshold =
     [1] @ operator_pubkey @ u32_to_le_bytes threshold @ u32_to_le_bytes (of_nat (length federation_pubkeys)) @ concat federation_pubkeys"

lemma u64_be_roundtrip:
  "u64_from_be_bytes (u64_to_be_bytes w) = w"
  "length bs = 8 \<Longrightarrow> u64_to_be_bytes (u64_from_be_bytes bs) = bs"
proof -
  show "u64_from_be_bytes (u64_to_be_bytes w) = w"
    using tx_id_roundtrip [of w] by (simp add: u64_from_be_bytes_def u64_to_be_bytes_def tx_id_of_def)
  assume len: "length bs = 8"
  have digits: "map (\<lambda>i. of_nat (le_bytes_to_nat cs div 256 ^ i) :: u8) [0..<length cs] = cs" for cs
  proof (induction cs)
    case (Cons b cs)
    have "(of_nat 256 :: u8) = 0" by (simp only: word_of_nat_eq_0_iff) simp
    then have "(of_nat (unat b + 256 * le_bytes_to_nat cs) :: u8) = b" by (simp only: of_nat_add of_nat_mult) simp
    moreover have "(unat b + 256 * le_bytes_to_nat cs) div 256 ^ Suc i = le_bytes_to_nat cs div 256 ^ i" for i
      using unsigned_less [of b, where 'a = nat] by (simp add: div_mult2_eq)
    moreover have "[0..<length (b # cs)] = 0 # map Suc [0..<length cs]" by (simp add: upt_conv_Cons map_Suc_upt del: upt_Suc)
    ultimately show ?case using Cons by (simp del: upt_Suc of_nat_add of_nat_mult add: comp_def)
  qed simp
  have "le_bytes_to_nat cs < 256 ^ length cs" for cs
  proof (induction cs)
    case (Cons b cs)
    then show ?case using unsigned_less [of b, where 'a = nat] by simp
  qed simp
  from this [of "rev bs"] have "unat (of_nat (le_bytes_to_nat (rev bs)) :: u64) = le_bytes_to_nat (rev bs)"
    using len by (simp add: unat_of_nat)
  then have "u64_to_le_bytes (of_nat (le_bytes_to_nat (rev bs))) = rev bs"
    using digits [of "rev bs"] len by (simp add: u64_le_digits del: upt_rec_numeral)
  then show "u64_to_be_bytes (u64_from_be_bytes bs) = bs" by (simp add: u64_to_be_bytes_def u64_from_be_bytes_def)
qed

lemma length_u64_to_be_bytes [simp]: "length (u64_to_be_bytes w) = 8"
  by (simp add: u64_to_be_bytes_def)

lemma decode_epoch_iff: "decode_epoch_op_return p = Some (n, h) \<longleftrightarrow> p = encode_epoch_op_return n h \<and> length h = 32"
proof
  assume "decode_epoch_op_return p = Some (n, h)"
  then have p: "length p = 44" "take 4 p = OP_RETURN_PREFIX" "n = u64_from_be_bytes (take 8 (drop 4 p))" "h = drop 12 p"
    by (auto simp: decode_epoch_op_return_def split: if_splits)
  have "p = take 4 p @ take 8 (drop 4 p) @ drop 12 p"
    using append_take_drop_id [of 8 "drop 4 p"] by (simp only: drop_drop) simp
  with p show "p = encode_epoch_op_return n h \<and> length h = 32" by (simp add: encode_epoch_op_return_def u64_be_roundtrip(2))
qed (auto simp: decode_epoch_op_return_def encode_epoch_op_return_def OP_RETURN_PREFIX_def u64_be_roundtrip(1) drop_Cons')

lemma decode_deposit_iff: "decode_deposit_op_return p = Some t \<longleftrightarrow> p = encode_deposit_op_return t \<and> length t = 32"
proof
  assume "decode_deposit_op_return p = Some t"
  then have "length p = 36" "take 4 p = [0x42, 0x52, 0x49, 2]" "t = drop 4 p"
    by (auto simp: decode_deposit_op_return_def split: if_splits)
  then show "p = encode_deposit_op_return t \<and> length t = 32"
    using append_take_drop_id [of 4 p] by (simp add: encode_deposit_op_return_def)
qed (auto simp: decode_deposit_op_return_def encode_deposit_op_return_def)

text \<open>the payloads of the two kinds of \<open>OP_RETURN\<close> output decode to exactly what was encoded, nothing else decodes,
  and neither kind is taken for the other.\<close>

theorem op_return_roundtrip:
  "(decode_epoch_op_return p = Some (n, h) \<longleftrightarrow> p = encode_epoch_op_return n h \<and> length h = 32)
    \<and> (decode_deposit_op_return p = Some t \<longleftrightarrow> p = encode_deposit_op_return t \<and> length t = 32)
    \<and> (decode_epoch_op_return p = None \<or> decode_deposit_op_return p = None)"
  by (simp add: decode_epoch_iff decode_deposit_iff) (simp add: decode_epoch_op_return_def decode_deposit_op_return_def)

subsection \<open>The client\<close>

datatype bitcoin_network = Mainnet | Testnet | Signet | Regtest

record bitcoin_config =
  bt_rpc_url :: string
  bt_rpc_auth :: string
  bt_network :: bitcoin_network
  bt_operator_pubkey :: bytes
  bt_federation_pubkeys :: "bytes list"
  bt_federation_threshold :: u32
  bt_min_confirmations :: u32

definition MIN_DEPOSIT_CONFIRMATIONS :: u32 where "MIN_DEPOSIT_CONFIRMATIONS = 6"
definition CHALLENGE_PERIOD_BLOCKS :: u32 where "CHALLENGE_PERIOD_BLOCKS = 1008"

definition bitcoin_config_default :: bitcoin_config where
  "bitcoin_config_default = \<lparr>bt_rpc_url = ''http://127.0.0.1:8332'', bt_rpc_auth = [], bt_network = Regtest,
     bt_operator_pubkey = zero_bytes 32, bt_federation_pubkeys = [], bt_federation_threshold = 1,
     bt_min_confirmations = MIN_DEPOSIT_CONFIRMATIONS\<rparr>"

record deposit_utxo =
  ut_txid :: bytes
  ut_vout :: u32
  ut_amount_sats :: u64
  ut_ticket_hash :: bytes
  ut_block_height :: u64
  ut_confirmations :: u32

record pending_withdrawal =
  pw_recipient_script :: bytes
  pw_amount_sats :: u64
  pw_initiated_height :: u64
  pw_txid :: bytes
  pw_state :: l1_withdrawal_state

record bitcoin_client =
  bc_config :: bitcoin_config
  bc_processed_deposits :: "u64 \<rightharpoonup> bool"
  bc_withdrawals :: "pending_withdrawal list"
  bc_deposits :: "deposit_utxo list"
  bc_height :: u64

definition bitcoin_client_new :: "bitcoin_config \<Rightarrow> bitcoin_client" where
  "bitcoin_client_new config = \<lparr>bc_config = config, bc_processed_deposits = Map.empty, bc_withdrawals = [], bc_deposits = [], bc_height = 0\<rparr>"

definition deposit_script :: "bitcoin_client \<Rightarrow> bytes" where
  "deposit_script bc = build_deposit_script (bt_operator_pubkey (bc_config bc)) (bt_federation_pubkeys (bc_config bc))
     (bt_federation_threshold (bc_config bc))"

definition bitcoin_scan_deposits :: "u64 \<Rightarrow> bitcoin_client \<Rightarrow> deposit_utxo list" where
  "bitcoin_scan_deposits from_height bc =
     filter (\<lambda>d. bt_min_confirmations (bc_config bc) \<le> ut_confirmations d) (filter (\<lambda>d. from_height \<le> ut_block_height d) (bc_deposits bc))"

definition bitcoin_get_deposits :: "u64 \<Rightarrow> bitcoin_client \<Rightarrow> l1_chain_deposit list" where
  "bitcoin_get_deposits from_cursor bc =
     map (\<lambda>(i, u). \<lparr>cd_deposit_id = from_cursor + of_nat i, cd_depositor = ut_txid u, cd_amount = ut_amount_sats u,
                    cd_ticket_hash = ut_ticket_hash u, cd_block_height = ut_block_height u\<rparr>)
       (enumerate 0 (bitcoin_scan_deposits from_cursor bc))"

definition bitcoin_mark_deposit_processed :: "u64 \<Rightarrow> bitcoin_client \<Rightarrow> bitcoin_client" where
  "bitcoin_mark_deposit_processed deposit_id bc = bc\<lparr>bc_processed_deposits := (bc_processed_deposits bc)(deposit_id \<mapsto> True)\<rparr>"

definition construct_withdrawal :: "u64 \<Rightarrow> bitcoin_client \<Rightarrow> bytes" where
  "construct_withdrawal amount_sats bc = u64_to_be_bytes (bc_height bc) @ u64_to_be_bytes amount_sats @ zero_bytes 16"

definition bitcoin_initiate_withdrawal :: "bytes \<Rightarrow> u64 \<Rightarrow> bitcoin_client \<Rightarrow> (u64 \<times> bytes) \<times> bitcoin_client" where
  "bitcoin_initiate_withdrawal recipient amount bc =
     (let txid = construct_withdrawal amount bc; wid = of_nat (length (bc_withdrawals bc))
      in ((wid, txid), bc\<lparr>bc_withdrawals := bc_withdrawals bc @ [\<lparr>pw_recipient_script = recipient, pw_amount_sats = amount,
            pw_initiated_height = bc_height bc, pw_txid = txid, pw_state = Pending\<rparr>]\<rparr>))"

definition bitcoin_get_withdrawal_state :: "u64 \<Rightarrow> bitcoin_client \<Rightarrow> l1_error + l1_withdrawal_state" where
  "bitcoin_get_withdrawal_state wid bc =
     (if unat wid < length (bc_withdrawals bc) then
        let w = bc_withdrawals bc ! unat wid in
        if pw_state w = Challenged then Inr Challenged
        else if pw_initiated_height w + ucast CHALLENGE_PERIOD_BLOCKS \<le> bc_height bc then Inr Completed
        else Inr Pending
      else Inl L1_ContractError)"

definition broadcast_op_return :: "(bytes \<Rightarrow> bytes) \<Rightarrow> bytes \<Rightarrow> l1_error + bytes" where
  "broadcast_op_return sha payload = (if 80 < length payload then Inl L1_TransactionFailed else Inr (sha payload))"

definition bitcoin_publish_epoch :: "(bytes \<Rightarrow> bytes) \<Rightarrow> u64 \<Rightarrow> bytes \<Rightarrow> l1_error + bytes" where
  "bitcoin_publish_epoch sha epoch_num data_hash = broadcast_op_return sha (encode_epoch_op_return epoch_num data_hash)"

subsection \<open>The processor\<close>

definition SATS_PER_WHOLE :: u64 where "SATS_PER_WHOLE = 100000000"
definition SATS_PER_MICRO :: u64 where "SATS_PER_MICRO = 100"

definition sats_to_briolette_amount :: "u64 \<Rightarrow> amount" where
  "sats_to_briolette_amount sats =
     (let whole = ucast (sats div SATS_PER_WHOLE); remainder = sats mod SATS_PER_WHOLE;
          fractional = ucast (remainder div SATS_PER_MICRO)
      in \<lparr>am_whole = whole, am_fractional = fractional, am_code = 2\<rparr>)"

record bitcoin_processor =
  bp_tokens_per_deposit :: u32
  bp_last_scanned_height :: u64

definition bitcoin_processor_new :: "u32 \<Rightarrow> bitcoin_processor" where
  "bitcoin_processor_new tokens_per_deposit = \<lparr>bp_tokens_per_deposit = tokens_per_deposit, bp_last_scanned_height = 0\<rparr>"

text \<open>The client is in memory, so marking does not fail.\<close>

definition bitcoin_process_single ::
  "'m mint_call \<Rightarrow> u32 \<Rightarrow> l1_chain_deposit \<Rightarrow> ticket_registry \<times> 'm \<times> bitcoin_client \<Rightarrow> bool \<times> ticket_registry \<times> 'm \<times> bitcoin_client" where
  "bitcoin_process_single mint_call tokens_per_deposit dep s =
     (case s of (reg, w, bc) \<Rightarrow>
        (case registry_get (cd_ticket_hash dep) reg of
           None \<Rightarrow> (False, reg, w, bc)
         | Some st \<Rightarrow>
             (case mint_call \<lparr>gtr_version = VERSION_CURRENT, gtr_amount = Some (sats_to_briolette_amount (cd_amount dep)),
                              gtr_tags = [], gtr_count = tokens_per_deposit, gtr_ticket = Some st\<rparr> w of
                (None, w1) \<Rightarrow> (False, reg, w1, bc)
              | (Some toks, w1) \<Rightarrow>
                  if toks = [] then (False, reg, w1, bc)
                  else (True, snd (registry_remove (cd_ticket_hash dep) reg), w1,
                        bitcoin_mark_deposit_processed (cd_deposit_id dep) bc))))"

fun bitcoin_process_deposits ::
  "'m mint_call \<Rightarrow> l1_chain_deposit list \<Rightarrow> bitcoin_processor \<times> ticket_registry \<times> 'm \<times> bitcoin_client
    \<Rightarrow> bitcoin_processor \<times> ticket_registry \<times> 'm \<times> bitcoin_client" where
  "bitcoin_process_deposits mint_call [] s = s"
| "bitcoin_process_deposits mint_call (dep # deps) (bp, s) =
     (let (ok, s') = bitcoin_process_single mint_call (bp_tokens_per_deposit bp) dep s;
          bp' = (if ok \<and> bp_last_scanned_height bp \<le> cd_block_height dep
                 then bp\<lparr>bp_last_scanned_height := cd_block_height dep + 1\<rparr> else bp)
      in bitcoin_process_deposits mint_call deps (bp', s'))"

definition bitcoin_process_pending ::
  "'m mint_call \<Rightarrow> bitcoin_processor \<times> ticket_registry \<times> 'm \<times> bitcoin_client \<Rightarrow> bitcoin_processor \<times> ticket_registry \<times> 'm \<times> bitcoin_client" where
  "bitcoin_process_pending mint_call s =
     (case s of (bp, reg, w, bc) \<Rightarrow> bitcoin_process_deposits mint_call (bitcoin_get_deposits (bp_last_scanned_height bp) bc) s)"

subsection \<open>Amounts\<close>

lemma int_div_mod_hundred: "(x :: int) div 100000000 * 1000000 + x mod 100000000 div 100 = x div 100"
proof -
  have "x div 100 = (x div 100000000 * 100000000 + x mod 100000000) div 100" by (simp only: div_mult_mod_eq)
  also have "\<dots> = (x mod 100000000 + x div 100000000 * 1000000 * 100) div 100" by (simp add: mult.assoc add.commute)
  also have "\<dots> = x div 100000000 * 1000000 + x mod 100000000 div 100" by (subst div_mult_self1) simp_all
  finally show ?thesis by simp
qed

text \<open>the amount asked for a deposit of satoshis is its value in millionths of a bitcoin, rounded down, for every
  amount below \<open>2^31\<close> bitcoin, which is above the supply.\<close>

theorem sats_amount_exact:
  assumes "uint sats < 2 ^ 31 * 10 ^ 8"
  shows "amount_ok (sats_to_briolette_amount sats) \<and> micros (sats_to_briolette_amount sats) = uint sats div 100"
proof -
  have b: "uint sats div 100000000 < 2 ^ 31" "uint sats mod 100000000 div 100 < 1000000"
    "0 \<le> uint sats mod 100000000 div 100" "0 \<le> uint sats div 100000000"
    using assms by (simp_all add: pos_imp_zdiv_nonneg_iff)
  have "uint (sats div SATS_PER_WHOLE) = uint sats div 100000000" "uint (sats mod SATS_PER_WHOLE div SATS_PER_MICRO) = uint sats mod 100000000 div 100"
    by (simp_all add: uint_div uint_mod SATS_PER_WHOLE_def SATS_PER_MICRO_def)
  then have "sint (am_whole (sats_to_briolette_amount sats)) = uint sats div 100000000"
      "sint (am_fractional (sats_to_briolette_amount sats)) = uint sats mod 100000000 div 100"
    using b by (simp_all add: sats_to_briolette_amount_def Let_def sint_ucast_small)
  then show ?thesis using b int_div_mod_hundred [of "uint sats"] by (simp only: amount_ok_def micros_def)
qed

lemma sats_amount_exact_witness: "micros (sats_to_briolette_amount 546) = 5"
  using sats_amount_exact [of 546] by simp

subsection \<open>Deposits that are lost, deposits that return\<close>

text \<open>one deposit that succeeds hides every other deposit up to its block: the ones that failed before it, in the
  same block as well, are below the new cursor, and no later scan reports a deposit at their height.\<close>

theorem bitcoin_failed_deposit_is_lost:
  assumes "bitcoin_get_deposits (bp_last_scanned_height bp) bc = [d1, d2]" "registry_get (cd_ticket_hash d1) reg = None"
    and "bitcoin_process_single mint_call (bp_tokens_per_deposit bp) d2 (reg, w, bc) = (True, s')"
    and "cd_block_height d1 \<le> cd_block_height d2" "cd_block_height d2 \<noteq> - 1"
  shows "\<exists>bp'. bitcoin_process_pending mint_call (bp, reg, w, bc) = (bp', s')
    \<and> (\<forall>later. \<forall>d \<in> set (bitcoin_get_deposits (bp_last_scanned_height bp') later). cd_block_height d1 < cd_block_height d)"
proof -
  let ?bp = "bp\<lparr>bp_last_scanned_height := cd_block_height d2 + 1\<rparr>"
  have from_cursor: "c \<le> cd_block_height d" if d: "d \<in> set (bitcoin_get_deposits c later)" for c d later
  proof -
    obtain i u where "(i, u) \<in> set (enumerate 0 (bitcoin_scan_deposits c later))" "cd_block_height d = ut_block_height u"
      using d by (auto simp: bitcoin_get_deposits_def)
    then have "u \<in> set (bitcoin_scan_deposits c later)" by (metis add_0_right diff_zero fst_conv in_set_enumerate_eq nth_mem snd_conv)
    with \<open>cd_block_height d = ut_block_height u\<close> show ?thesis by (simp add: bitcoin_scan_deposits_def)
  qed
  have "bitcoin_process_single mint_call n d1 (reg, w, bc) = (False, reg, w, bc)" for n
    using assms(2) by (simp add: bitcoin_process_single_def)
  moreover have "bp_last_scanned_height bp \<le> cd_block_height d2" using from_cursor [where later = bc and c = "bp_last_scanned_height bp" and d = d2] assms(1) by simp
  ultimately have "bitcoin_process_pending mint_call (bp, reg, w, bc) = (?bp, s')"
    using assms(1,3) by (cases s') (simp add: bitcoin_process_pending_def)
  moreover have "unat (cd_block_height d2 + 1) = unat (cd_block_height d2) + 1"
    using assms(5) by (metis Suc_eq_plus1 add.commute add_diff_cancel_right' diff_0 unatSuc)
  then have "cd_block_height d1 < cd_block_height d2 + 1" using assms(4) by (simp add: word_less_nat_alt word_le_nat_alt)
  ultimately show ?thesis using from_cursor by (intro exI [of _ ?bp]) fastforce
qed

definition sample_utxo :: "u8 \<Rightarrow> deposit_utxo" where
  "sample_utxo n = \<lparr>ut_txid = [n], ut_vout = 0, ut_amount_sats = 500, ut_ticket_hash = [n], ut_block_height = 9, ut_confirmations = 6\<rparr>"

definition sample_bitcoin :: bitcoin_client where
  "sample_bitcoin = (bitcoin_client_new bitcoin_config_default)\<lparr>bc_deposits := [sample_utxo 1, sample_utxo 2]\<rparr>"

lemma bitcoin_failed_deposit_is_lost_witness:
  "\<exists>bp' s'. bitcoin_process_pending (\<lambda>rq log. (Some [sample_test_token], log @ [rq]))
      (bitcoin_processor_new 1, [[2] \<mapsto> sample_ticket 2 1000], [], sample_bitcoin) = (bp', s')
    \<and> (\<forall>later. \<forall>d \<in> set (bitcoin_get_deposits (bp_last_scanned_height bp') later). 9 < cd_block_height d)"
proof -
  let ?mint = "\<lambda>rq log. (Some [sample_test_token], log @ [rq])" and ?reg = "[[2] \<mapsto> sample_ticket 2 1000] :: ticket_registry"
  obtain d1 d2 where d: "bitcoin_get_deposits (bp_last_scanned_height (bitcoin_processor_new 1)) sample_bitcoin = [d1, d2]"
    "cd_ticket_hash d1 = [1]" "cd_ticket_hash d2 = [2]" "cd_block_height d1 = 9" "cd_block_height d2 = 9"
    by (simp add: bitcoin_get_deposits_def bitcoin_scan_deposits_def sample_bitcoin_def sample_utxo_def bitcoin_client_new_def
        bitcoin_config_default_def MIN_DEPOSIT_CONFIRMATIONS_def bitcoin_processor_new_def)
  obtain s' where "bitcoin_process_single ?mint (bp_tokens_per_deposit (bitcoin_processor_new 1)) d2 (?reg, [], sample_bitcoin) = (True, s')"
    by (simp add: bitcoin_process_single_def registry_get_def d)
  from bitcoin_failed_deposit_is_lost [OF d(1) _ this] d show ?thesis by (cases s') (simp add: registry_get_def, blast)
qed

text \<open>the marks of processed deposits are never read: whatever was marked, a processor that starts again reports
  the same deposits, and mints for those whose tickets are registered again.\<close>

theorem marks_are_ignored:
  "bitcoin_get_deposits from (foldr bitcoin_mark_deposit_processed ids bc) = bitcoin_get_deposits from bc
    \<and> bp_last_scanned_height (bitcoin_processor_new n) = 0"
proof -
  have "bc_deposits (foldr bitcoin_mark_deposit_processed ids bc) = bc_deposits bc
      \<and> bc_config (foldr bitcoin_mark_deposit_processed ids bc) = bc_config bc"
    by (induction ids) (simp_all add: bitcoin_mark_deposit_processed_def)
  then show ?thesis by (simp add: bitcoin_get_deposits_def bitcoin_scan_deposits_def bitcoin_processor_new_def)
qed

subsection \<open>The life of a withdrawal\<close>

inductive bitcoin_step :: "bitcoin_client \<Rightarrow> bitcoin_client \<Rightarrow> bool" where
  "bitcoin_step bc (bitcoin_mark_deposit_processed i bc)"
| "bitcoin_initiate_withdrawal recipient amount bc = (r, bc') \<Longrightarrow> bitcoin_step bc bc'"
| "bc_height bc \<le> h \<Longrightarrow> bitcoin_step bc (bc\<lparr>bc_height := h\<rparr>)"
| "bitcoin_step bc (bc\<lparr>bc_deposits := ds\<rparr>)"

lemma bitcoin_steps_keep:
  assumes "bitcoin_step\<^sup>*\<^sup>* bc bc'"
  shows "\<exists>more. bc_withdrawals bc' = bc_withdrawals bc @ more"
  using assms
proof (induction rule: rtranclp_induct)
  case (step y z)
  from step.hyps(2) have "\<exists>more. bc_withdrawals z = bc_withdrawals y @ more"
    by cases (auto simp: bitcoin_mark_deposit_processed_def bitcoin_initiate_withdrawal_def Let_def)
  with step.IH show ?case by auto
qed simp

text \<open>a withdrawal once initiated is pending for 1008 blocks and completed from then on, in every later state of
  the client. Nothing can challenge it: the state \<open>Challenged\<close> is never entered.\<close>

theorem bitcoin_withdrawal_completes:
  assumes "bitcoin_initiate_withdrawal recipient amount bc = ((wid, txid), bc1)" "bitcoin_step\<^sup>*\<^sup>* bc1 bc2"
    and "length (bc_withdrawals bc) < 2 ^ 64" "unat (bc_height bc) + 1008 < 2 ^ 64"
  shows "bitcoin_get_withdrawal_state wid bc2 =
    Inr (if unat (bc_height bc) + 1008 \<le> unat (bc_height bc2) then Completed else Pending)"
proof -
  obtain more where w: "bc_withdrawals bc2 = bc_withdrawals bc @ \<lparr>pw_recipient_script = recipient, pw_amount_sats = amount,
      pw_initiated_height = bc_height bc, pw_txid = txid, pw_state = Pending\<rparr> # more"
    using bitcoin_steps_keep [OF assms(2)] assms(1) by (auto simp: bitcoin_initiate_withdrawal_def Let_def)
  have "unat wid = length (bc_withdrawals bc)"
    using assms(1,3) by (auto simp: bitcoin_initiate_withdrawal_def Let_def unat_of_nat)
  moreover have "unat (bc_height bc + ucast CHALLENGE_PERIOD_BLOCKS) = unat (bc_height bc) + 1008"
    using assms(4) by (simp add: unat_word_ariths CHALLENGE_PERIOD_BLOCKS_def)
  ultimately show ?thesis
    by (simp add: bitcoin_get_withdrawal_state_def w Let_def nth_append word_le_nat_alt)
qed

lemma bitcoin_withdrawal_completes_witness:
  "\<exists>bc1 txid. bitcoin_initiate_withdrawal [5] 700 sample_bitcoin = ((0, txid), bc1)
    \<and> bitcoin_get_withdrawal_state 0 (bc1\<lparr>bc_height := 1008\<rparr>) = Inr Completed"
proof -
  obtain bc1 txid where b: "bitcoin_initiate_withdrawal [5] 700 sample_bitcoin = ((0, txid), bc1)" "bc_height bc1 = 0"
    by (simp add: bitcoin_initiate_withdrawal_def sample_bitcoin_def bitcoin_client_new_def Let_def)
  have "bitcoin_step\<^sup>*\<^sup>* bc1 (bc1\<lparr>bc_height := 1008\<rparr>)" using b(2) by (intro r_into_rtranclp bitcoin_step.intros) simp
  from bitcoin_withdrawal_completes [OF b(1) this] b(1) show ?thesis by (simp add: sample_bitcoin_def bitcoin_client_new_def)
qed

end
