(* ===== verification/A2A.thy ===== *)
theory A2A
  imports Receiver "HOL-Library.Multiset"
begin

section \<open>The agent protocol server (\<open>a2a/src\<close>)\<close>

text \<open>
  \<open>types.rs\<close>, \<open>task_manager.rs\<close>, \<open>routes.rs\<close>: an agent pays through tasks over JSON-RPC. A new task opens a
  transaction of the receiver, the next message proposes tokens and the one after delivers them. JSON values
  are the type \<open>'j\<close>, and what serde does with them the fields of \<open>json_lib\<close>. The receiver is awaited
  between the reading of a task and the writing of its new status; the halves are definitions of their own,
  and \<open>a2a_step\<close> interleaves them with everything else.
\<close>

subsection \<open>Types\<close>

datatype task_state = Submitted | Working | InputRequired | Completed | Failed | Canceled

datatype message_role = User | Agent

datatype 'j part = Text string | Data 'j "(string \<rightharpoonup> 'j) option"

record 'j message =
  ms_role :: message_role
  ms_parts :: "'j part list"
  ms_metadata :: "(string \<rightharpoonup> 'j) option"

record 'j artifact =
  af_name :: "string option"
  af_description :: "string option"
  af_parts :: "'j part list"
  af_index :: u32
  af_metadata :: "(string \<rightharpoonup> 'j) option"

record 'j task_status =
  ts_state :: task_state
  ts_message :: "'j message option"

record 'j task =
  tk_id :: string
  tk_status :: "'j task_status"
  tk_artifacts :: "'j artifact list"
  tk_history :: "'j message list"
  tk_metadata :: "(string \<rightharpoonup> 'j) option"

record 'j task_send_params =
  sp_id :: "string option"
  sp_message :: "'j message"
  sp_metadata :: "(string \<rightharpoonup> 'j) option"

record task_get_params =
  gp_id :: string
  gp_history_length :: "u32 option"

record task_cancel_params =
  cp_id :: string

record 'j json_rpc_error =
  je_code :: i32
  je_message :: string
  je_data :: "'j option"

record 'j json_rpc_request =
  jq_jsonrpc :: string
  jq_method :: string
  jq_id :: 'j
  jq_params :: 'j

record 'j json_rpc_response =
  jr_jsonrpc :: string
  jr_id :: 'j
  jr_result :: "'j option"
  jr_error :: "'j json_rpc_error option"

definition INVALID_REQUEST :: i32 where "INVALID_REQUEST = - 32600"
definition METHOD_NOT_FOUND :: i32 where "METHOD_NOT_FOUND = - 32601"
definition INVALID_PARAMS :: i32 where "INVALID_PARAMS = - 32602"
definition INTERNAL_ERROR :: i32 where "INTERNAL_ERROR = - 32603"
definition TASK_NOT_FOUND :: i32 where "TASK_NOT_FOUND = - 32001"
definition TASK_NOT_CANCELABLE :: i32 where "TASK_NOT_CANCELABLE = - 32002"

definition response_success :: "'j \<Rightarrow> 'j \<Rightarrow> 'j json_rpc_response" where
  "response_success i r = \<lparr>jr_jsonrpc = ''2.0'', jr_id = i, jr_result = Some r, jr_error = None\<rparr>"

definition response_error :: "'j \<Rightarrow> i32 \<Rightarrow> string \<Rightarrow> 'j json_rpc_response" where
  "response_error i code msg = \<lparr>jr_jsonrpc = ''2.0'', jr_id = i, jr_result = None,
     jr_error = Some \<lparr>je_code = code, je_message = msg, je_data = None\<rparr>\<rparr>"

text \<open>The \<open>tokens\<close> array of a value, a token of a value, the two values the server builds, the
  parameters of the three methods, a task as a value, and the debug text of an error code.\<close>

record 'j json_lib =
  js_tokens :: "'j \<Rightarrow> 'j list option"
  js_token :: "'j \<Rightarrow> string + token"
  js_payment_details :: "bytes \<Rightarrow> transaction_item list \<Rightarrow> 'j"
  js_receipt :: "string \<Rightarrow> 'j"
  js_send_params :: "'j \<Rightarrow> string + 'j task_send_params"
  js_get_params :: "'j \<Rightarrow> string + task_get_params"
  js_cancel_params :: "'j \<Rightarrow> string + task_cancel_params"
  js_task :: "'j task \<Rightarrow> 'j"
  js_show :: "error_code \<Rightarrow> string"

subsection \<open>The task manager\<close>

record 'j task_record =
  tr_task :: "'j task"
  tr_tx_id :: "bytes option"
  tr_items :: "transaction_item list"
  tr_ticket :: "signed_ticket option"

record 'j task_manager =
  tg_receiver :: receiver
  tg_tasks :: "string \<rightharpoonup> 'j task_record"

definition task_manager_new :: "receiver \<Rightarrow> 'j task_manager" where
  "task_manager_new rx = \<lparr>tg_receiver = rx, tg_tasks = Map.empty\<rparr>"

text \<open>A call ends with an error for the caller or with a panic of its task.\<close>

datatype 'j rpc_failure = Json_Error "'j json_rpc_error" | Crashed

abbreviation json_error :: "i32 \<Rightarrow> string \<Rightarrow> 'j rpc_failure + 'a" where
  "json_error code msg \<equiv> Inl (Json_Error \<lparr>je_code = code, je_message = msg, je_data = None\<rparr>)"

abbreviation task_not_found :: "string \<Rightarrow> 'j rpc_failure + 'a" where
  "task_not_found i \<equiv> json_error TASK_NOT_FOUND (''Task '' @ i @ '' not found'')"

definition agent_status :: "task_state \<Rightarrow> string \<Rightarrow> 'j task_status" where
  "agent_status st msg = \<lparr>ts_state = st,
     ts_message = Some \<lparr>ms_role = Agent, ms_parts = [Text msg], ms_metadata = None\<rparr>\<rparr>"

definition terminal :: "task_state \<Rightarrow> bool" where
  "terminal st \<longleftrightarrow> st = Completed \<or> st = Failed \<or> st = Canceled"

definition task_get :: "task_get_params \<Rightarrow> 'j task_manager \<Rightarrow> 'j rpc_failure + 'j task" where
  "task_get params mgr =
     (case tg_tasks mgr (gp_id params) of
        None \<Rightarrow> task_not_found (gp_id params)
      | Some r \<Rightarrow>
          let task = tr_task r in
          (case gp_history_length params of
             None \<Rightarrow> Inr task
           | Some m \<Rightarrow>
               let max_len = unat m in
               if max_len < length (tk_history task)
               then Inr (task\<lparr>tk_history := drop (length (tk_history task) - max_len) (tk_history task)\<rparr>)
               else Inr task))"

definition task_cancel :: "task_cancel_params \<Rightarrow> 'j task_manager \<Rightarrow> ('j rpc_failure + 'j task) \<times> 'j task_manager" where
  "task_cancel params mgr =
     (case tg_tasks mgr (cp_id params) of
        None \<Rightarrow> (task_not_found (cp_id params), mgr)
      | Some r \<Rightarrow>
          if terminal (ts_state (tk_status (tr_task r)))
          then (json_error TASK_NOT_CANCELABLE ''Task is already in a terminal state'', mgr)
          else let task = (tr_task r)\<lparr>tk_status := agent_status Canceled ''Payment canceled''\<rparr> in
            (Inr task, mgr\<lparr>tg_tasks := (tg_tasks mgr)(cp_id params \<mapsto> r\<lparr>tr_task := task\<rparr>)\<rparr>))"

text \<open>An awaited call of the receiver, its errors under a heading.\<close>

definition receiver_call ::
  "'j json_lib \<Rightarrow> string \<Rightarrow> (receiver \<Rightarrow> 'a result \<times> receiver) \<Rightarrow> 'j task_manager
    \<Rightarrow> ('j rpc_failure + 'a) \<times> 'j task_manager" where
  "receiver_call js heading f mgr =
     (case f (tg_receiver mgr) of
        (Inr x, rx) \<Rightarrow> (Inr x, mgr\<lparr>tg_receiver := rx\<rparr>)
      | (Inl (Fail c), rx) \<Rightarrow> (json_error INTERNAL_ERROR (heading @ js_show js c), mgr\<lparr>tg_receiver := rx\<rparr>)
      | (Inl Panic, rx) \<Rightarrow> (Inl Crashed, mgr\<lparr>tg_receiver := rx\<rparr>))"

definition initiate_default :: initiate_request where
  "initiate_default = \<lparr>irq_version = 0, irq_epoch = None, irq_epoch_signature = []\<rparr>"

text \<open>\<open>task_id\<close> is the fresh UUID.\<close>

definition create_task ::
  "'j json_lib \<Rightarrow> string \<Rightarrow> 'j message \<Rightarrow> socket_addr option \<Rightarrow> 'j task_manager
    \<Rightarrow> ('j rpc_failure + 'j task) \<times> 'j task_manager" where
  "create_task js task_id msg peer mgr =
     (case receiver_call js ''Initiation failed: '' (initiate_impl initiate_default peer) mgr of
        (Inl err, mgr) \<Rightarrow> (Inl err, mgr)
      | (Inr reply, mgr) \<Rightarrow>
          let task = \<lparr>tk_id = task_id,
                tk_status = agent_status InputRequired ''Payment session initiated. Please provide tokens to settle.'',
                tk_artifacts = [\<lparr>af_name = Some ''payment-request'',
                  af_description = Some ''Payment details and recipient ticket'',
                  af_parts = [Data (js_payment_details js (irp_tx_id reply) (irp_items reply)) None],
                  af_index = 0, af_metadata = None\<rparr>],
                tk_history = [msg], tk_metadata = None\<rparr> in
          (Inr task, mgr\<lparr>tg_tasks := (tg_tasks mgr)(task_id \<mapsto>
             \<lparr>tr_task = task, tr_tx_id = Some (irp_tx_id reply), tr_items = irp_items reply, tr_ticket = irp_ticket reply\<rparr>)\<rparr>))"

fun parse_tokens :: "'j json_lib \<Rightarrow> 'j list \<Rightarrow> 'j rpc_failure + token list" where
  "parse_tokens js [] = Inr []"
| "parse_tokens js (v # vs) =
     (case js_token js v of
        Inl err \<Rightarrow> json_error INVALID_PARAMS (''Failed to parse token: '' @ err)
      | Inr tok \<Rightarrow> and_then (parse_tokens js vs) (\<lambda>toks. Inr (tok # toks)))"

fun extract_from_parts :: "'j json_lib \<Rightarrow> 'j part list \<Rightarrow> 'j rpc_failure + token list" where
  "extract_from_parts js [] = json_error INVALID_PARAMS ''Message must contain a data part with a 'tokens' array''"
| "extract_from_parts js (Text t # parts) = extract_from_parts js parts"
| "extract_from_parts js (Data d m # parts) =
     (case js_tokens js d of Some vs \<Rightarrow> parse_tokens js vs | None \<Rightarrow> extract_from_parts js parts)"

definition extract_tokens :: "'j json_lib \<Rightarrow> 'j message \<Rightarrow> 'j rpc_failure + token list" where
  "extract_tokens js msg = extract_from_parts js (ms_parts msg)"

text \<open>The halves of \<open>handle_transact\<close> and \<open>handle_transfer\<close>: up to the receiver's answer, and the new status.\<close>

definition tx_id_or_default :: "'j task_record \<Rightarrow> bytes" where
  "tx_id_or_default r = (case tr_tx_id r of None \<Rightarrow> [] | Some i \<Rightarrow> i)"

definition transact_call ::
  "'j json_lib \<Rightarrow> env \<Rightarrow> u64 \<Rightarrow> string \<Rightarrow> 'j message \<Rightarrow> socket_addr option \<Rightarrow> 'j task_manager
    \<Rightarrow> ('j rpc_failure + bool) \<times> 'j task_manager" where
  "transact_call js e now task_id msg peer mgr =
     (case extract_tokens js msg of
        Inl err \<Rightarrow> (Inl err, mgr)
      | Inr toks \<Rightarrow>
          (case tg_tasks mgr task_id of
             None \<Rightarrow> (Inl Crashed, mgr)
           | Some r \<Rightarrow> receiver_call js ''Transaction proposal failed: ''
               (transact_impl e now (tx_id_or_default r) [toks] peer) mgr))"

definition transact_settle ::
  "string \<Rightarrow> 'j message \<Rightarrow> bool \<Rightarrow> 'j task_manager \<Rightarrow> ('j rpc_failure + 'j task) \<times> 'j task_manager" where
  "transact_settle task_id msg accept mgr =
     (case tg_tasks mgr task_id of
        None \<Rightarrow> (Inl Crashed, mgr)
      | Some r \<Rightarrow>
          let status = (if accept
                then agent_status Working ''Token proposal accepted. Please send the signed transfer.''
                else agent_status Failed (''Token proposal rejected '' @ [CHR 0xE2, CHR 0x80, CHR 0x94] @ '' invalid tokens or incorrect amount.''));
              task = (tr_task r)\<lparr>tk_status := status, tk_history := tk_history (tr_task r) @ [msg]\<rparr> in
          (Inr task, mgr\<lparr>tg_tasks := (tg_tasks mgr)(task_id \<mapsto> r\<lparr>tr_task := task\<rparr>)\<rparr>))"

definition transfer_call ::
  "'j json_lib \<Rightarrow> env \<Rightarrow> u64 \<Rightarrow> string \<Rightarrow> 'j message \<Rightarrow> socket_addr option \<Rightarrow> 'j task_manager
    \<Rightarrow> ('j rpc_failure + bool) \<times> 'j task_manager" where
  "transfer_call js e now task_id msg peer mgr =
     (case extract_tokens js msg of
        Inl err \<Rightarrow> (Inl err, mgr)
      | Inr toks \<Rightarrow>
          (case tg_tasks mgr task_id of
             None \<Rightarrow> (Inl Crashed, mgr)
           | Some r \<Rightarrow> receiver_call js ''Transfer failed: ''
               (transfer_impl e now (tx_id_or_default r) toks peer) mgr))"

definition transfer_settle ::
  "'j json_lib \<Rightarrow> string \<Rightarrow> 'j message \<Rightarrow> bool \<Rightarrow> 'j task_manager \<Rightarrow> ('j rpc_failure + 'j task) \<times> 'j task_manager" where
  "transfer_settle js task_id msg accepted mgr =
     (case tg_tasks mgr task_id of
        None \<Rightarrow> (Inl Crashed, mgr)
      | Some r \<Rightarrow>
          let told = (if accepted
                then (tr_task r)\<lparr>tk_status := agent_status Completed ''Payment completed successfully.'',
                  tk_artifacts := tk_artifacts (tr_task r) @ [\<lparr>af_name = Some ''payment-receipt'',
                    af_description = Some ''Confirmation of payment'',
                    af_parts = [Data (js_receipt js task_id) None], af_index = 1, af_metadata = None\<rparr>]\<rparr>
                else (tr_task r)\<lparr>tk_status := agent_status Failed ''Transfer rejected.''\<rparr>);
              task = told\<lparr>tk_history := tk_history told @ [msg]\<rparr> in
          (Inr task, mgr\<lparr>tg_tasks := (tg_tasks mgr)(task_id \<mapsto> r\<lparr>tr_task := task\<rparr>)\<rparr>))"

definition handle_transact ::
  "'j json_lib \<Rightarrow> env \<Rightarrow> u64 \<Rightarrow> string \<Rightarrow> 'j message \<Rightarrow> socket_addr option \<Rightarrow> 'j task_manager
    \<Rightarrow> ('j rpc_failure + 'j task) \<times> 'j task_manager" where
  "handle_transact js e now task_id msg peer mgr =
     (case transact_call js e now task_id msg peer mgr of
        (Inl err, mgr) \<Rightarrow> (Inl err, mgr)
      | (Inr accept, mgr) \<Rightarrow> transact_settle task_id msg accept mgr)"

definition handle_transfer ::
  "'j json_lib \<Rightarrow> env \<Rightarrow> u64 \<Rightarrow> string \<Rightarrow> 'j message \<Rightarrow> socket_addr option \<Rightarrow> 'j task_manager
    \<Rightarrow> ('j rpc_failure + 'j task) \<times> 'j task_manager" where
  "handle_transfer js e now task_id msg peer mgr =
     (case transfer_call js e now task_id msg peer mgr of
        (Inl err, mgr) \<Rightarrow> (Inl err, mgr)
      | (Inr accepted, mgr) \<Rightarrow> transfer_settle js task_id msg accepted mgr)"

definition continue_task ::
  "'j json_lib \<Rightarrow> env \<Rightarrow> u64 \<Rightarrow> string \<Rightarrow> 'j message \<Rightarrow> socket_addr option \<Rightarrow> 'j task_manager
    \<Rightarrow> ('j rpc_failure + 'j task) \<times> 'j task_manager" where
  "continue_task js e now task_id msg peer mgr =
     (case tg_tasks mgr task_id of
        None \<Rightarrow> (task_not_found task_id, mgr)
      | Some r \<Rightarrow>
          (case ts_state (tk_status (tr_task r)) of
             InputRequired \<Rightarrow> handle_transact js e now task_id msg peer mgr
           | Working \<Rightarrow> handle_transfer js e now task_id msg peer mgr
           | Submitted \<Rightarrow> (json_error INVALID_PARAMS ''Unexpected task state: Submitted'', mgr)
           | _ \<Rightarrow> (json_error INVALID_PARAMS ''Task is already in a terminal state'', mgr)))"

definition task_send ::
  "'j json_lib \<Rightarrow> env \<Rightarrow> u64 \<Rightarrow> string \<Rightarrow> 'j task_send_params \<Rightarrow> socket_addr option \<Rightarrow> 'j task_manager
    \<Rightarrow> ('j rpc_failure + 'j task) \<times> 'j task_manager" where
  "task_send js e now uuid params peer mgr =
     (case sp_id params of
        None \<Rightarrow> create_task js uuid (sp_message params) peer mgr
      | Some i \<Rightarrow> continue_task js e now i (sp_message params) peer mgr)"

subsection \<open>The endpoint\<close>

text \<open>The answer to a request; \<open>None\<close> when its task panicked.\<close>

definition answer_task :: "'j json_lib \<Rightarrow> 'j \<Rightarrow> 'j rpc_failure + 'j task \<Rightarrow> 'j json_rpc_response option" where
  "answer_task js i r =
     (case r of
        Inr task \<Rightarrow> Some (response_success i (js_task js task))
      | Inl (Json_Error err) \<Rightarrow> Some \<lparr>jr_jsonrpc = ''2.0'', jr_id = i, jr_result = None, jr_error = Some err\<rparr>
      | Inl Crashed \<Rightarrow> None)"

definition handle_tasks_send ::
  "'j json_lib \<Rightarrow> env \<Rightarrow> u64 \<Rightarrow> string \<Rightarrow> 'j \<Rightarrow> 'j \<Rightarrow> socket_addr option \<Rightarrow> 'j task_manager
    \<Rightarrow> 'j json_rpc_response option \<times> 'j task_manager" where
  "handle_tasks_send js e now uuid i params peer mgr =
     (case js_send_params js params of
        Inl err \<Rightarrow> (Some (response_error i INVALID_PARAMS (''Invalid params: '' @ err)), mgr)
      | Inr p \<Rightarrow> (case task_send js e now uuid p peer mgr of (r, mgr') \<Rightarrow> (answer_task js i r, mgr')))"

definition handle_tasks_get :: "'j json_lib \<Rightarrow> 'j \<Rightarrow> 'j \<Rightarrow> 'j task_manager \<Rightarrow> 'j json_rpc_response option" where
  "handle_tasks_get js i params mgr =
     (case js_get_params js params of
        Inl err \<Rightarrow> Some (response_error i INVALID_PARAMS (''Invalid params: '' @ err))
      | Inr p \<Rightarrow> answer_task js i (task_get p mgr))"

definition handle_tasks_cancel ::
  "'j json_lib \<Rightarrow> 'j \<Rightarrow> 'j \<Rightarrow> 'j task_manager \<Rightarrow> 'j json_rpc_response option \<times> 'j task_manager" where
  "handle_tasks_cancel js i params mgr =
     (case js_cancel_params js params of
        Inl err \<Rightarrow> (Some (response_error i INVALID_PARAMS (''Invalid params: '' @ err)), mgr)
      | Inr p \<Rightarrow> (case task_cancel p mgr of (r, mgr') \<Rightarrow> (answer_task js i r, mgr')))"

definition jsonrpc_handler ::
  "'j json_lib \<Rightarrow> env \<Rightarrow> u64 \<Rightarrow> string \<Rightarrow> socket_addr \<Rightarrow> 'j json_rpc_request \<Rightarrow> 'j task_manager
    \<Rightarrow> 'j json_rpc_response option \<times> 'j task_manager" where
  "jsonrpc_handler js e now uuid addr rq mgr =
     (if jq_jsonrpc rq \<noteq> ''2.0'' then (Some (response_error (jq_id rq) INVALID_REQUEST ''Expected jsonrpc version 2.0''), mgr)
      else if jq_method rq = ''tasks/send'' then handle_tasks_send js e now uuid (jq_id rq) (jq_params rq) (Some addr) mgr
      else if jq_method rq = ''tasks/get'' then (handle_tasks_get js (jq_id rq) (jq_params rq) mgr, mgr)
      else if jq_method rq = ''tasks/cancel'' then handle_tasks_cancel js (jq_id rq) (jq_params rq) mgr
      else (Some (response_error (jq_id rq) METHOD_NOT_FOUND (''Unknown method: '' @ jq_method rq)), mgr))"

subsection \<open>One call\<close>

lemmas a2a_defs = continue_task_def handle_transact_def handle_transfer_def transact_call_def transfer_call_def
  transact_settle_def transfer_settle_def receiver_call_def

lemma agent_status_state [simp]: "ts_state (agent_status st msg) = st"
  by (simp add: agent_status_def)

lemma receiver_call_Inr:
  "receiver_call js heading f mgr = (Inr x, mgr') \<longleftrightarrow>
     (\<exists>rx. f (tg_receiver mgr) = (Ok x, rx) \<and> mgr' = mgr\<lparr>tg_receiver := rx\<rparr>)"
  by (auto simp: receiver_call_def split: prod.splits sum.splits fault.splits)

lemma receiver_call_receiver: "tg_receiver (snd (receiver_call js heading f mgr)) = snd (f (tg_receiver mgr))"
  and receiver_call_tasks: "tg_tasks (snd (receiver_call js heading f mgr)) = tg_tasks mgr"
  by (auto simp: receiver_call_def split: prod.split sum.split fault.split)


text \<open>A library of values that are lists of tokens.\<close>

definition token_values :: "token list json_lib" where
  "token_values = \<lparr>js_tokens = \<lambda>v. Some (map (\<lambda>t. [t]) v), js_token = \<lambda>v. (case v of [t] \<Rightarrow> Inr t | _ \<Rightarrow> Inl ''token''),
     js_payment_details = \<lambda>i items. [], js_receipt = \<lambda>i. [], js_send_params = \<lambda>v. Inl ''send'',
     js_get_params = \<lambda>v. Inl ''get'', js_cancel_params = \<lambda>v. Inl ''cancel'', js_task = \<lambda>t. [], js_show = \<lambda>c. ''code''\<rparr>"

definition tokens_message :: "token list \<Rightarrow> token list message" where
  "tokens_message toks = \<lparr>ms_role = User, ms_parts = [Data toks None], ms_metadata = None\<rparr>"

lemma extract_tokens_message [simp]: "extract_tokens token_values (tokens_message toks) = Inr toks"
proof -
  have "parse_tokens token_values (map (\<lambda>t. [t]) toks) = Inr toks"
    by (induction toks) (simp_all add: token_values_def)
  then show ?thesis by (simp add: extract_tokens_def tokens_message_def) (simp add: token_values_def)
qed

definition sample_task :: "task_state \<Rightarrow> token list task_record" where
  "sample_task st = \<lparr>tr_task = \<lparr>tk_id = ''t'', tk_status = agent_status st [], tk_artifacts = [], tk_history = [],
     tk_metadata = None\<rparr>, tr_tx_id = Some [1,0,0,0,0,0,0,0], tr_items = [], tr_ticket = None\<rparr>"

definition sample_manager :: "task_state \<Rightarrow> token list task_manager" where
  "sample_manager st = \<lparr>tg_receiver = sample_receiver, tg_tasks = [''t'' \<mapsto> sample_task st]\<rparr>"

lemma sample_manager_simps [simp]:
  "tg_receiver (sample_manager st) = sample_receiver" "tg_tasks (sample_manager st) ''t'' = Some (sample_task st)"
  "ts_state (tk_status (tr_task (sample_task st))) = st" "tx_id_or_default (sample_task st) = [1,0,0,0,0,0,0,0]"
  by (simp_all add: sample_manager_def sample_task_def tx_id_or_default_def)


text \<open>a task can be paid on the connection that created it only. The receiver compares the address of the caller
  with the one that opened the transaction, port included; the agent's next message over a new connection is
  answered with an error and changes nothing.\<close>

theorem other_connection_cannot_pay:
  assumes "create_task js i msg (Some a) mgr = (Inr t, mgr1)" and "a \<noteq> b"
  shows "\<exists>err. continue_task js e now i msg' (Some b) mgr1 = (Inl (Json_Error err), mgr1)
    \<and> (je_code err = INTERNAL_ERROR \<or> je_code err = INVALID_PARAMS)"
proof -
  obtain reply rx where init: "initiate_impl initiate_default (Some a) (tg_receiver mgr) = (Ok reply, rx)"
      and mgr1: "mgr1 = mgr\<lparr>tg_receiver := rx, tg_tasks := (tg_tasks mgr)(i \<mapsto>
        \<lparr>tr_task = t, tr_tx_id = Some (irp_tx_id reply), tr_items = irp_items reply, tr_ticket = irp_ticket reply\<rparr>)\<rparr>"
      and t: "ts_state (tk_status t) = InputRequired"
    using assms(1) by (auto simp: create_task_def Let_def receiver_call_Inr split: prod.splits sum.splits)
  obtain st where "rx_transactions rx (tx_id_of (irp_tx_id reply)) = Some st" "tx_peer (tx_inner st) = Some a"
    using init by (auto simp: initiate_impl_def Let_def initiate_default_def tx_id_roundtrip set_transaction_def
        split: if_splits option.splits)
  then have "transact_impl e now (irp_tx_id reply) methods (Some b) rx = (Err UnknownTransactionPeer, rx)" for methods
    using assms(2) by (simp add: transact_impl_def find_transaction_def)
  moreover have "\<exists>err. parse_tokens js vs = Inl (Json_Error err) \<and> je_code err = INVALID_PARAMS" if "parse_tokens js vs = Inl f" for vs f
    using that by (induction js vs rule: parse_tokens.induct) (auto simp: and_then_Inl_iff split: sum.splits)
  then have "\<exists>err. extract_from_parts js ps = Inl (Json_Error err) \<and> je_code err = INVALID_PARAMS" if "extract_from_parts js ps = Inl f" for ps f
    using that by (induction js ps rule: extract_from_parts.induct) (auto split: option.splits)
  then have "\<exists>err. extract_tokens js msg' = Inl (Json_Error err) \<and> je_code err = INVALID_PARAMS" if "extract_tokens js msg' = Inl f" for f
    using that by (simp add: extract_tokens_def)
  ultimately show ?thesis using t
    by (cases "extract_tokens js msg'") (auto simp: continue_task_def handle_transact_def transact_call_def receiver_call_def
        mgr1 tx_id_or_default_def)
qed

lemma sample_initiate:
  obtains rx reply where "initiate_impl initiate_default (Some ''agent'') sample_receiver = (Ok reply, rx)"
    "irp_tx_id reply = u64_to_le_bytes 2" "rx_transactions rx 2 = Some (Gossip \<lparr>tx_amount = rx_next_tx_amount sample_receiver, tx_peer = Some ''agent''\<rparr>)"
    "rx_wallet rx = rx_wallet sample_receiver" "\<not> rx_wallet_poisoned rx"
  by (simp add: initiate_impl_def initiate_default_def Let_def set_transaction_def sample_receiver_def VERSION_CURRENT_def)

lemma other_connection_cannot_pay_witness:
  "\<exists>t mgr1 err. create_task token_values ''u'' (tokens_message []) (Some ''agent'') (sample_manager Working) = (Inr t, mgr1)
    \<and> continue_task token_values sample_env 2000 ''u'' (tokens_message []) (Some ''agent2'') mgr1 = (Inl (Json_Error err), mgr1)"
proof -
  obtain rx reply where "initiate_impl initiate_default (Some ''agent'') sample_receiver = (Ok reply, rx)" by (rule sample_initiate)
  then obtain t mgr1 where "create_task token_values ''u'' (tokens_message []) (Some ''agent'') (sample_manager Working) = (Inr t, mgr1)"
    by (simp add: create_task_def receiver_call_def Let_def)
  with other_connection_cannot_pay [OF this, of "''agent2''" sample_env 2000 "tokens_message []"] show ?thesis by auto
qed

text \<open>three messages over one connection pay: the first opens the transaction, the second proposes tokens
  the receiver accepts, the third delivers them. The task ends completed, with the request and the receipt as its
  artifacts and the three messages as its history.\<close>

theorem conversation_completes:
  assumes "initiate_impl initiate_default peer (tg_receiver mgr) = (Ok reply, rx1)"
    and "extract_tokens js m2 = Inr offered" "transact_impl e t2 (irp_tx_id reply) [offered] peer rx1 = (Ok True, rx2)"
    and "extract_tokens js m3 = Inr paid" "transfer_impl e t3 (irp_tx_id reply) paid peer rx2 = (Ok True, rx3)"
  shows "\<exists>mgr1 mgr2 mgr3 a b c. create_task js i m1 peer mgr = (Inr a, mgr1)
    \<and> continue_task js e t2 i m2 peer mgr1 = (Inr b, mgr2) \<and> continue_task js e t3 i m3 peer mgr2 = (Inr c, mgr3)
    \<and> ts_state (tk_status c) = Completed \<and> tk_history c = [m1, m2, m3]
    \<and> map af_name (tk_artifacts c) = [Some ''payment-request'', Some ''payment-receipt''] \<and> tg_receiver mgr3 = rx3
    \<and> task_get \<lparr>gp_id = i, gp_history_length = None\<rparr> mgr3 = Inr c"
  using assms by (simp add: create_task_def a2a_defs Let_def tx_id_or_default_def task_get_def)

lemma conversation_completes_witness:
  "\<exists>mgr1 mgr2 mgr3 a b c. create_task token_values ''u'' (tokens_message []) (Some ''agent'') (sample_manager Failed) = (Inr a, mgr1)
    \<and> continue_task token_values sample_env 2000 ''u'' (tokens_message [sample_test_token]) (Some ''agent'') mgr1 = (Inr b, mgr2)
    \<and> continue_task token_values sample_env 2000 ''u'' (tokens_message [sample_test_token]) (Some ''agent'') mgr2 = (Inr c, mgr3)
    \<and> ts_state (tk_status c) = Completed"
proof -
  obtain rx reply where init: "initiate_impl initiate_default (Some ''agent'') sample_receiver = (Ok reply, rx)"
      "irp_tx_id reply = u64_to_le_bytes 2" "rx_transactions rx 2 = Some (Gossip \<lparr>tx_amount = rx_next_tx_amount sample_receiver, tx_peer = Some ''agent''\<rparr>)"
      "rx_wallet rx = rx_wallet sample_receiver" "\<not> rx_wallet_poisoned rx" by (rule sample_initiate)
  obtain st te w where tr: "rx_transactions sample_receiver 1 = Some st"
      "wallet_verify_tokens sample_env 2000 (rx_wallet sample_receiver) [sample_test_token] = Ok True"
      "last_opt (wa_tickets (rx_wallet sample_receiver)) = Some te"
      "add_received sample_env (te_credential te) amount_default [sample_test_token] = Ok (Some (tx_amount (tx_inner st)))"
      "import_tokens sample_env [sample_test_token] (rx_wallet sample_receiver) = (Ok True, w)"
    using sample_transfer_accepted by (auto simp: transfer_impl_True tx_id_of_def)
  have am: "tx_amount (tx_inner st) = rx_next_tx_amount sample_receiver" using tr(1) by (auto simp: sample_receiver_def)
  obtain rx2 where offer: "transact_impl sample_env 2000 (irp_tx_id reply) [[sample_test_token]] (Some ''agent'') rx = (Ok True, rx2)"
      "rx2 = set_transaction 2 (Transfer \<lparr>tx_amount = rx_next_tx_amount sample_receiver, tx_peer = Some ''agent''\<rparr>) rx"
    using init tr am by (simp add: transact_impl_def find_transaction_def tx_id_roundtrip receiver_verify_tokens_def add_received_Ok
        del: add_received.simps add_values.simps)
  have "\<exists>rx3. transfer_impl sample_env 2000 (irp_tx_id reply) [sample_test_token] (Some ''agent'') rx2 = (Ok True, rx3)"
    using init tr am offer(2) by (simp add: transfer_impl_True tx_id_roundtrip set_transaction_def del: add_received.simps add_values.simps)
  then obtain rx3 where pay: "transfer_impl sample_env 2000 (irp_tx_id reply) [sample_test_token] (Some ''agent'') rx2 = (Ok True, rx3)" ..
  have "initiate_impl initiate_default (Some ''agent'') (tg_receiver (sample_manager Failed)) = (Ok reply, rx)" using init by simp
  from conversation_completes [OF this extract_tokens_message offer(1) extract_tokens_message pay] show ?thesis by blast
qed

text \<open>a cancellation does not stop a payment that is under way. Canceled while the receiver handles the
  transfer, the task is answered as canceled and then set to completed, its tokens kept.\<close>

theorem canceled_task_completes:
  assumes "tg_tasks mgr i = Some r" "ts_state (tk_status (tr_task r)) = Working"
    and "transfer_call js e now i msg peer mgr = (Inr True, mgr1)"
  shows "\<exists>t mgr2 t' mgr3. task_cancel \<lparr>cp_id = i\<rparr> mgr1 = (Inr t, mgr2) \<and> ts_state (tk_status t) = Canceled
    \<and> transfer_settle js i msg True mgr2 = (Inr t', mgr3) \<and> ts_state (tk_status t') = Completed
    \<and> tg_receiver mgr3 = tg_receiver mgr1"
proof -
  have "tg_tasks mgr1 i = Some r"
    using assms(1,3) by (auto simp: transfer_call_def receiver_call_Inr split: sum.splits)
  then show ?thesis using assms(2) by (simp add: task_cancel_def terminal_def transfer_settle_def Let_def)
qed

lemma canceled_task_completes_witness:
  "\<exists>mgr1 t mgr2 t' mgr3. transfer_call token_values sample_env 2000 ''t'' (tokens_message [sample_test_token]) (Some ''payer'') (sample_manager Working)
      = (Inr True, mgr1) \<and> task_cancel \<lparr>cp_id = ''t''\<rparr> mgr1 = (Inr t, mgr2) \<and> ts_state (tk_status t) = Canceled
    \<and> transfer_settle token_values ''t'' (tokens_message [sample_test_token]) True mgr2 = (Inr t', mgr3) \<and> ts_state (tk_status t') = Completed"
proof -
  obtain rx where "transfer_impl sample_env 2000 [1,0,0,0,0,0,0,0] [sample_test_token] (Some ''payer'') sample_receiver = (Ok True, rx)"
    using sample_transfer_accepted by blast
  then obtain mgr1 where "transfer_call token_values sample_env 2000 ''t'' (tokens_message [sample_test_token]) (Some ''payer'') (sample_manager Working)
      = (Inr True, mgr1)"
    by (simp add: transfer_call_def receiver_call_def)
  with canceled_task_completes [OF _ _ this] show ?thesis by fastforce
qed

text \<open>What a client reads of a task's history: its last messages, at most as many as it asked for.\<close>

lemma task_get_history:
  assumes "task_get \<lparr>gp_id = i, gp_history_length = Some n\<rparr> mgr = Inr t"
  shows "\<exists>r. tg_tasks mgr i = Some r \<and> suffix (tk_history t) (tk_history (tr_task r))
    \<and> length (tk_history t) = min (unat n) (length (tk_history (tr_task r)))"
  using assms by (auto simp: task_get_def Let_def suffix_drop split: option.splits if_splits)

subsection \<open>Interleaved calls\<close>

text \<open>A call under way: before it asks the receiver, and before it writes the answer to its task.\<close>

datatype 'j flight =
    To_Transact (flight_task: string) "'j message" "socket_addr option"
  | To_Transfer (flight_task: string) "'j message" "socket_addr option"
  | Transacted (flight_task: string) "'j message" bool
  | Transferred (flight_task: string) "'j message" bool

inductive a2a_step ::
  "'j json_lib \<Rightarrow> env \<Rightarrow> 'j task_manager \<times> 'j flight multiset \<Rightarrow> 'j task_manager \<times> 'j flight multiset \<Rightarrow> bool" for js e where
  create: "tg_tasks mgr i = None \<Longrightarrow> a2a_step js e (mgr, fs) (snd (create_task js i msg peer mgr), fs)"
| start_transact: "tg_tasks mgr i = Some r \<Longrightarrow> ts_state (tk_status (tr_task r)) = InputRequired \<Longrightarrow>
    a2a_step js e (mgr, fs) (mgr, add_mset (To_Transact i msg peer) fs)"
| start_transfer: "tg_tasks mgr i = Some r \<Longrightarrow> ts_state (tk_status (tr_task r)) = Working \<Longrightarrow>
    a2a_step js e (mgr, fs) (mgr, add_mset (To_Transfer i msg peer) fs)"
| transact: "transact_call js e now i msg peer mgr = (res, mgr') \<Longrightarrow>
    a2a_step js e (mgr, add_mset (To_Transact i msg peer) fs)
      (mgr', case res of Inl err \<Rightarrow> fs | Inr accept \<Rightarrow> add_mset (Transacted i msg accept) fs)"
| transfer: "transfer_call js e now i msg peer mgr = (res, mgr') \<Longrightarrow>
    a2a_step js e (mgr, add_mset (To_Transfer i msg peer) fs)
      (mgr', case res of Inl err \<Rightarrow> fs | Inr accepted \<Rightarrow> add_mset (Transferred i msg accepted) fs)"
| settle_transact: "a2a_step js e (mgr, add_mset (Transacted i msg accept) fs) (snd (transact_settle i msg accept mgr), fs)"
| settle_transfer: "a2a_step js e (mgr, add_mset (Transferred i msg accepted) fs) (snd (transfer_settle js i msg accepted mgr), fs)"
| cancel: "a2a_step js e (mgr, fs) (snd (task_cancel p mgr), fs)"
| receiver: "rx_step e (tg_receiver mgr) rx \<Longrightarrow> a2a_step js e (mgr, fs) (mgr\<lparr>tg_receiver := rx\<rparr>, fs)"

text \<open>Every step of the server is at most one step of its receiver, and keeps every task.\<close>

definition flights_known :: "'j task_manager \<Rightarrow> 'j flight multiset \<Rightarrow> bool" where
  "flights_known mgr fs \<longleftrightarrow> (\<forall>f \<in># fs. tg_tasks mgr (flight_task f) \<noteq> None)"

definition tasks_kept :: "'j task_manager \<Rightarrow> 'j task_manager \<Rightarrow> bool" where
  "tasks_kept mgr mgr' \<longleftrightarrow> dom (tg_tasks mgr) \<subseteq> dom (tg_tasks mgr')"

lemma transact_call_step: "(rx_step e)\<^sup>=\<^sup>= (tg_receiver mgr) (tg_receiver (snd (transact_call js e now i msg peer mgr)))
    \<and> tg_tasks (snd (transact_call js e now i msg peer mgr)) = tg_tasks mgr"
  by (auto simp: transact_call_def receiver_call_receiver receiver_call_tasks intro: rx_step.transact split: sum.split option.split)

lemma transfer_call_step: "(rx_step e)\<^sup>=\<^sup>= (tg_receiver mgr) (tg_receiver (snd (transfer_call js e now i msg peer mgr)))
    \<and> tg_tasks (snd (transfer_call js e now i msg peer mgr)) = tg_tasks mgr"
  by (auto simp: transfer_call_def receiver_call_receiver receiver_call_tasks intro: rx_step.transfer split: sum.split option.split)

lemma settle_step:
  "tg_receiver (snd (transact_settle i msg b mgr)) = tg_receiver mgr" "tasks_kept mgr (snd (transact_settle i msg b mgr))"
  "tg_receiver (snd (transfer_settle js i msg b mgr)) = tg_receiver mgr" "tasks_kept mgr (snd (transfer_settle js i msg b mgr))"
  "tg_receiver (snd (task_cancel p mgr)) = tg_receiver mgr" "tasks_kept mgr (snd (task_cancel p mgr))"
  by (auto simp: transact_settle_def transfer_settle_def task_cancel_def tasks_kept_def Let_def split: option.split)

lemma create_step:
  "(rx_step e)\<^sup>=\<^sup>= (tg_receiver mgr) (tg_receiver (snd (create_task js i msg peer mgr))) \<and> tasks_kept mgr (snd (create_task js i msg peer mgr))"
proof -
  obtain res mgr1 where c: "receiver_call js ''Initiation failed: '' (initiate_impl initiate_default peer) mgr = (res, mgr1)" by fastforce
  have "tg_receiver mgr1 = snd (initiate_impl initiate_default peer (tg_receiver mgr))" "tg_tasks mgr1 = tg_tasks mgr"
    using receiver_call_receiver [of js "''Initiation failed: ''" "initiate_impl initiate_default peer" mgr]
      receiver_call_tasks [of js "''Initiation failed: ''" "initiate_impl initiate_default peer" mgr] c by simp_all
  then show ?thesis using c
    by (cases res) (auto simp: create_task_def Let_def tasks_kept_def intro: rx_step.initiate)
qed

lemma flights_known_kept: "tasks_kept mgr mgr' \<Longrightarrow> flights_known mgr fs \<Longrightarrow> flights_known mgr' fs"
  by (fastforce simp: tasks_kept_def flights_known_def)

lemma a2a_step_sound:
  assumes "a2a_step js e s s'"
  shows "(rx_step e)\<^sup>=\<^sup>= (tg_receiver (fst s)) (tg_receiver (fst s')) \<and> tasks_kept (fst s) (fst s')
    \<and> (flights_known (fst s) (snd s) \<longrightarrow> flights_known (fst s') (snd s'))"
  using assms
proof cases
  case (create mgr i fs msg peer)
  then show ?thesis using create_step [of e mgr js i msg peer] by (auto intro: flights_known_kept)
next
  case (transact now i msg peer mgr res mgr' fs)
  then show ?thesis using transact_call_step [of e mgr js now i msg peer]
    by (auto simp: tasks_kept_def flights_known_def split: sum.split)
next
  case (transfer now i msg peer mgr res mgr' fs)
  then show ?thesis using transfer_call_step [of e mgr js now i msg peer]
    by (auto simp: tasks_kept_def flights_known_def split: sum.split)
next
  case (settle_transact mgr i msg b fs)
  have "flights_known mgr fs \<longrightarrow> flights_known (snd (transact_settle i msg b mgr)) fs"
    using flights_known_kept [OF settle_step(2)] by blast
  then show ?thesis using settle_transact by (simp add: settle_step flights_known_def)
next
  case (settle_transfer mgr i msg b fs)
  have "flights_known mgr fs \<longrightarrow> flights_known (snd (transfer_settle js i msg b mgr)) fs"
    using flights_known_kept [OF settle_step(4)] by blast
  then show ?thesis using settle_transfer by (simp add: settle_step flights_known_def)
next
  case (cancel mgr fs p)
  then show ?thesis using flights_known_kept [OF settle_step(6)] by (auto simp: settle_step)
qed (auto simp: tasks_kept_def flights_known_def)

text \<open>C31: the agent server refines the receiver. Under any interleaving of its calls with each other, with
  cancellations and with the receiver's own requests and timers, the receiver goes through a run of its own, so
  everything proved of its runs holds behind the agent server; and each call under way finds its task, so the
  unwraps of a removed task do not happen.\<close>

theorem a2a_refines_receiver:
  assumes "(a2a_step js e)\<^sup>*\<^sup>* (task_manager_new rx, {#}) (mgr, fs)"
  shows "(rx_step e)\<^sup>*\<^sup>* rx (tg_receiver mgr) \<and> rx_grows rx (tg_receiver mgr)
    \<and> (\<forall>f \<in># fs. fst (transact_settle (flight_task f) msg b mgr) \<noteq> Inl Crashed
        \<and> fst (transfer_settle js (flight_task f) msg b mgr) \<noteq> Inl Crashed)"
proof -
  have "(rx_step e)\<^sup>*\<^sup>* rx (tg_receiver (fst s)) \<and> flights_known (fst s) (snd s)"
    if "(a2a_step js e)\<^sup>*\<^sup>* (task_manager_new rx, {#}) s" for s
    using that
  proof (induction rule: rtranclp_induct)
    case (step s s')
    then show ?case using a2a_step_sound [OF step(2)] by (auto intro: rtranclp.rtrancl_into_rtrancl)
  qed (simp add: task_manager_new_def flights_known_def)
  from this [OF assms] show ?thesis
    by (auto simp: flights_known_def transact_settle_def transfer_settle_def Let_def dest: rx_run_grows)
qed

lemma a2a_refines_receiver_witness:
  "\<exists>mgr fs. (a2a_step token_values sample_env)\<^sup>*\<^sup>* (task_manager_new sample_receiver, {#}) (mgr, fs) \<and> rx_grows sample_receiver (tg_receiver mgr)
     \<and> tg_tasks mgr ''u'' \<noteq> None"
proof -
  let ?mgr = "snd (create_task token_values ''u'' (tokens_message []) (Some ''agent'') (task_manager_new sample_receiver))"
  have run: "(a2a_step token_values sample_env)\<^sup>*\<^sup>* (task_manager_new sample_receiver, {#}) (?mgr, {#})"
    by (intro r_into_rtranclp a2a_step.create) (simp add: task_manager_new_def)
  obtain rx reply where "initiate_impl initiate_default (Some ''agent'') sample_receiver = (Ok reply, rx)" by (rule sample_initiate)
  then have "tg_tasks ?mgr ''u'' \<noteq> None" by (simp add: create_task_def receiver_call_def Let_def task_manager_new_def)
  then show ?thesis using run a2a_refines_receiver [OF run] by blast
qed

end
