(* ===== verification/X402.thy ===== *)
theory X402
  imports Receiver
begin

section \<open>Payments over HTTP (\<open>x402/src\<close>, \<open>gateway/src/main.rs\<close>)\<close>

text \<open>
  \<open>types.rs\<close>, \<open>scheme.rs\<close>, \<open>facilitator.rs\<close>, \<open>middleware.rs\<close>, \<open>client.rs\<close>: a paywall answers 402 with its
  requirements until a request carries a payment that verifies, and the client pays from its wallet and tries
  again. JSON values are the type \<open>'j\<close>; what serde and the HTTP library do with texts are the fields of
  \<open>x402_lib\<close>. The inner service has the state \<open>'s\<close>. The paywall of the gateway's demo is at the end.
\<close>

subsection \<open>Types\<close>

definition SCHEME_NAME :: string where "SCHEME_NAME = ''briolette''"
definition PAYMENT_RECEIPT_HEADER :: string where "PAYMENT_RECEIPT_HEADER = ''X-PAYMENT-RECEIPT''"
definition PAYMENT_REQUIREMENTS_HEADER :: string where "PAYMENT_REQUIREMENTS_HEADER = ''X-PAYMENT-REQUIREMENTS''"

record amount_json =
  aj_whole :: i32
  aj_fractional :: i32
  aj_code :: i32

definition amount_json_from :: "amount \<Rightarrow> amount_json" where
  "amount_json_from a = \<lparr>aj_whole = am_whole a, aj_fractional = am_fractional a, aj_code = am_code a\<rparr>"

record 'j briolette_payment_details =
  bd_epoch :: u64
  bd_supported_mint_keys :: "'j list"

record 'j payment_requirements =
  pr_scheme :: string
  pr_network :: string
  pr_pay_to :: 'j
  pr_max_amount_required :: amount_json
  pr_resource :: string
  pr_description :: "string option"
  pr_extra :: "'j briolette_payment_details option"

record 'j briolette_payment_data =
  bp_tokens :: "'j list"

record 'j payment_payload =
  pp_scheme :: string
  pp_network :: string
  pp_payload :: "'j briolette_payment_data"

record payment_receipt =
  pc_accepted :: bool
  pc_network :: string
  pc_amount :: amount_json
  pc_resource :: string

record http_request =
  hq_path :: string
  hq_payment :: "string option"

record http_response =
  hp_status :: nat
  hp_headers :: "(string \<times> string) list"
  hp_body :: string

text \<open>Printing and parsing of the three messages, a value as bytes, tokens from and to values, and the texts that
  are header values, for the builder and for \<open>parse\<close>.\<close>

record 'j x402_lib =
  xl_print_requirements :: "'j payment_requirements \<Rightarrow> string option"
  xl_parse_requirements :: "string \<Rightarrow> string + 'j payment_requirements"
  xl_print_payload :: "'j payment_payload \<Rightarrow> string + string"
  xl_parse_payload :: "string \<Rightarrow> string + 'j payment_payload"
  xl_print_receipt :: "payment_receipt \<Rightarrow> string option"
  xl_bytes :: "'j \<Rightarrow> string + bytes"
  xl_token :: "'j \<Rightarrow> string + token"
  xl_of_token :: "token \<Rightarrow> 'j option"
  xl_header_value :: "string \<Rightarrow> bool"
  xl_header_parse :: "string \<Rightarrow> bool"

subsection \<open>The facilitator\<close>

datatype verification_error = NoTokens | InvalidTokens | InsufficientAmount

primrec show_verification_error :: "verification_error \<Rightarrow> string" where
  "show_verification_error NoTokens = ''No tokens provided''"
| "show_verification_error InvalidTokens = ''Token verification failed''"
| "show_verification_error InsufficientAmount = ''Insufficient payment amount''"

datatype payment_failure = Refused verification_error | Payment_Panic

text \<open>A panic under the write guard of the wallet poisons it.\<close>

record facilitator =
  fa_wallet :: wallet
  fa_poisoned :: bool

definition facilitator_new :: "wallet \<Rightarrow> facilitator" where
  "facilitator_new w = \<lparr>fa_wallet = w, fa_poisoned = False\<rparr>"

fun sum_values :: "env \<Rightarrow> amount \<Rightarrow> token list \<Rightarrow> payment_failure + amount" where
  "sum_values e acc [] = Inr acc"
| "sum_values e acc (tok # toks) =
     (case token_value tok of
        None \<Rightarrow> sum_values e acc toks
      | Some v \<Rightarrow>
          (case amount_add e acc v of
             Inr a \<Rightarrow> sum_values e a toks
           | Inl (Fail c) \<Rightarrow> Inl (Refused InvalidTokens)
           | Inl Panic \<Rightarrow> Inl Payment_Panic))"

definition insufficient :: "amount \<Rightarrow> amount \<Rightarrow> bool" where
  "insufficient paid required \<longleftrightarrow> sint (am_whole paid) < sint (am_whole required)
     \<or> am_whole paid = am_whole required \<and> sint (am_fractional paid) < sint (am_fractional required)"

definition verify_payment ::
  "env \<Rightarrow> u64 \<Rightarrow> token list \<Rightarrow> amount \<Rightarrow> string \<Rightarrow> string \<Rightarrow> facilitator
    \<Rightarrow> (payment_failure + payment_receipt) \<times> facilitator" where
  "verify_payment e now toks required_amount resource network fa =
     (if toks = [] then (Inl (Refused NoTokens), fa)
      else if fa_poisoned fa then (Inl Payment_Panic, fa)
      else case wallet_verify_tokens e now (fa_wallet fa) toks of
        Inl f \<Rightarrow> (Inl Payment_Panic, fa\<lparr>fa_poisoned := True\<rparr>)
      | Inr False \<Rightarrow> (Inl (Refused InvalidTokens), fa)
      | Inr True \<Rightarrow>
          (case sum_values e amount_default toks of
             Inl err \<Rightarrow> (Inl err, fa)
           | Inr paid \<Rightarrow>
               if insufficient paid required_amount then (Inl (Refused InsufficientAmount), fa)
               else (Inr \<lparr>pc_accepted = True, pc_network = network, pc_amount = amount_json_from paid,
                          pc_resource = resource\<rparr>, fa)))"

subsection \<open>The paywall\<close>

record 'j paywall_config =
  pw_requirements :: "'j payment_requirements"
  pw_required_amount :: amount

text \<open>A call ends with a response, an error of the inner service, or a panic.\<close>

datatype 'x service_failure = Inner_Error 'x | Handler_Panic

definition plain_response :: "nat \<Rightarrow> string \<Rightarrow> http_response" where
  "plain_response status body = \<lparr>hp_status = status, hp_headers = [], hp_body = body\<rparr>"

definition insert_header :: "string \<Rightarrow> string \<Rightarrow> http_response \<Rightarrow> http_response" where
  "insert_header n v r = r\<lparr>hp_headers := filter (\<lambda>h. fst h \<noteq> n) (hp_headers r) @ [(n, v)]\<rparr>"

fun tokens_from_json :: "'j x402_lib \<Rightarrow> 'j list \<Rightarrow> string + token list" where
  "tokens_from_json xl [] = Inr []"
| "tokens_from_json xl (v # vs) = and_then (xl_token xl v) (\<lambda>t. and_then (tokens_from_json xl vs) (\<lambda>ts. Inr (t # ts)))"

definition payment_required ::
  "'j x402_lib \<Rightarrow> 'j payment_requirements \<Rightarrow> 'x service_failure + http_response" where
  "payment_required xl req =
     (let requirements_json = (case xl_print_requirements xl req of None \<Rightarrow> [] | Some t \<Rightarrow> t) in
      if xl_header_value xl requirements_json then
        Inr \<lparr>hp_status = 402, hp_headers = [(''content-type'', ''application/json''),
              (PAYMENT_REQUIREMENTS_HEADER, requirements_json)], hp_body = requirements_json\<rparr>
      else Inl Handler_Panic)"

definition paywall_call ::
  "'j x402_lib \<Rightarrow> env \<Rightarrow> u64 \<Rightarrow> 'j paywall_config \<Rightarrow> (http_request \<Rightarrow> 's \<Rightarrow> ('x + http_response) \<times> 's)
    \<Rightarrow> http_request \<Rightarrow> facilitator \<times> 's \<Rightarrow> ('x service_failure + http_response) \<times> facilitator \<times> 's" where
  "paywall_call xl e now cfg inner rq st =
     (case st of (fa, s) \<Rightarrow>
      (case hq_payment rq of
        None \<Rightarrow> (payment_required xl (pw_requirements cfg), fa, s)
      | Some payment_str \<Rightarrow>
          (case xl_parse_payload xl payment_str of
             Inl err \<Rightarrow> (Inr (plain_response 400 (''Invalid payment payload: '' @ err)), fa, s)
           | Inr payload \<Rightarrow>
               if pp_scheme payload \<noteq> SCHEME_NAME
               then (Inr (plain_response 400 (''Unsupported payment scheme: '' @ pp_scheme payload)), fa, s)
               else (case tokens_from_json xl (bp_tokens (pp_payload payload)) of
                 Inl err \<Rightarrow> (Inr (plain_response 400 (''Invalid token data: '' @ err)), fa, s)
               | Inr toks \<Rightarrow>
                   (case verify_payment e now toks (pw_required_amount cfg) (pr_resource (pw_requirements cfg))
                           (pr_network (pw_requirements cfg)) fa of
                      (Inl Payment_Panic, fa) \<Rightarrow> (Inl Handler_Panic, fa, s)
                    | (Inl (Refused err), fa) \<Rightarrow>
                        (Inr (plain_response 402 (''Payment verification failed: '' @ show_verification_error err)), fa, s)
                    | (Inr receipt, fa) \<Rightarrow>
                        (case inner rq s of
                           (Inl err, s) \<Rightarrow> (Inl (Inner_Error err), fa, s)
                         | (Inr response, s) \<Rightarrow>
                             let receipt_json = (case xl_print_receipt xl receipt of None \<Rightarrow> [] | Some t \<Rightarrow> t) in
                             if xl_header_parse xl receipt_json
                             then (Inr (insert_header PAYMENT_RECEIPT_HEADER receipt_json response), fa, s)
                             else (Inl Handler_Panic, fa, s)))))))"

subsection \<open>The client\<close>

record x402_client =
  xc_wallet :: wallet
  xc_poisoned :: bool
  xc_network :: string

datatype x402_error = Http | Protocol string | InsufficientFunds | Client_Panic

fun pending_values :: "'j x402_lib \<Rightarrow> env \<Rightarrow> bytes list \<Rightarrow> x402_error + 'j list" where
  "pending_values xl e [] = Inr []"
| "pending_values xl e (b # bs) =
     (case dec_token e b of
        None \<Rightarrow> Inl Client_Panic
      | Some tok \<Rightarrow>
          (case xl_of_token xl tok of
             None \<Rightarrow> Inl Client_Panic
           | Some v \<Rightarrow> and_then (pending_values xl e bs) (\<lambda>vs. Inr (v # vs))))"

definition prepare_payment ::
  "'j x402_lib \<Rightarrow> env \<Rightarrow> nat \<Rightarrow> 'j payment_requirements \<Rightarrow> x402_client \<Rightarrow> (x402_error + 'j payment_payload) \<times> x402_client" where
  "prepare_payment xl e draw req c =
     (case xl_bytes xl (pr_pay_to req) of
        Inl err \<Rightarrow> (Inl (Protocol (''Invalid pay_to ticket: '' @ err)), c)
      | Inr ticket_bytes \<Rightarrow>
          let amt = aj_whole (pr_max_amount_required req) in
          if xc_poisoned c then (Inl Client_Panic, c)
          else (case wallet_transfer e draw amt ticket_bytes (xc_wallet c) of
             (Inl f, w) \<Rightarrow> (Inl Client_Panic, c\<lparr>xc_wallet := w, xc_poisoned := True\<rparr>)
           | (Inr False, w) \<Rightarrow> (Inl InsufficientFunds, c\<lparr>xc_wallet := w\<rparr>)
           | (Inr True, w) \<Rightarrow>
               (case pending_values xl e (wa_pending_tokens w) of
                  Inl err \<Rightarrow> (Inl err, c\<lparr>xc_wallet := w\<rparr>)
                | Inr toks \<Rightarrow> (Inr \<lparr>pp_scheme = SCHEME_NAME, pp_network = xc_network c, pp_payload = \<lparr>bp_tokens = toks\<rparr>\<rparr>,
                               c\<lparr>xc_wallet := w\<rparr>))))"

text \<open>\<open>server\<close>: what comes back for a request, if anything does.\<close>

definition client_get ::
  "'j x402_lib \<Rightarrow> env \<Rightarrow> nat \<Rightarrow> (http_request \<Rightarrow> 's \<Rightarrow> http_response option \<times> 's) \<Rightarrow> string \<Rightarrow> x402_client \<times> 's
    \<Rightarrow> (x402_error + http_response) \<times> x402_client \<times> 's" where
  "client_get xl e draw server url cs =
     (case cs of (c, s) \<Rightarrow>
      (case server \<lparr>hq_path = url, hq_payment = None\<rparr> s of
         (None, s) \<Rightarrow> (Inl Http, c, s)
       | (Some response, s) \<Rightarrow>
           if hp_status response \<noteq> 402 then (Inr response, c, s)
           else (case xl_parse_requirements xl (hp_body response) of
              Inl err \<Rightarrow> (Inl (Protocol (''Failed to parse payment requirements: '' @ err)), c, s)
            | Inr req \<Rightarrow>
                (case prepare_payment xl e draw req c of
                   (Inl err, c) \<Rightarrow> (Inl err, c, s)
                 | (Inr payment, c) \<Rightarrow>
                     (case xl_print_payload xl payment of
                        Inl err \<Rightarrow> (Inl (Protocol err), c, s)
                      | Inr payment_json \<Rightarrow>
                          (case server \<lparr>hq_path = url, hq_payment = Some payment_json\<rparr> s of
                             (None, s) \<Rightarrow> (Inl Http, c, s)
                           | (Some retry_response, s) \<Rightarrow> (Inr retry_response, c, s)))))))"

subsection \<open>The demo of the gateway\<close>

definition gateway_paywall :: "'j \<Rightarrow> i32 \<Rightarrow> 'j paywall_config" where
  "gateway_paywall empty_object paywall_amount =
     \<lparr>pw_requirements = \<lparr>pr_scheme = SCHEME_NAME, pr_network = ''testnet'', pr_pay_to = empty_object,
        pr_max_amount_required = \<lparr>aj_whole = paywall_amount, aj_fractional = 0, aj_code = 0\<rparr>,
        pr_resource = ''/api/data'', pr_description = Some ''Access to data endpoint'', pr_extra = None\<rparr>,
      pw_required_amount = \<lparr>am_whole = paywall_amount, am_fractional = 0, am_code = TEST_TOKEN\<rparr>\<rparr>"

definition demo_data_handler :: "string \<Rightarrow> http_response" where
  "demo_data_handler data_json = \<lparr>hp_status = 200, hp_headers = [(''content-type'', ''application/json'')], hp_body = data_json\<rparr>"

subsection \<open>What the paywall admits\<close>

definition paywall_admits :: "'j x402_lib \<Rightarrow> env \<Rightarrow> u64 \<Rightarrow> amount \<Rightarrow> string \<Rightarrow> facilitator \<Rightarrow> bool" where
  "paywall_admits xl e now price payment_str fa \<longleftrightarrow> (\<exists>payload toks paid. xl_parse_payload xl payment_str = Inr payload
     \<and> pp_scheme payload = SCHEME_NAME \<and> tokens_from_json xl (bp_tokens (pp_payload payload)) = Inr toks
     \<and> toks \<noteq> [] \<and> \<not> fa_poisoned fa \<and> wallet_verify_tokens e now (fa_wallet fa) toks = Ok True
     \<and> sum_values e amount_default toks = Inr paid \<and> \<not> insufficient paid price)"

lemma verify_payment_Inr_iff:
  "verify_payment e now toks price resource network fa = (Inr receipt, fa') \<longleftrightarrow>
     fa' = fa \<and> toks \<noteq> [] \<and> \<not> fa_poisoned fa \<and> wallet_verify_tokens e now (fa_wallet fa) toks = Ok True
     \<and> (\<exists>paid. sum_values e amount_default toks = Inr paid \<and> \<not> insufficient paid price
        \<and> receipt = \<lparr>pc_accepted = True, pc_network = network, pc_amount = amount_json_from paid, pc_resource = resource\<rparr>)"
  by (auto simp: verify_payment_def split: sum.splits bool.splits)

lemma verify_payment_admits:
  "(\<exists>payload toks receipt. xl_parse_payload xl str = Inr payload \<and> pp_scheme payload = SCHEME_NAME
     \<and> tokens_from_json xl (bp_tokens (pp_payload payload)) = Inr toks
     \<and> verify_payment e now toks price resource network fa = (Inr receipt, fa)) \<longleftrightarrow> paywall_admits xl e now price str fa"
  by (auto simp: paywall_admits_def verify_payment_Inr_iff)

lemma paywall_outcome:
  assumes "paywall_call xl e now cfg inner rq (fa, s) = (r, fa', s')"
  shows "if \<exists>str. hq_payment rq = Some str \<and> paywall_admits xl e now (pw_required_amount cfg) str fa
    then fa' = fa \<and> s' = snd (inner rq s)
      \<and> (case fst (inner rq s) of Inl err \<Rightarrow> r = Inl (Inner_Error err)
         | Inr resp \<Rightarrow> r = Inl Handler_Panic \<or> (\<exists>v. r = Inr (insert_header PAYMENT_RECEIPT_HEADER v resp)))
    else s' = s \<and> (r = Inl Handler_Panic \<or> (\<exists>resp. r = Inr resp \<and> hp_status resp \<in> {400, 402}))"
proof (cases "hq_payment rq")
  case None
  then show ?thesis using assms
    by (auto simp: paywall_call_def payment_required_def Let_def split: if_splits)
next
  case (Some str)
  show ?thesis
  proof (cases "paywall_admits xl e now (pw_required_amount cfg) str fa")
    case True
    then obtain payload toks receipt where ok: "xl_parse_payload xl str = Inr payload" "pp_scheme payload = SCHEME_NAME"
        "tokens_from_json xl (bp_tokens (pp_payload payload)) = Inr toks"
        "verify_payment e now toks (pw_required_amount cfg) (pr_resource (pw_requirements cfg))
           (pr_network (pw_requirements cfg)) fa = (Inr receipt, fa)"
      using verify_payment_admits [of xl str e now "pw_required_amount cfg" "pr_resource (pw_requirements cfg)"
          "pr_network (pw_requirements cfg)" fa] by blast
    then show ?thesis using assms Some True
      by (auto simp: paywall_call_def Let_def split: prod.splits sum.splits if_splits)
  next
    case False
    have refused: False
      if "xl_parse_payload xl str = Inr payload" "pp_scheme payload = SCHEME_NAME"
        "tokens_from_json xl (bp_tokens (pp_payload payload)) = Inr toks"
        "verify_payment e now toks (pw_required_amount cfg) (pr_resource (pw_requirements cfg))
           (pr_network (pw_requirements cfg)) fa = (Inr receipt, fb)" for payload toks receipt fb
      using that False verify_payment_admits [of xl str e now "pw_required_amount cfg" "pr_resource (pw_requirements cfg)"
          "pr_network (pw_requirements cfg)" fa] by (metis verify_payment_Inr_iff)
    show ?thesis using assms Some False
      by (auto simp: paywall_call_def plain_response_def dest: refused split: prod.splits sum.splits if_splits payment_failure.splits)
  qed
qed

text \<open>the paywall reaches the inner service exactly for a payment it admits. Then the answer is the inner one with a
  receipt; every other request leaves the inner service alone and is answered with 400 or 402. What else may happen is
  a panic, of the verification or over a text that is no header value.\<close>

theorem paywall_serves_iff:
  assumes "paywall_call xl e now cfg inner rq (fa, s) = (r, fa', s')"
  shows "if \<exists>str. hq_payment rq = Some str \<and> paywall_admits xl e now (pw_required_amount cfg) str fa
    then fa' = fa \<and> s' = snd (inner rq s)
      \<and> (case fst (inner rq s) of Inl err \<Rightarrow> r = Inl (Inner_Error err)
         | Inr resp \<Rightarrow> r = Inl Handler_Panic \<or> (\<exists>v. r = Inr (insert_header PAYMENT_RECEIPT_HEADER v resp)))
    else s' = s \<and> (r = Inl Handler_Panic \<or> (\<exists>resp. r = Inr resp \<and> hp_status resp \<in> {400, 402}))"
  using paywall_outcome [OF assms] .

text \<open>A library in which a value is a list of tokens and a payload its own text: its only payment is the one token.\<close>

definition sample_x402 :: "token list x402_lib" where
  "sample_x402 = \<lparr>xl_print_requirements = \<lambda>q. Some ''requirements'',
     xl_parse_requirements = \<lambda>t. Inr (pw_requirements (gateway_paywall [] 10)),
     xl_print_payload = \<lambda>p. if bp_tokens (pp_payload p) = [] then Inr ''none'' else Inr ''one'',
     xl_parse_payload = \<lambda>t. Inr \<lparr>pp_scheme = SCHEME_NAME, pp_network = [], pp_payload =
       \<lparr>bp_tokens = if t = ''none'' then [] else [[sample_test_token]]\<rparr>\<rparr>,
     xl_print_receipt = \<lambda>c. Some ''receipt'', xl_bytes = \<lambda>v. Inr [0x7b, 0x7d],
     xl_token = \<lambda>v. (case v of [t] \<Rightarrow> Inr t | _ \<Rightarrow> Inl ''token''), xl_of_token = \<lambda>t. Some [t],
     xl_header_value = \<lambda>t. True, xl_header_parse = \<lambda>t. True\<rparr>"

abbreviation sample_price :: amount where
  "sample_price \<equiv> \<lparr>am_whole = 10, am_fractional = 0, am_code = TEST_TOKEN\<rparr>"

lemma sample_admits: "paywall_admits sample_x402 sample_env 2000 sample_price ''one'' (facilitator_new sample_wallet)"
  using sample_test_token_verified
  by (simp add: paywall_admits_def sample_x402_def facilitator_new_def wallet_verify_tokens_True_iff sample_wallet_def
      sample_credential_def token_value_def amount_default_def amount_add_def i32_add_def signed_divide_int_def
      signed_modulo_int_def insufficient_def)

definition sample_inner :: "http_request \<Rightarrow> nat \<Rightarrow> (string + http_response) \<times> nat" where
  "sample_inner rq n = (Inr (demo_data_handler ''data''), n + 1)"

lemma paywall_serves_iff_witness:
  "\<exists>r fa'. paywall_call sample_x402 sample_env 2000 (gateway_paywall [] 10) sample_inner
     \<lparr>hq_path = ''/api/data'', hq_payment = Some ''one''\<rparr> (facilitator_new sample_wallet, 0) = (r, fa', 1)"
proof -
  obtain r fa' s' where run: "paywall_call sample_x402 sample_env 2000 (gateway_paywall [] 10) sample_inner
      \<lparr>hq_path = ''/api/data'', hq_payment = Some ''one''\<rparr> (facilitator_new sample_wallet, 0) = (r, fa', s')"
    by (metis prod_cases3)
  from paywall_serves_iff [OF run] run sample_admits show ?thesis by (simp add: gateway_paywall_def sample_inner_def)
qed

lemma sum_values_add_values:
  "sum_values e acc toks = Inr a \<longleftrightarrow> add_values e acc (filter (\<lambda>t. token_value t \<noteq> None) toks) = Ok (Some a)"
proof (induction toks arbitrary: acc)
  case (Cons tok toks)
  then show ?case
  proof (cases "token_value tok")
    case (Some v)
    then have "add_value e acc tok = (case amount_add e acc v of Inl Panic \<Rightarrow> panic | Inl (Fail c) \<Rightarrow> Ok None | Inr a \<Rightarrow> Ok (Some a))"
      by (auto simp: token_value_def add_value_def bind_eq_Some_conv)
    then show ?thesis using Some Cons by (auto split: sum.split fault.split)
  qed simp
qed simp

lemma sum_values_micros:
  assumes "sum_values e amount_default toks = Inr paid" "\<forall>tok \<in> set toks. plain_value tok"
    and "(\<Sum>tok\<leftarrow>toks. whole_of tok + 1) < 2 ^ 31"
  shows "amount_ok paid \<and> micros paid = (\<Sum>tok\<leftarrow>toks. micros_of tok)"
proof -
  let ?vs = "filter (\<lambda>t. token_value t \<noteq> None) toks"
  have "(\<Sum>tok\<leftarrow>?vs. whole_of tok + 1) \<le> (\<Sum>tok\<leftarrow>toks. whole_of tok + 1)"
    using assms(2) by (induction toks) (auto simp: whole_of_def)
  moreover have "(\<Sum>tok\<leftarrow>?vs. micros_of tok) = (\<Sum>tok\<leftarrow>toks. micros_of tok)"
    by (induction toks) (auto simp: micros_of_def)
  ultimately show ?thesis
    using add_values_micros [of e amount_default ?vs paid] assms
    by (simp add: sum_values_add_values amount_default_def amount_ok_def micros_def)
qed

lemma insufficient_micros:
  assumes "amount_ok paid" "amount_ok price"
  shows "insufficient paid price \<longleftrightarrow> micros paid < micros price"
proof -
  have "am_whole paid = am_whole price \<longleftrightarrow> sint (am_whole paid) = sint (am_whole price)"
    by (auto intro: signed_word_eqI)
  then show ?thesis using assms by (auto simp: insufficient_def amount_ok_def micros_def)
qed



text \<open>C33: a payment pays for anything, any number of times. Admitting it changes nothing the facilitator has, and it is
  not asked to whom, where or for what the tokens were paid: whatever one paywall admits, it admits again, and every
  other paywall of the same price and keys as well.\<close>

theorem payment_replayed_anywhere:
  assumes "paywall_call xl e now cfg inner rq (fa, s) = (Inr resp, fa', s')" "hp_status resp \<notin> {400, 402}"
    and "pw_required_amount cfg' = pw_required_amount cfg"
  shows "fa' = fa \<and> snd (snd (paywall_call xl e now cfg' inner' rq (fa', t))) = snd (inner' rq t)"
proof -
  obtain str where str: "hq_payment rq = Some str" "paywall_admits xl e now (pw_required_amount cfg) str fa"
    using paywall_outcome [OF assms(1)] assms(2) by (auto split: if_splits)
  then have "fa' = fa" using paywall_outcome [OF assms(1)] by auto
  obtain r fb t' where other: "paywall_call xl e now cfg' inner' rq (fa, t) = (r, fb, t')" by (metis prod_cases3)
  have "t' = snd (inner' rq t)" using paywall_outcome [OF other] str assms(3) by auto
  then show ?thesis using other \<open>fa' = fa\<close> by simp
qed

lemma sample_paid:
  obtains resp where "paywall_call sample_x402 sample_env 2000 (gateway_paywall [] 10) sample_inner
      \<lparr>hq_path = ''/api/data'', hq_payment = Some ''one''\<rparr> (facilitator_new sample_wallet, 0) = (Inr resp, facilitator_new sample_wallet, 1)"
    "hp_status resp = 200"
proof -
  obtain r fa' s' where run: "paywall_call sample_x402 sample_env 2000 (gateway_paywall [] 10) sample_inner
      \<lparr>hq_path = ''/api/data'', hq_payment = Some ''one''\<rparr> (facilitator_new sample_wallet, 0) = (r, fa', s')"
    by (metis prod_cases3)
  then have "r \<noteq> Inl Handler_Panic"
    using sample_admits by (auto simp: paywall_call_def verify_payment_def sample_x402_def gateway_paywall_def sample_inner_def Let_def
        paywall_admits_def facilitator_new_def split: sum.splits bool.splits if_splits payment_failure.splits)
  then obtain v where "r = Inr (insert_header PAYMENT_RECEIPT_HEADER v (demo_data_handler ''data''))" "fa' = facilitator_new sample_wallet" "s' = 1"
    using paywall_outcome [OF run] sample_admits by (auto simp: gateway_paywall_def sample_inner_def)
  then show ?thesis using run that by (simp add: insert_header_def demo_data_handler_def)
qed

lemma payment_replayed_anywhere_witness:
  "snd (snd (paywall_call sample_x402 sample_env 2000 (gateway_paywall [sample_test_token] 10) sample_inner
     \<lparr>hq_path = ''/api/data'', hq_payment = Some ''one''\<rparr> (facilitator_new sample_wallet, 7))) = 8"
proof -
  obtain resp where run: "paywall_call sample_x402 sample_env 2000 (gateway_paywall [] 10) sample_inner
      \<lparr>hq_path = ''/api/data'', hq_payment = Some ''one''\<rparr> (facilitator_new sample_wallet, 0) = (Inr resp, facilitator_new sample_wallet, 1)"
    "hp_status resp = 200" by (rule sample_paid)
  from payment_replayed_anywhere [OF run(1), of "gateway_paywall [sample_test_token] 10" sample_inner 7] run(2)
  show ?thesis by (simp add: gateway_paywall_def sample_inner_def)
qed

subsection \<open>What the client pays\<close>

definition paywall_server ::
  "'j x402_lib \<Rightarrow> env \<Rightarrow> u64 \<Rightarrow> 'j paywall_config \<Rightarrow> (http_request \<Rightarrow> 's \<Rightarrow> ('x + http_response) \<times> 's)
    \<Rightarrow> http_request \<Rightarrow> facilitator \<times> 's \<Rightarrow> http_response option \<times> facilitator \<times> 's" where
  "paywall_server xl e now cfg inner rq st =
     (case paywall_call xl e now cfg inner rq st of (Inr resp, st) \<Rightarrow> (Some resp, st) | (Inl err, st) \<Rightarrow> (None, st))"

text \<open>nobody pays the demo of the gateway with this client. Its requirements name an empty object as the ticket; that
  is no ticket, the wallet reports a transfer all the same, and the client sends a payment without tokens, which is
  refused. Whatever its wallet holds, the client keeps it and gets no content.\<close>

theorem client_cannot_pay_gateway:
  fixes obj :: 'j and a :: i32 and c :: x402_client
  defines "cfg \<equiv> gateway_paywall obj a"
    and "payment \<equiv> \<lparr>pp_scheme = SCHEME_NAME, pp_network = xc_network c, pp_payload = \<lparr>bp_tokens = []\<rparr>\<rparr>"
  assumes "xl_bytes xl obj = Inr bs" "dec_signed_ticket e bs = None"
    and "xl_print_requirements xl (pw_requirements cfg) = Some t" "xl_header_value xl t"
      "xl_parse_requirements xl t = Inr (pw_requirements cfg)"
    and "\<And>str. xl_print_payload xl payment = Inr str \<Longrightarrow> xl_parse_payload xl str = Inr payment"
    and "wa_pending_tokens (xc_wallet c) = []"
  shows "\<exists>r c'. client_get xl e draw (paywall_server xl e now cfg inner) url (c, fa, s) = (r, c', fa, s)
    \<and> xc_wallet c' = xc_wallet c \<and> (\<forall>resp. r = Inr resp \<longrightarrow> hp_status resp = 402)"
proof -
  let ?srv = "paywall_server xl e now cfg inner"
  have first: "?srv \<lparr>hq_path = url, hq_payment = None\<rparr> (fa, s) = (Some \<lparr>hp_status = 402, hp_headers =
      [(''content-type'', ''application/json''), (PAYMENT_REQUIREMENTS_HEADER, t)], hp_body = t\<rparr>, fa, s)"
    using assms(5,6) by (simp add: paywall_server_def paywall_call_def payment_required_def Let_def)
  have second: "?srv \<lparr>hq_path = url, hq_payment = Some str\<rparr> (fa, s) =
      (Some (plain_response 402 (''Payment verification failed: '' @ show_verification_error NoTokens)), fa, s)"
    if "xl_print_payload xl payment = Inr str" for str
    using assms(8) [OF that] by (simp add: paywall_server_def paywall_call_def payment_def verify_payment_def)
  have t: "wallet_transfer e draw a bs (xc_wallet c) = (Ok False, xc_wallet c) \<or> wallet_transfer e draw a bs (xc_wallet c) = (Ok True, xc_wallet c)"
    using assms(4) by (simp add: wallet_transfer_def transfer_inner_def)
  have "\<exists>r c'. prepare_payment xl e draw (pw_requirements cfg) c = (r, c') \<and> xc_wallet c' = xc_wallet c
      \<and> (\<forall>p. r = Inr p \<longrightarrow> p = payment)"
    using t assms(3,9) by (elim disjE) (simp_all add: prepare_payment_def cfg_def gateway_paywall_def payment_def Let_def)
  then obtain r c' where "prepare_payment xl e draw (pw_requirements cfg) c = (r, c')" "xc_wallet c' = xc_wallet c"
      "\<And>p. r = Inr p \<Longrightarrow> p = payment" by blast
  then show ?thesis using first second assms(7)
    by (cases r; cases "xl_print_payload xl payment") (auto simp: client_get_def plain_response_def)
qed

definition sample_client :: x402_client where
  "sample_client = \<lparr>xc_wallet = sample_wallet\<lparr>wa_tokens := replicate 12 sample_entry\<rparr>, xc_poisoned = False, xc_network = []\<rparr>"

lemma client_cannot_pay_gateway_witness:
  "\<exists>r c'. client_get sample_x402 (sample_env\<lparr>dec_signed_ticket := \<lambda>b. None\<rparr>) 0
       (paywall_server sample_x402 (sample_env\<lparr>dec_signed_ticket := \<lambda>b. None\<rparr>) 2000 (gateway_paywall [] 10) sample_inner)
       ''/api/data'' (sample_client, facilitator_new sample_wallet, 0) = (r, c', facilitator_new sample_wallet, 0)
     \<and> length (wa_tokens (xc_wallet c')) = 12"
proof -
  have h: "xl_bytes sample_x402 [] = Inr [0x7b, 0x7d]" "dec_signed_ticket (sample_env\<lparr>dec_signed_ticket := \<lambda>b. None\<rparr>) [0x7b, 0x7d] = None"
    "xl_print_requirements sample_x402 (pw_requirements (gateway_paywall [] 10)) = Some ''requirements''"
    "xl_header_value sample_x402 ''requirements''"
    "xl_parse_requirements sample_x402 ''requirements'' = Inr (pw_requirements (gateway_paywall [] 10))"
    "xl_print_payload sample_x402 p = Inr str \<Longrightarrow> p = \<lparr>pp_scheme = SCHEME_NAME, pp_network = xc_network sample_client, pp_payload = \<lparr>bp_tokens = []\<rparr>\<rparr>
      \<Longrightarrow> xl_parse_payload sample_x402 str = Inr p"
    "wa_pending_tokens (xc_wallet sample_client) = []" for p str
    by (auto simp: sample_x402_def sample_client_def sample_wallet_def)
  have l: "length (wa_tokens (xc_wallet sample_client)) = 12" by (simp add: sample_client_def)
  show ?thesis using client_cannot_pay_gateway [OF h(1-5), of sample_client 0 2000 sample_inner "''/api/data''" "facilitator_new sample_wallet" 0] h(6,7) l
    by metis
qed

text \<open>the client pays whole units only. For a price below one unit it pays nothing, and its wallet loses a token.\<close>

theorem fractional_price_loses_a_token:
  assumes "xl_bytes xl (pr_pay_to req) = Inr bs" "dec_signed_ticket e bs = Some dest"
    and "aj_whole (pr_max_amount_required req) = 0" "\<not> xc_poisoned c"
    and "wa_pending_tokens (xc_wallet c) = []" "wa_tokens (xc_wallet c) \<noteq> []"
  shows "\<exists>c'. prepare_payment xl e draw req c =
      (Inr \<lparr>pp_scheme = SCHEME_NAME, pp_network = xc_network c, pp_payload = \<lparr>bp_tokens = []\<rparr>\<rparr>, c')
    \<and> wa_tokens (xc_wallet c') = butlast (wa_tokens (xc_wallet c))"
proof -
  obtain ke rest where "rev (wa_tokens (xc_wallet c)) = ke # rest" using assms(6) by (cases "rev (wa_tokens (xc_wallet c))") auto
  moreover from this have "butlast (wa_tokens (xc_wallet c)) = rev rest" by (metis butlast_snoc rev.simps(2) rev_rev_ident)
  ultimately show ?thesis using assms
    by (simp add: prepare_payment_def wallet_transfer_def transfer_inner_def Let_def)
qed

lemma fractional_price_loses_a_token_witness:
  "\<exists>c'. prepare_payment sample_x402 sample_codec_env 0 ((pw_requirements (gateway_paywall [] 10))\<lparr>pr_max_amount_required :=
      \<lparr>aj_whole = 0, aj_fractional = 500000, aj_code = 0\<rparr>\<rparr>) sample_client
    = (Inr \<lparr>pp_scheme = SCHEME_NAME, pp_network = [], pp_payload = \<lparr>bp_tokens = []\<rparr>\<rparr>, c') \<and> length (wa_tokens (xc_wallet c')) = 11"
proof -
  let ?req = "(pw_requirements (gateway_paywall [] 10))\<lparr>pr_max_amount_required := \<lparr>aj_whole = 0, aj_fractional = 500000, aj_code = 0\<rparr>\<rparr>"
  have "xl_bytes sample_x402 (pr_pay_to ?req) = Inr [0x7b, 0x7d]" "aj_whole (pr_max_amount_required ?req) = 0"
    "\<not> xc_poisoned sample_client" "wa_pending_tokens (xc_wallet sample_client) = []" "wa_tokens (xc_wallet sample_client) \<noteq> []"
    "xc_network sample_client = []" "length (butlast (wa_tokens (xc_wallet sample_client))) = 11"
    by (simp_all add: sample_x402_def sample_client_def sample_wallet_def)
  then show ?thesis using fractional_price_loses_a_token [where xl = sample_x402 and req = ?req and e = sample_codec_env
        and draw = 0 and c = sample_client] by (metis sample_codec_simps(2))
qed

end
