(* ===== verification/EpochTool.thy ===== *)
theory EpochTool
  imports Clerk Wallet
begin

section \<open>Making epochs (\<open>clerk/src/epoch_generate.rs\<close>) and keeping the clerk (\<open>clerk/src/server.rs\<close>)\<close>

text \<open>
  The tool that makes the next epoch update: it reads keys from files, asks the token map for revocations,
  packs the revoked groups into the bit field, signs, and submits the update to the clerk. A Rust \<open>panic!\<close>,
  \<open>expect\<close> or \<open>unwrap\<close> stops the tool. Files are a partial map from paths; \<open>pkcs8\<close> parses a secret key. The
  clerk's own file follows, written after each update and read at its start.
\<close>

subsection \<open>The revoked groups\<close>

text \<open>\<open>groups[byte]\<close> panics out of range; shifting a \<open>u8\<close> by 8 or more panics in a build with overflow checks and
  shifts by the low three bits otherwise.\<close>

definition set_group_bit :: "env \<Rightarrow> u32 \<Rightarrow> bytes \<Rightarrow> bytes result" where
  "set_group_bit e number groups =
     (let byte = unat (number mod 8); shift = unat (number div 8) in
      if length groups \<le> byte then panic
      else and_then (arith (overflow_checks e) (8 \<le> shift) (push_bit (shift mod 8) (1 :: u8))) (\<lambda>mask.
        Ok (groups[byte := or (groups ! byte) mask])))"

fun set_group_bits :: "env \<Rightarrow> u64 \<Rightarrow> group list \<Rightarrow> bytes \<Rightarrow> bytes result" where
  "set_group_bits e now [] groups = Ok groups"
| "set_group_bits e now (g # gs) groups =
     and_then (if now < gr_expiration g then set_group_bit e (gr_number g) groups else Ok groups)
       (\<lambda>groups. set_group_bits e now gs groups)"

fun set_entry_bits :: "env \<Rightarrow> u64 \<Rightarrow> revocation_data_entry list \<Rightarrow> bytes \<Rightarrow> bytes result" where
  "set_entry_bits e now [] groups = Ok groups"
| "set_entry_bits e now (en # ens) groups =
     and_then (case rde_data en of None \<Rightarrow> Ok groups | Some d \<Rightarrow> set_group_bits e now (rd_groups d) groups)
       (\<lambda>groups. set_entry_bits e now ens groups)"

text \<open>\<open>tokenmap\<close> is the outcome of the call; \<open>Ok None\<close> is an error of it.\<close>

definition get_revoked_groups ::
  "env \<Rightarrow> u32 \<Rightarrow> u64 \<Rightarrow> revocation_data_entry list rpc \<Rightarrow> bytes option result" where
  "get_revoked_groups e group_max now tokenmap =
     (case tokenmap of
        Reply entries \<Rightarrow> and_then (set_entry_bits e now entries (replicate (unat group_max) 0)) (\<lambda>groups. Ok (Some groups))
      | _ \<Rightarrow> Ok None)"

subsection \<open>Making an update\<close>

record epoch_args =
  ea_epoch_length :: u64
  ea_group_max :: u32
  ea_epoch_signing_secret_key :: string
  ea_additional_epoch_signing_key :: "string list"
  ea_ticket_signing_public_key :: string
  ea_additional_ticket_signing_key :: "string list"
  ea_mint_public_key :: string
  ea_additional_mint_key :: "string list"
  ea_ttc_group_public_key :: string
  ea_nac_group_policy :: "string list"
  ea_tokenmap_uri :: string
  ea_validate_uri :: string
  ea_swap_uri :: string
  ea_mint_uri :: string
  ea_registrar_uri :: string
  ea_clerk_uri :: string

definition epoch_args_default :: epoch_args where
  "epoch_args_default = \<lparr>ea_epoch_length = 86400, ea_group_max = 64, ea_epoch_signing_secret_key = ''data/clerk/epoch.sk'',
     ea_additional_epoch_signing_key = [], ea_ticket_signing_public_key = ''data/clerk/ticket.pk'',
     ea_additional_ticket_signing_key = [], ea_mint_public_key = ''data/mint/mint.pk'', ea_additional_mint_key = [],
     ea_ttc_group_public_key = ''data/registrar/ttc_issuer.gpk'', ea_nac_group_policy = [],
     ea_tokenmap_uri = ''http://[::1]:50054'', ea_validate_uri = ''http://[::1]:50055'', ea_swap_uri = ''http://[::1]:50057'',
     ea_mint_uri = ''http://[::1]:50053'', ea_registrar_uri = ''http://[::1]:50051'', ea_clerk_uri = ''http://[::1]:50052''\<rparr>"

type_synonym files = "string \<rightharpoonup> bytes"

fun read_files :: "files \<Rightarrow> string list \<Rightarrow> bytes list result" where
  "read_files fs [] = Ok []"
| "read_files fs (p # ps) = and_then (unwrap (fs p)) (\<lambda>b. and_then (read_files fs ps) (\<lambda>bs. Ok (b # bs)))"

definition read_public_key :: "env \<Rightarrow> (bytes \<Rightarrow> bytes option) \<Rightarrow> bytes \<Rightarrow> bytes result" where
  "read_public_key e pkcs8 der = and_then (unwrap (pkcs8 der)) (\<lambda>sk. Ok (ecdsa_public_key e sk))"

text \<open>\<open>str::parse\<close> for a \<open>u32\<close>: digits, after a sign of plus, in range.\<close>

definition digits_value :: "string \<Rightarrow> nat" where
  "digits_value ds = foldl (\<lambda>n c. 10 * n + (of_char c - 48)) 0 ds"

definition parse_u32 :: "string \<Rightarrow> u32 option" where
  "parse_u32 s =
     (let ds = (case s of c # cs \<Rightarrow> if c = CHR ''+'' then cs else s | [] \<Rightarrow> []) in
      if ds \<noteq> [] \<and> list_all (\<lambda>c. 48 \<le> (of_char c :: nat) \<and> (of_char c :: nat) \<le> 57) ds \<and> digits_value ds < 2 ^ 32
      then Some (of_nat (digits_value ds)) else None)"

text \<open>\<open>rsplitn(2, ':')\<close>: what follows the last colon and what is before it, or the whole.\<close>

definition rsplit_colon :: "string \<Rightarrow> string list" where
  "rsplit_colon s =
     (let after = rev (takeWhile (\<lambda>c. c \<noteq> CHR '':'') (rev s)) in
      if length after = length s then [s] else [after, take (length s - length after - 1) s])"

definition read_policy :: "files \<Rightarrow> string \<Rightarrow> group_policy result" where
  "read_policy fs en =
     (case rsplit_colon en of
        [lifetime, gpk_path] \<Rightarrow>
          and_then (unwrap (parse_u32 lifetime)) (\<lambda>lt.
          and_then (unwrap (fs gpk_path)) (\<lambda>gpk. Ok \<lparr>gp_nac_group_public_key = gpk, gp_ticket_lifetime = lt\<rparr>))
      | _ \<Rightarrow> panic)"

fun read_policies :: "files \<Rightarrow> string list \<Rightarrow> group_policy list result" where
  "read_policies fs [] = Ok []"
| "read_policies fs (p # ps) = and_then (read_policy fs p) (\<lambda>g. and_then (read_policies fs ps) (\<lambda>gs. Ok (g # gs)))"

fun read_epoch_keys :: "env \<Rightarrow> (bytes \<Rightarrow> bytes option) \<Rightarrow> files \<Rightarrow> string list \<Rightarrow> bytes list result" where
  "read_epoch_keys e pkcs8 fs [] = Ok []"
| "read_epoch_keys e pkcs8 fs (p # ps) =
     and_then (unwrap (fs p)) (\<lambda>der. and_then (read_public_key e pkcs8 der) (\<lambda>pk.
       and_then (read_epoch_keys e pkcs8 fs ps) (\<lambda>pks. Ok (pk # pks))))"

definition u32_add :: "bool \<Rightarrow> u32 \<Rightarrow> u32 \<Rightarrow> u32 result" where
  "u32_add checked a b = arith checked (2 ^ 32 \<le> unat a + unat b) (a + b)"

text \<open>The start of the epoch window.\<close>

definition window_of :: "u64 \<Rightarrow> u64 \<Rightarrow> u64 result" where
  "window_of now seconds = (if seconds = 0 then panic else Ok (now - now mod seconds))"

definition service_map_of :: "epoch_args \<Rightarrow> service_map option" where
  "service_map_of args =
     (let m0 = opt_service_map_add None Registrar (ea_registrar_uri args);
          m1 = opt_service_map_add m0 Ticket_Service (ea_clerk_uri args);
          m2 = opt_service_map_add m1 Epoch_Service (ea_clerk_uri args);
          m3 = opt_service_map_add m2 Validate_Service (ea_validate_uri args);
          m4 = opt_service_map_add m3 Swap (ea_swap_uri args);
          m5 = opt_service_map_add m4 Mint_Service (ea_mint_uri args)
      in opt_service_map_add m5 Tokenmap_Service (ea_tokenmap_uri args))"

definition make_epoch_update ::
  "env \<Rightarrow> nat \<Rightarrow> u64 \<Rightarrow> (bytes \<Rightarrow> bytes option) \<Rightarrow> files \<Rightarrow> revocation_data_entry list rpc \<Rightarrow> epoch_args \<Rightarrow> epoch_update result" where
  "make_epoch_update e draw now pkcs8 fs tokenmap args =
     and_then (unwrap (fs (ea_epoch_signing_secret_key args))) (\<lambda>der.
     and_then (unwrap (pkcs8 der)) (\<lambda>sk.
     and_then (read_epoch_keys e pkcs8 fs (ea_additional_epoch_signing_key args)) (\<lambda>extra_epoch.
     and_then (read_files fs (ea_ticket_signing_public_key args # ea_additional_ticket_signing_key args)) (\<lambda>ticket_keys.
     and_then (read_files fs (ea_mint_public_key args # ea_additional_mint_key args)) (\<lambda>mint_keys.
     and_then (unwrap (fs (ea_ttc_group_public_key args))) (\<lambda>ttc_gpk.
     and_then (read_policies fs (ea_nac_group_policy args)) (\<lambda>policies.
     and_then (u32_add (overflow_checks e) (ea_group_max args) 8) (\<lambda>group_bits.
     and_then (window_of now (ea_epoch_length args)) (\<lambda>window.
     and_then (get_revoked_groups e (ea_group_max args) window tokenmap) (\<lambda>revoked.
       let pk = ecdsa_public_key e sk;
           eed = \<lparr>ee_ttc_group_public_keys = [ttc_gpk], ee_epoch_signing_keys = pk # extra_epoch,
             ee_ticket_signing_keys = ticket_keys, ee_mint_signing_keys = mint_keys,
             ee_epoch_seconds = ea_epoch_length args, ee_service_map = service_map_of args, ee_group_policies = policies\<rparr>;
           bitfield = (case revoked of Some groups \<Rightarrow> groups | None \<Rightarrow> replicate (unat ((group_bits - 1) div 8)) 0);
           data = \<lparr>ed_epoch = window, ed_group_bitfield = bitfield,
             ed_extended_epoch_data_hash = sha256 e (enc_extended_epoch_data e eed)\<rparr>
       in Ok \<lparr>eu_version = 0, eu_data = Some data, eu_extended_data = Some eed,
              eu_epoch_signature = ecdsa_sign e draw sk (enc_epoch_data e data), eu_signing_key = pk\<rparr>))))))))))"

subsection \<open>The tool\<close>

text \<open>Whether an update is due, from the clerk's answer to \<open>get_epoch\<close>; \<open>Ok None\<close> is any other error, with which
  the tool ends.\<close>

definition update_due :: "u64 \<Rightarrow> u64 \<Rightarrow> epoch_update option result \<Rightarrow> bool option result" where
  "update_due epoch_length now answer =
     (case answer of
        Inl Panic \<Rightarrow> Ok None
      | Inl (Fail c) \<Rightarrow> if c = InvalidServerState then Ok (Some True) else Ok None
      | Inr update \<Rightarrow>
          and_then (unwrap update) (\<lambda>prev.
          case eu_extended_data prev of
            None \<Rightarrow> Ok (Some False)
          | Some x \<Rightarrow>
              and_then (window_of now (if 0 < ee_epoch_seconds x then ee_epoch_seconds x else epoch_length)) (\<lambda>window.
              case eu_data prev of
                None \<Rightarrow> Ok (Some True)
              | Some d \<Rightarrow> Ok (Some (ed_epoch d < window)))))"

text \<open>\<open>main\<close> against a clerk: what it ends with (\<open>Ok False\<close>: an error is returned) and the clerk after it. The clock
  is read twice.\<close>

definition epoch_tool ::
  "env \<Rightarrow> nat \<Rightarrow> u64 \<Rightarrow> u64 \<Rightarrow> (bytes \<Rightarrow> bytes option) \<Rightarrow> files \<Rightarrow> revocation_data_entry list rpc \<Rightarrow> bool \<Rightarrow> epoch_args \<Rightarrow> clerk
    \<Rightarrow> bool result \<times> clerk" where
  "epoch_tool e draw now1 now2 pkcs8 fs tokenmap disk_ok args ck =
     (case update_due (ea_epoch_length args) now1 (get_epoch_impl 0 0 ck) of
        Inl f \<Rightarrow> (Inl f, ck)
      | Inr None \<Rightarrow> (Ok False, ck)
      | Inr (Some False) \<Rightarrow> (Ok True, ck)
      | Inr (Some True) \<Rightarrow>
          (case make_epoch_update e draw now2 pkcs8 fs tokenmap args of
             Inl f \<Rightarrow> (Inl f, ck)
           | Inr u \<Rightarrow>
               (case add_epoch_impl e disk_ok u ck of
                  (Inr _, ck') \<Rightarrow> (Ok True, ck')
                | (Inl f, ck') \<Rightarrow> (Ok False, ck'))))"

subsection \<open>The clerk's file\<close>

record clerk_file =
  cf_ticket_signing_key :: bytes
  cf_epoch_verifying_key :: bytes
  cf_epoch_update :: bytes
  cf_tokenmap_uri :: string

definition epoch_update_default :: epoch_update where
  "epoch_update_default = \<lparr>eu_version = 0, eu_data = None, eu_extended_data = None, eu_epoch_signature = [], eu_signing_key = []\<rparr>"

text \<open>The secret key and the URI are themselves; \<open>key_ok\<close> and \<open>uri_ok\<close> say what their crates accept.\<close>

definition clerk_new :: "(bytes \<Rightarrow> bytes option) \<Rightarrow> (string \<Rightarrow> bool) \<Rightarrow> bytes \<Rightarrow> bytes \<Rightarrow> string \<Rightarrow> (clerk \<times> string) result" where
  "clerk_new pkcs8 uri_ok der epoch_public_key uri =
     and_then (unwrap (pkcs8 der)) (\<lambda>sk.
     if uri_ok uri then Ok (\<lparr>ck_ticket_signing_key = sk, ck_epoch_verifying_key = epoch_public_key, ck_epoch_update = None\<rparr>, uri)
     else panic)"

definition clerk_load ::
  "(bytes \<Rightarrow> clerk_file option) \<Rightarrow> (bytes \<Rightarrow> bool) \<Rightarrow> (bytes \<Rightarrow> epoch_update option) \<Rightarrow> (string \<Rightarrow> bool) \<Rightarrow> bytes option
    \<Rightarrow> (clerk \<times> string) option" where
  "clerk_load parse key_ok dec_epoch_update uri_ok file =
     Option.bind (Option.bind file parse) (\<lambda>x.
     let eu = (if cf_epoch_update x = [] then None else dec_epoch_update (cf_epoch_update x)) in
     if key_ok (cf_ticket_signing_key x) \<and> uri_ok (cf_tokenmap_uri x) then
       Some (\<lparr>ck_ticket_signing_key = cf_ticket_signing_key x, ck_epoch_verifying_key = cf_epoch_verifying_key x,
              ck_epoch_update = eu\<rparr>, cf_tokenmap_uri x)
     else None)"

definition clerk_to_file :: "env \<Rightarrow> clerk \<times> string \<Rightarrow> clerk_file" where
  "clerk_to_file e cu =
     (let ck = fst cu in
       \<lparr>cf_ticket_signing_key = ck_ticket_signing_key ck, cf_epoch_verifying_key = ck_epoch_verifying_key ck,
        cf_epoch_update = enc_epoch_update e (case ck_epoch_update ck of Some u \<Rightarrow> u | None \<Rightarrow> epoch_update_default),
        cf_tokenmap_uri = snd cu\<rparr>)"

definition clerk_store_file :: "env \<Rightarrow> (clerk_file \<Rightarrow> bytes) \<Rightarrow> clerk \<times> string \<Rightarrow> bytes" where
  "clerk_store_file e print_file cu = print_file (clerk_to_file e cu)"

subsection \<open>Which groups an epoch revokes\<close>

text \<open>The numbers of the groups that are revoked and not expired.\<close>

definition revoked_numbers :: "u64 \<Rightarrow> revocation_data_entry list \<Rightarrow> u32 set" where
  "revoked_numbers now entries = (\<Union>en \<in> set entries. case rde_data en of None \<Rightarrow> {}
     | Some d \<Rightarrow> gr_number ` {g \<in> set (rd_groups d). now < gr_expiration g})"

lemma set_group_bit_small:
  assumes "unat n < 64" "8 \<le> length groups"
  shows "\<exists>groups'. set_group_bit e n groups = Ok groups' \<and> length groups' = length groups
    \<and> (\<forall>i j. i < length groups \<longrightarrow> bit (groups' ! i) j = (bit (groups ! i) j \<or> i = unat n mod 8 \<and> j = unat n div 8))"
proof -
  have k: "unat (n mod 8) = unat n mod 8" "unat (n div 8) = unat n div 8" by (simp_all add: unat_mod unat_div)
  have "bit (push_bit m (1 :: u8)) j \<longleftrightarrow> j = m" if "m < 8" for m j
    using that by (auto simp: bit_simps)
  then show ?thesis using assms
    by (auto simp: set_group_bit_def k arith_def Let_def nth_list_update bit_or_iff)
qed

lemma set_group_bit_large:
  assumes "64 \<le> unat n" "overflow_checks e" shows "set_group_bit e n groups = panic"
proof -
  have "8 \<le> unat n div 8" using assms(1) by presburger
  then show ?thesis using assms(2) by (simp add: set_group_bit_def arith_def Let_def unat_div)
qed

lemma set_group_bits_small:
  assumes "\<forall>g \<in> set gs. now < gr_expiration g \<longrightarrow> unat (gr_number g) < 64" "8 \<le> length groups"
  shows "\<exists>groups'. set_group_bits e now gs groups = Ok groups' \<and> length groups' = length groups
    \<and> (\<forall>i j. i < length groups \<longrightarrow> bit (groups' ! i) j = (bit (groups ! i) j
        \<or> (\<exists>g \<in> set gs. now < gr_expiration g \<and> i = unat (gr_number g) mod 8 \<and> j = unat (gr_number g) div 8)))"
  using assms
proof (induction gs arbitrary: groups)
  case (Cons g gs)
  obtain mid where mid: "(if now < gr_expiration g then set_group_bit e (gr_number g) groups else Ok groups) = Ok mid"
      "length mid = length groups"
      "\<forall>i j. i < length groups \<longrightarrow> bit (mid ! i) j = (bit (groups ! i) j
        \<or> now < gr_expiration g \<and> i = unat (gr_number g) mod 8 \<and> j = unat (gr_number g) div 8)"
  proof (cases "now < gr_expiration g")
    case True
    then show ?thesis using set_group_bit_small [of "gr_number g" groups e] Cons.prems that by auto
  qed (use that in auto)
  obtain groups' where "set_group_bits e now gs mid = Ok groups'" "length groups' = length mid"
      "\<forall>i j. i < length mid \<longrightarrow> bit (groups' ! i) j = (bit (mid ! i) j
        \<or> (\<exists>g \<in> set gs. now < gr_expiration g \<and> i = unat (gr_number g) mod 8 \<and> j = unat (gr_number g) div 8))"
    using Cons.IH [of mid] Cons.prems mid(2) by auto
  then show ?case using mid by auto
qed simp

lemma set_entry_bits_small:
  assumes "\<forall>n \<in> revoked_numbers now entries. unat n < 64" "8 \<le> length groups"
  shows "\<exists>groups'. set_entry_bits e now entries groups = Ok groups' \<and> length groups' = length groups
    \<and> (\<forall>i j. i < length groups \<longrightarrow> bit (groups' ! i) j = (bit (groups ! i) j
        \<or> (\<exists>n \<in> revoked_numbers now entries. i = unat n mod 8 \<and> j = unat n div 8)))"
  using assms
proof (induction entries arbitrary: groups)
  case (Cons en entries)
  let ?gs = "case rde_data en of None \<Rightarrow> [] | Some d \<Rightarrow> rd_groups d"
  have split_gs: "revoked_numbers now (en # entries) = gr_number ` {g \<in> set ?gs. now < gr_expiration g} \<union> revoked_numbers now entries"
    by (cases "rde_data en") (simp_all add: revoked_numbers_def)
  have run: "(case rde_data en of None \<Rightarrow> Ok groups | Some d \<Rightarrow> set_group_bits e now (rd_groups d) groups) = set_group_bits e now ?gs groups"
    by (cases "rde_data en") simp_all
  obtain mid where mid: "set_group_bits e now ?gs groups = Ok mid" "length mid = length groups"
      "\<forall>i j. i < length groups \<longrightarrow> bit (mid ! i) j = (bit (groups ! i) j
        \<or> (\<exists>g \<in> set ?gs. now < gr_expiration g \<and> i = unat (gr_number g) mod 8 \<and> j = unat (gr_number g) div 8))"
    using set_group_bits_small [of ?gs now groups e] Cons.prems split_gs by auto
  obtain groups' where "set_entry_bits e now entries mid = Ok groups'" "length groups' = length mid"
      "\<forall>i j. i < length mid \<longrightarrow> bit (groups' ! i) j = (bit (mid ! i) j
        \<or> (\<exists>n \<in> revoked_numbers now entries. i = unat n mod 8 \<and> j = unat n div 8))"
    using Cons.IH [of mid] Cons.prems mid(2) split_gs by auto
  then show ?case unfolding split_gs using mid run by (auto simp: bex_Un)
qed (simp add: revoked_numbers_def)

lemma base8_digits: "(b :: nat) < 8 \<Longrightarrow> x = 8 * a + b \<longleftrightarrow> x div 8 = a \<and> x mod 8 = b"
  using div_mult_mod_eq [of x 8] by auto

text \<open>C29: the tool writes the bit of a group at its number's place with byte and bit exchanged. A clerk that serves
  the epoch refuses a group exactly when the group with the digits of its number in base 8 exchanged is revoked:
  revoking group 1 revokes group 8, and group 1 goes on.\<close>

theorem revocations_transposed:
  assumes "\<forall>n \<in> revoked_numbers now entries. unat n < 64" "8 \<le> unat group_max"
  shows "\<exists>groups. get_revoked_groups e group_max now (Reply entries) = Ok (Some groups)
    \<and> (\<forall>d g. ed_group_bitfield d = groups \<longrightarrow>
        group_revoked d g \<longleftrightarrow> (\<exists>n \<in> revoked_numbers now entries. unat g = 8 * (unat n mod 8) + unat n div 8))"
proof -
  let ?z = "replicate (unat group_max) (0 :: u8)"
  obtain groups where ok: "set_entry_bits e now entries ?z = Ok groups" and len: "length groups = unat group_max"
      and bits: "\<forall>i j. i < unat group_max \<longrightarrow> bit (groups ! i) j =
        (\<exists>n \<in> revoked_numbers now entries. i = unat n mod 8 \<and> j = unat n div 8)"
    using set_entry_bits_small [OF assms(1), of ?z e] assms(2) by auto
  have "group_revoked d g \<longleftrightarrow> (\<exists>n \<in> revoked_numbers now entries. unat g = 8 * (unat n mod 8) + unat n div 8)"
    if d: "ed_group_bitfield d = groups" for d g
  proof -
    have digits: "unat g = 8 * (unat n mod 8) + unat n div 8 \<longleftrightarrow> unat g div 8 = unat n mod 8 \<and> unat g mod 8 = unat n div 8"
      if "n \<in> revoked_numbers now entries" for n
    proof -
      have "unat n div 8 < 8" using assms(1) that by auto
      then show ?thesis by (rule base8_digits)
    qed
    have "group_revoked d g \<longleftrightarrow> unat g div 8 < unat group_max
        \<and> (\<exists>n \<in> revoked_numbers now entries. unat g div 8 = unat n mod 8 \<and> unat g mod 8 = unat n div 8)"
      using bits d len by (auto simp: group_revoked_def Let_def)
    also have "\<dots> \<longleftrightarrow> (\<exists>n \<in> revoked_numbers now entries. unat g div 8 = unat n mod 8 \<and> unat g mod 8 = unat n div 8)"
      using assms(2) by (auto intro: order.strict_trans2 [OF mod_less_divisor])
    finally show ?thesis using digits by blast
  qed
  then show ?thesis using ok by (auto simp: get_revoked_groups_def)
qed

definition revocation_of :: "u32 \<Rightarrow> revocation_data_entry" where
  "revocation_of n = \<lparr>rde_id = [], rde_data = Some \<lparr>rd_timestamp = 0, rd_nac = None, rd_ttc = None, rd_token_id = [], rd_token_expiry = 0,
     rd_groups = [\<lparr>gr_number = n, gr_expiration = 9\<rparr>], rd_abuse = DoubleSpend\<rparr>, rde_created_on = 0\<rparr>"

lemma revoked_numbers_one: "revoked_numbers 8 [revocation_of n] = {n}"
  by (auto simp: revoked_numbers_def revocation_of_def)

lemma revocations_transposed_witness:
  "\<exists>groups. get_revoked_groups sample_env 64 8 (Reply [revocation_of 1]) = Ok (Some groups)
    \<and> group_revoked \<lparr>ed_epoch = 0, ed_group_bitfield = groups, ed_extended_epoch_data_hash = []\<rparr> 8
    \<and> \<not> group_revoked \<lparr>ed_epoch = 0, ed_group_bitfield = groups, ed_extended_epoch_data_hash = []\<rparr> 1"
proof -
  have "\<forall>n \<in> revoked_numbers 8 [revocation_of 1]. unat n < 64" "8 \<le> unat (64 :: u32)" by (simp_all add: revoked_numbers_one)
  from revocations_transposed [OF this, of sample_env] show ?thesis by (auto simp: revoked_numbers_one)
qed

lemma set_group_bits_large:
  assumes "g \<in> set gs" "now < gr_expiration g" "64 \<le> unat (gr_number g)" "overflow_checks e"
  shows "\<exists>f. set_group_bits e now gs groups = Inl f"
  using assms(1)
proof (induction gs arbitrary: groups)
  case (Cons h gs)
  then show ?case
  proof (cases "h = g")
    case True
    then show ?thesis using assms by (simp add: set_group_bit_large)
  qed (auto simp: and_then_def split: sum.split)
qed simp

lemma set_group_bits_fault: "set_group_bits e now gs groups = Inl f \<Longrightarrow> f = Panic"
  by (induction e now gs groups rule: set_group_bits.induct)
    (auto simp: and_then_Inl_iff set_group_bit_def arith_def Let_def split: if_splits)

lemma set_entry_bits_large:
  assumes "n \<in> revoked_numbers now entries" "64 \<le> unat n" "overflow_checks e"
  shows "set_entry_bits e now entries groups = panic"
proof -
  have "\<exists>f. set_entry_bits e now entries groups = Inl f" using assms(1)
  proof (induction entries arbitrary: groups)
    case (Cons en entries)
    show ?case
    proof (cases "n \<in> revoked_numbers now [en]")
      case True
      then obtain d g where "rde_data en = Some d" "g \<in> set (rd_groups d)" "now < gr_expiration g" "gr_number g = n"
        by (auto simp: revoked_numbers_def split: option.splits)
      then show ?thesis using set_group_bits_large [of g "rd_groups d" now e groups] assms(2,3) by auto
    next
      case False
      then have "n \<in> revoked_numbers now entries" using Cons.prems by (auto simp: revoked_numbers_def)
      then show ?thesis using Cons.IH by (auto simp: and_then_def split: sum.split)
    qed
  qed (simp add: revoked_numbers_def)
  moreover have "set_entry_bits e now entries groups = Inl f \<Longrightarrow> f = Panic" for f
    by (induction e now entries groups rule: set_entry_bits.induct)
      (auto simp: and_then_Inl_iff dest: set_group_bits_fault split: option.splits)
  ultimately show ?thesis by blast
qed

lemma make_epoch_update_revoked:
  assumes "make_epoch_update e draw now pkcs8 fs No_Connection args = Ok u" "window_of now (ea_epoch_length args) = Ok w"
    and "get_revoked_groups e (ea_group_max args) w tokenmap = panic"
  shows "make_epoch_update e draw now pkcs8 fs tokenmap args = panic"
  using assms by (auto simp: make_epoch_update_def and_then_Inr_iff)

text \<open>a revoked group with a number from 64 on stops the tool, in a build with overflow checks, whatever the
  number of groups it was started with: no update is made until the revocation expires.\<close>

theorem large_revocation_stops_epochs:
  assumes "make_epoch_update e draw now pkcs8 fs No_Connection args = Ok u" "window_of now (ea_epoch_length args) = Ok w"
    and "n \<in> revoked_numbers w entries" "64 \<le> unat n" "overflow_checks e"
  shows "make_epoch_update e draw now pkcs8 fs (Reply entries) args = panic"
  by (rule make_epoch_update_revoked [OF assms(1,2)]) (simp add: get_revoked_groups_def set_entry_bits_large [OF assms(3-5)])

definition sample_files :: files where
  "sample_files = [''data/clerk/epoch.sk'' \<mapsto> [5], ''data/clerk/ticket.pk'' \<mapsto> [7], ''data/mint/mint.pk'' \<mapsto> [9],
     ''data/registrar/ttc_issuer.gpk'' \<mapsto> [3]]"

lemma sample_epoch_made:
  "\<exists>u. make_epoch_update sample_env 0 90008 Some sample_files No_Connection epoch_args_default = Ok u"
  by (simp add: make_epoch_update_def sample_files_def epoch_args_default_def u32_add_def arith_def window_of_def get_revoked_groups_def Let_def)

lemma large_revocation_stops_epochs_witness:
  "make_epoch_update sample_env 0 8 Some sample_files (Reply [revocation_of 64]) (epoch_args_default\<lparr>ea_epoch_length := 1\<rparr>) = panic"
proof -
  obtain u where "make_epoch_update sample_env 0 8 Some sample_files No_Connection (epoch_args_default\<lparr>ea_epoch_length := 1\<rparr>) = Ok u"
    by (simp add: make_epoch_update_def sample_files_def epoch_args_default_def u32_add_def arith_def window_of_def get_revoked_groups_def Let_def)
  moreover have "window_of 8 (ea_epoch_length (epoch_args_default\<lparr>ea_epoch_length := 1\<rparr>)) = Ok 8" by (simp add: window_of_def)
  ultimately show ?thesis using large_revocation_stops_epochs [where n = 64 and entries = "[revocation_of 64]"]
    by (simp add: revoked_numbers_one)
qed

subsection \<open>An update once per window\<close>

lemma made_epoch_authentic:
  assumes "make_epoch_update e draw now pkcs8 fs tokenmap args = Ok u"
    and "fs (ea_epoch_signing_secret_key args) = Some der" "pkcs8 der = Some sk" "ecdsa_correct e sk"
    and "ecdsa_pk_parses e (ecdsa_public_key e sk)"
  shows "\<exists>d x w. eu_data u = Some d \<and> eu_extended_data u = Some x \<and> window_of now (ea_epoch_length args) = Ok w \<and> ed_epoch d = w
    \<and> ee_epoch_seconds x = ea_epoch_length args \<and> eu_version u = 0 \<and> eu_signing_key u = ecdsa_public_key e sk
    \<and> length (eu_epoch_signature u) = 64 \<and> epoch_authentic e u (ecdsa_public_key e sk)"
  using assms by (auto simp: make_epoch_update_def and_then_Inr_iff Let_def epoch_authentic_def ecdsa_correct_def)

text \<open>C34: the tool makes one update per window. Started for a clerk without one, with the clerk's epoch key, it leaves the
  clerk an authentic update that carries the start of the window; started again in the same window, with whatever
  files and revocations, it changes nothing.\<close>

theorem one_update_per_window:
  assumes "make_epoch_update e draw now2 pkcs8 fs tokenmap args = Ok u"
    and "fs (ea_epoch_signing_secret_key args) = Some der" "pkcs8 der = Some sk" "ecdsa_correct e sk"
    and "ck_epoch_update ck = None" "ck_epoch_verifying_key ck = ecdsa_public_key e sk"
    and "ecdsa_pk_parses e (ecdsa_public_key e sk)" "ecdsa_public_key e sk \<noteq> []"
    and "window_of now2 (ea_epoch_length args) = Ok w" "0 < w"
  shows "\<exists>ck'. epoch_tool e draw now1 now2 pkcs8 fs tokenmap True args ck = (Ok True, ck') \<and> ck' = ck\<lparr>ck_epoch_update := Some u\<rparr>
    \<and> epoch_authentic e u (ck_epoch_verifying_key ck') \<and> map_option ed_epoch (eu_data u) = Some w
    \<and> (window_of now3 (ea_epoch_length args) = Ok w \<longrightarrow>
        epoch_tool e draw' now3 now4 pkcs8' fs' tokenmap' disk_ok args ck' = (Ok True, ck'))"
proof -
  obtain d x where u: "eu_data u = Some d" "eu_extended_data u = Some x" "ed_epoch d = w"
      "ee_epoch_seconds x = ea_epoch_length args" "eu_version u = 0" "eu_signing_key u = ecdsa_public_key e sk"
      "length (eu_epoch_signature u) = 64" and auth: "epoch_authentic e u (ecdsa_public_key e sk)"
    using made_epoch_authentic [OF assms(1-4,7)] assms(9) by auto
  have "0 < ea_epoch_length args" using assms(9) by (auto simp: window_of_def word_gt_0 split: if_splits)
  moreover have "epoch_verify e u (ecdsa_public_key e sk) = Ok True" using auth by (simp add: epoch_verify_Ok_iff)
  moreover have "eu_epoch_signature u \<noteq> []" using u(7) by auto
  ultimately show ?thesis using u auth assms
    by (simp add: epoch_tool_def get_epoch_impl_def update_due_def add_epoch_impl_def Let_def)
qed

lemma one_update_per_window_witness:
  "\<exists>ck'. epoch_tool sample_env 0 90000 90008 Some sample_files No_Connection True epoch_args_default
      \<lparr>ck_ticket_signing_key = [7], ck_epoch_verifying_key = [5], ck_epoch_update = None\<rparr> = (Ok True, ck')
    \<and> epoch_tool sample_env 1 100000 100001 Some Map.empty No_Connection True epoch_args_default ck' = (Ok True, ck')"
proof -
  let ?ck = "\<lparr>ck_ticket_signing_key = [7], ck_epoch_verifying_key = [5], ck_epoch_update = None\<rparr>"
  obtain u where "make_epoch_update sample_env 0 90008 Some sample_files No_Connection epoch_args_default = Ok u"
    using sample_epoch_made by blast
  moreover have "sample_files (ea_epoch_signing_secret_key epoch_args_default) = Some [5]" by (simp add: sample_files_def epoch_args_default_def)
  moreover have "ecdsa_correct sample_env [5]" by (simp add: ecdsa_correct_def)
  moreover have "window_of 90008 (ea_epoch_length epoch_args_default) = Ok 86400" "window_of 100000 (ea_epoch_length epoch_args_default) = Ok 86400"
    by (simp_all add: window_of_def epoch_args_default_def)
  ultimately show ?thesis
    using one_update_per_window [where ck = ?ck and sk = "[5]" and ?pkcs8.0 = Some and der = "[5]" and w = 86400 and e = sample_env
        and draw = 0 and ?now1.0 = 90000 and ?now2.0 = 90008 and fs = sample_files and tokenmap = No_Connection and args = epoch_args_default
        and u = u and ?now3.0 = 100000 and ?now4.0 = 100001 and draw' = 1 and pkcs8' = Some and fs' = Map.empty and tokenmap' = No_Connection and disk_ok = True]
    by simp
qed

subsection \<open>The clerk's file survives\<close>

text \<open>a clerk read back from the file it wrote is the same clerk, with its keys, its epoch update and the address
  of the token map: nothing it answers changes with a restart.\<close>

theorem clerk_survives_restart:
  assumes "parse (print_file (clerk_to_file e (ck, uri))) = Some (clerk_to_file e (ck, uri))"
    and "enc_epoch_update e epoch_update_default = []"
    and "\<And>u. ck_epoch_update ck = Some u \<Longrightarrow> eu_data u \<noteq> None \<Longrightarrow> enc_epoch_update e u \<noteq> [] \<and> dec (enc_epoch_update e u) = Some u"
    and "key_ok (ck_ticket_signing_key ck)" "uri_ok uri" "clerk_epoch_inv e ck"
  shows "clerk_load parse key_ok dec uri_ok (Some (clerk_store_file e print_file (ck, uri))) = Some (ck, uri)"
proof (cases "ck_epoch_update ck")
  case None
  then show ?thesis using assms by (simp add: clerk_load_def clerk_store_file_def clerk_to_file_def Let_def)
next
  case (Some u)
  then have "eu_data u \<noteq> None"
    using assms(6) by (auto simp: clerk_epoch_inv_def epoch_authentic_def)
  then have "enc_epoch_update e u \<noteq> [] \<and> dec (enc_epoch_update e u) = Some u" using assms(3) Some by blast
  then show ?thesis using assms(1,4,5) Some by (simp add: clerk_load_def clerk_store_file_def clerk_to_file_def Let_def)
qed

lemma clerk_survives_restart_witness:
  "clerk_load (\<lambda>b. Some (clerk_to_file sample_env (sample_clerk, ''http://[::1]:50054''))) (\<lambda>k. True) (\<lambda>b. ck_epoch_update sample_clerk) (\<lambda>u. True)
      (Some (clerk_store_file sample_env (\<lambda>f. [1]) (sample_clerk, ''http://[::1]:50054''))) = Some (sample_clerk, ''http://[::1]:50054'')"
  by (rule clerk_survives_restart) (auto simp: clerk_epoch_inv_def sample_clerk_def epoch_authentic_def epoch_update_default_def)

end
