(* ===== verification/WalletFile.thy ===== *)
theory WalletFile
  imports
    Wallet Registrar GroupSignature
begin

section \<open>The life of a wallet (\<open>wallet/src/lib.rs\<close>)\<close>

text \<open>
  What \<open>WalletData\<close> is made from, registers with, and is kept in: its constructor, the setters for a
  registration, the registration's request, the generation of its keys with two smart cards, and the
  file. \<open>wallet_data\<close> adds to the record \<open>wallet\<close>, on which the other operations work, the fields that
  only these read. serde_json is two arguments, \<open>print\<close> and \<open>parse\<close>; what it documents of fields marked
  \<open>serde(skip)\<close> is \<open>reads_back\<close>. The parse of a \<open>Uri\<close> is the predicate \<open>uri_ok\<close>.
\<close>

record wallet_data =
  wd_id :: bytes
  wd_issuer_uri :: string
  wd_clerk_uri :: string
  wd_mint_uri :: string
  wd_validate_uri :: string
  wd_wallet :: wallet
  wd_attestation_algorithm :: i32
  wd_attestation_signature :: bytes
  wd_attestation_public_key :: bytes
  wd_nac_card_public_key :: bytes
  wd_ttc_card_public_key :: bytes
  wd_card_attestation_data :: bytes

definition credential_default :: credential where
  "credential_default = \<lparr>cr_public_key = [], cr_secret_key = [], cr_group_public_key = None, cr_credential = None,
     cr_credential_signature = None, cr_host_secret_key = None\<rparr>"

definition wallet_epoch_default :: wallet_epoch where
  "wallet_epoch_default = \<lparr>we_epoch_update = None, we_eu_serialized = [], we_epoch_number = 0, we_group_bitfield = [],
     we_ttc_group_public_keys = [], we_epoch_signing_keys = [], we_ticket_signing_keys = [], we_mint_signing_keys = []\<rparr>"

definition wallet_default :: wallet where
  "wallet_default = \<lparr>wa_hw_id = [], wa_network_credential = credential_default, wa_transfer_credential = credential_default,
     wa_epoch = wallet_epoch_default, wa_tickets = [], wa_tokens = [], wa_pending_tokens = [], wa_seen_tokens = {},
     wa_nac_card = None, wa_ttc_card = None\<rparr>"

definition wallet_new ::
  "(string \<Rightarrow> bool) \<Rightarrow> string \<Rightarrow> string \<Rightarrow> string \<Rightarrow> string \<Rightarrow> string + wallet_data" where
  "wallet_new uri_ok issuer clerk mint validate =
     (if \<not> uri_ok issuer then Inl ''cannot parse Uri''
      else if \<not> uri_ok clerk then Inl ''cannot parse Uri''
      else if \<not> uri_ok mint then Inl ''cannot parse Uri''
      else if \<not> uri_ok validate then Inl ''cannot parse Uri''
      else Inr \<lparr>wd_id = [], wd_issuer_uri = issuer, wd_clerk_uri = clerk, wd_mint_uri = mint, wd_validate_uri = validate,
        wd_wallet = wallet_default, wd_attestation_algorithm = 0, wd_attestation_signature = [],
        wd_attestation_public_key = [], wd_nac_card_public_key = [], wd_ttc_card_public_key = [],
        wd_card_attestation_data = []\<rparr>)"

definition on_wallet :: "(wallet \<Rightarrow> 'a \<times> wallet) \<Rightarrow> wallet_data \<Rightarrow> 'a \<times> wallet_data" where
  "on_wallet f wd = map_prod id (\<lambda>w. wd\<lparr>wd_wallet := w\<rparr>) (f (wd_wallet wd))"

lemma on_wallet_eq: "on_wallet f wd = (r, wd') \<longleftrightarrow> (\<exists>w. f (wd_wallet wd) = (r, w) \<and> wd' = wd\<lparr>wd_wallet := w\<rparr>)"
  by (auto simp: on_wallet_def map_prod_def split: prod.splits)

definition generate_keys :: "keygen \<Rightarrow> (bytes \<Rightarrow> bytes) \<Rightarrow> nat \<Rightarrow> bytes \<Rightarrow> wallet_data \<Rightarrow> bool \<times> wallet_data" where
  "generate_keys gen hex_digest draw i wd = on_wallet (initialize_keys gen hex_digest draw i) (wd\<lparr>wd_id := i\<rparr>)"

subsection \<open>What a registration is given\<close>

definition set_attestation_data :: "i32 \<Rightarrow> bytes \<Rightarrow> bytes \<Rightarrow> wallet_data \<Rightarrow> wallet_data" where
  "set_attestation_data algorithm signature public_key wd =
     wd\<lparr>wd_attestation_algorithm := algorithm, wd_attestation_signature := signature,
        wd_attestation_public_key := public_key\<rparr>"

definition set_split_key_proof :: "bytes \<Rightarrow> bytes \<Rightarrow> wallet_data \<Rightarrow> wallet_data" where
  "set_split_key_proof nac_card_pk ttc_card_pk wd =
     wd\<lparr>wd_nac_card_public_key := nac_card_pk, wd_ttc_card_public_key := ttc_card_pk\<rparr>"

definition set_card_attestation :: "bytes \<Rightarrow> wallet_data \<Rightarrow> wallet_data" where
  "set_card_attestation data wd = wd\<lparr>wd_card_attestation_data := data\<rparr>"

definition split_key_proof_of :: "wallet_data \<Rightarrow> (bytes \<times> bytes) option" where
  "split_key_proof_of wd =
     (if wd_nac_card_public_key wd \<noteq> [] \<and> wd_ttc_card_public_key wd \<noteq> []
      then Some (wd_nac_card_public_key wd, wd_ttc_card_public_key wd) else None)"

definition registration_request :: "wallet_data \<Rightarrow> register_request" where
  "registration_request wd =
     \<lparr>rr_version = VERSION_CURRENT,
      rr_hwid = Some \<lparr>hd_vendor_id = 1, hd_software_id = 0, hd_hardware_id = 1, hd_hw_id = wa_hw_id (wd_wallet wd),
        hd_security = 0\<rparr>,
      rr_hwid_signature = Some \<lparr>sg_algorithm = wd_attestation_algorithm wd, sg_signature = wd_attestation_signature wd,
        sg_public_key = wd_attestation_public_key wd\<rparr>,
      rr_network_public_key = Some (cr_public_key (wa_network_credential (wd_wallet wd))),
      rr_transfer_public_key = Some (cr_public_key (wa_transfer_credential (wd_wallet wd))),
      rr_split_key_proof = split_key_proof_of wd,
      rr_card_attestation = (if wd_card_attestation_data wd = [] then None
        else Some \<lparr>sg_algorithm = 3, sg_signature = wd_card_attestation_data wd, sg_public_key = []\<rparr>)\<rparr>"

definition register_wallet ::
  "(register_request \<Rightarrow> (credential_reply option \<times> credential_reply option) rpc) \<Rightarrow> wallet_data \<Rightarrow> bool \<times> wallet_data" where
  "register_wallet registrar wd = on_wallet (initialize_credential (registrar (registration_request wd))) wd"

text \<open>The registrar of \<open>Registrar\<close> as the wallet meets it: an error, or a handler that stopped, is a status.\<close>

definition credential_reply_of :: "issued_credential \<Rightarrow> credential_reply" where
  "credential_reply_of c = \<lparr>cp_credential = ic_credential c, cp_credential_signature = ic_credential_signature c,
     cp_group_public_key = ic_group_public_key c\<rparr>"

definition registrar_reply ::
  "env \<Rightarrow> x509 \<Rightarrow> nat \<Rightarrow> registrar \<Rightarrow> register_request \<Rightarrow> (credential_reply option \<times> credential_reply option) rpc" where
  "registrar_reply e x draw rg rq =
     (case register_call_impl e x draw rg rq of
        Inl f \<Rightarrow> Rpc_Error
      | Inr (nac, ttc) \<Rightarrow> Reply (Some (credential_reply_of nac), Some (credential_reply_of ttc)))"

subsection \<open>Keys shared with smart cards\<close>

text \<open>The handle of a card: the wallet's calls reach the card in the state it is in at that draw.\<close>

definition nac_handle ::
  "('f::field, 'g::ab_group_add, 'h, 't) curve \<Rightarrow> 'c smart_card \<Rightarrow> (nat \<Rightarrow> 'c) \<Rightarrow> nac_signer" where
  "nac_handle cv ops at draw hsk msg cred basename randomize_cred =
     fst (sign_split cv ops draw (at draw) hsk msg cred basename randomize_cred)"

definition ttc_handle ::
  "('f::field, 'g::ab_group_add, 'h, 't) curve \<Rightarrow> 'c smart_card \<Rightarrow> (nat \<Rightarrow> 'c) \<Rightarrow> card_signer" where
  "ttc_handle cv ops at draw hsk msg cred basename randomize_cred swap_auth =
     fst (sign_split_ext cv ops draw (at draw) hsk msg cred basename randomize_cred swap_auth)"

definition share_credential :: "bytes \<Rightarrow> bytes \<Rightarrow> credential \<Rightarrow> credential" where
  "share_credential host_sk pk c = c\<lparr>cr_public_key := pk, cr_secret_key := host_sk, cr_host_secret_key := Some host_sk\<rparr>"

text \<open>\<open>later\<close> gives the states a card goes through after the join.\<close>

definition initialize_split_keys ::
  "('f::field, 'g::ab_group_add, 'h, 't) curve \<Rightarrow> 'c smart_card \<Rightarrow> ('c \<Rightarrow> nat \<Rightarrow> 'c) \<Rightarrow> (bytes \<Rightarrow> bytes) \<Rightarrow> nat
    \<Rightarrow> bytes \<Rightarrow> 'c \<Rightarrow> 'c \<Rightarrow> wallet_data \<Rightarrow> bool result \<times> wallet_data" where
  "initialize_split_keys cv ops later hex_digest draw i nac_card ttc_card wd =
     (let w = (wd_wallet wd)\<lparr>wa_hw_id := hex_digest i\<rparr>; wd = wd\<lparr>wd_id := i, wd_wallet := w\<rparr> in
      case generate_split_wallet_keypair cv ops draw ttc_card (wa_hw_id w) of
        (Inl f, _) \<Rightarrow> (Inl f, wd)
      | (Inr None, _) \<Rightarrow> (Ok False, wd)
      | (Inr (Some (ttc_host_sk, ttc_pk)), ttc_card) \<Rightarrow>
          let w = w\<lparr>wa_transfer_credential := share_credential ttc_host_sk ttc_pk (wa_transfer_credential w)\<rparr>;
              wd = wd\<lparr>wd_wallet := w\<rparr> in
          (case generate_split_wallet_keypair cv ops (Suc draw) nac_card ttc_pk of
             (Inl f, _) \<Rightarrow> (Inl f, wd)
           | (Inr None, _) \<Rightarrow> (Ok False, wd)
           | (Inr (Some (nac_host_sk, nac_pk)), nac_card) \<Rightarrow>
               let w = w\<lparr>wa_network_credential := share_credential nac_host_sk nac_pk (wa_network_credential w)\<rparr> in
               (Ok True, wd\<lparr>wd_wallet := attach_smart_cards (nac_handle cv ops (later nac_card))
                  (ttc_handle cv ops (later ttc_card)) w\<rparr>)))"

subsection \<open>The file\<close>

text \<open>The fields marked \<open>serde(skip)\<close> are not written and read as their defaults.\<close>

definition persisted :: "wallet_data \<Rightarrow> wallet_data" where
  "persisted wd = wd\<lparr>wd_wallet := (wd_wallet wd)\<lparr>
       wa_epoch := (wa_epoch (wd_wallet wd))\<lparr>we_epoch_update := None\<rparr>, wa_seen_tokens := {},
       wa_nac_card := None, wa_ttc_card := None\<rparr>,
     wd_attestation_algorithm := 0, wd_attestation_signature := [], wd_attestation_public_key := [],
     wd_nac_card_public_key := [], wd_ttc_card_public_key := [], wd_card_attestation_data := []\<rparr>"

definition reads_back :: "(wallet_data \<Rightarrow> 'a option) \<Rightarrow> ('a \<Rightarrow> wallet_data option) \<Rightarrow> bool" where
  "reads_back print parse \<longleftrightarrow> (\<forall>wd t. print wd = Some t \<longrightarrow> parse t = Some (persisted wd))"

definition wallet_load :: "(bytes \<Rightarrow> wallet_data option) \<Rightarrow> string \<Rightarrow> files \<Rightarrow> string + wallet_data" where
  "wallet_load parse wallet_file fs =
     (case fs wallet_file of
        None \<Rightarrow> Inl ''cannot load from file''
      | Some data \<Rightarrow> (case parse data of Some wd \<Rightarrow> Inr wd | None \<Rightarrow> Inl ''cannot parse file''))"

definition wallet_store ::
  "(wallet_data \<Rightarrow> bytes option) \<Rightarrow> (string \<Rightarrow> bool) \<Rightarrow> string \<Rightarrow> wallet_data \<Rightarrow> files \<Rightarrow> bool \<times> files" where
  "wallet_store print writable wallet_file wd fs =
     (case print wd of
        None \<Rightarrow> (False, fs)
      | Some data \<Rightarrow> if writable wallet_file then (True, fs(wallet_file \<mapsto> data)) else (False, fs))"

lemma persisted_idem: "persisted (persisted wd) = persisted wd"
  by (simp add: persisted_def)

subsection \<open>A registered wallet is a member\<close>

lemma generated_keys:
  assumes "generate_keys (generate_wallet_keypair cv) hex_digest draw i wd = (True, wd1)"
  shows "\<exists>tsk tpk nsk npk. generate_wallet_keypair cv draw (hex_digest i) = Some (tsk, tpk)
    \<and> generate_wallet_keypair cv (Suc draw) tpk = Some (nsk, npk)
    \<and> wd1 = wd\<lparr>wd_id := i, wd_wallet := (wd_wallet wd)\<lparr>wa_hw_id := hex_digest i,
        wa_network_credential := (wa_network_credential (wd_wallet wd))\<lparr>cr_secret_key := nsk, cr_public_key := npk\<rparr>,
        wa_transfer_credential := (wa_transfer_credential (wd_wallet wd))\<lparr>cr_secret_key := tsk, cr_public_key := tpk\<rparr>\<rparr>\<rparr>"
  using assms by (auto simp: generate_keys_def on_wallet_eq initialize_keys_def Let_def split: option.splits)

lemma register_wallet_True:
  "register_wallet registrar wd = (True, wd') \<longleftrightarrow> (\<exists>nac ttc. registrar (registration_request wd) = Reply (nac, ttc)
     \<and> cr_secret_key (wa_transfer_credential (wd_wallet wd)) \<noteq> [] \<and> cr_secret_key (wa_network_credential (wd_wallet wd)) \<noteq> []
     \<and> wd' = wd\<lparr>wd_wallet := (wd_wallet wd)\<lparr>
         wa_network_credential := install_credential nac (wa_network_credential (wd_wallet wd)),
         wa_transfer_credential := install_credential ttc (wa_transfer_credential (wd_wallet wd))\<rparr>\<rparr>)"
  by (cases "registrar (registration_request wd)")
    (auto simp: register_wallet_def on_wallet_eq initialize_credential_def split: prod.splits)

lemma registrar_reply_Reply:
  "registrar_reply e x draw rg rq = Reply (nac, ttc) \<longleftrightarrow> (\<exists>n t. register_call_impl e x draw rg rq = Ok (n, t)
     \<and> nac = Some (credential_reply_of n) \<and> ttc = Some (credential_reply_of t))"
  by (auto simp: registrar_reply_def split: sum.split)

definition issued_proper :: "('f, 'g::ab_group_add, 'h, 't) curve \<Rightarrow> credential \<Rightarrow> bool" where
  "issued_proper cv c \<longleftrightarrow>
     (\<forall>cred. cr_credential c = Some cred \<longrightarrow> credential_points cv cred False (\<lambda>p. Ok (proper p)) = Ok True)"

text \<open>C35: a new wallet that makes its keys and registers without attestation is a member of both groups: its
  transfer credential certifies its transfer key for the transfer issuer, its network credential certifies its
  network key for the issuer of the lowest level, and it holds the public keys of both groups. With
  \<open>member_signs\<close> it signs for both.\<close>

theorem registered_wallet_is_member:
  assumes ok: "curve_ok cv" and keys: "generate_keys (generate_wallet_keypair cv) hex_digest draw i wd = (True, wd1)"
    and plain: "wd_attestation_algorithm wd = 0"
    and reg: "register_wallet (registrar_reply (with_v1 cv e) x d rg) wd1 = (True, wd2)"
    and issuers: "rg_transfer_secret_key rg = cv_to_be cv xt @ cv_to_be cv yt"
      "nac_keys_for_level rg Low = (cv_to_be cv xn @ cv_to_be cv yn, ngpk)"
    and points: "issued_proper cv (wa_transfer_credential (wd_wallet wd2))" "issued_proper cv (wa_network_credential (wd_wallet wd2))"
  shows "\<exists>tc nc. let t = wa_transfer_credential (wd_wallet wd2); n = wa_network_credential (wd_wallet wd2) in
    cr_credential t = Some tc \<and> member cv xt yt tc (cr_secret_key t) \<and> cr_group_public_key t = Some (rg_transfer_group_public_key rg)
    \<and> cr_credential n = Some nc \<and> member cv xn yn nc (cr_secret_key n) \<and> cr_group_public_key n = Some ngpk"
proof -
  obtain tsk tpk nsk npk where t: "generate_wallet_keypair cv draw (hex_digest i) = Some (tsk, tpk)"
    and n: "generate_wallet_keypair cv (Suc draw) tpk = Some (nsk, npk)"
    and wd1: "wd1 = wd\<lparr>wd_id := i, wd_wallet := (wd_wallet wd)\<lparr>wa_hw_id := hex_digest i,
        wa_network_credential := (wa_network_credential (wd_wallet wd))\<lparr>cr_secret_key := nsk, cr_public_key := npk\<rparr>,
        wa_transfer_credential := (wa_transfer_credential (wd_wallet wd))\<lparr>cr_secret_key := tsk, cr_public_key := tpk\<rparr>\<rparr>\<rparr>"
    using generated_keys [OF keys] by blast
  obtain kt where kt: "tsk = cv_to_be cv kt" "proves_key cv (hex_digest i) kt tpk" using wallet_keypair_proves [OF t] by blast
  obtain kn where kn: "nsk = cv_to_be cv kn" "proves_key cv tpk kn npk" using wallet_keypair_proves [OF n] by blast
  obtain nac ttc where call: "register_call_impl (with_v1 cv e) x d rg (registration_request wd1) = Ok (nac, ttc)"
    and wd2: "wd2 = wd1\<lparr>wd_wallet := (wd_wallet wd1)\<lparr>
         wa_network_credential := install_credential (Some (credential_reply_of nac)) (wa_network_credential (wd_wallet wd1)),
         wa_transfer_credential := install_credential (Some (credential_reply_of ttc)) (wa_transfer_credential (wd_wallet wd1))\<rparr>\<rparr>"
    using reg by (auto simp: register_wallet_True registrar_reply_Reply)
  have issued: "v1_issue_credential (with_v1 cv e) d npk (cv_to_be cv xn @ cv_to_be cv yn) tpk
        = Some (ic_credential nac, ic_credential_signature nac)" "ic_group_public_key nac = ngpk"
      "v1_issue_credential (with_v1 cv e) (Suc d) tpk (cv_to_be cv xt @ cv_to_be cv yt) (hex_digest i)
        = Some (ic_credential ttc, ic_credential_signature ttc)" "ic_group_public_key ttc = rg_transfer_group_public_key rg"
    using call plain issuers
    by (auto simp: register_call_impl_Ok registration_request_def wd1 verify_attestation_def algorithm_of_def Let_def
        effective_level_low less_security_level_def split: if_splits)
  have "member cv xt yt (ic_credential ttc) tsk" "member cv xn yn (ic_credential nac) nsk"
    unfolding kt(1) kn(1)
    using issued_member [OF ok kt(2) refl issued(3)] issued_member [OF ok kn(2) refl issued(1)] points
    by (simp_all add: issued_proper_def wd2 install_credential_def credential_reply_of_def)
  then show ?thesis using issued(2,4)
    by (simp add: wd2 wd1 install_credential_def credential_reply_of_def)
qed

definition sample_issuer :: registrar where
  "sample_issuer = sample_registrar\<lparr>rg_require_attestation := False, rg_nac_issuers := [],
     rg_network_secret_key := circ_sk @ circ_sk, rg_transfer_secret_key := circ_sk @ circ_sk\<rparr>"

lemma sample_keys:
  assumes "nonce \<noteq> []"
  obtains pk where "generate_wallet_keypair sample_curve draw nonce = Some (circ_sk, pk)" "pk \<noteq> []"
    "proves_key sample_curve nonce One3 pk"
proof -
  obtain pk where pk: "generate_wallet_keypair sample_curve draw nonce = Some (circ_sk, pk)" "pk \<noteq> []"
    using assms by (simp add: generate_wallet_keypair_def sample_curve_def Let_def gf3_encode_def)
  moreover from wallet_keypair_proves [OF pk(1)] have "proves_key sample_curve nonce One3 pk"
    using deserialize_exact(3) [OF sample_curve_ok] by (metis option.inject)
  ultimately show ?thesis by (rule that)
qed

lemma sample_issued:
  assumes "proves_key sample_curve nonce One3 pk"
  shows "\<exists>csig. v1_issue_credential circ_e d pk (circ_sk @ circ_sk) nonce = Some (circ_cred, csig)"
proof -
  have "(One3 :: gf3) \<noteq> 0" by (simp add: zero_gf3_def)
  with issue_credential_proven [where draw = d, OF sample_curve_ok assms, where x = One3 and y = One3, OF refl] obtain a b c dd csig where
    cred: "issue_credential sample_curve d pk (circ_sk @ circ_sk) nonce = Ok (Some (serialize_credential sample_curve a b c dd, csig))"
    and cert: "certifies sample_curve One3 One3 One3 (a, b, c, dd)" and b: "b = cv_hash_g1 sample_curve nonce" by auto
  have "a = One3 \<and> b = One3 \<and> c = Two3 \<and> dd = One3"
    using cert b by (cases a) (auto simp: certifies_def sample_curve_def)
  then show ?thesis using cred by (simp add: with_v1_def result_or_def circ_cred_def)
qed

lemma sample_proper: "credential_points sample_curve circ_cred False (\<lambda>p. Ok (proper p)) = Ok True"
  by (simp add: circ_cred_def credential_points_exact proper_def zero_gf3_def)

lemma registered_wallet_is_member_witness:
  "\<exists>wd wd1 wd2. wallet_new (\<lambda>_. True) ''r'' ''c'' ''m'' ''v'' = Inr wd
     \<and> generate_keys (generate_wallet_keypair sample_curve) (\<lambda>_. [5]) 0 [1] wd = (True, wd1)
     \<and> register_wallet (registrar_reply circ_e sample_x509 0 sample_issuer) wd1 = (True, wd2)
     \<and> member sample_curve One3 One3 circ_cred (cr_secret_key (wa_transfer_credential (wd_wallet wd2)))"
proof -
  obtain wd where wd: "wallet_new (\<lambda>_. True) ''r'' ''c'' ''m'' ''v'' = Inr wd" and plain: "wd_attestation_algorithm wd = 0"
    by (simp add: wallet_new_def)
  obtain tpk where t: "generate_wallet_keypair sample_curve 0 [5] = Some (circ_sk, tpk)" "tpk \<noteq> []"
      "proves_key sample_curve [5] One3 tpk"
    by (rule sample_keys [of "[5]" 0]) simp_all
  obtain npk where n: "generate_wallet_keypair sample_curve (Suc 0) tpk = Some (circ_sk, npk)" "proves_key sample_curve tpk One3 npk"
    by (rule sample_keys [OF t(2), of "Suc 0"]) simp_all
  obtain wd1 where k: "generate_keys (generate_wallet_keypair sample_curve) (\<lambda>_. [5]) 0 [1] wd = (True, wd1)"
    using t n by (simp add: generate_keys_def on_wallet_def initialize_keys_def Let_def)
  have sk: "circ_sk \<noteq> []" by (simp add: sample_curve_def gf3_encode_def)
  obtain c1 c2 where i: "v1_issue_credential circ_e 0 npk (circ_sk @ circ_sk) tpk = Some (circ_cred, c1)"
    "v1_issue_credential circ_e (Suc 0) tpk (circ_sk @ circ_sk) [5] = Some (circ_cred, c2)"
    using sample_issued [OF n(2)] sample_issued [OF t(3)] by blast
  obtain nac ttc where call: "register_call_impl circ_e sample_x509 0 sample_issuer (registration_request wd1) = Ok (nac, ttc)"
      and c: "ic_credential nac = circ_cred" "ic_credential ttc = circ_cred"
    using generated_keys [OF k] t n plain i
    by (simp add: register_call_impl_def registration_request_def verify_attestation_def algorithm_of_def sample_issuer_def
        VERSION_CURRENT_def nac_keys_for_level_def effective_level_low less_security_level_def Let_def)
  obtain wd2 where r: "register_wallet (registrar_reply circ_e sample_x509 0 sample_issuer) wd1 = (True, wd2)"
      and w2: "cr_credential (wa_transfer_credential (wd_wallet wd2)) = Some circ_cred"
        "cr_credential (wa_network_credential (wd_wallet wd2)) = Some circ_cred"
    using call c generated_keys [OF k] t n sk
    by (auto simp: register_wallet_True registrar_reply_Reply install_credential_def credential_reply_of_def)
  have "issued_proper sample_curve (wa_transfer_credential (wd_wallet wd2))"
      "issued_proper sample_curve (wa_network_credential (wd_wallet wd2))"
    by (simp_all add: issued_proper_def w2 sample_proper)
  from registered_wallet_is_member [OF sample_curve_ok k plain r _ _ this] wd k r w2
  show ?thesis by (auto simp: sample_issuer_def nac_keys_for_level_def Let_def)
qed

subsection \<open>An attested wallet\<close>

text \<open>The check of \<open>issue_credential\<close> that a public key comes with a proof for the nonce.\<close>

definition key_proof_checks :: "('f::field, 'g::ab_group_add, 'h, 't) curve \<Rightarrow> bytes \<Rightarrow> bytes \<Rightarrow> bool" where
  "key_proof_checks cv pk nonce \<longleftrightarrow> (\<exists>q c s. at_offset (deserialize_g1 cv) 0 G1_LENGTH pk = Ok (Some q)
     \<and> at_offset (deserialize_scalar cv) G1_LENGTH SCALAR_LENGTH pk = Ok (Some c)
     \<and> at_offset (deserialize_scalar cv) (G1_LENGTH + SCALAR_LENGTH) SCALAR_LENGTH pk = Ok (Some s)
     \<and> c = schnorr_hash_member cv (cv_mul1 cv (cv_hash_g1 cv nonce) s - cv_mul1 cv q c) (cv_hash_g1 cv nonce) q nonce)"

lemma issued_key_proof:
  "v1_issue_credential (with_v1 cv e) draw pk isk nonce = Some r \<Longrightarrow> key_proof_checks cv pk nonce"
  by (auto simp: with_v1_def result_or_def issue_credential_def or_return_value key_proof_checks_def Let_def
      split: sum.splits if_splits)

lemma attested_nonce:
  assumes "verify_attestation e x rg hwid sg pks = Ok att" "algorithm_of (sg_algorithm sg) \<noteq> Algorithm_None"
  shows "\<exists>s. ar_hw_nonce att = sha256 e s"
  using assms
  by (cases "algorithm_of (sg_algorithm sg)")
    (auto simp: verify_attestation_def hwid_result_def android_accepts verify_ios_attestation_def
      verify_card_p256_attestation_def android_nonce_def ios_nonce_def Let_def and_then_Inr_iff split: sum.splits if_splits)

definition attested_as :: "env \<Rightarrow> x509 \<Rightarrow> registrar \<Rightarrow> register_request \<Rightarrow> attestation_result \<Rightarrow> bool" where
  "attested_as e x rg rq att \<longleftrightarrow> (\<exists>hwid sg npk tpk. rr_hwid rq = Some hwid \<and> rr_hwid_signature rq = Some sg
     \<and> rr_network_public_key rq = Some npk \<and> rr_transfer_public_key rq = Some tpk
     \<and> verify_attestation e x rg hwid sg [npk, tpk] = Ok att)"

lemma proves_key_checks:
  assumes ok: "curve_ok cv" and "proves_key cv nonce k pk"
  shows "key_proof_checks cv pk nonce"
proof -
  define b where "b = cv_hash_g1 cv nonce"
  obtain r n c where pk: "pk = cv_compress1 cv (cv_mul1 cv b k) @ cv_to_be cv c @ cv_to_be cv (r + c * k) @ cv_to_be cv n"
    and c: "c = schnorr_hash_member cv (cv_mul1 cv b r) b (cv_mul1 cv b k) nonce"
    using assms(2) by (auto simp: proves_key_def Let_def b_def)
  note enc = curve_encodings [OF ok] and dec = deserialize_exact [OF ok]
  have "at_offset (deserialize_g1 cv) 0 48 pk = Ok (Some (cv_mul1 cv b k))"
      "at_offset (deserialize_scalar cv) 48 32 pk = Ok (Some c)" "at_offset (deserialize_scalar cv) 80 32 pk = Ok (Some (r + c * k))"
    using at_offset_front [of "cv_compress1 cv (cv_mul1 cv b k)" 48 "deserialize_g1 cv"]
      at_offset_append [of "cv_compress1 cv (cv_mul1 cv b k)" 48 "cv_to_be cv c" 32 "deserialize_scalar cv"]
      at_offset_append [of "cv_compress1 cv (cv_mul1 cv b k) @ cv_to_be cv c" 80 "cv_to_be cv (r + c * k)" 32 "deserialize_scalar cv"]
    by (simp_all add: pk enc dec)
  then show ?thesis
    using c schnorr_commitment [OF ok, of b r c k] by (auto simp: key_proof_checks_def length_defs b_def)
qed

text \<open>C36: a wallet that registers with an attestation is refused. Its transfer key comes with a proof for its
  hardware id, the hex digest it made up; the registrar asks for a proof for the nonce of the attestation, a SHA-256
  value, which the wallet never learns and which differs. Unless the proof checks for both, which takes a second
  transcript with the challenge of the first, the registrar issues nothing and the wallet stays as it is.\<close>

theorem attested_wallet_cannot_register:
  assumes ok: "curve_ok cv" and keys: "generate_keys (generate_wallet_keypair cv) hex_digest draw i wd = (True, wd1)"
    and alg: "wd_attestation_algorithm wd \<in> {1, 2, 3}"
    and lengths: "length (hex_digest i) = 64" "\<And>s. length (sha256 e s) = 32"
    and att: "attested_as (with_v1 cv e) x rg (registration_request wd1) att"
    and other: "\<not> key_proof_checks cv (cr_public_key (wa_transfer_credential (wd_wallet wd1))) (ar_hw_nonce att)"
  shows "key_proof_checks cv (cr_public_key (wa_transfer_credential (wd_wallet wd1))) (wa_hw_id (wd_wallet wd1))
    \<and> ar_hw_nonce att \<noteq> wa_hw_id (wd_wallet wd1)
    \<and> register_wallet (registrar_reply (with_v1 cv e) x d rg) wd1 = (False, wd1)"
proof -
  obtain tsk tpk nsk npk where t: "generate_wallet_keypair cv draw (hex_digest i) = Some (tsk, tpk)"
    and wd1: "wa_hw_id (wd_wallet wd1) = hex_digest i" "cr_public_key (wa_transfer_credential (wd_wallet wd1)) = tpk"
      "wd_attestation_algorithm wd1 = wd_attestation_algorithm wd"
    using generated_keys [OF keys] by auto
  have checks: "key_proof_checks cv tpk (hex_digest i)"
    using wallet_keypair_proves [OF t] proves_key_checks [OF ok] by blast
  obtain s where "ar_hw_nonce att = sha256 e s"
    using att alg attested_nonce [of "with_v1 cv e" x rg]
    by (fastforce simp: attested_as_def registration_request_def wd1(3) algorithm_of_def with_v1_def)
  then have nonce: "ar_hw_nonce att \<noteq> hex_digest i" using lengths(2) [of s] lengths(1) by auto
  have "\<exists>f. register_call_impl (with_v1 cv e) x d rg (registration_request wd1) = Inl f"
  proof (cases "register_call_impl (with_v1 cv e) x d rg (registration_request wd1)")
    case (Inr r)
    then obtain nac ttc where "register_call_impl (with_v1 cv e) x d rg (registration_request wd1) = Ok (nac, ttc)"
      by (cases r) auto
    then have "\<exists>r. v1_issue_credential (with_v1 cv e) (Suc d) tpk (rg_transfer_secret_key rg) (ar_hw_nonce att) = Some r"
      using att by (auto simp: register_call_impl_Ok attested_as_def registration_request_def wd1(2))
    then show ?thesis using issued_key_proof [of cv e "Suc d" tpk] other wd1(2) by blast
  qed auto
  then have "register_wallet (registrar_reply (with_v1 cv e) x d rg) wd1 = (False, wd1)"
    by (auto simp: register_wallet_def on_wallet_def initialize_credential_def registrar_reply_def)
  then show ?thesis using checks nonce by (simp add: wd1)
qed

definition sample_hex :: bytes where "sample_hex = replicate 63 0 @ [2]"

lemma sample_card_attested:
  "verify_card_p256_attestation circ_e sample_x509 hwid
     \<lparr>sg_algorithm = 3, sg_signature = [1, 4, 1, 5] @ replicate 65 4, sg_public_key = []\<rparr> [[5]] pks
   = Inr \<lparr>ar_security_level = Medium, ar_hw_nonce = replicate 32 0\<rparr>"
proof -
  have "sha256 circ_e = (\<lambda>_. replicate 32 0)" by (simp add: with_v1_def circ_env_def fun_eq_iff)
  then show ?thesis by (simp add: verify_card_p256_attestation_def Let_def sample_x509_def require_def)
qed

lemma attested_wallet_cannot_register_witness:
  "\<exists>wd wd1 wd2. wallet_new (\<lambda>_. True) ''r'' ''c'' ''m'' ''v'' = Inr wd
     \<and> generate_keys (generate_wallet_keypair sample_curve) (\<lambda>_. sample_hex) 0 [1]
         (set_attestation_data 3 ([1, 4, 1, 5] @ replicate 65 4) [] wd) = (True, wd1)
     \<and> register_wallet (registrar_reply circ_e sample_x509 0 sample_issuer) wd1 = (False, wd1)"
proof -
  obtain wd where wd: "wallet_new (\<lambda>_. True) ''r'' ''c'' ''m'' ''v'' = Inr wd"
    by (simp add: wallet_new_def)
  define wda where "wda = set_attestation_data 3 ([1, 4, 1, 5] @ replicate 65 4) [] wd"
  define tpk where "tpk = cv_compress1 sample_curve One3 @ cv_to_be sample_curve Two3 @ cv_to_be sample_curve Zero3 @ cv_to_be sample_curve One3"
  have hash: "schnorr_hash_member sample_curve u b q sample_hex = Two3"
      "schnorr_hash_member sample_curve u b q (replicate 32 0) = One3" for u b q
    by (simp_all add: schnorr_hash_member_def sample_curve_def sample_hex_def)
  have t: "generate_wallet_keypair sample_curve 0 sample_hex = Some (circ_sk, tpk)"
    by (simp add: generate_wallet_keypair_def hash Let_def tpk_def) (simp add: sample_curve_def sample_hex_def)
  have "tpk \<noteq> []" by (simp add: tpk_def sample_curve_def gf3_encode_def)
  then obtain npk where n: "generate_wallet_keypair sample_curve (Suc 0) tpk = Some (circ_sk, npk)"
    by (rule sample_keys)
  obtain wd1 where k: "generate_keys (generate_wallet_keypair sample_curve) (\<lambda>_. sample_hex) 0 [1] wda = (True, wd1)"
    using t n by (simp add: generate_keys_def on_wallet_def initialize_keys_def Let_def)
  have pk: "cr_public_key (wa_transfer_credential (wd_wallet wd1)) = tpk" using generated_keys [OF k] t by auto
  define att where "att = \<lparr>ar_security_level = Medium, ar_hw_nonce = replicate 32 (0 :: u8)\<rparr>"
  have att: "attested_as circ_e sample_x509 sample_issuer (registration_request wd1) att"
    using generated_keys [OF k]
    by (auto simp: attested_as_def registration_request_def verify_attestation_def algorithm_of_def hwid_result_def
        sample_card_attested [unfolded append.simps] sample_issuer_def sample_registrar_def att_def wda_def
        set_attestation_data_def)
  have "at_offset (deserialize_scalar sample_curve) 48 32 tpk = Ok (Some Two3)"
    using at_offset_append [of "cv_compress1 sample_curve One3" 48 "cv_to_be sample_curve Two3" 32 "deserialize_scalar sample_curve"]
    by (simp add: tpk_def curve_encodings [OF sample_curve_ok] deserialize_exact [OF sample_curve_ok])
  then have "\<not> key_proof_checks sample_curve tpk (replicate 32 0)"
    by (auto simp: key_proof_checks_def length_defs hash)
  then have "register_wallet (registrar_reply circ_e sample_x509 0 sample_issuer) wd1 = (False, wd1)"
    using attested_wallet_cannot_register [OF sample_curve_ok k _ _ _ att, of 0]
    by (simp add: wda_def set_attestation_data_def sample_hex_def circ_env_def pk att_def)
  then show ?thesis using wd k by (auto simp: wda_def)
qed

subsection \<open>Restarting\<close>

lemma store_then_load:
  assumes "reads_back print parse" "wallet_store print writable path wd fs = (True, fs')"
  shows "wallet_load parse path fs' = Inr (persisted wd)"
  using assms by (auto simp: wallet_store_def wallet_load_def reads_back_def split: option.splits if_splits)

lemma split_keys_shared:
  assumes ok: "curve_ok cv"
    and joined: "initialize_split_keys cv (mock_card_ops cv) later hex_digest draw i nac_card ttc_card wd = (Ok True, wd1)"
  shows "\<exists>h. cr_secret_key (wa_transfer_credential (wd_wallet wd1)) = cv_to_be cv h
    \<and> cr_host_secret_key (wa_transfer_credential (wd_wallet wd1)) = Some (cv_to_be cv h)
    \<and> proves_key cv (hex_digest i) (mc_card_sk ttc_card + h) (cr_public_key (wa_transfer_credential (wd_wallet wd1)))
    \<and> is_split_key_mode (wd_wallet wd1)"
proof -
  obtain tsk tpk ttc' nsk npk nac' where t: "generate_split_wallet_keypair cv (mock_card_ops cv) draw ttc_card (hex_digest i) = (Ok (Some (tsk, tpk)), ttc')"
    and n: "generate_split_wallet_keypair cv (mock_card_ops cv) (Suc draw) nac_card tpk = (Ok (Some (nsk, npk)), nac')"
    using joined by (auto simp: initialize_split_keys_def Let_def split: prod.splits sum.splits option.splits)
  have "hex_digest i \<noteq> []" using t by (auto simp: generate_split_wallet_keypair_def)
  from mock.generate_split_combined [OF ok _ this, of ttc_card "mc_card_sk ttc_card" draw] t
  have h: "tsk = cv_to_be cv (cv_random cv draw 0)"
    and "\<exists>r. generate_wallet_keypair (with_random cv (\<lambda>i. if i = 0 then mc_card_sk ttc_card + cv_random cv draw 0
        else if i = 1 then r + cv_random cv draw 1 else cv_random cv draw i)) draw (hex_digest i)
        = Some (cv_to_be cv (mc_card_sk ttc_card + cv_random cv draw 0), tpk)"
    by (auto simp: mock_holds_def)
  then have "proves_key cv (hex_digest i) (mc_card_sk ttc_card + cv_random cv draw 0) tpk"
    by (fastforce dest: wallet_keypair_with_random)
  then show ?thesis
    using joined t n h
    by (intro exI [of _ "cv_random cv draw 0"])
      (auto simp: initialize_split_keys_def Let_def share_credential_def attach_smart_cards_def is_split_key_mode_def)
qed

text \<open>C37: a wallet that shares its keys with smart cards forgets the cards when it is stored and loaded, and
  signs with half of its key from then on. Before it is in split mode; after it is not, although it still has the
  host's shares, and a transfer is signed by \<open>v1::sign\<close> with the host's share of a key whose certified whole is the
  sum of both.\<close>

theorem restarted_split_wallet_signs_alone:
  assumes "curve_ok cv"
    and "initialize_split_keys cv (mock_card_ops cv) later hex_digest draw i nac_card ttc_card wd = (Ok True, wd1)"
    and "register_wallet registrar wd1 = (True, wd2)"
    and "reads_back print parse" "wallet_store print writable path wd2 fs = (True, fs')" "wallet_load parse path fs' = Inr wd3"
  shows "is_split_key_mode (wd_wallet wd2) \<and> \<not> is_split_key_mode (wd_wallet wd3)
    \<and> (\<exists>h. cr_host_secret_key (wa_transfer_credential (wd_wallet wd3)) = Some (cv_to_be cv h)
        \<and> proves_key cv (hex_digest i) (mc_card_sk ttc_card + h) (cr_public_key (wa_transfer_credential (wd_wallet wd3)))
        \<and> (\<forall>tok dest auth d. wallet_transfer_token e d (wd_wallet wd3) dest auth tok = token_transfer e d tok dest (cv_to_be cv h)))"
proof -
  have wd3: "wd3 = persisted wd2" using store_then_load [OF assms(4,5)] assms(6) by simp
  obtain h where h: "cr_secret_key (wa_transfer_credential (wd_wallet wd1)) = cv_to_be cv h"
    "cr_host_secret_key (wa_transfer_credential (wd_wallet wd1)) = Some (cv_to_be cv h)"
    "proves_key cv (hex_digest i) (mc_card_sk ttc_card + h) (cr_public_key (wa_transfer_credential (wd_wallet wd1)))"
    and mode: "is_split_key_mode (wd_wallet wd1)"
    using split_keys_shared [OF assms(1,2)] by blast
  have mode2: "is_split_key_mode (wd_wallet wd2)" and keeps: "cr_secret_key (wa_transfer_credential (wd_wallet wd2)) = cr_secret_key (wa_transfer_credential (wd_wallet wd1))"
    "cr_public_key (wa_transfer_credential (wd_wallet wd2)) = cr_public_key (wa_transfer_credential (wd_wallet wd1))"
    "cr_host_secret_key (wa_transfer_credential (wd_wallet wd2)) = cr_host_secret_key (wa_transfer_credential (wd_wallet wd1))"
    using assms(3) mode by (auto simp: register_wallet_True install_credential_def is_split_key_mode_def split: option.splits)
  show ?thesis
    using h mode2
    by (intro conjI exI [of _ h]) (simp_all add: wd3 keeps persisted_def is_split_key_mode_def wallet_transfer_token_def)
qed

lemma wallet_public_key_ne:
  assumes "curve_ok cv" "generate_wallet_keypair cv dw nonce = Some (sk, pk)"
  shows "pk \<noteq> []"
proof -
  have "length pk = 144"
    using assms(2) by (auto simp: generate_wallet_keypair_def Let_def curve_encodings [OF assms(1)] split: if_splits)
  then show ?thesis by auto
qed

lemma restarted_split_wallet_signs_alone_witness:
  "\<exists>wd wd1 wd2 wd3. wallet_new (\<lambda>_. True) ''r'' ''c'' ''m'' ''v'' = Inr wd
     \<and> initialize_split_keys sample_curve (mock_card_ops sample_curve) (\<lambda>c _. c) (\<lambda>_. [5]) 0 [1] sample_mock sample_mock wd = (Ok True, wd1)
     \<and> register_wallet (\<lambda>_. Reply (None, None)) wd1 = (True, wd2)
     \<and> wallet_load (\<lambda>_. Some (persisted wd2)) ''w'' [''w'' \<mapsto> [1]] = Inr wd3
     \<and> is_split_key_mode (wd_wallet wd2) \<and> \<not> is_split_key_mode (wd_wallet wd3)"
proof -
  obtain wd where wd: "wallet_new (\<lambda>_. True) ''r'' ''c'' ''m'' ''v'' = Inr wd" by (simp add: wallet_new_def)
  have held: "mock_holds sample_mock One3" by (simp add: mock_holds_def sample_mock_def)
  obtain tpk ttc where t: "generate_split_wallet_keypair sample_curve (mock_card_ops sample_curve) 0 sample_mock [5]
      = (Ok (Some (cv_to_be sample_curve (cv_random sample_curve 0 0), tpk)), ttc)" and tpk: "tpk \<noteq> []"
    using mock.generate_split_combined [OF sample_curve_ok held, of "[5]" 0]
    using wallet_public_key_ne [of "with_random sample_curve f" for f] by (fastforce simp del: with_random_simps)
  obtain npk nac where n: "generate_split_wallet_keypair sample_curve (mock_card_ops sample_curve) (Suc 0) sample_mock tpk
      = (Ok (Some (cv_to_be sample_curve (cv_random sample_curve (Suc 0) 0), npk)), nac)"
    using mock.generate_split_combined [OF sample_curve_ok held tpk, of "Suc 0"] by auto
  obtain wd1 where j: "initialize_split_keys sample_curve (mock_card_ops sample_curve) (\<lambda>c _. c) (\<lambda>_. [5]) 0 [1] sample_mock sample_mock wd
      = (Ok True, wd1)" and sk: "cr_secret_key (wa_transfer_credential (wd_wallet wd1)) = circ_sk"
      "cr_secret_key (wa_network_credential (wd_wallet wd1)) = circ_sk"
    using t n by (simp add: initialize_split_keys_def Let_def share_credential_def attach_smart_cards_def)
      (simp add: sample_curve_def)
  have "circ_sk \<noteq> []" by (simp add: sample_curve_def gf3_encode_def)
  then obtain wd2 where r: "register_wallet (\<lambda>_. Reply (None, None)) wd1 = (True, wd2)"
    by (simp add: register_wallet_True sk)
  define print where "print wd = (if wd = wd2 then Some [1 :: u8] else None)" for wd
  have "reads_back print (\<lambda>_. Some (persisted wd2))" by (auto simp: reads_back_def print_def)
  moreover have "wallet_store print (\<lambda>_. True) ''w'' wd2 Map.empty = (True, [''w'' \<mapsto> [1]])"
    by (simp add: wallet_store_def print_def)
  moreover have l: "wallet_load (\<lambda>_. Some (persisted wd2)) ''w'' [''w'' \<mapsto> [1]] = Inr (persisted wd2)"
    by (simp add: wallet_load_def)
  ultimately show ?thesis
    using restarted_split_wallet_signs_alone [OF sample_curve_ok j r] wd j r l by blast
qed

text \<open>A signature with another key than the certified one does not verify, unless the challenge is zero or the
  challenges of two transcripts with different commitments coincide.\<close>

lemma half_key_signature:
  assumes ok: "curve_ok cv" and cert: "certifies cv x y k (a, b, c, d)" and "b \<noteq> 0" "h \<noteq> k"
    and signed: "sign cv draw msg (serialize_credential cv a b c d) (cv_to_be cv h) bsn False = Ok (Some sig)"
    and ver: "verify cv gpk bsn req sig msg = Ok True"
  shows "\<exists>sc u u' nym nym' n. sc = signature_challenge cv u b d msg nym n \<and> sc = signature_challenge cv u' b d msg nym' n
    \<and> (sc = 0 \<or> u \<noteq> u')"
proof -
  from sign_Some [OF signed ok] obtain r n sc where
    sc: "sc = signature_challenge cv (cv_mul1 cv b r) b d msg (nym_of cv r h bsn) n"
    and sig: "sig = assemble_signature cv sc (r + sc * h) (a, b, c, d) n (map_option (\<lambda>bs. cv_mul1 cv (cv_hash_g1 cv bs) h) bsn)"
    by (auto simp: deserialize_exact [OF ok])
  note get = sig_get_assemble [OF ok, where junk = "[]", unfolded append_Nil2, OF sig]
  obtain nym' where v: "sc = signature_challenge cv (cv_mul1 cv b (r + sc * h) - cv_mul1 cv d sc) b d msg nym' n"
    using ver by (auto simp: verify_def or_return_value get get [unfolded One_nat_def] Let_def split: if_splits option.splits)
  have "d = cv_mul1 cv b k" using cert by (simp add: certifies_def)
  then have "cv_mul1 cv b (r + sc * h) - cv_mul1 cv d sc = cv_mul1 cv b (r + sc * (h - k))"
    by (simp add: curve_laws(3) [OF ok] mul1_minus [OF ok, symmetric] algebra_simps)
  moreover have "cv_mul1 cv b r \<noteq> cv_mul1 cv b (r + sc * (h - k))" if "sc \<noteq> 0"
    using that assms(3,4) mul1_scalar_inj [OF ok] by auto
  ultimately show ?thesis using sc v by metis
qed

end
