(* ===== verification/Integration.thy ===== *)
theory Integration
  imports WalletFile
    Complex_Main "HOL-Library.Signed_Division"
begin

section \<open>The client library (\<open>integration/src/lib.rs\<close>)\<close>

text \<open>
  \<open>BrioletteClient\<close>, the wallet as applications embed it: a snapshot of the wallet as JSON text with a name.
  Each operation reads the text, calls the wallet, and writes a new snapshot; the caller keeps either.
  serde_json, base64 and the SHA-256 hex digest are the record \<open>client_lib\<close>, where a JSON value is of any type
  \<open>'j\<close> with the accessors the code uses; an \<open>f64\<close> is a rational number. What serde's derived code writes of a
  wallet is \<open>wallet_json_ok\<close>. The services and draws a call meets are the record \<open>platform\<close>. Messages of
  underlying errors are dropped; an operation that panics is \<open>Client_Panic\<close>.
\<close>

record 'j client_lib =
  cl_to_string :: "wallet_data \<Rightarrow> string option"
  cl_wallet :: "string \<Rightarrow> wallet_data option"
  cl_value :: "string \<Rightarrow> 'j option"
  cl_get :: "'j \<Rightarrow> string \<Rightarrow> 'j option"
  cl_str :: "'j \<Rightarrow> string option"
  cl_array :: "'j \<Rightarrow> 'j list option"
  cl_i64 :: "'j \<Rightarrow> int option"
  cl_f64 :: "'j \<Rightarrow> rat option"
  cl_bytes :: "'j \<Rightarrow> bytes option"
  cl_encode64 :: "bytes \<Rightarrow> string"
  cl_decode64 :: "string \<Rightarrow> bytes option"
  cl_hex_digest :: "bytes \<Rightarrow> bytes"
  cl_uri_ok :: "string \<Rightarrow> bool"

record 'j platform =
  pf_lib :: "'j client_lib"
  pf_env :: env
  pf_keygen :: keygen
  pf_now :: u64
  pf_draw :: nat
  pf_pick :: "nat \<Rightarrow> nat \<Rightarrow> nat"
  pf_registrar :: "register_request \<Rightarrow> (credential_reply option \<times> credential_reply option) rpc"
  pf_epoch :: "epoch_update option rpc"
  pf_clerk :: "get_tickets_request \<Rightarrow> tickets_reply rpc"
  pf_refresh :: "refresh_tickets_request \<Rightarrow> tickets_reply rpc"
  pf_mint :: "get_tokens_request \<Rightarrow> token list rpc"
  pf_validate :: "token list \<Rightarrow> bool list rpc"

datatype client_error =
    Not_Initialized | Network string | Insufficient_Funds u32 u32 | No_Tickets_Available | Invalid_Data string
  | Serialization | Validation_Failed | Already_Registered

datatype client_failure = Client_Error client_error | Client_Panic

record service_config =
  cf_registrar_uri :: string
  cf_clerk_uri :: string
  cf_mint_uri :: string
  cf_validate_uri :: string

record attestation =
  an_algorithm :: i32
  an_signature :: bytes
  an_public_key :: bytes

record split_key_proof =
  kp_nac_card_public_key :: bytes
  kp_ttc_card_public_key :: bytes

record client =
  bc_wallet_json :: string
  bc_name :: string

record balance =
  ba_whole :: i32
  ba_fractional :: i32
  ba_currency :: string
  ba_token_count :: u32

definition balance_default :: balance where
  "balance_default = \<lparr>ba_whole = 0, ba_fractional = 0, ba_currency = [], ba_token_count = 0\<rparr>"

record transfer_result =
  xr_client :: client
  xr_tokens :: "bytes list"

record validation_result =
  vl_client :: client
  vl_all_valid :: bool
  vl_valid_count :: u32
  vl_invalid_count :: u32

record key_init_result =
  ki_client :: client
  ki_challenge_preimage :: bytes
  ki_nac_card_public_key :: bytes
  ki_ttc_card_public_key :: bytes

subsection \<open>Reading and writing a snapshot\<close>

definition fails :: "client_error \<Rightarrow> client_failure + 'a" where "fails err = Inl (Client_Error err)"

definition or_fails :: "'a option \<Rightarrow> client_error \<Rightarrow> ('a \<Rightarrow> client_failure + 'b) \<Rightarrow> client_failure + 'b" where
  "or_fails m err k = (case m of None \<Rightarrow> fails err | Some x \<Rightarrow> k x)"

lemma or_fails_simps [simp]: "or_fails (Some x) err k = k x" "or_fails None err k = fails err"
  by (simp_all add: or_fails_def)

lemma or_fails_Inr_iff: "or_fails m err k = Inr y \<longleftrightarrow> (\<exists>x. m = Some x \<and> k x = Inr y)"
  by (auto simp: or_fails_def fails_def split: option.split)

definition read_wallet :: "'j platform \<Rightarrow> client \<Rightarrow> (wallet_data \<Rightarrow> client_failure + 'b) \<Rightarrow> client_failure + 'b" where
  "read_wallet pf c k = or_fails (cl_wallet (pf_lib pf) (bc_wallet_json c)) Serialization k"

definition snapshot :: "'j platform \<Rightarrow> string \<Rightarrow> wallet_data \<Rightarrow> client_failure + client" where
  "snapshot pf name wd = or_fails (cl_to_string (pf_lib pf) wd) Serialization
     (\<lambda>json. Inr \<lparr>bc_wallet_json = json, bc_name = name\<rparr>)"

text \<open>\<open>if !wallet.f() { return Err(err) }\<close>, and going on with the wallet.\<close>

definition demand ::
  "(bool result \<times> wallet_data) \<Rightarrow> client_error \<Rightarrow> (wallet_data \<Rightarrow> client_failure + 'b) \<Rightarrow> client_failure + 'b" where
  "demand r err k = (case r of (Inl f, wd) \<Rightarrow> Inl Client_Panic | (Inr ok, wd) \<Rightarrow> if ok then k wd else fails err)"

lemma demand_simps [simp]:
  "demand (Inl f, wd) err k = Inl Client_Panic" "demand (Inr True, wd) err k = k wd" "demand (Inr False, wd) err k = fails err"
  by (simp_all add: demand_def)

definition returned :: "'a \<times> wallet_data \<Rightarrow> 'a result \<times> wallet_data" where "returned r = (Ok (fst r), snd r)"

subsection \<open>Construction and persistence\<close>

definition client_new_wallet :: "'j platform \<Rightarrow> service_config \<Rightarrow> (wallet_data \<Rightarrow> client_failure + 'b) \<Rightarrow> client_failure + 'b" where
  "client_new_wallet pf config k =
     (case wallet_new (cl_uri_ok (pf_lib pf)) (cf_registrar_uri config) (cf_clerk_uri config) (cf_mint_uri config)
             (cf_validate_uri config) of
        Inl err \<Rightarrow> fails (Invalid_Data (''WalletDataError '' @ err))
      | Inr wd \<Rightarrow> k wd)"

text \<open>The part of a registration that talks to the services: credentials, the epoch, ten tickets.\<close>

definition enrol :: "'j platform \<Rightarrow> string \<Rightarrow> wallet_data \<Rightarrow> client_failure + client" where
  "enrol pf name wd =
     demand (returned (register_wallet (pf_registrar pf) wd)) (Network ''registration failed'') (\<lambda>wd.
     demand (on_wallet (synchronize (pf_env pf) (pf_epoch pf)) wd) (Network ''epoch sync failed'') (\<lambda>wd.
     demand (on_wallet (wallet_get_tickets (pf_env pf) (pf_pick pf) (pf_draw pf) 10 (pf_clerk pf)) wd)
       (Network ''ticket fetch failed'') (snapshot pf name)))"

definition client_keys :: "'j platform \<Rightarrow> string \<Rightarrow> wallet_data \<Rightarrow> bool result \<times> wallet_data" where
  "client_keys pf name wd = returned (generate_keys (pf_keygen pf) (cl_hex_digest (pf_lib pf)) (pf_draw pf)
     (cl_hex_digest (pf_lib pf) (string_bytes name)) wd)"

definition client_create :: "'j platform \<Rightarrow> string \<Rightarrow> service_config \<Rightarrow> client_failure + client" where
  "client_create pf name config =
     client_new_wallet pf config (\<lambda>wd. demand (client_keys pf name wd) Not_Initialized (enrol pf name))"

definition client_init_keys :: "'j platform \<Rightarrow> string \<Rightarrow> service_config \<Rightarrow> client_failure + key_init_result" where
  "client_init_keys pf name config =
     client_new_wallet pf config (\<lambda>wd.
     demand (client_keys pf name wd) Not_Initialized (\<lambda>wd.
     and_then (snapshot pf name wd) (\<lambda>c.
     Inr \<lparr>ki_client = c, ki_challenge_preimage = attestation_challenge_preimage (wd_wallet wd),
          ki_nac_card_public_key = [], ki_ttc_card_public_key = []\<rparr>)))"

definition register_with_attestation_and_card ::
  "'j platform \<Rightarrow> attestation \<Rightarrow> split_key_proof option \<Rightarrow> bytes option \<Rightarrow> client \<Rightarrow> client_failure + client" where
  "register_with_attestation_and_card pf att proof card_attestation c =
     read_wallet pf c (\<lambda>wd.
       let wd = set_attestation_data (an_algorithm att) (an_signature att) (an_public_key att) wd;
           wd = (case proof of None \<Rightarrow> wd
                 | Some p \<Rightarrow> set_split_key_proof (kp_nac_card_public_key p) (kp_ttc_card_public_key p) wd);
           wd = (case card_attestation of None \<Rightarrow> wd | Some data \<Rightarrow> set_card_attestation data wd)
       in enrol pf (bc_name c) wd)"

definition register_with_attestation ::
  "'j platform \<Rightarrow> attestation \<Rightarrow> split_key_proof option \<Rightarrow> client \<Rightarrow> client_failure + client" where
  "register_with_attestation pf att proof c = register_with_attestation_and_card pf att proof None c"

definition client_from_json :: "'j platform \<Rightarrow> string \<Rightarrow> client_failure + client" where
  "client_from_json pf json =
     or_fails (cl_value (pf_lib pf) json) Serialization (\<lambda>v.
     Inr \<lparr>bc_wallet_json = json,
          bc_name = (case Option.bind (cl_get (pf_lib pf) v ''name'') (cl_str (pf_lib pf)) of
                       None \<Rightarrow> ''unknown'' | Some n \<Rightarrow> n)\<rparr>)"

definition client_to_json :: "'j platform \<Rightarrow> client \<Rightarrow> client_failure + string" where
  "client_to_json pf c = or_fails (cl_value (pf_lib pf) (bc_wallet_json c)) Serialization (\<lambda>_. Inr (bc_wallet_json c))"

subsection \<open>Balance and tickets\<close>

text \<open>Sums of \<open>i64\<close>, and \<open>f64 as i64\<close>, which drops the fraction and saturates.\<close>

definition i64_add :: "bool \<Rightarrow> int \<Rightarrow> int \<Rightarrow> int result" where
  "i64_add checked a b =
     arith checked (a + b < - (2 ^ 63) \<or> 2 ^ 63 \<le> a + b) (signed_take_bit 63 (a + b))"

definition i64_of_rat :: "rat \<Rightarrow> int" where
  "i64_of_rat x = max (- (2 ^ 63)) (min (2 ^ 63 - 1) (if 0 \<le> x then \<lfloor>x\<rfloor> else \<lceil>x\<rceil>))"

fun show_nat :: "nat \<Rightarrow> string" where
  "show_nat n = (if n < 10 then [char_of (48 + n)] else show_nat (n div 10) @ [char_of (48 + n mod 10)])"

declare show_nat.simps [simp del]

definition show_int :: "int \<Rightarrow> string" where
  "show_int i = (if i < 0 then CHR ''-'' # show_nat (nat (- i)) else show_nat (nat i))"

definition currency_name :: "int \<Rightarrow> string" where
  "currency_name code =
     (if code = 0 then ''TEST'' else if code = 8888 then ''ETH'' else if code = 840 then ''USD''
      else if code = 978 then ''EUR'' else ''CODE_'' @ show_int code)"

fun balance_loop ::
  "'j platform \<Rightarrow> 'j list \<Rightarrow> int \<times> int \<times> string \<Rightarrow> (int \<times> int \<times> string) result" where
  "balance_loop pf [] acc = Ok acc"
| "balance_loop pf (tok # toks) (whole_sum, frac_sum, currency) =
     (let L = pf_lib pf; checked = overflow_checks (pf_env pf);
          whole = (case Option.bind (cl_get L tok ''whole_value'') (cl_i64 L) of None \<Rightarrow> 0 | Some v \<Rightarrow> v);
          frac = (case Option.bind (cl_get L tok ''fractional_value'') (cl_f64 L) of None \<Rightarrow> 0 | Some v \<Rightarrow> v);
          currency = (case Option.bind (cl_get L tok ''value_code'') (cl_i64 L) of None \<Rightarrow> currency
                      | Some code \<Rightarrow> currency_name code)
      in and_then (i64_add checked whole_sum whole) (\<lambda>whole_sum.
         and_then (i64_add checked frac_sum (i64_of_rat frac)) (\<lambda>frac_sum.
         balance_loop pf toks (whole_sum, frac_sum, currency))))"

definition compute_balance :: "'j platform \<Rightarrow> string \<Rightarrow> client_failure + balance" where
  "compute_balance pf json =
     (case cl_value (pf_lib pf) json of
        None \<Rightarrow> Inr balance_default
      | Some v \<Rightarrow>
          let toks = (case Option.bind (cl_get (pf_lib pf) v ''tokens'') (cl_array (pf_lib pf)) of None \<Rightarrow> [] | Some ts \<Rightarrow> ts) in
          (case and_then (balance_loop pf toks (0, 0, ''TEST'')) (\<lambda>(whole_sum, frac_sum, currency).
                  and_then (i64_add (overflow_checks (pf_env pf)) whole_sum (frac_sum sdiv 1000000)) (\<lambda>whole_sum.
                  Ok \<lparr>ba_whole = word_of_int whole_sum, ba_fractional = word_of_int (frac_sum smod 1000000),
                      ba_currency = currency, ba_token_count = of_nat (length toks)\<rparr>)) of
             Inl f \<Rightarrow> Inl Client_Panic
           | Inr b \<Rightarrow> Inr b))"

definition client_balance :: "'j platform \<Rightarrow> client \<Rightarrow> client_failure + balance" where
  "client_balance pf c = compute_balance pf (bc_wallet_json c)"

definition client_ticket_count :: "'j platform \<Rightarrow> client \<Rightarrow> u32" where
  "client_ticket_count pf c =
     (case cl_value (pf_lib pf) (bc_wallet_json c) of
        None \<Rightarrow> 0
      | Some v \<Rightarrow>
          (case Option.bind (cl_get (pf_lib pf) v ''tickets'') (cl_array (pf_lib pf)) of
             None \<Rightarrow> 0 | Some ts \<Rightarrow> of_nat (length ts)))"

definition receiving_ticket :: "'j platform \<Rightarrow> client \<Rightarrow> client_failure + bytes" where
  "receiving_ticket pf c =
     or_fails (cl_value (pf_lib pf) (bc_wallet_json c)) Serialization (\<lambda>v.
     or_fails (Option.bind (cl_get (pf_lib pf) v ''tickets'') (cl_array (pf_lib pf))) No_Tickets_Available (\<lambda>ts.
     if ts = [] then fails No_Tickets_Available
     else or_fails (Option.bind (cl_get (pf_lib pf) (hd ts) ''ticket'') (cl_bytes (pf_lib pf)))
            (Invalid_Data ''cannot decode ticket'') Inr))"

definition receiving_ticket_b64 :: "'j platform \<Rightarrow> client \<Rightarrow> client_failure + string" where
  "receiving_ticket_b64 pf c = and_then (receiving_ticket pf c) (\<lambda>t. Inr (cl_encode64 (pf_lib pf) t))"

subsection \<open>Operations over the network\<close>

definition client_synchronize :: "'j platform \<Rightarrow> client \<Rightarrow> client_failure + client" where
  "client_synchronize pf c =
     read_wallet pf c (\<lambda>wd. demand (on_wallet (synchronize (pf_env pf) (pf_epoch pf)) wd)
       (Network ''epoch sync failed'') (snapshot pf (bc_name c)))"

text \<open>\<open>decode\<close> is \<open>EpochUpdate::decode\<close>.\<close>

definition client_gossip_synchronize ::
  "'j platform \<Rightarrow> (bytes \<Rightarrow> epoch_update option) \<Rightarrow> bytes \<Rightarrow> client \<Rightarrow> client_failure + client" where
  "client_gossip_synchronize pf decode update_bytes c =
     read_wallet pf c (\<lambda>wd.
     or_fails (decode update_bytes) (Invalid_Data ''invalid epoch update'') (\<lambda>u.
     demand (on_wallet (gossip_synchronize (pf_env pf) u) wd) (Invalid_Data ''epoch update rejected'')
       (snapshot pf (bc_name c))))"

definition client_request_tickets :: "'j platform \<Rightarrow> u32 \<Rightarrow> client \<Rightarrow> client_failure + client" where
  "client_request_tickets pf count c =
     read_wallet pf c (\<lambda>wd.
     demand (on_wallet (wallet_get_tickets (pf_env pf) (pf_pick pf) (pf_draw pf) count (pf_clerk pf)) wd)
       (Network ''ticket request failed'') (snapshot pf (bc_name c)))"

definition client_withdraw :: "'j platform \<Rightarrow> u32 \<Rightarrow> client \<Rightarrow> client_failure + client" where
  "client_withdraw pf amt c =
     read_wallet pf c (\<lambda>wd.
     if wa_tickets (wd_wallet wd) = [] then fails No_Tickets_Available
     else demand (on_wallet (withdraw (pf_env pf) (pf_now pf) amt (pf_mint pf)) wd) (Network ''withdrawal failed'')
       (snapshot pf (bc_name c)))"

text \<open>The sum of the whole values as an \<open>i32\<close>.\<close>

fun whole_sum :: "bool \<Rightarrow> i32 \<Rightarrow> token_entry list \<Rightarrow> i32 result" where
  "whole_sum checked acc [] = Ok acc"
| "whole_sum checked acc (ke # kes) = and_then (i32_add checked acc (ke_whole_value ke)) (\<lambda>acc. whole_sum checked acc kes)"

definition client_transfer :: "'j platform \<Rightarrow> u32 \<Rightarrow> bytes \<Rightarrow> client \<Rightarrow> client_failure + transfer_result" where
  "client_transfer pf amt dest_bytes c =
     read_wallet pf c (\<lambda>wd.
     case whole_sum (overflow_checks (pf_env pf)) 0 (wa_tokens (wd_wallet wd)) of
       Inl f \<Rightarrow> Inl Client_Panic
     | Inr balance_whole \<Rightarrow>
         if sint balance_whole < sint (amt :: i32) then fails (Insufficient_Funds balance_whole amt)
         else demand (on_wallet (wallet_transfer (pf_env pf) (pf_draw pf) amt dest_bytes) wd)
                (Insufficient_Funds balance_whole amt) (\<lambda>wd.
           let toks = wa_pending_tokens (wd_wallet wd);
               wd = wd\<lparr>wd_wallet := (wd_wallet wd)\<lparr>wa_pending_tokens := []\<rparr>\<rparr>
           in and_then (snapshot pf (bc_name c) wd) (\<lambda>c. Inr \<lparr>xr_client = c, xr_tokens = toks\<rparr>)))"

fun add_received_tokens :: "env \<Rightarrow> bytes list \<Rightarrow> wallet_data \<Rightarrow> client_failure + wallet_data" where
  "add_received_tokens e [] wd = Inr wd"
| "add_received_tokens e (raw # raws) wd =
     or_fails (dec_token e raw) (Invalid_Data ''invalid token'') (\<lambda>tok.
     case token_entry_of e tok of
       Inl f \<Rightarrow> Inl Client_Panic
     | Inr ke \<Rightarrow> add_received_tokens e raws
         (wd\<lparr>wd_wallet := (wd_wallet wd)\<lparr>wa_tokens := wa_tokens (wd_wallet wd) @ [ke]\<rparr>\<rparr>))"

definition receive_tokens :: "'j platform \<Rightarrow> bytes list \<Rightarrow> client \<Rightarrow> client_failure + client" where
  "receive_tokens pf tokens c =
     read_wallet pf c (\<lambda>wd. and_then (add_received_tokens (pf_env pf) tokens wd) (snapshot pf (bc_name c)))"

definition client_validate :: "'j platform \<Rightarrow> client \<Rightarrow> client_failure + validation_result" where
  "client_validate pf c =
     read_wallet pf c (\<lambda>wd.
     let total = of_nat (length (wa_tokens (wd_wallet wd))) in
     demand (wallet_validate (pf_env pf) (pf_validate pf) (wd_wallet wd), wd) Validation_Failed (\<lambda>wd.
     let valid_count = of_nat (length (wa_tokens (wd_wallet wd)));
         invalid_count = (if total \<le> valid_count then 0 else total - valid_count) in
     and_then (snapshot pf (bc_name c) wd) (\<lambda>c.
       Inr \<lparr>vl_client = c, vl_all_valid = (invalid_count = 0), vl_valid_count = valid_count,
            vl_invalid_count = invalid_count\<rparr>)))"

definition counted ::
  "'j platform \<Rightarrow> string \<Rightarrow> nat result \<times> wallet_data \<Rightarrow> client_failure + client \<times> nat" where
  "counted pf name r = (case r of
     (Inl f, wd) \<Rightarrow> Inl Client_Panic
   | (Inr n, wd) \<Rightarrow> and_then (snapshot pf name wd) (\<lambda>c. Inr (c, n)))"

definition client_self_transfer_expired :: "'j platform \<Rightarrow> client \<Rightarrow> client_failure + client \<times> nat" where
  "client_self_transfer_expired pf c =
     read_wallet pf c (\<lambda>wd. counted pf (bc_name c) (on_wallet (self_transfer_expired (pf_env pf) (pf_now pf) (pf_draw pf)) wd))"

definition client_refresh_tickets :: "'j platform \<Rightarrow> nat list \<Rightarrow> client \<Rightarrow> client_failure + client \<times> nat" where
  "client_refresh_tickets pf idxs c =
     read_wallet pf c (\<lambda>wd. counted pf (bc_name c)
       (on_wallet (wallet_refresh_tickets (pf_env pf) (pf_draw pf) idxs (pf_refresh pf)) wd))"

subsection \<open>Base64\<close>

definition decode_b64 :: "'j platform \<Rightarrow> string \<Rightarrow> client_failure + bytes" where
  "decode_b64 pf s = or_fails (cl_decode64 (pf_lib pf) s) (Invalid_Data ''base64 decode'') Inr"

fun decode_each :: "'j platform \<Rightarrow> string list \<Rightarrow> client_failure + bytes list" where
  "decode_each pf [] = Inr []"
| "decode_each pf (s # ss) = and_then (decode_b64 pf s) (\<lambda>b. and_then (decode_each pf ss) (\<lambda>bs. Inr (b # bs)))"

definition receive_tokens_b64 :: "'j platform \<Rightarrow> string list \<Rightarrow> client \<Rightarrow> client_failure + client" where
  "receive_tokens_b64 pf tokens_b64 c = and_then (decode_each pf tokens_b64) (\<lambda>tokens. receive_tokens pf tokens c)"

definition transfer_b64 :: "'j platform \<Rightarrow> u32 \<Rightarrow> string \<Rightarrow> client \<Rightarrow> client_failure + client \<times> string list" where
  "transfer_b64 pf amt dest_b64 c =
     and_then (decode_b64 pf dest_b64) (\<lambda>ticket.
     and_then (client_transfer pf amt ticket c) (\<lambda>r.
     Inr (xr_client r, map (cl_encode64 (pf_lib pf)) (xr_tokens r))))"

subsection \<open>Keys shared with cards elsewhere\<close>

text \<open>The state between the steps, in which the caller talks to the cards.\<close>

record split_key_state =
  sp_wallet_json :: string
  sp_hw_id :: bytes
  sp_host_sk_ttc :: bytes
  sp_host_r_ttc :: bytes
  sp_q_card_ttc :: bytes
  sp_u_card_ttc :: bytes
  sp_c_ttc :: bytes
  sp_q_ttc_combined :: bytes
  sp_host_sk_nac :: bytes
  sp_host_r_nac :: bytes
  sp_q_card_nac :: bytes
  sp_u_card_nac :: bytes
  sp_c_nac :: bytes

definition split_key_state_default :: split_key_state where
  "split_key_state_default = \<lparr>sp_wallet_json = [], sp_hw_id = [], sp_host_sk_ttc = [], sp_host_r_ttc = [],
     sp_q_card_ttc = [], sp_u_card_ttc = [], sp_c_ttc = [], sp_q_ttc_combined = [], sp_host_sk_nac = [],
     sp_host_r_nac = [], sp_q_card_nac = [], sp_u_card_nac = [], sp_c_nac = []\<rparr>"

record split_key_step1 =
  s1_state :: split_key_state
  s1_b_ttc :: bytes

record split_key_step2a =
  s2a_state :: split_key_state
  s2a_c_ttc :: bytes
  s2a_b_nac :: bytes

record split_key_step2b =
  s2b_state :: split_key_state
  s2b_c_nac :: bytes

definition split_key_start ::
  "'j platform \<Rightarrow> ('f::field, 'g::ab_group_add, 'h, 't) curve \<Rightarrow> string \<Rightarrow> service_config \<Rightarrow> client_failure + split_key_step1" where
  "split_key_start pf cv name config =
     (let hw_id = cl_hex_digest (pf_lib pf) (string_bytes name) in
      client_new_wallet pf config (\<lambda>wd.
      let b_ttc = split_base_point cv hw_id in
      or_fails (cl_to_string (pf_lib pf) wd) Serialization (\<lambda>json.
      Inr \<lparr>s1_state = split_key_state_default\<lparr>sp_wallet_json := json, sp_hw_id := hw_id\<rparr>, s1_b_ttc = b_ttc\<rparr>)))"

definition split_key_after_ttc_commit ::
  "('f::field, 'g::ab_group_add, 'h, 't) curve \<Rightarrow> nat \<Rightarrow> split_key_state \<Rightarrow> bytes \<Rightarrow> bytes
    \<Rightarrow> client_failure + split_key_step2a" where
  "split_key_after_ttc_commit cv draw st q_card_ttc u_card_ttc =
     or_fails (split_join_host_commit_and_challenge cv draw (sp_hw_id st) q_card_ttc u_card_ttc)
       (Invalid_Data ''TTC commit/challenge failed'') (\<lambda>(host_sk_ttc, host_r_ttc, c_ttc, q_ttc_combined).
     let b_nac = split_base_point cv q_ttc_combined in
     Inr \<lparr>s2a_state = split_key_state_default\<lparr>sp_wallet_json := sp_wallet_json st, sp_hw_id := sp_hw_id st,
            sp_host_sk_ttc := host_sk_ttc, sp_host_r_ttc := host_r_ttc, sp_q_card_ttc := q_card_ttc,
            sp_u_card_ttc := u_card_ttc, sp_c_ttc := c_ttc, sp_q_ttc_combined := q_ttc_combined\<rparr>,
          s2a_c_ttc = c_ttc, s2a_b_nac = b_nac\<rparr>)"

definition split_key_after_nac_commit ::
  "('f::field, 'g::ab_group_add, 'h, 't) curve \<Rightarrow> nat \<Rightarrow> split_key_state \<Rightarrow> bytes \<Rightarrow> bytes
    \<Rightarrow> client_failure + split_key_step2b" where
  "split_key_after_nac_commit cv draw st q_card_nac u_card_nac =
     or_fails (split_join_host_commit_and_challenge cv draw (sp_q_ttc_combined st) q_card_nac u_card_nac)
       (Invalid_Data ''NAC commit/challenge failed'') (\<lambda>(host_sk_nac, host_r_nac, c_nac, q_nac_combined).
     Inr \<lparr>s2b_state = st\<lparr>sp_host_sk_nac := host_sk_nac, sp_host_r_nac := host_r_nac, sp_q_card_nac := q_card_nac,
            sp_u_card_nac := u_card_nac, sp_c_nac := c_nac\<rparr>,
          s2b_c_nac = c_nac\<rparr>)"

definition split_key_complete ::
  "'j platform \<Rightarrow> ('f::field, 'g::ab_group_add, 'h, 't) curve \<Rightarrow> nat \<Rightarrow> split_key_state \<Rightarrow> bytes \<Rightarrow> bytes
    \<Rightarrow> client_failure + key_init_result" where
  "split_key_complete pf cv draw st s_card_ttc s_card_nac =
     or_fails (cl_wallet (pf_lib pf) (sp_wallet_json st)) Serialization (\<lambda>wd.
     or_fails (split_join_finalize cv draw (sp_hw_id st) (sp_q_card_ttc st) (sp_host_sk_ttc st) (sp_host_r_ttc st)
                 (sp_c_ttc st) s_card_ttc) (Invalid_Data ''TTC finalize failed'') (\<lambda>ttc_pk.
     or_fails (split_join_finalize cv (Suc draw) (sp_q_ttc_combined st) (sp_q_card_nac st) (sp_host_sk_nac st)
                 (sp_host_r_nac st) (sp_c_nac st) s_card_nac) (Invalid_Data ''NAC finalize failed'') (\<lambda>nac_pk.
     let wd = wd\<lparr>wd_wallet := set_split_keys (sp_hw_id st) nac_pk (sp_host_sk_nac st) ttc_pk (sp_host_sk_ttc st) (wd_wallet wd)\<rparr> in
     and_then (snapshot pf ''split-key'' wd) (\<lambda>c.
     Inr \<lparr>ki_client = c, ki_challenge_preimage = attestation_challenge_preimage (wd_wallet wd),
          ki_nac_card_public_key = sp_q_card_nac st, ki_ttc_card_public_key = sp_q_card_ttc st\<rparr>))))"

subsection \<open>What serde writes of a wallet\<close>

definition wallet_json_ok :: "'j client_lib \<Rightarrow> bool" where
  "wallet_json_ok L \<longleftrightarrow> reads_back (cl_to_string L) (cl_wallet L) \<and>
     (\<forall>wd t. cl_to_string L wd = Some t \<longrightarrow>
       (\<exists>v ts ks. cl_value L t = Some v \<and> cl_get L v ''name'' = None
         \<and> Option.bind (cl_get L v ''tickets'') (cl_array L) = Some ts
         \<and> list_all2 (\<lambda>j te. Option.bind (cl_get L j ''ticket'') (cl_bytes L) = Some (te_ticket te)) ts (wa_tickets (wd_wallet wd))
         \<and> Option.bind (cl_get L v ''tokens'') (cl_array L) = Some ks
         \<and> list_all2 (\<lambda>j ke. Option.bind (cl_get L j ''whole_value'') (cl_i64 L) = Some (sint (ke_whole_value ke))
              \<and> Option.bind (cl_get L j ''fractional_value'') (cl_f64 L) = Some (of_int (sint (ke_fractional_value ke)))
              \<and> Option.bind (cl_get L j ''value_code'') (cl_i64 L) = Some (sint (ke_value_code ke))) ks (wa_tokens (wd_wallet wd))))"

lemma wallet_json_parsed: "wallet_json_ok L \<Longrightarrow> cl_to_string L wd = Some t \<Longrightarrow> cl_wallet L t = Some (persisted wd)"
  by (auto simp: wallet_json_ok_def reads_back_def)

text \<open>A library that knows the text of one wallet.\<close>

datatype sample_json =
    J_Wallet wallet | J_Array "sample_json list" | J_Ticket ticket_entry | J_Token token_entry | J_Number int | J_Bytes bytes

fun sample_get :: "sample_json \<Rightarrow> string \<Rightarrow> sample_json option" where
  "sample_get (J_Wallet w) key =
     (if key = ''tickets'' then Some (J_Array (map J_Ticket (wa_tickets w)))
      else if key = ''tokens'' then Some (J_Array (map J_Token (wa_tokens w))) else None)"
| "sample_get (J_Ticket te) key = (if key = ''ticket'' then Some (J_Bytes (te_ticket te)) else None)"
| "sample_get (J_Token ke) key =
     (if key = ''whole_value'' then Some (J_Number (sint (ke_whole_value ke)))
      else if key = ''fractional_value'' then Some (J_Number (sint (ke_fractional_value ke)))
      else if key = ''value_code'' then Some (J_Number (sint (ke_value_code ke))) else None)"
| "sample_get j key = None"

definition sample_client_lib :: "wallet_data \<Rightarrow> sample_json client_lib" where
  "sample_client_lib wd = \<lparr>cl_to_string = (\<lambda>w. if w = wd then Some ''w'' else None),
     cl_wallet = (\<lambda>t. if t = ''w'' then Some (persisted wd) else None),
     cl_value = (\<lambda>t. if t = ''w'' then Some (J_Wallet (wd_wallet wd)) else None), cl_get = sample_get,
     cl_str = (\<lambda>_. None), cl_array = (\<lambda>j. case j of J_Array js \<Rightarrow> Some js | _ \<Rightarrow> None),
     cl_i64 = (\<lambda>j. case j of J_Number i \<Rightarrow> Some i | _ \<Rightarrow> None),
     cl_f64 = (\<lambda>j. case j of J_Number i \<Rightarrow> Some (of_int i) | _ \<Rightarrow> None),
     cl_bytes = (\<lambda>j. case j of J_Bytes b \<Rightarrow> Some b | _ \<Rightarrow> None), cl_encode64 = (\<lambda>_. []), cl_decode64 = (\<lambda>_. None),
     cl_hex_digest = (\<lambda>_. [5]), cl_uri_ok = (\<lambda>_. True)\<rparr>"

lemma sample_client_lib_ok: "wallet_json_ok (sample_client_lib wd)"
  unfolding wallet_json_ok_def reads_back_def
  by (simp add: sample_client_lib_def list_all2_map1 list.rel_refl)

definition sample_platform :: "wallet_data \<Rightarrow> sample_json platform" where
  "sample_platform wd = \<lparr>pf_lib = sample_client_lib wd, pf_env = sample_env, pf_keygen = (\<lambda>_ _. None), pf_now = 0, pf_draw = 0,
     pf_pick = (\<lambda>_ _. 0), pf_registrar = (\<lambda>_. Rpc_Error), pf_epoch = Rpc_Error, pf_clerk = (\<lambda>_. Rpc_Error),
     pf_refresh = (\<lambda>_. Rpc_Error), pf_mint = (\<lambda>_. Rpc_Error), pf_validate = (\<lambda>_. Rpc_Error)\<rparr>"

definition sample_data :: wallet_data where
  "sample_data = \<lparr>wd_id = [], wd_issuer_uri = [], wd_clerk_uri = [], wd_mint_uri = [], wd_validate_uri = [],
     wd_wallet = wallet_default\<lparr>wa_tickets := [\<lparr>te_ticket = [1, 2, 3], te_credential = [], te_group_number = 0,
         te_created_on = 0, te_lifetime = 0, te_signature = [9]\<rparr>],
       wa_tokens := [\<lparr>ke_token = [1], ke_credential = [], ke_whole_value = 5, ke_fractional_value = 700000, ke_value_code = 840\<rparr>,
         \<lparr>ke_token = [2], ke_credential = [], ke_whole_value = 3, ke_fractional_value = 500000, ke_value_code = 978\<rparr>]\<rparr>,
     wd_attestation_algorithm = 0, wd_attestation_signature = [], wd_attestation_public_key = [],
     wd_nac_card_public_key = [], wd_ttc_card_public_key = [], wd_card_attestation_data = []\<rparr>"

definition sample_snapshot :: client where "sample_snapshot = \<lparr>bc_wallet_json = ''w'', bc_name = ''alice''\<rparr>"

lemma sample_printed [simp]: "cl_to_string (pf_lib (sample_platform wd)) wd = Some (bc_wallet_json sample_snapshot)"
    "cl_wallet (pf_lib (sample_platform wd)) (bc_wallet_json sample_snapshot) = Some (persisted wd)"
    "wallet_json_ok (pf_lib (sample_platform wd))" "pf_env (sample_platform wd) = sample_env"
  by (simp_all add: sample_platform_def sample_client_lib_def sample_snapshot_def)
    (simp add: sample_client_lib_ok [unfolded sample_client_lib_def])

lemma sample_data_persisted [simp]: "persisted sample_data = sample_data"
  by (simp add: persisted_def sample_data_def wallet_default_def wallet_epoch_default_def)

lemma snapshot_Inr: "snapshot pf name wd = Inr c \<longleftrightarrow> cl_to_string (pf_lib pf) wd = Some (bc_wallet_json c) \<and> bc_name c = name"
  by (cases c) (auto simp: snapshot_def or_fails_Inr_iff)

text \<open>a client that is saved and loaded keeps its wallet and loses its name: the snapshot is the wallet's JSON,
  which has no name, so that the loaded client is called \<open>unknown\<close>.\<close>

theorem client_saved_and_loaded:
  assumes "wallet_json_ok (pf_lib pf)" "snapshot pf name wd = Inr c"
  shows "\<exists>json c'. client_to_json pf c = Inr json \<and> client_from_json pf json = Inr c'
    \<and> bc_wallet_json c' = bc_wallet_json c \<and> bc_name c' = ''unknown''
    \<and> cl_wallet (pf_lib pf) (bc_wallet_json c') = Some (persisted wd)"
proof -
  have j: "cl_to_string (pf_lib pf) wd = Some (bc_wallet_json c)" using assms(2) by (simp add: snapshot_Inr)
  then obtain v where "cl_value (pf_lib pf) (bc_wallet_json c) = Some v" "cl_get (pf_lib pf) v ''name'' = None"
    using assms(1) unfolding wallet_json_ok_def by blast
  then show ?thesis
    using wallet_json_parsed [OF assms(1) j] by (simp add: client_to_json_def client_from_json_def)
qed

lemma client_saved_and_loaded_witness:
  "\<exists>json c'. client_to_json (sample_platform sample_data) sample_snapshot = Inr json
     \<and> client_from_json (sample_platform sample_data) json = Inr c' \<and> bc_name sample_snapshot = ''alice'' \<and> bc_name c' = ''unknown''"
proof -
  have "snapshot (sample_platform sample_data) ''alice'' sample_data = Inr sample_snapshot"
    by (simp add: snapshot_Inr) (simp add: sample_snapshot_def)
  from client_saved_and_loaded [OF _ this] show ?thesis by (auto simp: sample_snapshot_def)
qed

subsection \<open>The balance\<close>

lemma i64_add_small: "- (2 ^ 63) \<le> a + b \<Longrightarrow> a + b < 2 ^ 63 \<Longrightarrow> i64_add checked a b = Ok (a + b)"
  by (simp add: i64_add_def arith_def signed_take_bit_int_eq_self)

lemma i64_of_small: "\<bar>i\<bar> < 2 ^ 31 \<Longrightarrow> i64_of_rat (of_int i) = i"
  by (simp add: i64_of_rat_def)

lemma balance_loop_sums:
  assumes "list_all2 (\<lambda>j ke. Option.bind (cl_get L j ''whole_value'') (cl_i64 L) = Some (sint (ke_whole_value ke))
      \<and> Option.bind (cl_get L j ''fractional_value'') (cl_f64 L) = Some (of_int (sint (ke_fractional_value ke)))
      \<and> Option.bind (cl_get L j ''value_code'') (cl_i64 L) = Some (sint (ke_value_code ke))) js kes"
    and "L = pf_lib pf" and "\<forall>ke \<in> set kes. 0 \<le> sint (ke_whole_value ke) \<and> 0 \<le> sint (ke_fractional_value ke)"
    and "0 \<le> a" "0 \<le> b" "a + (\<Sum>ke\<leftarrow>kes. sint (ke_whole_value ke)) < 2 ^ 62" "b + (\<Sum>ke\<leftarrow>kes. sint (ke_fractional_value ke)) < 2 ^ 62"
  shows "\<exists>cur'. balance_loop pf js (a, b, cur) =
    Ok (a + (\<Sum>ke\<leftarrow>kes. sint (ke_whole_value ke)), b + (\<Sum>ke\<leftarrow>kes. sint (ke_fractional_value ke)), cur')
    \<and> (kes \<noteq> [] \<longrightarrow> cur' = currency_name (sint (ke_value_code (last kes))))
    \<and> (kes = [] \<longrightarrow> cur' = cur)"
  using assms
proof (induction js kes arbitrary: a b cur rule: list_all2_induct)
  case (Cons j js ke kes)
  let ?w = "sint (ke_whole_value ke)" and ?f = "sint (ke_fractional_value ke)"
  have nonneg: "0 \<le> (\<Sum>ke\<leftarrow>kes. sint (ke_whole_value ke))" "0 \<le> (\<Sum>ke\<leftarrow>kes. sint (ke_fractional_value ke))"
    using Cons.prems(2) by (auto intro!: sum_list_nonneg)
  have w: "i64_add c a ?w = Ok (a + ?w)" "i64_add c b ?f = Ok (b + ?f)" for c
    using Cons.prems nonneg by (auto intro!: i64_add_small)
  have "\<bar>?f\<bar> < 2 ^ 31" using Cons.prems(2) sint_lt [of "ke_fractional_value ke"] by simp
  note frac = i64_of_small [OF this]
  obtain cur' where "balance_loop pf js (a + ?w, b + ?f, currency_name (sint (ke_value_code ke))) =
      Ok (a + ?w + (\<Sum>ke\<leftarrow>kes. sint (ke_whole_value ke)), b + ?f + (\<Sum>ke\<leftarrow>kes. sint (ke_fractional_value ke)), cur')"
    "kes \<noteq> [] \<longrightarrow> cur' = currency_name (sint (ke_value_code (last kes)))"
    "kes = [] \<longrightarrow> cur' = currency_name (sint (ke_value_code ke))"
    using Cons.IH [of "a + ?w" "b + ?f" "currency_name (sint (ke_value_code ke))"] Cons.prems by (auto simp: add.assoc)
  then show ?case using Cons.hyps Cons.prems(1) w frac by (simp add: Let_def add.assoc)
qed auto



subsection \<open>Payments between clients\<close>

lemma receiving_ticket_bytes:
  assumes "wallet_json_ok (pf_lib pf)" "cl_to_string (pf_lib pf) wd = Some (bc_wallet_json c)"
  shows "receiving_ticket pf c = (case wa_tickets (wd_wallet wd) of [] \<Rightarrow> fails No_Tickets_Available | te # tes \<Rightarrow> Inr (te_ticket te))"
proof -
  obtain v ts where v: "cl_value (pf_lib pf) (bc_wallet_json c) = Some v"
      "Option.bind (cl_get (pf_lib pf) v ''tickets'') (cl_array (pf_lib pf)) = Some ts"
      "list_all2 (\<lambda>j te. Option.bind (cl_get (pf_lib pf) j ''ticket'') (cl_bytes (pf_lib pf)) = Some (te_ticket te)) ts
        (wa_tickets (wd_wallet wd))"
    using assms unfolding wallet_json_ok_def by blast
  then show ?thesis by (cases ts; cases "wa_tickets (wd_wallet wd)") (simp_all add: receiving_ticket_def)
qed

text \<open>A transfer that has the funds, over the wallet: what is pending is handed over.\<close>

lemma client_transfer_funded:
  assumes "cl_wallet (pf_lib pf) (bc_wallet_json c) = Some wd"
    and "whole_sum (overflow_checks (pf_env pf)) 0 (wa_tokens (wd_wallet wd)) = Ok b" "\<not> sint b < sint amt"
  shows "client_transfer pf amt dest c =
    (case wallet_transfer (pf_env pf) (pf_draw pf) amt dest (wd_wallet wd) of
       (Inl f, w) \<Rightarrow> Inl Client_Panic
     | (Inr False, w) \<Rightarrow> fails (Insufficient_Funds b amt)
     | (Inr True, w) \<Rightarrow> and_then (snapshot pf (bc_name c) (wd\<lparr>wd_wallet := w\<lparr>wa_pending_tokens := []\<rparr>\<rparr>))
         (\<lambda>c. Inr \<lparr>xr_client = c, xr_tokens = wa_pending_tokens w\<rparr>))"
  using assms
  by (simp add: client_transfer_def read_wallet_def on_wallet_def demand_def split: prod.split sum.split bool.split)



text \<open>What a client is given it believes: tokens that decode are added to its wallet, whoever signed them.\<close>

lemma add_received_tokens_Inr:
  "add_received_tokens e raws wd = Inr wd' \<longleftrightarrow> (\<exists>kes. list_all2 (\<lambda>raw ke. \<exists>tok. dec_token e raw = Some tok \<and> token_entry_of e tok = Ok ke) raws kes
     \<and> wd' = wd\<lparr>wd_wallet := (wd_wallet wd)\<lparr>wa_tokens := wa_tokens (wd_wallet wd) @ kes\<rparr>\<rparr>)"
proof (induction raws arbitrary: wd)
  case (Cons raw raws)
  show ?case
  proof (cases "dec_token e raw")
    case (Some tok)
    show ?thesis
    proof (cases "token_entry_of e tok")
      case (Inr ke)
      then show ?thesis using Some Cons.IH [of "wd\<lparr>wd_wallet := (wd_wallet wd)\<lparr>wa_tokens := wa_tokens (wd_wallet wd) @ [ke]\<rparr>\<rparr>"]
        by (auto simp: list_all2_Cons1)
    qed (simp add: Some list_all2_Cons1)
  qed (simp add: fails_def list_all2_Cons1)
qed auto

text \<open>A validation never finds an invalid token: with one the whole validation is an error, and no token is
  removed.\<close>

lemma client_validate_all_valid:
  assumes "client_validate pf c = Inr r"
  shows "vl_all_valid r \<and> vl_invalid_count r = 0"
proof -
  obtain wd where "cl_wallet (pf_lib pf) (bc_wallet_json c) = Some wd"
    using assms by (auto simp: client_validate_def read_wallet_def or_fails_Inr_iff)
  then show ?thesis
    using assms by (cases "wallet_validate (pf_env pf) (pf_validate pf) (wd_wallet wd)")
      (simp_all add: client_validate_def read_wallet_def demand_def Let_def fails_def and_then_Inr_iff split: if_splits, force)
qed

subsection \<open>Registering with cards\<close>

lemma registered_network_proof:
  assumes "register_wallet (registrar_reply (with_v1 cv e) x d rg) wd = (True, wd')"
  shows "key_proof_checks cv (cr_public_key (wa_network_credential (wd_wallet wd)))
    (cr_public_key (wa_transfer_credential (wd_wallet wd)))"
  using assms issued_key_proof
  by (fastforce simp: register_wallet_True registrar_reply_Reply register_call_impl_Ok registration_request_def Let_def)

lemma enrol_unregistered:
  assumes "\<And>wd'. register_wallet (pf_registrar pf) wd \<noteq> (True, wd')"
  shows "enrol pf name wd = fails (Network ''registration failed'')"
  using assms by (cases "register_wallet (pf_registrar pf) wd"; cases "fst (register_wallet (pf_registrar pf) wd)")
    (auto simp: enrol_def returned_def)

lemma split_join_parts:
  assumes ok: "curve_ok cv"
    and "split_join_host_commit_and_challenge cv d nonce q u = Some (host_sk, host_r, c, combined)"
    and "split_join_finalize cv d' nonce q host_sk host_r c s = Some pk"
  shows "take G1_LENGTH pk = combined" "length pk = WALLET_PUBLIC_KEY_LENGTH"
  using assms(2,3)
  by (auto simp: split_join_host_commit_and_challenge_def split_join_finalize_def Let_def wallet_public_key_def
      deserialize_exact [OF ok] curve_encodings [OF ok] all_lengths split: option.splits)


definition sample_card_wallet :: "bytes \<Rightarrow> bytes \<Rightarrow> wallet_data" where
  "sample_card_wallet npk tpk = sample_data\<lparr>wd_wallet := set_split_keys [5] npk circ_sk tpk circ_sk (wd_wallet sample_data)\<rparr>"

lemma sample_join:
  assumes "nonce \<noteq> []"
  shows "split_join_host_commit_and_challenge sample_curve 0 nonce (gf3_encode 47 One3) (gf3_encode 47 One3)
      = Some (circ_sk, circ_sk, cv_to_be sample_curve (if last nonce = 2 then Two3 else One3), gf3_encode 47 Two3)"
    and "split_join_finalize sample_curve 0 nonce (gf3_encode 47 One3) circ_sk circ_sk (cv_to_be sample_curve c) circ_sk
      = Some (wallet_public_key sample_curve Two3 c (One3 + (One3 + c * One3)) One3)"
  using assms
  by (simp_all add: split_join_host_commit_and_challenge_def split_join_finalize_def schnorr_hash_member_def Let_def
      deserialize_g1_def deserialize_scalar_def sample_curve_def length_defs wallet_public_key_def)


end
