(* ===== verification/MobileFfi.thy ===== *)
theory MobileFfi
  imports Integration
begin

section \<open>The mobile bindings (\<open>mobile-ffi/src/lib.rs\<close>)\<close>

text \<open>
  The functions exported to mobile applications. Each reads a client of \<open>Integration\<close> from the state or JSON it is
  given, calls it, and returns a summary with the new JSON; byte strings travel as base64, the state of the
  split-key protocol as JSON (\<open>fi_print_state\<close>, \<open>fi_parse_state\<close>). \<open>fi_runtime\<close> says whether the tokio runtime
  starts. A panic is \<open>Ffi_Panic\<close>.
\<close>

datatype wallet_error =
    Err_NotInitialized | Err_Network | Err_InsufficientFunds | Err_NoTicketsAvailable | Err_InvalidData
  | Err_Serialization | Err_ValidationFailed

datatype ffi_failure = Ffi_Error wallet_error | Ffi_Panic

primrec wallet_error_of :: "client_error \<Rightarrow> wallet_error" where
  "wallet_error_of Not_Initialized = Err_NotInitialized"
| "wallet_error_of (Network msg) = Err_Network"
| "wallet_error_of (Insufficient_Funds have need) = Err_InsufficientFunds"
| "wallet_error_of No_Tickets_Available = Err_NoTicketsAvailable"
| "wallet_error_of (Invalid_Data msg) = Err_InvalidData"
| "wallet_error_of Serialization = Err_Serialization"
| "wallet_error_of Validation_Failed = Err_ValidationFailed"
| "wallet_error_of Already_Registered = Err_InvalidData"

text \<open>\<open>map_err(WalletError::from)?\<close>.\<close>

definition via :: "client_failure + 'a \<Rightarrow> ('a \<Rightarrow> ffi_failure + 'b) \<Rightarrow> ffi_failure + 'b" where
  "via r k = (case r of
     Inl Client_Panic \<Rightarrow> Inl Ffi_Panic
   | Inl (Client_Error err) \<Rightarrow> Inl (Ffi_Error (wallet_error_of err))
   | Inr x \<Rightarrow> k x)"

lemma via_Inr [simp]: "via (Inr x) k = k x"
  by (simp add: via_def)

lemma via_Inr_iff: "via r k = Inr y \<longleftrightarrow> (\<exists>x. r = Inr x \<and> k x = Inr y)"
  by (auto simp: via_def split: sum.split client_failure.split)

definition or_refuse :: "'a option \<Rightarrow> wallet_error \<Rightarrow> ('a \<Rightarrow> ffi_failure + 'b) \<Rightarrow> ffi_failure + 'b" where
  "or_refuse m err k = (case m of None \<Rightarrow> Inl (Ffi_Error err) | Some x \<Rightarrow> k x)"

lemma or_refuse_Some [simp]: "or_refuse (Some x) err k = k x"
  by (simp add: or_refuse_def)

lemma or_refuse_Inr: "or_refuse m err k = Inr y \<longleftrightarrow> (\<exists>x. m = Some x \<and> k x = Inr y)"
  by (auto simp: or_refuse_def split: option.split)

record 'j ffi =
  fi_platform :: "'j platform"
  fi_runtime :: bool
  fi_print_state :: "split_key_state \<Rightarrow> string option"
  fi_parse_state :: "string \<Rightarrow> split_key_state option"

definition in_runtime :: "'j ffi \<Rightarrow> ffi_failure + 'b \<Rightarrow> ffi_failure + 'b" where
  "in_runtime fi r = (if fi_runtime fi then r else Inl (Ffi_Error Err_Network))"

lemma in_runtime_Inr: "in_runtime fi r = Inr y \<longleftrightarrow> fi_runtime fi \<and> r = Inr y"
  by (simp add: in_runtime_def)

record wallet_state =
  ws_json :: string
  ws_balance :: balance
  ws_ticket_count :: u32
  ws_wallet_name :: string

record ffi_transfer_result =
  ft_state :: wallet_state
  ft_tokens_b64 :: "string list"

record ffi_validation_result =
  fv_state :: wallet_state
  fv_all_valid :: bool
  fv_valid_count :: u32
  fv_invalid_count :: u32

record ffi_key_init_result =
  fk_wallet_json :: string
  fk_challenge_preimage_b64 :: string
  fk_nac_card_public_key_b64 :: string
  fk_ttc_card_public_key_b64 :: string

record attestation_data =
  ad_algorithm :: i32
  ad_signature_b64 :: string
  ad_public_key_b64 :: string

subsection \<open>States\<close>

definition to_wallet_state :: "'j ffi \<Rightarrow> client \<Rightarrow> ffi_failure + wallet_state" where
  "to_wallet_state fi c =
     via (client_balance (fi_platform fi) c) (\<lambda>bal.
     via (client_to_json (fi_platform fi) c) (\<lambda>json.
     Inr \<lparr>ws_json = json, ws_balance = bal, ws_ticket_count = client_ticket_count (fi_platform fi) c,
          ws_wallet_name = bc_name c\<rparr>))"

definition from_wallet_state :: "'j ffi \<Rightarrow> wallet_state \<Rightarrow> (client \<Rightarrow> ffi_failure + 'b) \<Rightarrow> ffi_failure + 'b" where
  "from_wallet_state fi state k = via (client_from_json (fi_platform fi) (ws_json state)) k"

definition config_from :: "string \<Rightarrow> string \<Rightarrow> string \<Rightarrow> string \<Rightarrow> service_config" where
  "config_from registrar_uri clerk_uri mint_uri validate_uri =
     \<lparr>cf_registrar_uri = registrar_uri, cf_clerk_uri = clerk_uri, cf_mint_uri = mint_uri, cf_validate_uri = validate_uri\<rparr>"

definition json_of :: "'j ffi \<Rightarrow> client \<Rightarrow> ffi_failure + string" where
  "json_of fi c = via (client_to_json (fi_platform fi) c) Inr"

definition decode64 :: "'j ffi \<Rightarrow> string \<Rightarrow> (bytes \<Rightarrow> ffi_failure + 'b) \<Rightarrow> ffi_failure + 'b" where
  "decode64 fi s k = or_refuse (cl_decode64 (pf_lib (fi_platform fi)) s) Err_InvalidData k"

definition encode64 :: "'j ffi \<Rightarrow> bytes \<Rightarrow> string" where
  "encode64 fi = cl_encode64 (pf_lib (fi_platform fi))"

subsection \<open>Creating and registering\<close>

definition ffi_create_wallet :: "'j ffi \<Rightarrow> string \<Rightarrow> service_config \<Rightarrow> ffi_failure + string" where
  "ffi_create_wallet fi name config =
     in_runtime fi (via (client_create (fi_platform fi) name config) (json_of fi))"

definition ffi_init_wallet_keys :: "'j ffi \<Rightarrow> string \<Rightarrow> service_config \<Rightarrow> ffi_failure + ffi_key_init_result" where
  "ffi_init_wallet_keys fi name config =
     via (client_init_keys (fi_platform fi) name config) (\<lambda>r.
     and_then (json_of fi (ki_client r)) (\<lambda>json.
     Inr \<lparr>fk_wallet_json = json, fk_challenge_preimage_b64 = encode64 fi (ki_challenge_preimage r),
          fk_nac_card_public_key_b64 = [], fk_ttc_card_public_key_b64 = []\<rparr>))"

definition decode_attestation :: "'j ffi \<Rightarrow> attestation_data \<Rightarrow> (attestation \<Rightarrow> ffi_failure + 'b) \<Rightarrow> ffi_failure + 'b" where
  "decode_attestation fi ad k =
     decode64 fi (ad_signature_b64 ad) (\<lambda>sig.
     decode64 fi (ad_public_key_b64 ad) (\<lambda>pk.
     k \<lparr>an_algorithm = ad_algorithm ad, an_signature = sig, an_public_key = pk\<rparr>))"

definition ffi_register_wallet_with_attestation ::
  "'j ffi \<Rightarrow> string \<Rightarrow> attestation_data \<Rightarrow> string \<Rightarrow> string \<Rightarrow> string \<Rightarrow> ffi_failure + string" where
  "ffi_register_wallet_with_attestation fi wallet_json ad nac_card_b64 ttc_card_b64 card_b64 =
     in_runtime fi (
     via (client_from_json (fi_platform fi) wallet_json) (\<lambda>c.
     decode_attestation fi ad (\<lambda>att.
     and_then (if nac_card_b64 \<noteq> [] \<and> ttc_card_b64 \<noteq> [] then
                 decode64 fi nac_card_b64 (\<lambda>nac. decode64 fi ttc_card_b64 (\<lambda>ttc.
                   Inr (Some \<lparr>kp_nac_card_public_key = nac, kp_ttc_card_public_key = ttc\<rparr>)))
               else Inr None) (\<lambda>proof.
     and_then (if card_b64 \<noteq> [] then decode64 fi card_b64 (\<lambda>data. Inr (Some data)) else Inr None) (\<lambda>card_data.
     via (register_with_attestation_and_card (fi_platform fi) att proof card_data c) (json_of fi))))))"

definition ffi_create_wallet_with_attestation ::
  "'j ffi \<Rightarrow> string \<Rightarrow> service_config \<Rightarrow> attestation_data \<Rightarrow> ffi_failure + string" where
  "ffi_create_wallet_with_attestation fi name config ad =
     in_runtime fi (
     via (client_init_keys (fi_platform fi) name config) (\<lambda>init.
     decode_attestation fi ad (\<lambda>att.
     via (register_with_attestation (fi_platform fi) att None (ki_client init)) (json_of fi))))"

definition ffi_load_wallet :: "'j ffi \<Rightarrow> string \<Rightarrow> ffi_failure + wallet_state" where
  "ffi_load_wallet fi json = via (client_from_json (fi_platform fi) json) (to_wallet_state fi)"

definition ffi_save_wallet :: "'j ffi \<Rightarrow> wallet_state \<Rightarrow> ffi_failure + string" where
  "ffi_save_wallet fi state = from_wallet_state fi state (json_of fi)"

subsection \<open>Using a wallet\<close>

definition ffi_synchronize :: "'j ffi \<Rightarrow> wallet_state \<Rightarrow> ffi_failure + wallet_state" where
  "ffi_synchronize fi state =
     in_runtime fi (from_wallet_state fi state (\<lambda>c. via (client_synchronize (fi_platform fi) c) (to_wallet_state fi)))"

definition ffi_request_tickets :: "'j ffi \<Rightarrow> wallet_state \<Rightarrow> u32 \<Rightarrow> ffi_failure + wallet_state" where
  "ffi_request_tickets fi state count =
     in_runtime fi (from_wallet_state fi state (\<lambda>c.
       via (client_request_tickets (fi_platform fi) count c) (to_wallet_state fi)))"

definition ffi_withdraw :: "'j ffi \<Rightarrow> wallet_state \<Rightarrow> u32 \<Rightarrow> ffi_failure + wallet_state" where
  "ffi_withdraw fi state amt =
     in_runtime fi (from_wallet_state fi state (\<lambda>c. via (client_withdraw (fi_platform fi) amt c) (to_wallet_state fi)))"

definition ffi_transfer_tokens :: "'j ffi \<Rightarrow> wallet_state \<Rightarrow> string \<Rightarrow> u32 \<Rightarrow> ffi_failure + ffi_transfer_result" where
  "ffi_transfer_tokens fi state dest_b64 amt =
     in_runtime fi (from_wallet_state fi state (\<lambda>c.
       via (transfer_b64 (fi_platform fi) amt dest_b64 c) (\<lambda>(updated, tokens_b64).
       and_then (to_wallet_state fi updated) (\<lambda>ws. Inr \<lparr>ft_state = ws, ft_tokens_b64 = tokens_b64\<rparr>))))"

definition ffi_receive_tokens :: "'j ffi \<Rightarrow> wallet_state \<Rightarrow> string list \<Rightarrow> ffi_failure + wallet_state" where
  "ffi_receive_tokens fi state tokens_b64 =
     from_wallet_state fi state (\<lambda>c. via (receive_tokens_b64 (fi_platform fi) tokens_b64 c) (to_wallet_state fi))"

definition ffi_validate_tokens :: "'j ffi \<Rightarrow> wallet_state \<Rightarrow> ffi_failure + ffi_validation_result" where
  "ffi_validate_tokens fi state =
     in_runtime fi (from_wallet_state fi state (\<lambda>c.
       via (client_validate (fi_platform fi) c) (\<lambda>r.
       and_then (to_wallet_state fi (vl_client r)) (\<lambda>ws.
       Inr \<lparr>fv_state = ws, fv_all_valid = vl_all_valid r, fv_valid_count = vl_valid_count r,
            fv_invalid_count = vl_invalid_count r\<rparr>))))"

definition ffi_get_receiving_ticket_b64 :: "'j ffi \<Rightarrow> wallet_state \<Rightarrow> ffi_failure + string" where
  "ffi_get_receiving_ticket_b64 fi state =
     from_wallet_state fi state (\<lambda>c. via (receiving_ticket_b64 (fi_platform fi) c) Inr)"

definition ffi_get_balance :: "wallet_state \<Rightarrow> balance" where "ffi_get_balance state = ws_balance state"

definition ffi_get_ticket_count :: "wallet_state \<Rightarrow> u32" where "ffi_get_ticket_count state = ws_ticket_count state"

subsection \<open>The split-key protocol\<close>

record ffi_step1_result =
  f1_state_json :: string
  f1_b_ttc_b64 :: string

record ffi_step2a_result =
  f2a_state_json :: string
  f2a_c_ttc_b64 :: string
  f2a_b_nac_b64 :: string

record ffi_step2b_result =
  f2b_state_json :: string
  f2b_c_nac_b64 :: string

definition ffi_split_key_start ::
  "'j ffi \<Rightarrow> ('f::field, 'g::ab_group_add, 'h, 't) curve \<Rightarrow> string \<Rightarrow> service_config \<Rightarrow> ffi_failure + ffi_step1_result" where
  "ffi_split_key_start fi cv name config =
     via (split_key_start (fi_platform fi) cv name config) (\<lambda>step.
     or_refuse (fi_print_state fi (s1_state step)) Err_Serialization (\<lambda>json.
     Inr \<lparr>f1_state_json = json, f1_b_ttc_b64 = encode64 fi (s1_b_ttc step)\<rparr>))"

definition ffi_split_key_after_ttc_commit ::
  "'j ffi \<Rightarrow> ('f::field, 'g::ab_group_add, 'h, 't) curve \<Rightarrow> nat \<Rightarrow> string \<Rightarrow> string \<Rightarrow> string
    \<Rightarrow> ffi_failure + ffi_step2a_result" where
  "ffi_split_key_after_ttc_commit fi cv draw state_json q_b64 u_b64 =
     or_refuse (fi_parse_state fi state_json) Err_Serialization (\<lambda>st.
     decode64 fi q_b64 (\<lambda>q. decode64 fi u_b64 (\<lambda>u.
     via (split_key_after_ttc_commit cv draw st q u) (\<lambda>step.
     or_refuse (fi_print_state fi (s2a_state step)) Err_Serialization (\<lambda>json.
     Inr \<lparr>f2a_state_json = json, f2a_c_ttc_b64 = encode64 fi (s2a_c_ttc step),
          f2a_b_nac_b64 = encode64 fi (s2a_b_nac step)\<rparr>)))))"

definition ffi_split_key_after_nac_commit ::
  "'j ffi \<Rightarrow> ('f::field, 'g::ab_group_add, 'h, 't) curve \<Rightarrow> nat \<Rightarrow> string \<Rightarrow> string \<Rightarrow> string
    \<Rightarrow> ffi_failure + ffi_step2b_result" where
  "ffi_split_key_after_nac_commit fi cv draw state_json q_b64 u_b64 =
     or_refuse (fi_parse_state fi state_json) Err_Serialization (\<lambda>st.
     decode64 fi q_b64 (\<lambda>q. decode64 fi u_b64 (\<lambda>u.
     via (split_key_after_nac_commit cv draw st q u) (\<lambda>step.
     or_refuse (fi_print_state fi (s2b_state step)) Err_Serialization (\<lambda>json.
     Inr \<lparr>f2b_state_json = json, f2b_c_nac_b64 = encode64 fi (s2b_c_nac step)\<rparr>)))))"

definition ffi_split_key_complete ::
  "'j ffi \<Rightarrow> ('f::field, 'g::ab_group_add, 'h, 't) curve \<Rightarrow> nat \<Rightarrow> string \<Rightarrow> string \<Rightarrow> string
    \<Rightarrow> ffi_failure + ffi_key_init_result" where
  "ffi_split_key_complete fi cv draw state_json s_ttc_b64 s_nac_b64 =
     or_refuse (fi_parse_state fi state_json) Err_Serialization (\<lambda>st.
     decode64 fi s_ttc_b64 (\<lambda>s_ttc. decode64 fi s_nac_b64 (\<lambda>s_nac.
     via (split_key_complete (fi_platform fi) cv draw st s_ttc s_nac) (\<lambda>r.
     and_then (json_of fi (ki_client r)) (\<lambda>json.
     Inr \<lparr>fk_wallet_json = json, fk_challenge_preimage_b64 = encode64 fi (ki_challenge_preimage r),
          fk_nac_card_public_key_b64 = encode64 fi (ki_nac_card_public_key r),
          fk_ttc_card_public_key_b64 = encode64 fi (ki_ttc_card_public_key r)\<rparr>)))))"

subsection \<open>Properties\<close>

text \<open>A state is a summary of its JSON: what it says of the balance and the tickets is what the client computes of
  the JSON.\<close>

definition summarises :: "'j ffi \<Rightarrow> wallet_state \<Rightarrow> bool" where
  "summarises fi st \<longleftrightarrow>
     (\<exists>name. let c = \<lparr>bc_wallet_json = ws_json st, bc_name = name\<rparr> in
        client_balance (fi_platform fi) c = Inr (ws_balance st)
        \<and> client_ticket_count (fi_platform fi) c = ws_ticket_count st
        \<and> cl_value (pf_lib (fi_platform fi)) (ws_json st) \<noteq> None)"

lemma to_wallet_state_summarises: "to_wallet_state fi c = Inr st \<Longrightarrow> summarises fi st \<and> ws_json st = bc_wallet_json c"
  by (cases c) (auto simp: to_wallet_state_def via_Inr_iff client_to_json_def or_fails_Inr_iff summarises_def client_balance_def
      client_ticket_count_def intro: exI [of _ "bc_name c"])

text \<open>The operations that return a state, for any surroundings.\<close>

inductive ffi_step :: "wallet_state \<Rightarrow> 'j ffi \<Rightarrow> wallet_state \<Rightarrow> bool" where
  load: "ffi_load_wallet fi json = Inr st' \<Longrightarrow> ffi_step st fi st'"
| sync: "ffi_synchronize fi st = Inr st' \<Longrightarrow> ffi_step st fi st'"
| tickets: "ffi_request_tickets fi st count = Inr st' \<Longrightarrow> ffi_step st fi st'"
| withdrawal: "ffi_withdraw fi st amt = Inr st' \<Longrightarrow> ffi_step st fi st'"
| transfer: "ffi_transfer_tokens fi st dest amt = Inr r \<Longrightarrow> ffi_step st fi (ft_state r)"
| receive: "ffi_receive_tokens fi st toks = Inr st' \<Longrightarrow> ffi_step st fi st'"
| validation: "ffi_validate_tokens fi st = Inr v \<Longrightarrow> ffi_step st fi (fv_state v)"

text \<open>whatever an application does through the bindings, the state it gets back is a summary of the JSON in it:
  \<open>get_balance\<close> and \<open>get_ticket_count\<close>, which read the summary, answer as if they read the JSON.\<close>

theorem states_summarise_their_json:
  assumes "ffi_step st fi st'"
  shows "\<exists>name. client_balance (fi_platform fi) \<lparr>bc_wallet_json = ws_json st', bc_name = name\<rparr> = Inr (ffi_get_balance st')
    \<and> client_ticket_count (fi_platform fi) \<lparr>bc_wallet_json = ws_json st', bc_name = name\<rparr> = ffi_get_ticket_count st'"
proof -
  have "summarises fi st'"
    using assms
    by cases (auto simp: ffi_load_wallet_def ffi_synchronize_def ffi_request_tickets_def ffi_withdraw_def ffi_transfer_tokens_def
        ffi_receive_tokens_def ffi_validate_tokens_def in_runtime_Inr from_wallet_state_def via_Inr_iff and_then_Inr_iff
        dest: to_wallet_state_summarises)
  then show ?thesis by (auto simp: summarises_def Let_def ffi_get_balance_def ffi_get_ticket_count_def)
qed

definition sample_ffi :: "sample_json ffi" where
  "sample_ffi = \<lparr>fi_platform = sample_platform sample_data, fi_runtime = True, fi_print_state = (\<lambda>_. None),
     fi_parse_state = (\<lambda>_. None)\<rparr>"

lemma sample_loads: "\<exists>c. client_from_json (sample_platform sample_data) ''w'' = Inr c \<and> bc_wallet_json c = ''w''"
  by (simp add: client_from_json_def sample_platform_def sample_client_lib_def)

lemma sample_to_json: "bc_wallet_json c = ''w'' \<Longrightarrow> client_to_json (sample_platform sample_data) c = Inr ''w''"
  by (simp add: client_to_json_def sample_platform_def sample_client_lib_def)

lemma sample_balance: "bc_wallet_json c = ''w'' \<Longrightarrow> \<exists>b. client_balance (sample_platform sample_data) c = Inr b"
proof -
  assume "bc_wallet_json c = ''w''"
  then show ?thesis
    by (simp add: client_balance_def compute_balance_def sample_platform_def sample_client_lib_def sample_data_def
        i64_add_small i64_of_rat_def Let_def)
qed

lemma states_summarise_their_json_witness:
  "\<exists>st. ffi_load_wallet sample_ffi ''w'' = Inr st
     \<and> (\<exists>name. client_balance (sample_platform sample_data) \<lparr>bc_wallet_json = ws_json st, bc_name = name\<rparr> = Inr (ffi_get_balance st))"
proof -
  obtain c where c: "client_from_json (sample_platform sample_data) ''w'' = Inr c" "bc_wallet_json c = ''w''"
    using sample_loads by blast
  obtain b where "client_balance (sample_platform sample_data) c = Inr b" using sample_balance [OF c(2)] by blast
  then obtain st where st: "ffi_load_wallet sample_ffi ''w'' = Inr st"
    using c sample_to_json [OF c(2)] by (simp add: ffi_load_wallet_def sample_ffi_def to_wallet_state_def)
  from states_summarise_their_json [OF ffi_step.load [OF st]] show ?thesis using st by (auto simp: sample_ffi_def)
qed

text \<open>The protocol over JSON and base64 is the one over values: with encodings that decode, an application that
  passes the states along gets the encodings of what the library gives, up to the finished wallet.\<close>

lemma ffi_split_protocol:
  assumes states: "\<And>st. \<exists>j. fi_print_state fi st = Some j \<and> fi_parse_state fi j = Some st"
    and base64: "\<And>b. cl_decode64 (pf_lib (fi_platform fi)) (encode64 fi b) = Some b"
    and steps: "split_key_start (fi_platform fi) cv name config = Inr a1"
      "split_key_after_ttc_commit cv d1 (s1_state a1) q1 u1 = Inr a2"
      "split_key_after_nac_commit cv d2 (s2a_state a2) q2 u2 = Inr a3"
      "split_key_complete (fi_platform fi) cv d3 (s2b_state a3) s1 s2 = Inr r"
    and json: "client_to_json (fi_platform fi) (ki_client r) = Inr json"
  shows "\<exists>f1 f2 f3 k. ffi_split_key_start fi cv name config = Inr f1 \<and> f1_b_ttc_b64 f1 = encode64 fi (s1_b_ttc a1)
    \<and> ffi_split_key_after_ttc_commit fi cv d1 (f1_state_json f1) (encode64 fi q1) (encode64 fi u1) = Inr f2
    \<and> f2a_c_ttc_b64 f2 = encode64 fi (s2a_c_ttc a2) \<and> f2a_b_nac_b64 f2 = encode64 fi (s2a_b_nac a2)
    \<and> ffi_split_key_after_nac_commit fi cv d2 (f2a_state_json f2) (encode64 fi q2) (encode64 fi u2) = Inr f3
    \<and> f2b_c_nac_b64 f3 = encode64 fi (s2b_c_nac a3)
    \<and> ffi_split_key_complete fi cv d3 (f2b_state_json f3) (encode64 fi s1) (encode64 fi s2) = Inr k \<and> fk_wallet_json k = json"
proof -
  obtain j1 j2 j3 where j: "fi_print_state fi (s1_state a1) = Some j1" "fi_parse_state fi j1 = Some (s1_state a1)"
    "fi_print_state fi (s2a_state a2) = Some j2" "fi_parse_state fi j2 = Some (s2a_state a2)"
    "fi_print_state fi (s2b_state a3) = Some j3" "fi_parse_state fi j3 = Some (s2b_state a3)"
    using states by meson
  show ?thesis
    by (simp add: ffi_split_key_start_def ffi_split_key_after_ttc_commit_def ffi_split_key_after_nac_commit_def
        ffi_split_key_complete_def decode64_def base64 steps j json_of_def json)
qed

end
