(* ===== verification/Spec2Isabelle.thy ===== *)
theory Spec2Isabelle
  imports TokenMapReports Registry Validate Mint Receiver Recovery Swapper Registrar GroupSignature
    RelayProps Keypad ServiceAuth RateLimit Bitcoin A2A X402 EpochTool MobileFfi
begin

section \<open>Briolette: a verification library\<close>

text \<open>
  Briolette is a digital currency of transferable tokens. A token is a descriptor (its face value),
  a base transfer signed by the mint, and a history of transfers; each entry is signed with a group
  signature (ECDAA) whose credential is the one committed in the ticket of the entry before, and pays
  to a ticket signed by a clerk. The library models the Rust services and the wallet.

  Parts and theories, from the bottom:

  \<^item> \<open>Prelude\<close>: machine integers with the checks of the two build profiles, errors as values
    (\<open>result\<close>: an error code or a panic on the left), sequencing (\<open>and_then\<close>, \<open>on_ok\<close>), helpers on lists.
  \<^item> \<open>Messages\<close>: the protobuf messages (\<open>src/proto/proto/*.proto\<close>) as records and the service map
    (\<open>src/proto/src/briolette/mod.rs\<close>) with the locale \<open>service_map_interface\<close>.
  \<^item> \<open>Environment\<close>: what the program takes from elsewhere, as the fields of the record \<open>env\<close> (ECDSA,
    SHA-256, the protobuf encodings, the group signature \<open>v1\<close>), the byte layout of a group signature
    (\<open>inflate_signature\<close>, \<open>deflate_signature\<close> of \<open>src/crypto/src/v1.rs\<close>), and the laws \<open>ecdsa_correct\<close> and
    \<open>v1_signs_for\<close> that some properties assume. \<open>Samples\<close> gives a concrete environment that satisfies
    them, at which the witnesses evaluate.
  \<^item> \<open>Token\<close> (\<open>src/proto/src/briolette/token.rs\<close>): verification of tickets and tokens, transfer with the
    wallet's key or with the card, expiry, amounts. The lemmas give acceptance as a chain condition on
    the history, the conditions under which verification panics, and that a transfer preserves validity.
  \<^item> \<open>Epoch\<close> (\<open>src/proto/src/briolette/clerk.rs\<close>): \<open>EpochUpdate::verify\<close>.
  \<^item> \<open>Table\<close>: SQLite tables with a primary key, as the locale \<open>keyed_table\<close> and its extension
    \<open>overwritable_table\<close>, interpreted on association lists.
  \<^item> \<open>TokenMap\<close>, \<open>TokenMapReports\<close> (\<open>src/tokenmap/src/server.rs\<close>): the five tables, reports of tokens with
    known, extending, splitting and double-spending histories, tickets, revocations, the archive, and
    the holder index. \<open>tm_reachable\<close> is the step relation of the service, \<open>tokenmap_inv\<close> its invariant.
  \<^item> \<open>Registry\<close>: the token map behind a network that loses requests or replies, as the locale
    \<open>token_registry\<close> on which the mint and the validation service rest.
  \<^item> \<open>Clerk\<close>, \<open>Mint\<close>, \<open>Validate\<close> (\<open>server.rs\<close> of \<open>src/clerk/src\<close>, \<open>src/mint/src\<close>, \<open>src/validate/src\<close>): the
    handlers. The clerk rests on the locale \<open>ticket_store\<close>.
  \<^item> \<open>Wallet\<close>, \<open>WalletProps\<close> (\<open>src/wallet/src/lib.rs\<close>): the wallet's data and operations; calls of services
    are functions from the request to an \<open>rpc\<close> outcome.
  \<^item> \<open>WalletFile\<close>: the rest of \<open>wallet/src/lib.rs\<close>, a wallet's constructor, its registration with the registrar of
    \<open>Registrar\<close> on the scheme of \<open>Ecdaa\<close>, keys shared with cards, and its file, whose reader and writer are
    arguments with the law \<open>reads_back\<close>. \<open>Integration\<close> (\<open>src/integration/src/lib.rs\<close>): the client library over
    snapshots of the wallet as JSON (\<open>client_lib\<close>, \<open>wallet_json_ok\<close>). \<open>MobileFfi\<close> (\<open>src/mobile-ffi/src/lib.rs\<close>): the
    functions mobile applications call.
  \<^item> \<open>Receiver\<close> (\<open>src/receiver/src/server.rs\<close>): the point of sale as a step relation \<open>rx_step\<close> over requests
    of any peer, the two halves of its connection timers, and the poisoning of its lock by a panic.
  \<^item> \<open>Recovery\<close> (\<open>src/recovery/src/server.rs\<close> and the wallet's calls), \<open>Swapper\<close> (\<open>src/swapper/src/server.rs\<close>).
  \<^item> \<open>Attestation\<close>, \<open>Registrar\<close> (\<open>src/registrar/src\<close>): platform attestation over a parameter \<open>x509\<close> for the
    certificate and CBOR libraries, the issuer's key files as a file map, registration.
  \<^item> \<open>Curve\<close>: the pairing crate as the record \<open>curve\<close>, a parameter, with its documented laws \<open>curve_ok\<close>
    (two groups with a bilinear pairing, encodings of fixed length that decode to what was encoded);
    \<open>SampleCurve\<close> has a small instance. \<open>Ecdaa\<close> (\<open>src/crypto/src/v1.rs\<close>): keys, credentials, \<open>sign\<close>,
    \<open>verify\<close>; completeness, extraction of the key from two answers, linking by the pseudonym. \<open>EcdaaSplit\<close>
    (module \<open>split\<close>): the host's side over any card, the mock card as the interpretation of the locale
    \<open>share_card\<close>, swap authorisations.
  \<^item> \<open>GroupSignature\<close>: the services on \<open>v1.rs\<close> itself. Tokens go from the mint through any number of
    wallets, verify at the end and are never reported as abuse; copies with bytes appended are.
  \<^item> \<open>Bloom\<close>, \<open>Stick\<close>, \<open>StickProps\<close> (\<open>hardware/stick/firmware/src\<close>: \<open>bloom.rs\<close>, \<open>storage.rs\<close>, \<open>ecdaa.rs\<close>,
    \<open>apdu.rs\<close>, \<open>button.rs\<close>, \<open>nfc.rs\<close>, \<open>main.rs\<close>): the payment stick. Its state is the record \<open>stick\<close>, each
    command a function from data to status bytes, answer and state, and \<open>stick_run\<close> the runs of commands
    and key presses. The lemmas show the filter to be a set with false positives, the invariant, and what
    signing takes.
  \<^item> \<open>Relay\<close>, \<open>RelayProps\<close> (\<open>hardware/relay\<close>: \<open>protocol.rs\<close>, \<open>transaction.rs\<close>, \<open>pn7150.rs\<close>, \<open>main.rs\<close>): the
    relay between two sticks; \<open>relay_round\<close> is one pass of its main loop over two tap functions, which are
    a script of answers or two sticks. \<open>RelayConfig\<close>, \<open>Keypad\<close> (\<open>relay_config.rs\<close>, \<open>config.rs\<close>, \<open>keypad.rs\<close>):
    settings in flash, the amount entry and its abstract specification \<open>typed_run\<close>.

  \<^item> \<open>ServiceAuth\<close> (\<open>src/service_auth/src/lib.rs\<close>): headers by which services authenticate calls, and the
    registration of a service with the registrar of \<open>Registrar\<close>. \<open>RateLimit\<close> (\<open>src/proto/src/rate_limit.rs\<close>):
    the token bucket per address; its clock is in nanoseconds and its level a rational number.
  \<^item> \<open>BridgeContract\<close> (\<open>contracts/src/BrioletteBridge.sol\<close>, \<open>src/bridge/src/alloy_client.rs\<close>): the contract
    as the record \<open>contract\<close>, each of its functions a transaction that may revert, \<open>contract_step\<close> its step
    relation, and the client over it with transactions that get lost or stay unconfirmed. \<open>Bridge\<close>
    (\<open>server.rs\<close>): withdrawals and queries; the locale \<open>payout\<close> is what a withdrawal needs of a chain.
    \<open>Deposits\<close> (\<open>deposit_processor.rs\<close>, \<open>key_registry.rs\<close>): from deposits to minted tokens, and the
    copies of the keys. \<open>Bitcoin\<close> (\<open>bitcoin.rs\<close>, \<open>bitcoin_deposit_processor.rs\<close>): the same over Bitcoin.
  \<^item> \<open>A2A\<close> (\<open>src/a2a/src\<close>): the agent protocol in front of the receiver. A message is handled in two halves, the
    call of the receiver and the update of the task, which \<open>a2a_step\<close> interleaves with other calls. \<open>X402\<close>
    (\<open>src/x402/src\<close> and the paywall of \<open>src/gateway/src/main.rs\<close>): payment for HTTP requests, at the server and at
    the client. serde_json and base64 are the parameters \<open>json_lib\<close> and \<open>x402_lib\<close>.
  \<^item> \<open>EpochTool\<close> (\<open>src/clerk/src/epoch_generate.rs\<close> and the files of \<open>src/clerk/src/server.rs\<close>): the tool that
    makes epoch updates for a clerk, from its arguments, its key files and the revocations of the token map, and
    the file the clerk is kept in.

  How the model corresponds to the code. A handler \<open>x_impl\<close> is one definition \<open>x_impl\<close> that returns the
  reply or error and the new state; its branches are in the order of the code. \<open>unwrap\<close>, \<open>expect\<close>,
  slicing and \<open>assert!\<close> that fail are the fault \<open>panic\<close>. The clock and random draws are arguments.
  A \<open>for\<close> loop is a structurally recursive function, so no fuel is used; the one loop that depends on
  a device, \<open>drain_loop\<close> of \<open>Keypad\<close>, is a \<open>partial_function\<close> with a theorem that it returns. A Rust
  struct is a record whose field names carry a two-letter prefix.

  Not modelled: the curve arithmetic behind \<open>v1.rs\<close> (the parameter \<open>curve\<close>) and the older scheme
  \<open>v0.rs\<close>, the RPC transport of the chain clients, TLS and gRPC set-up, command lines, logging, the set-up of HTTP
  servers, the simulator, the card applet, and code that drives hardware (displays, LEDs,
  power, the secure element, the SIM and the radio beyond its framing).
\<close>

end
